(* ===== verification/TR_Prelude.thy ===== *)
theory TR_Prelude
  imports Main "HOL-Library.Word" "HOL-Library.Monad_Syntax"
begin

text \<open>
  The prelude of the development: the integer types of the program, the collections of
  rewrite rules the component proofs share, and generic lemmas on lists, option-valued
  computations and machine words that no component owns.

  \<^item> \<open>ulong\<close> is the 64-bit \<open>unsigned long\<close> of the source; its arithmetic wraps.
  \<^item> \<open>long\<close> and \<open>int\<close> values of the source are \<open>int\<close> here wherever the code only copies
    and compares them; where it mixes them with unsigned arithmetic, the conversion is
    written out at that place.
  \<^item> A result \<open>None\<close> of an operation is a run of the program that has no defined result: an
    out-of-bounds read, a division by zero, a null pointer that is followed, or an exception
    that nobody catches. The components prove when that cannot happen.
\<close>

unbundle bit_operations_syntax

type_synonym ulong = "64 word"
type_synonym octet = "8 word"

named_theorems record_update_defs \<open>operations that only write fields of a record\<close>
named_theorems dispatch_simps \<open>the cases of a dispatch on a command or an opcode\<close>
named_theorems invariant_intros \<open>one rule per operation: it keeps the component's invariant\<close>

section \<open>Option-valued computations\<close>

text \<open>\<open>returns m P\<close>: the computation has a defined result, and the result satisfies \<open>P\<close>.\<close>

definition returns :: "'a option \<Rightarrow> ('a \<Rightarrow> bool) \<Rightarrow> bool" where
  "returns m P \<longleftrightarrow> (case m of None \<Rightarrow> False | Some x \<Rightarrow> P x)"

lemma returns_Some [simp]: "returns (Some x) P = P x"
  by (simp add: returns_def)

lemma returns_None [simp]: "\<not> returns None P"
  by (simp add: returns_def)

lemma returns_bind: "returns (m \<bind> f) P = returns m (\<lambda>x. returns (f x) P)"
  by (cases m) (simp_all add: returns_def)

lemma returns_mono: "returns m P \<Longrightarrow> (\<And>x. P x \<Longrightarrow> Q x) \<Longrightarrow> returns m Q"
  by (cases m) auto

lemma returns_iff: "returns m P \<longleftrightarrow> (\<exists>x. m = Some x \<and> P x)"
  by (cases m) auto

lemma returns_if: "returns (if b then m else n) P = (if b then returns m P else returns n P)"
  by simp

section \<open>Lists\<close>

lemma find_Some_iff_first:
  "List.find P xs = Some x \<Longrightarrow> x \<in> set xs \<and> P x"
  by (induction xs) (auto split: if_splits)

lemma find_None_all: "List.find P xs = None \<longleftrightarrow> (\<forall>x \<in> set xs. \<not> P x)"
  by (induction xs) auto

lemma length_filter_pos: "0 < length (filter P xs) \<longleftrightarrow> (\<exists>x \<in> set xs. P x)"
  by (induction xs) auto

lemma distinct_map_filter [intro]: "distinct (map f xs) \<Longrightarrow> distinct (map f (filter P xs))"
  by (induction xs) auto

lemma map_eq_pointwise: "(\<And>x. x \<in> set xs \<Longrightarrow> f x = g x) \<Longrightarrow> map f xs = map g xs"
  by simp

section \<open>Machine words\<close>

lemma unat_ulong_of_nat: "n < 2 ^ 64 \<Longrightarrow> unat (word_of_nat n :: ulong) = n"
  by (simp add: unsigned_of_nat take_bit_nat_eq_self)

lemma unat_ulong_lt: "unat (w :: ulong) < 2 ^ 64"
  using unsigned_less [of w] by simp

lemma nat_and_le: "(a :: nat) AND b \<le> b"
proof -
  have "int (a AND b) = int a AND int b" by (simp add: of_nat_and_eq)
  also have "\<dots> \<le> int b" by simp
  finally show ?thesis by simp
qed

section \<open>Big-endian octet strings\<close>

text \<open>
  The value of an octet string, most significant octet first: the number a receiver builds
  by shifting eight bits in per octet.
\<close>

definition be_value :: "octet list \<Rightarrow> nat" where
  "be_value cs = foldl (\<lambda>v c. v * 256 + unat c) 0 cs"

lemma unat_octet_lt: "unat (c :: octet) < 256"
  using unsigned_less [of c] by simp

lemma unat_ucast_octet [simp]: "unat (ucast (c :: octet) :: ulong) = unat c"
  using unat_octet_lt [of c] by (simp add: unsigned_ucast_eq take_bit_nat_eq_self)

lemma be_value_Nil [simp]: "be_value [] = 0"
  by (simp add: be_value_def)

lemma foldl_be: "foldl (\<lambda>v c. v * 256 + unat c) v (cs :: octet list) = v * 256 ^ length cs + be_value cs"
proof (induction cs arbitrary: v)
  case Nil
  then show ?case by simp
next
  case (Cons c cs)
  have "foldl (\<lambda>v c. v * 256 + unat c) v (c # cs) = (v * 256 + unat c) * 256 ^ length cs + be_value cs"
    by (simp add: Cons [of "v * 256 + unat c"])
  moreover have "be_value (c # cs) = unat c * 256 ^ length cs + be_value cs"
    unfolding be_value_def by (simp add: Cons [of "unat c", unfolded be_value_def])
  ultimately show ?case by (simp add: algebra_simps)
qed

lemma be_value_Cons: "be_value (c # cs) = unat c * 256 ^ length cs + be_value cs"
  using foldl_be [of "unat c" cs] by (simp add: be_value_def)

lemma be_value_append: "be_value (xs @ ys) = be_value xs * 256 ^ length ys + be_value ys"
  by (induction xs) (simp_all add: be_value_Cons power_add algebra_simps)

lemma be_value_lt: "be_value cs < 256 ^ length cs"
proof (induction cs)
  case Nil
  then show ?case by simp
next
  case (Cons c cs)
  have "unat c * 256 ^ length cs + be_value cs < unat c * 256 ^ length cs + 256 ^ length cs"
    using Cons by simp
  also have "\<dots> = Suc (unat c) * 256 ^ length cs" by simp
  also have "\<dots> \<le> 256 * 256 ^ length cs"
    using unat_octet_lt [of c] by (intro mult_right_mono) auto
  finally show ?case by (simp add: be_value_Cons)
qed

lemma power256: "(256 :: nat) ^ n = 2 ^ (8 * n)"
  by (simp add: power_mult)

text \<open>The slice of an octet string is a shift and a mask of its value.\<close>

lemma be_value_drop: "drop_bit (8 * length ys) (be_value (xs @ ys)) = be_value xs"
  using be_value_lt [of ys]
  by (simp add: drop_bit_eq_div be_value_append power256 [symmetric])

lemma be_value_take: "take_bit (8 * length ys) (be_value (xs @ ys)) = be_value ys"
  using be_value_lt [of ys]
  by (simp add: take_bit_eq_mod be_value_append power256 [symmetric])

lemma be_value_slice:
  assumes "length zs * 8 = sh" and "length ys * 8 = w"
  shows "take_bit w (drop_bit sh (be_value (xs @ ys @ zs))) = be_value ys"
proof -
  have "drop_bit sh (be_value ((xs @ ys) @ zs)) = be_value (xs @ ys)"
    using be_value_drop [of zs "xs @ ys"] assms(1) by (simp add: mult.commute)
  then show ?thesis
    using be_value_take [of ys xs] assms(2) by (simp add: mult.commute)
qed

end
