(* ===== verification/Dbl.thy ===== *)
theory Dbl
  imports TR_Prelude Complex_Main "HOL-Library.Log_Nat"
begin

text \<open>
  The \<open>double\<close> of the source: a frequency, a duration or a squelch level. A value is the
  rational it denotes, and every arithmetic operation of the source rounds its exact result
  with \<open>fl\<close>, to 53 significant bits, ties to even, as IEEE 754 binary64 does. Exponent
  overflow, subnormal numbers, infinities and NaN are left out: the program's values are
  frequencies of at most about \<open>10^10\<close> Hz and durations in seconds.
\<close>

type_synonym double = rat

section \<open>Rounding to 53 bits\<close>

text \<open>Round to the nearest integer, ties to even (the default rounding mode).\<close>

definition round_half_even :: "rat \<Rightarrow> int" where
  "round_half_even x =
     (let n = \<lfloor>x\<rfloor>; d = x - of_int n in
      if d < 1 / 2 then n else if 1 / 2 < d then n + 1 else if even n then n else n + 1)"

definition pow2 :: "int \<Rightarrow> rat" where
  "pow2 k = (if 0 \<le> k then 2 ^ nat k else 1 / 2 ^ nat (- k))"

text \<open>The binary exponent of a positive rational: \<open>pow2 (exponent x) \<le> x < pow2 (exponent x + 1)\<close>.\<close>

definition exponent :: "rat \<Rightarrow> int" where
  "exponent x = (let (p, q) = quotient_of x; k = bitlen p - bitlen q in if pow2 k \<le> x then k else k - 1)"

definition fl_pos :: "rat \<Rightarrow> double" where
  "fl_pos x = (let u = pow2 (exponent x - 52) in of_int (round_half_even (x / u)) * u)"

definition fl :: "rat \<Rightarrow> double" where
  "fl x = (if x = 0 then 0 else if x < 0 then - fl_pos (- x) else fl_pos x)"

text \<open>Conversion to an integer type cuts the fraction off.\<close>

definition trunc :: "rat \<Rightarrow> int" where
  "trunc x = (if 0 \<le> x then \<lfloor>x\<rfloor> else \<lceil>x\<rceil>)"

text \<open>Conversions: \<open>unsigned long\<close> to \<open>double\<close> rounds, \<open>double\<close> to \<open>unsigned long\<close> truncates.\<close>

definition double_of_ulong :: "ulong \<Rightarrow> double" where
  "double_of_ulong w = fl (of_nat (unat w))"

definition ulong_of_double :: "double \<Rightarrow> ulong" where
  "ulong_of_double d = word_of_nat (nat \<lfloor>d\<rfloor>)"

section \<open>Facts about rounding\<close>

lemma round_half_even_int [simp]: "round_half_even (of_int n) = n"
  by (simp add: round_half_even_def)

lemma round_half_even_err: "\<bar>of_int (round_half_even x) - x\<bar> \<le> 1 / 2"
proof -
  define n where "n = \<lfloor>x\<rfloor>"
  have "of_int n \<le> x" and "x < of_int n + 1" unfolding n_def by linarith+
  then show ?thesis
    unfolding round_half_even_def Let_def n_def [symmetric] by (auto simp: abs_if)
qed

lemma pow2_pos [simp]: "0 < pow2 k"
  by (simp add: pow2_def)

lemma pow2_nonneg [simp]: "0 \<le> pow2 k"
  by (rule less_imp_le) simp

lemma pow2_nonzero [simp]: "pow2 k \<noteq> 0"
  using pow2_pos [of k] by linarith

lemma pow2_power: "pow2 (int n) = 2 ^ n"
  by (simp add: pow2_def)

lemma pow2_powi: "pow2 k = 2 powi k"
  by (simp add: pow2_def power_int_def field_simps)

lemma pow2_add: "pow2 (a + b) = pow2 a * pow2 b"
  by (simp add: pow2_powi power_int_add)

lemma pow2_diff: "pow2 (a - b) = pow2 a / pow2 b"
  by (simp add: pow2_powi power_int_diff)

lemma pow2_mono: "a \<le> b \<Longrightarrow> pow2 a \<le> pow2 b"
  unfolding pow2_powi by (rule power_int_increasing) auto

lemma bitlen_bounds_rat:
  assumes "0 < n"
  shows "pow2 (bitlen n - 1) \<le> of_int n" and "(of_int n :: rat) < pow2 (bitlen n)"
proof -
  have b: "0 < bitlen n" using assms by (simp add: bitlen_def compute_floorlog)
  from bitlen_bounds [OF assms] have lo: "2 ^ nat (bitlen n - 1) \<le> n" and hi: "n < 2 ^ nat (bitlen n)"
    by auto
  have "(2 ^ nat (bitlen n - 1) :: rat) = of_int (2 ^ nat (bitlen n - 1))" by simp
  also have "\<dots> \<le> of_int n" using lo by (simp only: of_int_le_iff)
  finally show "pow2 (bitlen n - 1) \<le> of_int n"
    using b by (simp add: pow2_def)
  have "(of_int n :: rat) < of_int (2 ^ nat (bitlen n))" using hi by (simp only: of_int_less_iff)
  then show "(of_int n :: rat) < pow2 (bitlen n)"
    using b by (simp add: pow2_def)
qed

lemma exponent_bounds:
  assumes "0 < x"
  shows "pow2 (exponent x) \<le> x" and "x < pow2 (exponent x + 1)"
proof -
  obtain p q where pq: "quotient_of x = (p, q)" by fastforce
  have q: "0 < q" using quotient_of_denom_pos [OF pq] .
  have x: "x = of_int p / of_int q" using quotient_of_div [OF pq] .
  have p: "0 < p" using assms q by (simp add: x zero_less_divide_iff)
  let ?k = "bitlen p - bitlen q"
  have "x < pow2 (bitlen p) / of_int q"
    unfolding x using bitlen_bounds_rat(2) [OF p] q by (simp add: divide_strict_right_mono)
  also have "\<dots> \<le> pow2 (bitlen p) / pow2 (bitlen q - 1)"
    using bitlen_bounds_rat(1) [OF q] q by (intro divide_left_mono) auto
  also have "\<dots> = pow2 (?k + 1)" by (simp add: pow2_diff pow2_add)
  finally have hi: "x < pow2 (?k + 1)" .
  have "pow2 (?k - 1) = pow2 (bitlen p - 1) / pow2 (bitlen q)"
    by (simp add: pow2_diff)
  also have "\<dots> \<le> pow2 (bitlen p - 1) / of_int q"
    using bitlen_bounds_rat(2) [OF q] q by (intro divide_left_mono) auto
  also have "\<dots> \<le> x"
    unfolding x using bitlen_bounds_rat(1) [OF p] q by (simp add: divide_right_mono)
  finally have lo: "pow2 (?k - 1) \<le> x" .
  show "pow2 (exponent x) \<le> x" and "x < pow2 (exponent x + 1)"
    using hi lo by (auto simp: exponent_def pq Let_def)
qed

lemma fl_pos_err:
  assumes "0 < x"
  shows "\<bar>fl_pos x - x\<bar> \<le> x / 2 ^ 53"
proof -
  let ?u = "pow2 (exponent x - 52)"
  have u: "?u * 2 ^ 52 \<le> x"
    using exponent_bounds(1) [OF assms] pow2_power [of 52] by (simp add: pow2_diff)
  have "fl_pos x - x = (of_int (round_half_even (x / ?u)) - x / ?u) * ?u"
    by (simp add: fl_pos_def Let_def left_diff_distrib)
  then have "\<bar>fl_pos x - x\<bar> = \<bar>of_int (round_half_even (x / ?u)) - x / ?u\<bar> * ?u"
    by (simp add: abs_mult less_imp_le)
  also have "\<dots> \<le> (1 / 2) * ?u"
    using round_half_even_err [of "x / ?u"] by (intro mult_right_mono) (auto simp: less_imp_le)
  also have "\<dots> \<le> x / 2 ^ 53" using u by (simp add: field_simps)
  finally show ?thesis .
qed

text \<open>One rounding is off by at most one part in \<open>2^53\<close>.\<close>

lemma fl_err: "\<bar>fl x - x\<bar> \<le> \<bar>x\<bar> / 2 ^ 53"
proof (cases "x < 0")
  case True
  then have "\<bar>fl_pos (- x) - (- x)\<bar> \<le> (- x) / 2 ^ 53" by (intro fl_pos_err) simp
  moreover have "\<bar>fl x - x\<bar> = \<bar>fl_pos (- x) - (- x)\<bar>" using True by (simp add: fl_def abs_if)
  ultimately show ?thesis using True by simp
next
  case False
  then show ?thesis using fl_pos_err [of x] by (auto simp: fl_def)
qed

text \<open>Whole numbers below \<open>2^53\<close> are represented exactly.\<close>

lemma fl_of_nat:
  assumes "n < 2 ^ 53"
  shows "fl (of_nat n) = of_nat n"
proof (cases "n = 0")
  case True
  then show ?thesis by (simp add: fl_def)
next
  case False
  then have pos: "0 < (of_nat n :: rat)" by simp
  let ?e = "exponent (of_nat n :: rat)"
  have lt: "(of_nat n :: rat) < pow2 53"
  proof -
    have "(of_nat n :: rat) < of_nat (2 ^ 53)" using assms by (simp only: of_nat_less_iff)
    then show ?thesis using pow2_power [of 53] by simp
  qed
  have e: "?e \<le> 52"
  proof (rule ccontr)
    assume "\<not> ?e \<le> 52"
    then have "pow2 53 \<le> pow2 ?e" by (intro pow2_mono) simp
    with exponent_bounds(1) [OF pos] lt show False by linarith
  qed
  let ?u = "pow2 (?e - 52)"
  have "of_nat n / ?u = of_int (int n * 2 ^ nat (52 - ?e))"
    using e by (simp add: pow2_def divide_simps)
  then have "fl_pos (of_nat n) = of_int (int n * 2 ^ nat (52 - ?e)) * ?u"
    unfolding fl_pos_def Let_def by (simp only: round_half_even_int)
  also have "\<dots> = of_nat n"
    using e by (simp add: pow2_def)
  finally show ?thesis using pos by (simp add: fl_def)
qed

lemma double_of_ulong_exact: "unat w < 2 ^ 53 \<Longrightarrow> double_of_ulong w = of_nat (unat w)"
  using fl_of_nat [of "unat w"] by (simp add: double_of_ulong_def)

lemma ulong_of_double_of_nat: "ulong_of_double (of_nat n) = word_of_nat n"
  by (simp add: ulong_of_double_def)

lemma double_ulong_roundtrip: "unat w < 2 ^ 53 \<Longrightarrow> ulong_of_double (double_of_ulong w) = w"
  using ulong_of_double_of_nat [of "unat w"] double_of_ulong_exact [of w] by simp

end
