(* ===== verification/Trunk_Message.thy ===== *)
theory Trunk_Message
  imports Dbl
begin

text \<open>
  The data every component exchanges: the trunking message a parser produces
  (\<open>trunk-recorder/systems/parser.h\<close>), the states of calls and recorders
  (\<open>trunk-recorder/state.h\<close>), the configuration and the record of a transmission
  (\<open>trunk-recorder/global_structs.h\<close>).

  A \<open>TrunkMessage\<close> is a C++ aggregate without a constructor: a local variable of that type
  holds indeterminate values until they are assigned. The parsers therefore take the
  indeterminate contents as an argument \<open>junk\<close>, and the theorems quantify over it. The field
  \<open>meta\<close>, the text of a log line, is left out: it is only ever written to the log.
\<close>

datatype MessageType =
    GRANT | STATUS | UPDATE | CONTROL_CHANNEL | REGISTRATION | DEREGISTRATION | AFFILIATION
  | SYSID | ACKNOWLEDGE | LOCATION | PATCH_ADD | PATCH_DELETE | DATA_GRANT | UU_ANS_REQ
  | UU_V_GRANT | UU_V_UPDATE | UNKNOWN

record PatchData =
  pd_sg :: ulong
  pd_ga1 :: ulong
  pd_ga2 :: ulong
  pd_ga3 :: ulong

record TrunkMessage =
  tm_message_type :: MessageType
  tm_freq :: double
  tm_talkgroup :: int
  tm_encrypted :: bool
  tm_emergency :: bool
  tm_duplex :: bool
  tm_mode :: bool
  tm_priority :: int
  tm_tdma_slot :: int
  tm_phase2_tdma :: bool
  tm_source :: int
  tm_sys_num :: int
  tm_sys_id :: ulong
  tm_sys_rfss :: int
  tm_sys_site_id :: int
  tm_nac :: ulong
  tm_wacn :: ulong
  tm_patch_data :: PatchData
  tm_opcode :: ulong

text \<open>\<open>enum State\<close> and \<open>enum MonitoringState\<close>, shared by calls and recorders.\<close>

datatype State = MONITORING | RECORDING | INACTIVE | ACTIVE | IDLE | STOPPED | AVAILABLE | IGNORE

datatype MonitoringState =
    UNSPECIFIED | UNKNOWN_TG | IGNORED_TG | NO_SOURCE | NO_RECORDER | ENCRYPTED | DUPLICATE
  | SUPERSEDED

text \<open>
  The fields of \<open>struct Config\<close> the modelled code reads. Addresses and upload settings are
  only passed on to plugins and shell commands. The field \<open>freq\<close> of a transmission is never
  written or read.
\<close>

record Config =
  cfg_capture_dir :: string
  cfg_temp_dir :: string
  cfg_default_mode :: string
  cfg_new_call_from_update :: bool
  cfg_call_timeout :: double
  cfg_control_message_warn_rate :: int
  cfg_control_retune_limit :: int
  cfg_record_uu_v_calls :: bool
  cfg_frequency_format :: int

record Transmission =
  tr_source :: int
  tr_start_time :: int
  tr_stop_time :: int
  tr_sample_count :: int
  tr_spike_count :: int
  tr_error_count :: int
  tr_length :: double
  tr_filename :: string

section \<open>Classes of messages\<close>

text \<open>The types a message can have that make the recorder look for a call.\<close>

definition is_call_message :: "MessageType \<Rightarrow> bool" where
  "is_call_message t \<longleftrightarrow> t \<in> {GRANT, UPDATE, UU_V_GRANT, UU_V_UPDATE}"

lemma is_call_message_simps [simp]:
  "is_call_message GRANT" "is_call_message UPDATE" "is_call_message UU_V_GRANT"
  "is_call_message UU_V_UPDATE" "\<not> is_call_message UNKNOWN" "\<not> is_call_message STATUS"
  "\<not> is_call_message CONTROL_CHANNEL" "\<not> is_call_message REGISTRATION"
  "\<not> is_call_message DEREGISTRATION" "\<not> is_call_message AFFILIATION"
  "\<not> is_call_message SYSID" "\<not> is_call_message ACKNOWLEDGE" "\<not> is_call_message LOCATION"
  "\<not> is_call_message PATCH_ADD" "\<not> is_call_message PATCH_DELETE"
  "\<not> is_call_message DATA_GRANT" "\<not> is_call_message UU_ANS_REQ"
  by (simp_all add: is_call_message_def)

end
