(* ===== verification/P25_Channels.thy ===== *)
theory P25_Channels
  imports Trunk_Message
begin

text \<open>
  The channel table of the P25 parser (\<open>P25Parser::channels\<close> in
  \<open>trunk-recorder/systems/p25_parser.h\<close> and \<open>.cc\<close>): what an identifier update stores, and how
  a 16-bit channel number of a later message becomes a frequency, a TDMA slot and a bandwidth.
\<close>

record Channel =
  ch_id :: ulong
  ch_offset :: int
  ch_step :: ulong
  ch_frequency :: ulong
  ch_phase2_tdma :: bool
  ch_slots_per_carrier :: int
  ch_bandwidth :: double

text \<open>
  \<open>std::map<int, std::map<int, Channel>>\<close>: system number, then channel identifier. Indexing
  the outer map creates an empty inner one, so a system that was never seen and a system with
  an empty table behave alike and both are the empty map here.
\<close>

type_synonym channels = "int \<Rightarrow> int \<Rightarrow> Channel option"

definition no_channels :: channels where
  "no_channels = (\<lambda>_ _. None)"

definition add_channel :: "channels \<Rightarrow> int \<Rightarrow> Channel \<Rightarrow> int \<Rightarrow> channels" where
  "add_channel chs chan_id temp_chan sys = chs(sys := (chs sys)(chan_id := Some temp_chan))"

text \<open>\<open>(chan_id >> 12) & 0xf\<close> names the table entry, \<open>chan_id & 0xfff\<close> the channel in it.\<close>

definition chan_table :: "int \<Rightarrow> int" where
  "chan_table chan_id = drop_bit 12 chan_id AND 0xf"

definition chan_number :: "int \<Rightarrow> int" where
  "chan_number chan_id = chan_id AND 0xfff"

definition get_tdma_slot :: "channels \<Rightarrow> int \<Rightarrow> int \<Rightarrow> int" where
  "get_tdma_slot chs chan_id sys =
     (case chs sys (chan_table chan_id) of
        None \<Rightarrow> - 1
      | Some temp_chan \<Rightarrow> if ch_phase2_tdma temp_chan then chan_number chan_id AND 1 else - 1)"

definition get_bandwidth :: "channels \<Rightarrow> int \<Rightarrow> int \<Rightarrow> double" where
  "get_bandwidth chs chan_id sys =
     (case chs sys (chan_table chan_id) of None \<Rightarrow> 0 | Some temp_chan \<Rightarrow> ch_bandwidth temp_chan)"

text \<open>
  The arithmetic is on \<open>unsigned long\<close> and wraps; the result is converted to \<open>double\<close>. On a
  TDMA carrier the channel number is divided by the slots per carrier, which is a division by
  zero when the table entry says so.
\<close>

definition channel_id_to_frequency :: "channels \<Rightarrow> int \<Rightarrow> int \<Rightarrow> double option" where
  "channel_id_to_frequency chs chan_id sys =
     (let channel = chan_number chan_id in
      case chs sys (chan_table chan_id) of
        None \<Rightarrow> Some 0
      | Some temp_chan \<Rightarrow>
          if ch_phase2_tdma temp_chan then
            if ch_slots_per_carrier temp_chan = 0 then None
            else Some (double_of_ulong (ch_frequency temp_chan
                   + ch_step temp_chan * word_of_int (channel div ch_slots_per_carrier temp_chan)))
          else Some (double_of_ulong (ch_frequency temp_chan + ch_step temp_chan * word_of_int channel)))"

text \<open>The callers store the frequency in an \<open>unsigned long\<close>.\<close>

definition channel_freq :: "channels \<Rightarrow> int \<Rightarrow> int \<Rightarrow> ulong option" where
  "channel_freq chs chan_id sys = map_option ulong_of_double (channel_id_to_frequency chs chan_id sys)"

section \<open>Well-formed tables\<close>

text \<open>
  What an identifier update can store: the frequency is five times a 32-bit value, the step
  125 times a 10-bit value, and a TDMA carrier has two or four slots.
\<close>

definition channel_ok :: "Channel \<Rightarrow> bool" where
  "channel_ok c \<longleftrightarrow> unat (ch_frequency c) \<le> 5 * (2 ^ 32 - 1) \<and> unat (ch_step c) \<le> 125 * 1023
     \<and> (ch_phase2_tdma c \<longrightarrow> ch_slots_per_carrier c \<in> {2, 4})"

definition channels_ok :: "channels \<Rightarrow> bool" where
  "channels_ok chs \<longleftrightarrow> (\<forall>sys i c. chs sys i = Some c \<longrightarrow> channel_ok c)"

lemma channels_ok_empty [simp]: "channels_ok no_channels"
  by (simp add: channels_ok_def no_channels_def)

lemma channels_ok_add [invariant_intros]:
  "channels_ok chs \<Longrightarrow> channel_ok c \<Longrightarrow> channels_ok (add_channel chs i c sys)"
  by (auto simp: channels_ok_def add_channel_def)

lemma channels_okD: "channels_ok chs \<Longrightarrow> chs sys i = Some c \<Longrightarrow> channel_ok c"
  by (auto simp: channels_ok_def)

lemma chan_number_range: "0 \<le> chan_number n" "chan_number n \<le> 4095"
proof -
  show "0 \<le> chan_number n" by (simp add: chan_number_def)
  have "chan_number n = take_bit 12 n"
    by (simp add: chan_number_def take_bit_eq_mask mask_eq_exp_minus_1)
  then show "chan_number n \<le> 4095"
    using take_bit_int_less_exp [of 12 n] by simp
qed

lemma chan_table_range: "0 \<le> chan_table n" "chan_table n \<le> 15"
proof -
  show "0 \<le> chan_table n" by (simp add: chan_table_def)
  have "chan_table n = take_bit 4 (drop_bit 12 n)"
    by (simp add: chan_table_def take_bit_eq_mask mask_eq_exp_minus_1)
  then show "chan_table n \<le> 15"
    using take_bit_int_less_exp [of 4 "drop_bit 12 n"] by simp
qed

text \<open>The carrier a channel number selects, as a whole number: no wrap-around, no rounding.\<close>

definition carrier_hz :: "Channel \<Rightarrow> int \<Rightarrow> nat" where
  "carrier_hz c n =
     unat (ch_frequency c)
     + unat (ch_step c) * nat (if ch_phase2_tdma c then n div ch_slots_per_carrier c else n)"

lemma carrier_hz_bound:
  assumes "channel_ok c" and "0 \<le> n" and "n \<le> 4095"
  shows "carrier_hz c n < 2 ^ 53"
proof -
  let ?k = "nat (if ch_phase2_tdma c then n div ch_slots_per_carrier c else n)"
  have "?k \<le> 4095"
    using assms by (auto simp: channel_ok_def)
  then have "unat (ch_step c) * ?k \<le> (125 * 1023) * 4095"
    using assms(1) unfolding channel_ok_def by (intro mult_mono) auto
  then show ?thesis
    using assms(1) by (simp add: carrier_hz_def channel_ok_def)
qed

lemma word_add_mult_exact:
  fixes a b :: ulong
  assumes "unat a + unat b * nat k < 2 ^ 53" and "0 \<le> k"
  shows "unat (a + b * word_of_int k) = unat a + unat b * nat k"
proof -
  have w: "a + b * word_of_int k = word_of_nat (unat a + unat b * nat k)"
    using assms(2) by (simp add: ucast_id)
  have "unat a + unat b * nat k < 2 ^ 64" using assms(1) by simp
  then show ?thesis unfolding w by (rule unat_ulong_of_nat)
qed

lemma channel_id_to_frequency_entry:
  assumes cok: "channel_ok c" and c: "chs sys (chan_table i) = Some c"
  shows "channel_id_to_frequency chs i sys = Some (of_nat (carrier_hz c (chan_number i)))"
proof -
  let ?n = "chan_number i"
  have n: "0 \<le> ?n" "?n \<le> 4095" by (rule chan_number_range)+
  let ?k = "if ch_phase2_tdma c then ?n div ch_slots_per_carrier c else ?n"
  have slots: "ch_phase2_tdma c \<Longrightarrow> 0 < ch_slots_per_carrier c"
    using cok by (auto simp: channel_ok_def)
  have k0: "0 \<le> ?k" using n slots by (auto simp: pos_imp_zdiv_nonneg_iff)
  have lt: "unat (ch_frequency c) + unat (ch_step c) * nat ?k < 2 ^ 53"
    using carrier_hz_bound [OF cok n] by (simp add: carrier_hz_def)
  have "channel_id_to_frequency chs i sys
      = Some (double_of_ulong (ch_frequency c + ch_step c * word_of_int ?k))"
    using slots by (auto simp: channel_id_to_frequency_def c Let_def)
  then show ?thesis
    using word_add_mult_exact [OF lt k0] lt
    by (simp only: double_of_ulong_exact carrier_hz_def)
qed

lemma channel_id_to_frequency_known:
  assumes "channels_ok chs" and "chs sys (chan_table i) = Some c"
  shows "channel_id_to_frequency chs i sys = Some (of_nat (carrier_hz c (chan_number i)))"
  by (rule channel_id_to_frequency_entry) (use assms channels_okD in blast)+

lemma channel_id_to_frequency_unknown:
  "chs sys (chan_table i) = None \<Longrightarrow> channel_id_to_frequency chs i sys = Some 0"
  by (simp add: channel_id_to_frequency_def)

text \<open>The frequency is defined for every channel number, and below \<open>2^53\<close>.\<close>

lemma channel_id_to_frequency_ok:
  assumes "channels_ok chs"
  obtains n where "channel_id_to_frequency chs i sys = Some (of_nat n)" and "n < 2 ^ 53"
proof (cases "chs sys (chan_table i)")
  case None
  then show ?thesis using that [of 0] by (simp add: channel_id_to_frequency_unknown)
next
  case (Some c)
  then show ?thesis
    using that carrier_hz_bound [OF channels_okD [OF assms Some] chan_number_range]
    by (simp add: channel_id_to_frequency_known [OF assms Some])
qed

lemma channel_freq_ok:
  assumes "channels_ok chs"
  obtains w where "channel_freq chs i sys = Some w" and "unat w < 2 ^ 53"
proof -
  obtain n where n: "channel_id_to_frequency chs i sys = Some (of_nat n)" "n < 2 ^ 53"
    using channel_id_to_frequency_ok [OF assms] .
  then show ?thesis
    using that [of "word_of_nat n"]
    by (simp add: channel_freq_def ulong_of_double_of_nat unat_ulong_of_nat)
qed

lemma get_tdma_slot_range: "get_tdma_slot chs i sys \<in> {- 1, 0, 1}"
proof -
  have "chan_number i AND 1 \<in> {0, 1}" unfolding and_one_eq by auto
  then show ?thesis by (simp add: get_tdma_slot_def split: option.split)
qed

end
