(* ===== verification/P25_Bitset.thy ===== *)
theory P25_Bitset
  imports TR_Prelude
begin

text \<open>
  The bit vectors of the P25 parser: \<open>boost::dynamic_bitset<>\<close> as the parser uses it, the field
  extraction \<open>P25Parser::bitset_shift_mask\<close> and \<open>bitset_shift_left_mask\<close>, and the loops of
  \<open>P25Parser::parse_message\<close> that load octets into a bit vector
  (\<open>trunk-recorder/systems/p25_parser.cc\<close>).

  A bit vector is its size and the number its bits denote. The last section connects it to
  the octets on the air: a field at a multiple of eight bits is a slice of the octet string.
\<close>

record bitset =
  bs_size :: nat
  bs_bits :: nat

definition bitset_shift_left :: "bitset \<Rightarrow> nat \<Rightarrow> bitset" where
  "bitset_shift_left b n = b\<lparr>bs_bits := take_bit (bs_size b) (push_bit n (bs_bits b))\<rparr>"

definition bitset_shift_right :: "bitset \<Rightarrow> nat \<Rightarrow> bitset" where
  "bitset_shift_right b n = b\<lparr>bs_bits := drop_bit n (bs_bits b)\<rparr>"

text \<open>
  \<open>to_ulong\<close> throws when a bit at position 64 or above is set; the mask is an
  \<open>unsigned long long\<close>, cut to the size of the vector, so the masked value always fits.
\<close>

definition bitset_and_mask :: "bitset \<Rightarrow> ulong \<Rightarrow> ulong" where
  "bitset_and_mask b msk = word_of_nat (bs_bits b AND take_bit (bs_size b) (unat msk))"

definition bitset_shift_mask :: "bitset \<Rightarrow> nat \<Rightarrow> ulong \<Rightarrow> ulong" where
  "bitset_shift_mask tsbk shift msk = bitset_and_mask (bitset_shift_right tsbk shift) msk"

definition bitset_shift_left_mask :: "bitset \<Rightarrow> nat \<Rightarrow> ulong \<Rightarrow> ulong" where
  "bitset_shift_left_mask tsbk shift msk = bitset_and_mask (bitset_shift_left tsbk shift) msk"

text \<open>
  One turn of the loading loop: shift the vector left by eight, then copy the bits of the
  octet, lowest first, into positions 0 to 7.
\<close>

definition load_octet :: "bitset \<Rightarrow> octet \<Rightarrow> bitset" where
  "load_octet b c =
     (let b' = bitset_shift_left b 8 in
      b'\<lparr>bs_bits := foldl (\<lambda>v j. if bit c j then set_bit j v else unset_bit j v) (bs_bits b') [0..<8]\<rparr>)"

text \<open>\<open>dynamic_bitset<> b((s.length() + pad) * 8)\<close>, the loop over \<open>s\<close>, and \<open>b <<= 8 * pad\<close>.\<close>

definition load_octets :: "octet list \<Rightarrow> nat \<Rightarrow> bitset" where
  "load_octets s pad =
     bitset_shift_left
       (foldl load_octet \<lparr>bs_size = (length s + pad) * 8, bs_bits = 0\<rparr> s) (8 * pad)"

text \<open>Conversions of the extracted \<open>unsigned long\<close> to \<open>long\<close> and to \<open>int\<close>, modulo the width.\<close>

definition long_of_ulong :: "ulong \<Rightarrow> int" where
  "long_of_ulong w = sint w"

definition int_of_ulong :: "ulong \<Rightarrow> int" where
  "int_of_ulong w = sint (ucast w :: 32 word)"

section \<open>Loading builds the big-endian value\<close>

lemma foldl_set_bits:
  "bit (foldl (\<lambda>v j. if bit c j then set_bit j v else unset_bit j v) (v :: nat) [0..<n]) k
     = (if k < n then bit (c :: octet) k else bit v k)"
proof (induction n)
  case 0
  then show ?case by simp
next
  case (Suc n)
  then show ?case by (auto simp: bit_set_bit_iff bit_unset_bit_iff less_Suc_eq possible_bit_def)
qed

lemma load_octet_bits:
  assumes "bs_bits b * 256 + unat c < 2 ^ bs_size b"
  shows "bs_bits (load_octet b c) = bs_bits b * 256 + unat c"
proof -
  let ?v = "bs_bits b"
  have sh: "take_bit (bs_size b) (push_bit 8 ?v) = push_bit 8 ?v"
    using assms by (simp add: push_bit_eq_mult take_bit_nat_eq_self)
  have lt: "unat c < 2 ^ 8" using unat_octet_lt [of c] by simp
  have "bs_bits (load_octet b c) = push_bit 8 ?v OR unat c"
  proof (rule bit_eqI)
    fix k
    show "bit (bs_bits (load_octet b c)) k = bit (push_bit 8 ?v OR unat c) k"
    proof (cases "k < 8")
      case True
      then show ?thesis
        by (simp add: load_octet_def Let_def foldl_set_bits bit_or_iff bit_push_bit_iff bit_unsigned_iff)
    next
      case False
      then have "\<not> bit (unat c) k"
        using lt bit_imp_le_length [of c k] by (auto simp: bit_unsigned_iff)
      then show ?thesis using False
        by (simp add: load_octet_def Let_def foldl_set_bits bitset_shift_left_def sh bit_or_iff)
    qed
  qed
  also have "\<dots> = push_bit 8 ?v + unat c"
    by (rule disjunctive_add [symmetric])
      (use lt bit_imp_le_length [of c] in \<open>auto simp: bit_push_bit_iff bit_unsigned_iff dest: leD\<close>)
  finally show ?thesis by (simp add: push_bit_eq_mult mult.commute)
qed

lemma load_octet_size [simp]: "bs_size (load_octet b c) = bs_size b"
  by (simp add: load_octet_def Let_def bitset_shift_left_def)

lemma foldl_load_size: "bs_size (foldl load_octet b s) = bs_size b"
  by (induction s arbitrary: b) simp_all

lemma foldl_load_bits:
  assumes "bs_bits b * 256 ^ length s + be_value s < 2 ^ bs_size b"
  shows "bs_bits (foldl load_octet b s) = bs_bits b * 256 ^ length s + be_value s"
  using assms
proof (induction s arbitrary: b)
  case Nil
  then show ?case by simp
next
  case (Cons c s)
  have eq: "bs_bits b * 256 ^ length (c # s) + be_value (c # s)
      = (bs_bits b * 256 + unat c) * 256 ^ length s + be_value s"
    by (simp add: be_value_Cons algebra_simps)
  have "bs_bits b * 256 + unat c \<le> (bs_bits b * 256 + unat c) * 256 ^ length s" by simp
  then have "bs_bits b * 256 + unat c < 2 ^ bs_size b"
    using Cons.prems unfolding eq by linarith
  then have step: "bs_bits (load_octet b c) = bs_bits b * 256 + unat c"
    by (rule load_octet_bits)
  then show ?case
    using Cons.IH [of "load_octet b c"] Cons.prems unfolding eq by simp
qed

lemma load_octets_bits: "bs_bits (load_octets s pad) = be_value (s @ replicate pad 0)"
proof -
  let ?b0 = "\<lparr>bs_size = (length s + pad) * 8, bs_bits = 0 :: nat\<rparr>"
  have pad0: "be_value (replicate pad 0) = 0" by (induction pad) (simp_all add: be_value_Cons)
  have lt: "be_value s * 256 ^ pad < 2 ^ ((length s + pad) * 8)"
  proof -
    have "be_value s * 256 ^ pad < 256 ^ length s * 256 ^ pad"
      using be_value_lt [of s] by simp
    also have "\<dots> = 2 ^ ((length s + pad) * 8)"
      by (simp add: power256 power_add [symmetric] algebra_simps)
    finally show ?thesis .
  qed
  have "be_value s \<le> be_value s * 256 ^ pad" by simp
  then have "be_value s < 2 ^ ((length s + pad) * 8)" using lt by linarith
  then have "bs_bits (foldl load_octet ?b0 s) = be_value s"
    using foldl_load_bits [of ?b0 s] by simp
  moreover have "(2 :: nat) ^ (pad * 8) = 256 ^ pad" by (simp add: power256 mult.commute)
  ultimately show ?thesis
    using lt by (simp add: load_octets_def bitset_shift_left_def foldl_load_size be_value_append
        pad0 push_bit_eq_mult take_bit_nat_eq_self mult.commute)
qed

lemma load_octets_size: "bs_size (load_octets s pad) = (length s + pad) * 8"
  by (simp add: load_octets_def bitset_shift_left_def foldl_load_size)

lemma replicate_2: "replicate 2 x = [x, x]"
  by (simp add: numeral_2_eq_2)

lemma replicate_4: "replicate 4 x = [x, x, x, x]"
  by (simp add: numeral_eq_Suc)

section \<open>Fields\<close>

lemma unat_bitset_shift_mask:
  "unat (bitset_shift_mask b n m) = drop_bit n (bs_bits b) AND take_bit (bs_size b) (unat m)"
proof -
  let ?x = "drop_bit n (bs_bits b) AND take_bit (bs_size b) (unat m)"
  have "?x \<le> take_bit (bs_size b) (unat m)"
    by (rule nat_and_le)
  also have "\<dots> \<le> unat m" by (simp add: take_bit_nat_less_eq_self)
  also have "\<dots> < 2 ^ 64" by (rule unat_ulong_lt)
  finally show ?thesis
    by (simp add: bitset_shift_mask_def bitset_and_mask_def bitset_shift_right_def unat_ulong_of_nat)
qed

lemma bitset_shift_mask_le: "unat (bitset_shift_mask b n m) \<le> unat m"
  unfolding unat_bitset_shift_mask
  by (rule order_trans [OF nat_and_le]) (simp add: take_bit_nat_less_eq_self)

text \<open>
  A field of \<open>k\<close> octets that starts \<open>8 * j\<close> bits from the right of the padded string, under a
  mask of \<open>8 * k\<close> ones, is the value of those octets.
\<close>

lemma bitset_field:
  assumes "s @ replicate pad 0 = xs @ ys @ zs" and "n = 8 * length zs"
    and "unat m = 2 ^ (8 * length ys) - 1"
  shows "unat (bitset_shift_mask (load_octets s pad) n m) = be_value ys"
proof -
  let ?w = "8 * length ys"
  have "length s + pad = length xs + length ys + length zs"
    using arg_cong [OF assms(1), of length] by simp
  then have sz: "?w \<le> bs_size (load_octets s pad)" by (simp add: load_octets_size)
  have m: "unat m = mask ?w" using assms(3) by (simp add: mask_eq_exp_minus_1)
  have "take_bit (bs_size (load_octets s pad)) (unat m) = mask ?w"
    unfolding m using sz by (simp add: take_bit_of_mask min_absorb2)
  then have "unat (bitset_shift_mask (load_octets s pad) n m)
      = take_bit ?w (drop_bit n (be_value (xs @ ys @ zs)))"
    by (simp add: unat_bitset_shift_mask load_octets_bits assms(1) take_bit_eq_mask)
  then show ?thesis
    using be_value_slice [of zs n ys ?w xs] assms(2) by simp
qed

text \<open>A field at any bit position, as arithmetic on the octets from its own to the first.\<close>

lemma bitset_field_bits:
  assumes "s @ replicate pad 0 = xs @ zs" and "n = 8 * length zs + r"
    and "unat m = 2 ^ w - 1" and "w \<le> 8 * (length s + pad)"
  shows "unat (bitset_shift_mask (load_octets s pad) n m) = be_value xs div 2 ^ r mod 2 ^ w"
proof -
  have m: "unat m = mask w" using assms(3) by (simp add: mask_eq_exp_minus_1)
  have "take_bit (bs_size (load_octets s pad)) (unat m) = mask w"
    unfolding m using assms(4) by (simp add: load_octets_size take_bit_of_mask min_absorb2 mult.commute)
  moreover have "drop_bit n (be_value (xs @ zs)) = drop_bit r (be_value xs)"
    using be_value_drop [of zs xs] assms(2) by (simp flip: drop_bit_drop_bit add: add.commute)
  ultimately have "unat (bitset_shift_mask (load_octets s pad) n m)
      = take_bit w (drop_bit r (be_value xs))"
    by (simp add: unat_bitset_shift_mask load_octets_bits assms(1) take_bit_eq_mask)
  then show ?thesis by (simp add: take_bit_eq_mod drop_bit_eq_div)
qed

text \<open>A field inside one octet: any mask of at most eight bits.\<close>

lemma bitset_field_octet:
  assumes "s @ replicate pad 0 = xs @ y # zs" and "n = 8 * length zs" and "unat m < 256"
  shows "bitset_shift_mask (load_octets s pad) n m = ucast y AND m"
proof -
  let ?b = "load_octets s pad"
  have "length s + pad = length xs + 1 + length zs"
    using arg_cong [OF assms(1), of length] by simp
  then have "8 \<le> bs_size ?b" by (simp add: load_octets_size)
  then have "(2 :: nat) ^ 8 \<le> 2 ^ bs_size ?b" by (intro power_increasing) auto
  then have tm: "take_bit (bs_size ?b) (unat m) = unat m"
    using assms(3) by (intro take_bit_nat_eq_self) simp
  have "take_bit 8 (drop_bit n (be_value (xs @ [y] @ zs))) = be_value [y]"
    using assms(2) by (intro be_value_slice) auto
  then have y: "take_bit 8 (drop_bit n (be_value (xs @ y # zs))) = unat y"
    by (simp add: be_value_Cons)
  let ?v = "drop_bit n (be_value (xs @ y # zs))"
  have m8: "take_bit 8 (unat m) = unat m"
    using assms(3) by (simp add: take_bit_nat_eq_self)
  have "?v AND unat m < 256" using nat_and_le [of ?v "unat m"] assms(3) by linarith
  then have "?v AND unat m = take_bit 8 (?v AND unat m)"
    by (intro take_bit_nat_eq_self [symmetric]) simp
  also have "\<dots> = take_bit 8 ?v AND take_bit 8 (unat m)" by (rule take_bit_and)
  finally have "?v AND unat m = unat y AND unat m" by (simp only: y m8)
  then have "unat (bitset_shift_mask ?b n m) = unat (ucast y AND m)"
    by (simp add: unat_bitset_shift_mask load_octets_bits assms(1) tm unsigned_and_eq
        del: unsigned_ucast_eq)
  then show ?thesis by (simp add: word_unat_eq_iff)
qed

end
