(* ===== verification/P25_TSBK.thy ===== *)
theory P25_TSBK
  imports P25_Channels P25_Bitset
begin

text \<open>
  \<open>P25Parser::decode_tsbk\<close> of \<open>trunk-recorder/systems/p25_parser.cc\<close>: one trunking signalling
  block becomes a list of trunking messages, and an identifier update writes the channel
  table. There is one definition per branch of the opcode dispatch, named after the message;
  each reads the same bit fields in the same order as its branch. Computing a frequency can
  fail (a division by zero on a bad table), so the branches are computations in the option
  monad; text that goes only to the log is left out, but a frequency the code computes for it
  unconditionally is still computed.
\<close>

section \<open>Shared steps of the branches\<close>

definition tsbk_init :: "TrunkMessage \<Rightarrow> ulong \<Rightarrow> ulong \<Rightarrow> int \<Rightarrow> TrunkMessage" where
  "tsbk_init junk op nac sys =
     junk\<lparr>tm_message_type := UNKNOWN, tm_source := - 1, tm_wacn := 0, tm_nac := nac, tm_sys_id := 0,
          tm_sys_num := sys, tm_talkgroup := 0, tm_emergency := False, tm_duplex := False,
          tm_mode := False, tm_priority := 0, tm_encrypted := False, tm_phase2_tdma := False,
          tm_tdma_slot := 0, tm_freq := 0, tm_opcode := op\<rparr>"

text \<open>The block \<open>if (get_tdma_slot(ch, sys_num) >= 0) ... else ...\<close> of every grant.\<close>

definition set_tdma :: "channels \<Rightarrow> ulong \<Rightarrow> int \<Rightarrow> TrunkMessage \<Rightarrow> TrunkMessage" where
  "set_tdma chs ch sys m =
     (if 0 \<le> get_tdma_slot chs (int_of_ulong ch) sys
      then m\<lparr>tm_phase2_tdma := True, tm_tdma_slot := get_tdma_slot chs (int_of_ulong ch) sys\<rparr>
      else m\<lparr>tm_phase2_tdma := False, tm_tdma_slot := 0\<rparr>)"

text \<open>The service options octet at a bit position.\<close>

definition set_options :: "bitset \<Rightarrow> nat \<Rightarrow> TrunkMessage \<Rightarrow> TrunkMessage" where
  "set_options b n m =
     m\<lparr>tm_emergency := bitset_shift_mask b n 0x80 \<noteq> 0,
       tm_encrypted := bitset_shift_mask b n 0x40 \<noteq> 0,
       tm_duplex := bitset_shift_mask b n 0x20 \<noteq> 0,
       tm_mode := bitset_shift_mask b n 0x10 \<noteq> 0,
       tm_priority := int_of_ulong (bitset_shift_mask b n 0x07)\<rparr>"

abbreviation freq_of :: "channels \<Rightarrow> ulong \<Rightarrow> int \<Rightarrow> ulong option" where
  "freq_of chs ch sys \<equiv> channel_freq chs (int_of_ulong ch) sys"

section \<open>Opcode 0x00: group voice channel grant\<close>

definition tsbk_patch_add :: "bitset \<Rightarrow> TrunkMessage \<Rightarrow> TrunkMessage list" where
  "tsbk_patch_add tsbk m =
     [m\<lparr>tm_message_type := PATCH_ADD,
        tm_patch_data := \<lparr>pd_sg = bitset_shift_mask tsbk 64 0xffff, pd_ga1 = bitset_shift_mask tsbk 48 0xffff,
          pd_ga2 = bitset_shift_mask tsbk 32 0xffff, pd_ga3 = bitset_shift_mask tsbk 16 0xffff\<rparr>\<rparr>]"

definition tsbk_group_grant :: "channels \<Rightarrow> bitset \<Rightarrow> int \<Rightarrow> TrunkMessage \<Rightarrow> TrunkMessage list option" where
  "tsbk_group_grant chs tsbk sys m =
     (if bitset_shift_mask tsbk 80 0xff = 0x90 then Some (tsbk_patch_add tsbk m)
      else do {
        let ch = bitset_shift_mask tsbk 56 0xffff;
        let ga = bitset_shift_mask tsbk 40 0xffff;
        let sa = bitset_shift_mask tsbk 16 0xffffff;
        f1 \<leftarrow> freq_of chs ch sys;
        Some [set_tdma chs ch sys (set_options tsbk 72
          (m\<lparr>tm_message_type := GRANT, tm_freq := double_of_ulong f1,
             tm_talkgroup := long_of_ulong ga, tm_source := long_of_ulong sa\<rparr>))]
      })"

section \<open>Opcode 0x02: group voice channel grant update\<close>

definition tsbk_moto_patch_grant :: "channels \<Rightarrow> bitset \<Rightarrow> int \<Rightarrow> TrunkMessage \<Rightarrow> TrunkMessage list option" where
  "tsbk_moto_patch_grant chs tsbk sys m = do {
     let ch = bitset_shift_mask tsbk 56 0xffff;
     let sg = bitset_shift_mask tsbk 40 0xffff;
     let sa = bitset_shift_mask tsbk 16 0xffffff;
     f \<leftarrow> freq_of chs ch sys;
     Some [set_tdma chs ch sys (set_options tsbk 72
       (m\<lparr>tm_message_type := GRANT, tm_freq := double_of_ulong f,
          tm_talkgroup := long_of_ulong sg, tm_source := long_of_ulong sa\<rparr>))]
   }"

definition tsbk_update_pair :: "channels \<Rightarrow> bitset \<Rightarrow> int \<Rightarrow> TrunkMessage \<Rightarrow> TrunkMessage list option" where
  "tsbk_update_pair chs tsbk sys m = do {
     let ch1 = bitset_shift_mask tsbk 64 0xffff;
     let ga1 = bitset_shift_mask tsbk 48 0xffff;
     let ch2 = bitset_shift_mask tsbk 32 0xffff;
     let ga2 = bitset_shift_mask tsbk 16 0xffff;
     f1 \<leftarrow> freq_of chs ch1 sys;
     f2 \<leftarrow> freq_of chs ch2 sys;
     let m1 = set_tdma chs ch1 sys
       (m\<lparr>tm_message_type := UPDATE, tm_freq := double_of_ulong f1, tm_talkgroup := long_of_ulong ga1\<rparr>);
     Some (if f1 \<noteq> f2 \<and> ch2 \<noteq> 65535
           then [m1, set_tdma chs ch2 sys
                  (m1\<lparr>tm_freq := double_of_ulong f2, tm_talkgroup := long_of_ulong ga2\<rparr>)]
           else [m1])
   }"

definition tsbk_group_update :: "channels \<Rightarrow> bitset \<Rightarrow> int \<Rightarrow> TrunkMessage \<Rightarrow> TrunkMessage list option" where
  "tsbk_group_update chs tsbk sys m =
     (if bitset_shift_mask tsbk 80 0xff = 0x90 then tsbk_moto_patch_grant chs tsbk sys m
      else tsbk_update_pair chs tsbk sys m)"

section \<open>Opcode 0x03: group voice channel update, explicit\<close>

definition tsbk_moto_patch_update :: "channels \<Rightarrow> bitset \<Rightarrow> int \<Rightarrow> TrunkMessage \<Rightarrow> TrunkMessage list option" where
  "tsbk_moto_patch_update chs tsbk sys m = do {
     let ch1 = bitset_shift_mask tsbk 64 0xffff;
     let sg1 = bitset_shift_mask tsbk 48 0xffff;
     let ch2 = bitset_shift_mask tsbk 32 0xffff;
     let sg2 = bitset_shift_mask tsbk 16 0xffff;
     f1 \<leftarrow> freq_of chs ch1 sys;
     f2 \<leftarrow> freq_of chs ch2 sys;
     let m1 = set_tdma chs ch1 sys
       (m\<lparr>tm_message_type := UPDATE, tm_freq := double_of_ulong f1, tm_talkgroup := long_of_ulong sg1\<rparr>);
     Some (if f1 \<noteq> f2
           then [m1, set_tdma chs ch2 sys
                  (m1\<lparr>tm_freq := double_of_ulong f2, tm_talkgroup := long_of_ulong sg2\<rparr>)]
           else [m1])
   }"

text \<open>The slot comes from the second channel, the test from the first, as in the source.\<close>

definition tsbk_explicit_update :: "channels \<Rightarrow> bitset \<Rightarrow> int \<Rightarrow> TrunkMessage \<Rightarrow> TrunkMessage list option" where
  "tsbk_explicit_update chs tsbk sys m = do {
     let ch1 = bitset_shift_mask tsbk 48 0xffff;
     let ch2 = bitset_shift_mask tsbk 32 0xffff;
     let ga1 = bitset_shift_mask tsbk 16 0xffff;
     f1 \<leftarrow> freq_of chs ch1 sys;
     f2 \<leftarrow> freq_of chs ch2 sys;
     let m1 = m\<lparr>tm_message_type := UPDATE, tm_freq := double_of_ulong f1,
        tm_talkgroup := long_of_ulong ga1, tm_emergency := bitset_shift_mask tsbk 72 0x80 \<noteq> 0,
        tm_encrypted := bitset_shift_mask tsbk 72 0x40 \<noteq> 0\<rparr>;
     Some [if 0 \<le> get_tdma_slot chs (int_of_ulong ch1) sys
           then m1\<lparr>tm_phase2_tdma := True, tm_tdma_slot := get_tdma_slot chs (int_of_ulong ch2) sys\<rparr>
           else m1\<lparr>tm_phase2_tdma := False, tm_tdma_slot := 0\<rparr>]
   }"

definition tsbk_update_explicit :: "channels \<Rightarrow> bitset \<Rightarrow> int \<Rightarrow> TrunkMessage \<Rightarrow> TrunkMessage list option" where
  "tsbk_update_explicit chs tsbk sys m =
     (if bitset_shift_mask tsbk 80 0xff = 0x90 then tsbk_moto_patch_update chs tsbk sys m
      else tsbk_explicit_update chs tsbk sys m)"

section \<open>Opcodes 0x04 to 0x14: unit to unit calls and data grants\<close>

definition tsbk_uu_grant :: "channels \<Rightarrow> bitset \<Rightarrow> int \<Rightarrow> TrunkMessage \<Rightarrow> TrunkMessage list option" where
  "tsbk_uu_grant chs tsbk sys m = do {
     let ch = bitset_shift_mask tsbk 64 0xffff;
     f \<leftarrow> freq_of chs ch sys;
     let sa = bitset_shift_mask tsbk 16 0xffffff;
     let ta = bitset_shift_mask tsbk 40 0xffffff;
     Some [set_tdma chs ch sys (set_options tsbk 72
       (m\<lparr>tm_message_type := UU_V_GRANT, tm_freq := double_of_ulong f,
          tm_talkgroup := long_of_ulong ta, tm_source := long_of_ulong sa\<rparr>))]
   }"

definition tsbk_uu_answer_request :: "bitset \<Rightarrow> TrunkMessage \<Rightarrow> TrunkMessage list" where
  "tsbk_uu_answer_request tsbk m =
     [(set_options tsbk 72 (m\<lparr>tm_message_type := UU_ANS_REQ\<rparr>))
        \<lparr>tm_source := long_of_ulong (bitset_shift_mask tsbk 16 0xffffff),
         tm_talkgroup := long_of_ulong (bitset_shift_mask tsbk 40 0xffffff)\<rparr>]"

definition tsbk_uu_update :: "channels \<Rightarrow> bitset \<Rightarrow> int \<Rightarrow> TrunkMessage \<Rightarrow> TrunkMessage list option" where
  "tsbk_uu_update chs tsbk sys m = do {
     let ch = bitset_shift_mask tsbk 64 0xffff;
     f \<leftarrow> freq_of chs ch sys;
     let sa = bitset_shift_mask tsbk 16 0xffffff;
     let ta = bitset_shift_mask tsbk 40 0xffffff;
     Some [set_tdma chs ch sys
       (m\<lparr>tm_message_type := UU_V_UPDATE, tm_freq := double_of_ulong f,
          tm_talkgroup := long_of_ulong ta, tm_source := long_of_ulong sa\<rparr>)]
   }"

definition tsbk_data_grant :: "channels \<Rightarrow> bitset \<Rightarrow> int \<Rightarrow> TrunkMessage \<Rightarrow> TrunkMessage list option" where
  "tsbk_data_grant chs tsbk sys m = do {
     let chT = bitset_shift_mask tsbk 56 0xffff;
     let chR = bitset_shift_mask tsbk 40 0xffff;
     let sa = bitset_shift_mask tsbk 16 0xffffff;
     fT \<leftarrow> freq_of chs chT sys;
     fR \<leftarrow> freq_of chs chR sys;
     Some [m\<lparr>tm_message_type := DATA_GRANT,
             tm_emergency := bitset_shift_mask tsbk 72 0x80 \<noteq> 0,
             tm_encrypted := bitset_shift_mask tsbk 72 0x40 \<noteq> 0,
             tm_duplex := bitset_shift_mask tsbk 72 0x20 \<noteq> 0,
             tm_mode := bitset_shift_mask tsbk 72 0x10 \<noteq> 0,
             tm_source := long_of_ulong sa, tm_freq := double_of_ulong fT\<rparr>]
   }"

section \<open>Opcodes 0x20 to 0x2f: responses\<close>

definition tsbk_acknowledge :: "bitset \<Rightarrow> TrunkMessage \<Rightarrow> TrunkMessage list" where
  "tsbk_acknowledge tsbk m =
     [m\<lparr>tm_message_type := ACKNOWLEDGE,
        tm_talkgroup := long_of_ulong (bitset_shift_mask tsbk 40 0xffff),
        tm_source := long_of_ulong (bitset_shift_mask tsbk 16 0xffffff)\<rparr>]"

definition tsbk_affiliation :: "bitset \<Rightarrow> TrunkMessage \<Rightarrow> TrunkMessage list" where
  "tsbk_affiliation tsbk m =
     [m\<lparr>tm_message_type := AFFILIATION,
        tm_source := long_of_ulong (bitset_shift_mask tsbk 16 0xffffff),
        tm_talkgroup := long_of_ulong (bitset_shift_mask tsbk 40 0xffff)\<rparr>]"

text \<open>The broadcasts of secondary control channels, opcodes 0x29 and 0x39.\<close>

definition tsbk_secondary_cc :: "channels \<Rightarrow> bitset \<Rightarrow> int \<Rightarrow> TrunkMessage \<Rightarrow> TrunkMessage list option" where
  "tsbk_secondary_cc chs tsbk sys m = do {
     let ch1 = bitset_shift_mask tsbk 48 0xffff;
     let ch2 = bitset_shift_mask tsbk 24 0xffff;
     f1 \<leftarrow> freq_of chs ch1 sys;
     f2 \<leftarrow> freq_of chs ch2 sys;
     Some (if f1 \<noteq> 0 \<and> f2 \<noteq> 0
       then (let m1 = m\<lparr>tm_message_type := CONTROL_CHANNEL, tm_freq := double_of_ulong f1,
                        tm_talkgroup := 0, tm_phase2_tdma := False, tm_tdma_slot := 0\<rparr>
             in [m1, m1\<lparr>tm_freq := double_of_ulong f2\<rparr>])
       else [m])
   }"

definition tsbk_location :: "bitset \<Rightarrow> TrunkMessage \<Rightarrow> TrunkMessage list" where
  "tsbk_location tsbk m =
     [m\<lparr>tm_message_type := LOCATION,
        tm_talkgroup := long_of_ulong (bitset_shift_mask tsbk 56 0xffff),
        tm_source := long_of_ulong (bitset_shift_mask tsbk 16 0xffffff)\<rparr>]"

definition tsbk_registration :: "bitset \<Rightarrow> TrunkMessage \<Rightarrow> TrunkMessage list" where
  "tsbk_registration tsbk m =
     [m\<lparr>tm_message_type := REGISTRATION,
        tm_source := long_of_ulong (bitset_shift_mask tsbk 40 0xffffff)\<rparr>]"

definition tsbk_deregistration :: "bitset \<Rightarrow> TrunkMessage \<Rightarrow> TrunkMessage list" where
  "tsbk_deregistration tsbk m =
     [m\<lparr>tm_message_type := DEREGISTRATION,
        tm_source := long_of_ulong (bitset_shift_mask tsbk 16 0xffffff)\<rparr>]"

section \<open>Opcode 0x30: M/A-COM patches\<close>

definition tsbk_harris_patch :: "bitset \<Rightarrow> TrunkMessage \<Rightarrow> TrunkMessage list" where
  "tsbk_harris_patch tsbk m =
     (if bitset_shift_mask tsbk 80 0xff = 0xA4
      then let grg_a = bitset_shift_mask tsbk 77 0x01;
               sg = bitset_shift_mask tsbk 56 0xffff;
               rta = bitset_shift_mask tsbk 16 0xffffff;
               ga = rta AND 0xffff;
               pd = \<lparr>pd_sg = sg, pd_ga1 = ga, pd_ga2 = ga, pd_ga3 = ga\<rparr>
           in if grg_a = 1 then [m\<lparr>tm_message_type := PATCH_ADD, tm_patch_data := pd\<rparr>]
              else [m\<lparr>tm_message_type := PATCH_DELETE, tm_patch_data := pd\<rparr>]
      else [m])"

section \<open>Opcodes 0x33, 0x34, 0x3d: identifier updates\<close>

text \<open>
  The transmit offset has its sign in the top bit, one meaning positive. The product with the
  unsigned spacing is computed modulo \<open>2^64\<close> and stored in a \<open>long\<close>.
\<close>

definition tx_offset :: "ulong \<Rightarrow> nat \<Rightarrow> int" where
  "tx_offset toff0 sign_bit =
     (let toff = long_of_ulong (toff0 AND (2 ^ sign_bit - 1))
      in if drop_bit sign_bit toff0 AND 1 = 0 then 0 - toff else toff)"

text \<open>Indexing the six-element array with a 4-bit channel type can read past its end.\<close>

definition slots_table :: "ulong \<Rightarrow> int option" where
  "slots_table channel_type =
     (if unat channel_type < 6 then Some ([1, 1, 1, 2, 4, 2] ! unat channel_type) else None)"

definition tsbk_iden_up_tdma :: "channels \<Rightarrow> bitset \<Rightarrow> int \<Rightarrow> channels option" where
  "tsbk_iden_up_tdma chs tsbk sys =
     (if bitset_shift_mask tsbk 80 0xff = 0 then do {
        let iden = bitset_shift_mask tsbk 76 0xf;
        let channel_type = bitset_shift_mask tsbk 72 0xf;
        let toff0 = bitset_shift_mask tsbk 58 0x3fff;
        let spac = bitset_shift_mask tsbk 48 0x3ff;
        let toff = tx_offset toff0 13;
        let f1 = bitset_shift_mask tsbk 16 0xffffffff;
        slots \<leftarrow> slots_table channel_type;
        Some (add_channel chs (int_of_ulong iden)
          \<lparr>ch_id = iden, ch_offset = long_of_ulong (word_of_int toff * spac * 125), ch_step = spac * 125,
           ch_frequency = f1 * 5, ch_phase2_tdma = 1 < slots, ch_slots_per_carrier = slots,
           ch_bandwidth = 625 / 100\<rparr> sys)
      } else Some chs)"

definition tsbk_iden_up_vu :: "channels \<Rightarrow> bitset \<Rightarrow> int \<Rightarrow> channels" where
  "tsbk_iden_up_vu chs tsbk sys =
     (let iden = bitset_shift_mask tsbk 76 0xf;
          bwvu = bitset_shift_mask tsbk 72 0xf;
          toff0 = bitset_shift_mask tsbk 58 0x3fff;
          spac = bitset_shift_mask tsbk 48 0x3ff;
          f = bitset_shift_mask tsbk 16 0xffffffff;
          bandwidth = (if bwvu = 4 then 625 / 100 else if bwvu = 5 then 125 / 10 else 0);
          toff = tx_offset toff0 13
      in add_channel chs (int_of_ulong iden)
          \<lparr>ch_id = iden, ch_offset = long_of_ulong (word_of_int toff * spac * 125), ch_step = spac * 125,
           ch_frequency = f * 5, ch_phase2_tdma = False, ch_slots_per_carrier = 0,
           ch_bandwidth = bandwidth\<rparr> sys)"

definition tsbk_iden_up :: "channels \<Rightarrow> bitset \<Rightarrow> int \<Rightarrow> channels" where
  "tsbk_iden_up chs tsbk sys =
     (let iden = bitset_shift_mask tsbk 76 0xf;
          bw = bitset_shift_mask tsbk 67 0x1ff;
          toff0 = bitset_shift_mask tsbk 58 0x1ff;
          spac = bitset_shift_mask tsbk 48 0x3ff;
          f = bitset_shift_mask tsbk 16 0xffffffff;
          toff = tx_offset toff0 8
      in add_channel chs (int_of_ulong iden)
          \<lparr>ch_id = iden, ch_offset = toff * 250000, ch_step = spac * 125, ch_frequency = f * 5,
           ch_phase2_tdma = False, ch_slots_per_carrier = 1,
           ch_bandwidth = fl (double_of_ulong bw * (125 / 1000))\<rparr> sys)"

section \<open>Opcodes 0x3a, 0x3b, 0x3c: system status\<close>

definition tsbk_rfss_status :: "channels \<Rightarrow> bitset \<Rightarrow> int \<Rightarrow> TrunkMessage \<Rightarrow> TrunkMessage list option" where
  "tsbk_rfss_status chs tsbk sys m = do {
     let syid = bitset_shift_mask tsbk 56 0xfff;
     let rfid = bitset_shift_mask tsbk 48 0xff;
     let stid = bitset_shift_mask tsbk 40 0xff;
     let chan = bitset_shift_mask tsbk 24 0xffff;
     _ \<leftarrow> freq_of chs chan sys;
     Some [m\<lparr>tm_message_type := SYSID, tm_sys_id := syid, tm_sys_rfss := int_of_ulong rfid,
             tm_sys_site_id := int_of_ulong stid\<rparr>]
   }"

definition tsbk_network_status :: "channels \<Rightarrow> bitset \<Rightarrow> int \<Rightarrow> TrunkMessage \<Rightarrow> TrunkMessage list option" where
  "tsbk_network_status chs tsbk sys m = do {
     let wacn = bitset_shift_mask tsbk 52 0xfffff;
     let syid = bitset_shift_mask tsbk 40 0xfff;
     let ch1 = bitset_shift_mask tsbk 24 0xffff;
     f1 \<leftarrow> freq_of chs ch1 sys;
     Some [if f1 \<noteq> 0
           then m\<lparr>tm_message_type := STATUS, tm_wacn := wacn, tm_sys_id := syid, tm_freq := double_of_ulong f1\<rparr>
           else m]
   }"

definition tsbk_adjacent_status :: "channels \<Rightarrow> bitset \<Rightarrow> int \<Rightarrow> TrunkMessage \<Rightarrow> TrunkMessage list option" where
  "tsbk_adjacent_status chs tsbk sys m = do {
     let ch1 = bitset_shift_mask tsbk 24 0xffff;
     _ \<leftarrow> freq_of chs ch1 sys;
     Some [m]
   }"

section \<open>The dispatch\<close>

text \<open>Opcodes that are only logged: the message keeps the type \<open>UNKNOWN\<close>.\<close>

definition tsbk_log_only :: "ulong \<Rightarrow> bool" where
  "tsbk_log_only op \<longleftrightarrow>
     op \<in> {0x08, 0x09, 0x0a, 0x15, 0x16, 0x18, 0x1a, 0x1c, 0x1d, 0x1f, 0x21, 0x24, 0x27, 0x2a, 0x2d,
           0x2e, 0x31, 0x32, 0x35, 0x36, 0x37, 0x38}"

text \<open>A branch that leaves the table alone, and a branch that only writes it.\<close>

definition keep_table :: "channels \<Rightarrow> TrunkMessage list option \<Rightarrow> (channels \<times> TrunkMessage list) option" where
  "keep_table chs r = map_option (Pair chs) r"

definition table_only :: "TrunkMessage \<Rightarrow> channels option \<Rightarrow> (channels \<times> TrunkMessage list) option" where
  "table_only m r = map_option (\<lambda>chs. (chs, [m])) r"

definition tsbk_dispatch :: "channels \<Rightarrow> bitset \<Rightarrow> int \<Rightarrow> ulong \<Rightarrow> TrunkMessage \<Rightarrow> (channels \<times> TrunkMessage list) option" where
  "tsbk_dispatch chs tsbk sys op m =
     (if op = 0x00 then keep_table chs (tsbk_group_grant chs tsbk sys m)
      else if op = 0x02 then keep_table chs (tsbk_group_update chs tsbk sys m)
      else if op = 0x03 then keep_table chs (tsbk_update_explicit chs tsbk sys m)
      else if op = 0x04 then keep_table chs (tsbk_uu_grant chs tsbk sys m)
      else if op = 0x05 then keep_table chs (Some (tsbk_uu_answer_request tsbk m))
      else if op = 0x06 then keep_table chs (tsbk_uu_update chs tsbk sys m)
      else if op = 0x14 then keep_table chs (tsbk_data_grant chs tsbk sys m)
      else if op = 0x20 then keep_table chs (Some (tsbk_acknowledge tsbk m))
      else if op = 0x28 then keep_table chs (Some (tsbk_affiliation tsbk m))
      else if op = 0x29 then keep_table chs (tsbk_secondary_cc chs tsbk sys m)
      else if op = 0x2b then keep_table chs (Some (tsbk_location tsbk m))
      else if op = 0x2c then keep_table chs (Some (tsbk_registration tsbk m))
      else if op = 0x2f then keep_table chs (Some (tsbk_deregistration tsbk m))
      else if op = 0x30 then keep_table chs (Some (tsbk_harris_patch tsbk m))
      else if op = 0x33 then table_only m (tsbk_iden_up_tdma chs tsbk sys)
      else if op = 0x34 then table_only m (Some (tsbk_iden_up_vu chs tsbk sys))
      else if op = 0x39 then keep_table chs (tsbk_secondary_cc chs tsbk sys m)
      else if op = 0x3a then keep_table chs (tsbk_rfss_status chs tsbk sys m)
      else if op = 0x3b then keep_table chs (tsbk_network_status chs tsbk sys m)
      else if op = 0x3c then keep_table chs (tsbk_adjacent_status chs tsbk sys m)
      else if op = 0x3d then table_only m (Some (tsbk_iden_up chs tsbk sys))
      else if tsbk_log_only op then keep_table chs (Some [m])
      else keep_table chs (Some []))"

definition decode_tsbk :: "TrunkMessage \<Rightarrow> channels \<Rightarrow> bitset \<Rightarrow> ulong \<Rightarrow> int \<Rightarrow> (channels \<times> TrunkMessage list) option" where
  "decode_tsbk junk chs tsbk nac sys =
     (let op = bitset_shift_mask tsbk 88 0x3f
      in tsbk_dispatch chs tsbk sys op (tsbk_init junk op nac sys))"

end
