(* ===== verification/P25_MBT.thy ===== *)
theory P25_MBT
  imports P25_TSBK
begin

text \<open>
  \<open>P25Parser::decode_mbt_data\<close> of \<open>trunk-recorder/systems/p25_parser.cc\<close>: multi-block trunking
  messages, with a header block and a data block. One definition per branch of the opcode
  dispatch; they share the helpers of the single-block decoder.
\<close>

definition mbt_group_grant ::
  "channels \<Rightarrow> bitset \<Rightarrow> bitset \<Rightarrow> int \<Rightarrow> TrunkMessage \<Rightarrow> TrunkMessage list option" where
  "mbt_group_grant chs header mbt_data sys m = do {
     let ch1 = bitset_shift_mask mbt_data 64 0xffff;
     let ch2 = bitset_shift_mask mbt_data 48 0xffff;
     let ga = bitset_shift_mask mbt_data 32 0xffff;
     f1 \<leftarrow> freq_of chs ch1 sys;
     f2 \<leftarrow> freq_of chs ch2 sys;
     let sa = bitset_shift_mask header 48 0xffffff;
     Some [set_tdma chs ch1 sys (set_options header 24
       (m\<lparr>tm_message_type := GRANT, tm_freq := double_of_ulong f1,
          tm_talkgroup := long_of_ulong ga, tm_source := long_of_ulong sa\<rparr>))]
   }"

definition mbt_regroup_grant ::
  "channels \<Rightarrow> bitset \<Rightarrow> int \<Rightarrow> TrunkMessage \<Rightarrow> TrunkMessage list option" where
  "mbt_regroup_grant chs mbt_data sys m =
     (if bitset_shift_mask mbt_data 168 0xff = 0x90 then do {
        let ch1 = bitset_shift_mask mbt_data 80 0xffff;
        let ch2 = bitset_shift_mask mbt_data 64 0xffff;
        let sg = bitset_shift_mask mbt_data 48 0xffff;
        f1 \<leftarrow> freq_of chs ch1 sys;
        f2 \<leftarrow> freq_of chs ch2 sys;
        Some [set_tdma chs ch1 sys
          (m\<lparr>tm_message_type := GRANT, tm_freq := double_of_ulong f1, tm_talkgroup := long_of_ulong sg\<rparr>)]
      } else Some [m])"

definition mbt_rfss_status ::
  "channels \<Rightarrow> bitset \<Rightarrow> bitset \<Rightarrow> int \<Rightarrow> TrunkMessage \<Rightarrow> TrunkMessage list option" where
  "mbt_rfss_status chs header mbt_data sys m = do {
     let syid = bitset_shift_mask header 48 0xfff;
     let rfid = bitset_shift_mask mbt_data 88 0xff;
     let stid = bitset_shift_mask mbt_data 80 0xff;
     let ch1 = bitset_shift_mask mbt_data 64 0xffff;
     _ \<leftarrow> freq_of chs ch1 sys;
     Some [m\<lparr>tm_message_type := SYSID, tm_sys_id := syid, tm_sys_rfss := int_of_ulong rfid,
             tm_sys_site_id := int_of_ulong stid\<rparr>]
   }"

definition mbt_network_status ::
  "channels \<Rightarrow> bitset \<Rightarrow> bitset \<Rightarrow> int \<Rightarrow> TrunkMessage \<Rightarrow> TrunkMessage list option" where
  "mbt_network_status chs header mbt_data sys m = do {
     let wacn = bitset_shift_mask mbt_data 76 0xfffff;
     let syid = bitset_shift_mask header 48 0xfff;
     let ch1 = bitset_shift_mask mbt_data 56 0xffff;
     let ch2 = bitset_shift_mask mbt_data 40 0xffff;
     f1 \<leftarrow> freq_of chs ch1 sys;
     f2 \<leftarrow> freq_of chs ch2 sys;
     Some [if f1 \<noteq> 0 \<and> f2 \<noteq> 0
           then m\<lparr>tm_message_type := STATUS, tm_wacn := wacn, tm_sys_id := syid, tm_freq := double_of_ulong f1\<rparr>
           else m]
   }"

definition mbt_uu_grant ::
  "channels \<Rightarrow> bitset \<Rightarrow> bitset \<Rightarrow> int \<Rightarrow> TrunkMessage \<Rightarrow> TrunkMessage list option" where
  "mbt_uu_grant chs header mbt_data sys m = do {
     let ch = bitset_shift_mask header 16 0xffff;
     f \<leftarrow> freq_of chs ch sys;
     let sa = bitset_shift_mask header 48 0xffffff;
     let ta = bitset_shift_mask mbt_data 24 0xffffff;
     Some [set_tdma chs ch sys (set_options header 24
       (m\<lparr>tm_message_type := UU_V_GRANT, tm_freq := double_of_ulong f,
          tm_talkgroup := long_of_ulong ta, tm_source := long_of_ulong sa\<rparr>))]
   }"

text \<open>
  The group affiliation response (0x28) and the adjacent status (0x3c) are only logged. Any
  other opcode yields no message at all.
\<close>

definition mbt_dispatch ::
  "channels \<Rightarrow> bitset \<Rightarrow> bitset \<Rightarrow> int \<Rightarrow> ulong \<Rightarrow> TrunkMessage \<Rightarrow> TrunkMessage list option" where
  "mbt_dispatch chs header mbt_data sys op m =
     (if op = 0x0 then mbt_group_grant chs header mbt_data sys m
      else if op = 0x02 then mbt_regroup_grant chs mbt_data sys m
      else if op = 0x28 then Some [m]
      else if op = 0x3a then mbt_rfss_status chs header mbt_data sys m
      else if op = 0x3b then mbt_network_status chs header mbt_data sys m
      else if op = 0x3c then Some [m]
      else if op = 0x04 then mbt_uu_grant chs header mbt_data sys m
      else Some [])"

text \<open>
  The source initialises the same fields as for a single block. The argument \<open>sa\<close> (the link
  identifier) is shadowed in every branch that could use it.
\<close>

definition decode_mbt_data ::
  "TrunkMessage \<Rightarrow> channels \<Rightarrow> ulong \<Rightarrow> bitset \<Rightarrow> bitset \<Rightarrow> ulong \<Rightarrow> ulong \<Rightarrow> int \<Rightarrow> TrunkMessage list option" where
  "decode_mbt_data junk chs op header mbt_data sa nac sys =
     mbt_dispatch chs header mbt_data sys op (tsbk_init junk op nac sys)"

end
