(* ===== verification/P25_Properties.thy ===== *)
theory P25_Properties
  imports P25_Parser
begin

text \<open>
  What the P25 parser (\<open>trunk-recorder/systems/p25_parser.cc\<close>) promises its caller: the claims
  about it, the lemmas they rest on, and a concrete run of each.
\<close>

section \<open>Reading fields of a block of ten octets\<close>

lemma sint_small:
  assumes "unat (w :: 'a :: len word) < 2 ^ (LENGTH('a) - 1)"
  shows "sint w = int (unat w)"
proof -
  have "uint w < 2 ^ (LENGTH('a) - 1)"
  proof -
    have "int (unat w) < int (2 ^ (LENGTH('a) - 1))" using assms by (simp only: of_nat_less_iff)
    then show ?thesis by simp
  qed
  moreover have "- (2 ^ (LENGTH('a) - 1)) \<le> uint w"
    by (rule order_trans [of _ 0]) simp_all
  ultimately have "signed_take_bit (LENGTH('a) - 1) (uint w) = uint w"
    by (intro signed_take_bit_int_eq_self)
  then show ?thesis by (simp add: sint_uint)
qed

lemma long_of_ulong_small: "unat w < 2 ^ 63 \<Longrightarrow> long_of_ulong w = int (unat w)"
  unfolding long_of_ulong_def by (rule sint_small) simp

lemma int_of_ulong_small:
  assumes "unat w < 2 ^ 31"
  shows "int_of_ulong w = int (unat w)"
proof -
  have "unat (ucast w :: 32 word) = unat w"
    using assms by (simp add: unsigned_ucast_eq take_bit_nat_eq_self)
  then show ?thesis
    using sint_small [of "ucast w :: 32 word"] assms by (simp add: int_of_ulong_def)
qed

lemma ucast_and_bit: "n < 8 \<Longrightarrow> ((ucast (c :: octet) :: ulong) AND push_bit n 1 \<noteq> 0) = bit c n"
  by (auto simp: and_exp_eq_0_iff_not_bit push_bit_of_1 bit_ucast_iff)

lemma ucast_and_low: "n \<le> 8 \<Longrightarrow> unat ((ucast (c :: octet) :: ulong) AND mask n) = unat c mod 2 ^ n"
  unfolding take_bit_eq_mask [symmetric]
  by (simp only: unsigned_take_bit_eq unat_ucast_octet) (simp add: take_bit_eq_mod)

lemma be_value_2: "be_value [a, b] < 2 ^ 16"
  using be_value_lt [of "[a, b]"] by simp

lemma be_value_3: "be_value [a, b, c] < 2 ^ 24"
  using be_value_lt [of "[a, b, c]"] by simp

lemma block_opcode:
  "bitset_shift_mask (load_octets [b0, b1, b2, b3, b4, b5, b6, b7, b8, b9] 2) 88 0x3f
     = word_of_nat (unat b0 mod 64)"
proof -
  have "bitset_shift_mask (load_octets [b0, b1, b2, b3, b4, b5, b6, b7, b8, b9] 2) 88 0x3f
      = ucast b0 AND 0x3f"
    by (rule bitset_field_octet [where xs = "[]" and zs = "[b1, b2, b3, b4, b5, b6, b7, b8, b9, 0, 0]"])
      (simp_all add: replicate_2)
  moreover have "unat (ucast b0 AND 0x3f :: ulong) = unat b0 mod 64"
    using ucast_and_low [of 6 b0] by (simp add: mask_eq_exp_minus_1)
  ultimately show ?thesis by (simp add: word_unat_eq_iff unat_ulong_of_nat)
qed

lemma block_mfrid:
  "bitset_shift_mask (load_octets [b0, b1, b2, b3, b4, b5, b6, b7, b8, b9] 2) 80 0xff = ucast b1"
proof -
  have "bitset_shift_mask (load_octets [b0, b1, b2, b3, b4, b5, b6, b7, b8, b9] 2) 80 0xff
      = ucast b1 AND 0xff"
    by (rule bitset_field_octet [where xs = "[b0]" and zs = "[b2, b3, b4, b5, b6, b7, b8, b9, 0, 0]"])
      (simp_all add: replicate_2)
  moreover have "unat (ucast b1 AND 0xff :: ulong) = unat b1 mod 256"
    using ucast_and_low [of 8 b1] by (simp add: mask_eq_exp_minus_1)
  ultimately show ?thesis using unat_octet_lt [of b1] by (simp add: word_unat_eq_iff)
qed

lemma block_options:
  "unat m < 256 \<Longrightarrow>
   bitset_shift_mask (load_octets [b0, b1, b2, b3, b4, b5, b6, b7, b8, b9] 2) 72 m = ucast b2 AND m"
  by (rule bitset_field_octet [where xs = "[b0, b1]" and zs = "[b3, b4, b5, b6, b7, b8, b9, 0, 0]"])
    (simp_all add: replicate_2)

lemma block_channel:
  "unat (bitset_shift_mask (load_octets [b0, b1, b2, b3, b4, b5, b6, b7, b8, b9] 2) 56 0xffff) = be_value [b3, b4]"
  by (rule bitset_field [where xs = "[b0, b1, b2]" and zs = "[b5, b6, b7, b8, b9, 0, 0]"])
    (simp_all add: replicate_2)

lemma block_group:
  "unat (bitset_shift_mask (load_octets [b0, b1, b2, b3, b4, b5, b6, b7, b8, b9] 2) 40 0xffff) = be_value [b5, b6]"
  by (rule bitset_field [where xs = "[b0, b1, b2, b3, b4]" and zs = "[b7, b8, b9, 0, 0]"])
    (simp_all add: replicate_2)

lemma block_source:
  "unat (bitset_shift_mask (load_octets [b0, b1, b2, b3, b4, b5, b6, b7, b8, b9] 2) 16 0xffffff) = be_value [b7, b8, b9]"
  by (rule bitset_field [where xs = "[b0, b1, b2, b3, b4, b5, b6]" and zs = "[0, 0]"])
    (simp_all add: replicate_2)

lemma block_base:
  "unat (bitset_shift_mask (load_octets [b0, b1, b2, b3, b4, b5, b6, b7, b8, b9] 2) 16 0xffffffff) = be_value [b6, b7, b8, b9]"
  by (rule bitset_field [where xs = "[b0, b1, b2, b3, b4, b5]" and zs = "[0, 0]"])
    (simp_all add: replicate_2)

lemma nibble_high:
  assumes "c < 256"
  shows "(x * 256 + c) div 16 mod 16 = c div (16 :: nat)"
proof -
  have "x * 256 + c = c + (x * 16) * 16" by simp
  then have "(x * 256 + c) div 16 = c div 16 + x * 16" by (simp only: div_mult_self3 div_mult_self1)
  then show ?thesis using assms by simp
qed

lemma ten_bits:
  assumes "c < 256"
  shows "((x * 256 + b) * 256 + c) mod 1024 = b mod 4 * 256 + (c :: nat)"
proof -
  define q r where "q = b div 4" and "r = b mod 4"
  have b: "b = q * 4 + r" unfolding q_def r_def by simp
  have r: "r \<le> 3" using mod_less_divisor [of 4 b] unfolding r_def by simp
  have "(x * 256 + b) * 256 + c = (r * 256 + c) + (x * 64 + q) * 1024" by (simp add: b)
  then have "((x * 256 + b) * 256 + c) mod 1024 = (r * 256 + c) mod 1024"
    by (simp only: mod_mult_self1)
  also have "\<dots> = r * 256 + c" using r assms by simp
  finally show ?thesis by (simp add: r_def)
qed

text \<open>The fields of an identifier update that do not fall on octet boundaries.\<close>

lemma block_iden:
  "unat (bitset_shift_mask (load_octets [b0, b1, b2, b3, b4, b5, b6, b7, b8, b9] 2) 76 0xf) = unat b2 div 16"
proof -
  have "unat (bitset_shift_mask (load_octets [b0, b1, b2, b3, b4, b5, b6, b7, b8, b9] 2) 76 0xf)
      = be_value [b0, b1, b2] div 2 ^ 4 mod 2 ^ 4"
    by (rule bitset_field_bits [where zs = "[b3, b4, b5, b6, b7, b8, b9, 0, 0]"])
      (simp_all add: replicate_2)
  also have "\<dots> = unat b2 div 16"
    using nibble_high [OF unat_octet_lt, of "be_value [b0, b1]" b2] be_value_append [of "[b0, b1]" "[b2]"]
    by (simp add: be_value_Cons algebra_simps)
  finally show ?thesis .
qed

lemma block_spacing:
  "unat (bitset_shift_mask (load_octets [b0, b1, b2, b3, b4, b5, b6, b7, b8, b9] 2) 48 0x3ff)
     = unat b4 mod 4 * 256 + unat b5"
proof -
  have "unat (bitset_shift_mask (load_octets [b0, b1, b2, b3, b4, b5, b6, b7, b8, b9] 2) 48 0x3ff)
      = be_value [b0, b1, b2, b3, b4, b5] div 2 ^ 0 mod 2 ^ 10"
    by (rule bitset_field_bits [where zs = "[b6, b7, b8, b9, 0, 0]"])
      (simp_all add: replicate_2)
  also have "be_value [b0, b1, b2, b3, b4, b5]
      = (be_value [b0, b1, b2, b3] * 256 + unat b4) * 256 + unat b5"
    using be_value_append [of "[b0, b1, b2, b3]" "[b4, b5]"] by (simp add: be_value_Cons)
  also have "\<dots> div 2 ^ 0 mod 2 ^ 10 = unat b4 mod 4 * 256 + unat b5"
    using ten_bits [OF unat_octet_lt, of "be_value [b0, b1, b2, b3]" "unat b4" b5] by simp
  finally show ?thesis .
qed

lemmas block_fields =
  block_opcode block_mfrid block_options block_channel block_group block_source block_base block_iden block_spacing

text \<open>A channel number is an identifier of four bits and a channel of twelve.\<close>

lemma chan_number_nat: "nat (chan_number (int n)) = n mod 4096"
proof -
  have "chan_number (int n) = take_bit 12 (int n)"
    by (simp add: chan_number_def take_bit_eq_mask mask_eq_exp_minus_1)
  also have "\<dots> = int (n mod 4096)" by (simp add: take_bit_eq_mod zmod_int)
  finally show ?thesis by simp
qed

lemma chan_table_nat: "chan_table (int n) = int (n div 4096 mod 16)"
proof -
  have "chan_table (int n) = take_bit 4 (drop_bit 12 (int n))"
    by (simp add: chan_table_def take_bit_eq_mask mask_eq_exp_minus_1)
  also have "\<dots> = int (n div 4096 mod 16)" by (simp add: take_bit_eq_mod drop_bit_eq_div zmod_int zdiv_int)
  finally show ?thesis .
qed

lemma chan_table_octets: "chan_table (int (be_value [h, l])) = int (unat h div 16)"
proof -
  have "(unat h * 256 + unat l) div 256 = unat h"
    using unat_octet_lt [of l] by simp
  then have "(unat h * 256 + unat l) div 4096 = unat h div 16"
    using div_mult2_eq [of "unat h * 256 + unat l" 256 16] by simp
  then show ?thesis
    using unat_octet_lt [of h] chan_table_nat [of "unat h * 256 + unat l"]
    by (simp add: be_value_Cons del: of_nat_add of_nat_mult of_nat_unat)
qed

text \<open>The numbers a branch converts: channel, group and source of a block.\<close>

lemma unat_ucast_eq_iff: "(ucast (c :: octet) :: ulong) = w \<longleftrightarrow> unat c = unat w"
  by (simp add: word_unat_eq_iff del: unsigned_ucast_eq)

lemma block_channel_int:
  "int_of_ulong (bitset_shift_mask (load_octets [b0, b1, b2, b3, b4, b5, b6, b7, b8, b9] 2) 56 0xffff)
     = int (be_value [b3, b4])"
  using be_value_2 [of b3 b4] by (subst int_of_ulong_small) (simp_all add: block_channel)

lemma block_group_int:
  "long_of_ulong (bitset_shift_mask (load_octets [b0, b1, b2, b3, b4, b5, b6, b7, b8, b9] 2) 40 0xffff)
     = int (be_value [b5, b6])"
  using be_value_2 [of b5 b6] by (subst long_of_ulong_small) (simp_all add: block_group)

lemma block_source_int:
  "long_of_ulong (bitset_shift_mask (load_octets [b0, b1, b2, b3, b4, b5, b6, b7, b8, b9] 2) 16 0xffffff)
     = int (be_value [b7, b8, b9])"
  using be_value_3 [of b7 b8 b9] by (subst long_of_ulong_small) (simp_all add: block_source)

lemma option_bits:
  "((ucast (c :: octet) :: ulong) AND 0x80 \<noteq> 0) = bit c 7"
  "((ucast (c :: octet) :: ulong) AND 0x40 \<noteq> 0) = bit c 6"
  "((ucast (c :: octet) :: ulong) AND 0x20 \<noteq> 0) = bit c 5"
  "((ucast (c :: octet) :: ulong) AND 0x10 \<noteq> 0) = bit c 4"
  using ucast_and_bit [of 7 c] ucast_and_bit [of 6 c] ucast_and_bit [of 5 c] ucast_and_bit [of 4 c]
  by (simp_all add: push_bit_of_1)

lemma option_priority: "int_of_ulong (ucast (c :: octet) AND 0x07) = int (unat c mod 8)"
proof -
  have "unat (ucast c AND 0x07 :: ulong) = unat c mod 8"
    using ucast_and_low [of 3 c] by (simp add: mask_eq_exp_minus_1)
  then show ?thesis by (subst int_of_ulong_small) simp_all
qed

text \<open>Storing a channel frequency in an \<open>unsigned long\<close> and in a message loses nothing.\<close>

lemma freq_of_lossless:
  assumes "channels_ok chs"
  obtains w where "channel_freq chs i sys = Some w"
    and "Some (double_of_ulong w) = channel_id_to_frequency chs i sys"
proof -
  obtain n where n: "channel_id_to_frequency chs i sys = Some (of_nat n)" "n < 2 ^ 53"
    using channel_id_to_frequency_ok [OF assms] .
  then have "channel_freq chs i sys = Some (word_of_nat n)"
    by (simp add: channel_freq_def ulong_of_double_of_nat)
  moreover have "double_of_ulong (word_of_nat n) = of_nat n"
    using n(2) unat_ulong_of_nat [of n] double_of_ulong_exact [of "word_of_nat n"] by simp
  ultimately show ?thesis using that n(1) by metis
qed

lemma nac_octets:
  "unat (ucast (n0 :: octet) * 256 + ucast (n1 :: octet) :: ulong) = be_value [n0, n1]"
proof -
  have "(ucast n0 * 256 + ucast n1 :: ulong) = word_of_nat (be_value [n0, n1])"
    by (simp add: be_value_Cons)
  then show ?thesis
    using be_value_2 [of n0 n1] by (simp add: unat_ulong_of_nat)
qed

lemma nac_not_tdma: "n0 \<noteq> 0xff \<Longrightarrow> (ucast (n0 :: octet) * 256 + ucast (n1 :: octet) :: ulong) \<noteq> 0xffff"
proof
  assume n0: "n0 \<noteq> 0xff" and eq: "(ucast n0 * 256 + ucast n1 :: ulong) = 0xffff"
  have "unat n0 \<noteq> 255" using n0 by (simp add: word_unat_eq_iff)
  then have "unat n0 \<le> 254" using unat_octet_lt [of n0] by simp
  moreover have "unat n0 * 256 + unat n1 = 65535"
    using nac_octets [of n0 n1] unfolding eq by (simp add: be_value_Cons)
  ultimately show False using unat_octet_lt [of n1] by linarith
qed

text \<open>A message as the stack might hold it before a decoder writes to it.\<close>

definition example_message :: TrunkMessage where
  "example_message = \<lparr>tm_message_type = UNKNOWN, tm_freq = 0, tm_talkgroup = 0, tm_encrypted = False,
     tm_emergency = False, tm_duplex = False, tm_mode = False, tm_priority = 0, tm_tdma_slot = 0,
     tm_phase2_tdma = False, tm_source = 0, tm_sys_num = 0, tm_sys_id = 0, tm_sys_rfss = 0,
     tm_sys_site_id = 0, tm_nac = 0, tm_wacn = 0, tm_patch_data = \<lparr>pd_sg = 0, pd_ga1 = 0, pd_ga2 = 0, pd_ga3 = 0\<rparr>,
     tm_opcode = 0\<rparr>"

section \<open>Claims\<close>

text \<open>
  C8. With a well-formed channel table, decoding a trunking signalling block has a defined
  result except for one malformed block: a TDMA identifier update (opcode 0x33, standard
  manufacturer) whose 4-bit channel type is 6 or more, which reads past the end of the array
  of slot counts. Every table a defined run leaves behind is well-formed again.
\<close>

theorem decode_tsbk_fails_iff:
  assumes "channels_ok chs"
  shows "(decode_tsbk junk chs tsbk nac sys = None \<longleftrightarrow>
      bitset_shift_mask tsbk 88 0x3f = 0x33 \<and> bitset_shift_mask tsbk 80 0xff = 0
      \<and> 6 \<le> unat (bitset_shift_mask tsbk 72 0xf))
    \<and> (\<forall>chs' ms. decode_tsbk junk chs tsbk nac sys = Some (chs', ms) \<longrightarrow> channels_ok chs')"
proof -
  let ?op = "bitset_shift_mask tsbk 88 0x3f"
  have d: "decode_tsbk junk chs tsbk nac sys = tsbk_dispatch chs tsbk sys ?op (tsbk_init junk ?op nac sys)"
    by (simp add: decode_tsbk_def Let_def)
  have none: "6 \<le> unat (bitset_shift_mask tsbk 72 0xf) \<Longrightarrow> bitset_shift_mask tsbk 80 0xff = 0
      \<Longrightarrow> tsbk_dispatch chs tsbk sys 0x33 m = None" for m
    by (simp add: tsbk_dispatch_def tsbk_iden_up_tdma_def slots_table_def table_only_def)
  show ?thesis
    using tsbk_dispatch_ok [OF assms, of tsbk sys ?op "tsbk_init junk ?op nac sys"] none
    unfolding d by (cases "tsbk_dispatch chs tsbk sys ?op (tsbk_init junk ?op nac sys)") auto
qed

theorem decode_tsbk_fails_iff_witness:
  "decode_tsbk example_message no_channels (load_octets [0x33, 0, 0xF7, 0, 0, 0, 0, 0, 0, 0] 2) 1 0 = None"
proof -
  let ?b = "load_octets [0x33, 0, 0xF7, 0, 0, 0, 0, 0, 0, 0] 2"
  have "bitset_shift_mask ?b 88 0x3f = 0x33" "bitset_shift_mask ?b 80 0xff = 0"
    "bitset_shift_mask ?b 72 0xf = 7"
    by (simp_all add: block_opcode block_mfrid block_options)
  then show ?thesis
    using decode_tsbk_fails_iff [OF channels_ok_empty, of example_message ?b 1 0] by simp
qed

text \<open>
  C10. In every table a running parser can reach, a channel number with a table entry denotes
  exactly the whole number of hertz the entry prescribes: base frequency plus spacing times
  the carrier index. The 64-bit arithmetic does not wrap, no division by zero occurs, and
  neither conversion to \<open>double\<close> nor the way back loses anything.
\<close>

theorem p25_frequency_exact:
  assumes "p25_reachable chs" and "chs sys (chan_table i) = Some c"
  shows "channel_id_to_frequency chs i sys = Some (of_nat (carrier_hz c (chan_number i)))
    \<and> carrier_hz c (chan_number i) < 2 ^ 53
    \<and> channel_freq chs i sys = Some (word_of_nat (carrier_hz c (chan_number i)))"
proof -
  have ok: "channels_ok chs" using assms(1) by (rule p25_reachable_ok)
  show ?thesis
    using channel_id_to_frequency_known [OF ok assms(2)]
      carrier_hz_bound [OF channels_okD [OF ok assms(2)] chan_number_range]
    by (simp add: channel_freq_def ulong_of_double_of_nat)
qed

theorem p25_frequency_exact_witness:
  "channel_id_to_frequency (fst (the (parse_message example_message no_channels 7
      [1, 2, 0x34, 0, 0, 0, 0, 100, 0, 0, 1, 0] 0))) 3 0 = Some (256 * 5 + 100 * 125 * 3)"
proof -
  let ?b = "load_octets [0x34, 0, 0, 0, 0, 100, 0, 0, 1, 0] 2"
  let ?chs = "tsbk_iden_up_vu no_channels ?b 0"
  have nac: "(ucast (1 :: octet) * 256 + ucast (2 :: octet) :: ulong) \<noteq> 0xffff"
    by (rule nac_not_tdma) simp
  have parse: "\<exists>ms. parse_message example_message no_channels 7 [1, 2, 0x34, 0, 0, 0, 0, 100, 0, 0, 1, 0] 0 = Some (?chs, ms)"
    using nac by (simp add: parse_message_def decode_tsbk_def Let_def block_opcode tsbk_dispatch_def
        table_only_def)
  then obtain ms where ms: "parse_message example_message no_channels 7 [1, 2, 0x34, 0, 0, 0, 0, 100, 0, 0, 1, 0] 0 = Some (?chs, ms)"
    by blast
  have reach: "p25_reachable ?chs" by (rule p25_step [OF p25_start ms])
  have iden: "bitset_shift_mask ?b 76 0xf = 0" "bitset_shift_mask ?b 48 0x3ff = 100"
    "bitset_shift_mask ?b 16 0xffffffff = 256"
    using block_iden [of "0x34" 0 0 0 0 100 0 0 1 0] block_spacing [of "0x34" 0 0 0 0 100 0 0 1 0]
      block_base [of "0x34" 0 0 0 0 100 0 0 1 0]
    by (simp_all add: word_unat_eq_iff be_value_Cons)
  obtain c where c: "?chs 0 (chan_table 3) = Some c" "ch_frequency c = 1280" "ch_step c = 12500"
      "\<not> ch_phase2_tdma c"
    by (simp add: tsbk_iden_up_vu_def Let_def add_channel_def iden chan_table_def int_of_ulong_def)
  have "carrier_hz c (chan_number 3) = 38780"
    using c by (simp add: carrier_hz_def chan_number_def)
  then show ?thesis
    using p25_frequency_exact [OF reach c(1)] ms by simp
qed

text \<open>
  A group voice channel grant on the air (message type 7; ten octets after the two of the
  access code, opcode 0, not the Motorola regrouping variant) becomes one message of type
  \<open>GRANT\<close> whose channel, talkgroup and source are the octets 3-4, 5-6 and 7-9 of the block,
  and whose flags and priority are the bits of octet 2. The table is unchanged.
\<close>

theorem group_grant_octets:
  assumes "channels_ok chs" and "unat b0 mod 64 = 0" and "b1 \<noteq> 0x90"
    and "n0 \<noteq> 0xff"
  shows "\<exists>m. parse_message junk chs 7 [n0, n1, b0, b1, b2, b3, b4, b5, b6, b7, b8, b9] sys = Some (chs, [m])
    \<and> tm_message_type m = GRANT
    \<and> Some (tm_freq m) = channel_id_to_frequency chs (int (be_value [b3, b4])) sys
    \<and> tm_talkgroup m = int (be_value [b5, b6])
    \<and> tm_source m = int (be_value [b7, b8, b9])
    \<and> tm_emergency m = bit b2 7 \<and> tm_encrypted m = bit b2 6
    \<and> tm_duplex m = bit b2 5 \<and> tm_mode m = bit b2 4
    \<and> tm_priority m = int (unat b2 mod 8)
    \<and> tm_phase2_tdma m = (0 \<le> get_tdma_slot chs (int (be_value [b3, b4])) sys)
    \<and> tm_tdma_slot m = max 0 (get_tdma_slot chs (int (be_value [b3, b4])) sys)
    \<and> tm_sys_num m = sys \<and> unat (tm_nac m) = be_value [n0, n1]"
proof -
  let ?b = "load_octets [b0, b1, b2, b3, b4, b5, b6, b7, b8, b9] 2"
  let ?ch = "int (be_value [b3, b4])"
  obtain w where w: "channel_freq chs ?ch sys = Some w"
    and f: "Some (double_of_ulong w) = channel_id_to_frequency chs ?ch sys"
    using freq_of_lossless [OF assms(1)] .
  have op: "bitset_shift_mask ?b 88 0x3f = 0" by (simp add: block_opcode assms(2))
  have mf: "bitset_shift_mask ?b 80 0xff \<noteq> 0x90"
    using assms(3) by (simp add: block_mfrid unat_ucast_eq_iff word_unat_eq_iff)
  have fr: "freq_of chs (bitset_shift_mask ?b 56 0xffff) sys = Some w"
    by (simp add: block_channel_int w)
  show ?thesis
    using nac_not_tdma [OF assms(4), of n1] f
    by (simp add: parse_message_def decode_tsbk_def Let_def op tsbk_dispatch_def keep_table_def
        tsbk_group_grant_def mf w fr set_tdma_def set_options_def tsbk_init_def block_channel_int
        block_group_int block_source_int block_options option_bits option_priority nac_octets)
qed

theorem group_grant_octets_witness:
  "\<exists>m. parse_message example_message no_channels 7 [0x02, 0x93, 0x40, 0, 0x87, 0x10, 5, 0, 7, 0, 1, 9] 3 = Some (no_channels, [m])
    \<and> tm_message_type m = GRANT \<and> tm_talkgroup m = 7 \<and> tm_source m = 265
    \<and> tm_emergency m \<and> \<not> tm_encrypted m \<and> tm_priority m = 7 \<and> tm_sys_num m = 3"
proof -
  have "unat (0x40 :: octet) mod 64 = 0" "(0 :: octet) \<noteq> 0x90" "(0x02 :: octet) \<noteq> 0xff" by simp_all
  from group_grant_octets [OF channels_ok_empty this, of example_message "0x93" "0x87" "0x10" 5 0 7 0 1 9 3]
  show ?thesis by (auto simp: be_value_Cons)
qed

text \<open>
  C40. An FDMA identifier update (opcode 0x3d) makes the parser know the band plan it
  announces: for every channel number of that identifier, the frequency a later grant gets is
  five times the 32-bit base plus 125 times the 10-bit spacing times the 12-bit channel, all
  read from the octets of the two blocks; entries of other identifiers and of other systems
  are untouched.
\<close>

theorem iden_up_then_frequency:
  assumes op: "unat b0 mod 64 = 0x3d" and iden: "unat h div 16 = unat b2 div 16"
  shows "\<exists>chs' m. decode_tsbk junk chs (load_octets [b0, b1, b2, b3, b4, b5, b6, b7, b8, b9] 2) nac sys
      = Some (chs', [m]) \<and> tm_message_type m = UNKNOWN
    \<and> channel_id_to_frequency chs' (int (be_value [h, l])) sys
        = Some (of_nat (5 * be_value [b6, b7, b8, b9]
            + 125 * (unat b4 mod 4 * 256 + unat b5) * (be_value [h, l] mod 4096)))
    \<and> (\<forall>s i. s \<noteq> sys \<or> i \<noteq> int (unat b2 div 16) \<longrightarrow> chs' s i = chs s i)"
proof -
  let ?b = "load_octets [b0, b1, b2, b3, b4, b5, b6, b7, b8, b9] 2"
  let ?chs = "tsbk_iden_up chs ?b sys" and ?n = "int (be_value [h, l])"
  have opc: "bitset_shift_mask ?b 88 0x3f = 0x3d" by (simp add: block_opcode op)
  have dec: "decode_tsbk junk chs ?b nac sys = Some (?chs, [tsbk_init junk 0x3d nac sys])"
    by (simp add: decode_tsbk_def opc tsbk_dispatch_def table_only_def Let_def)
  have id: "int_of_ulong (bitset_shift_mask ?b 76 0xf) = int (unat b2 div 16)"
    using unat_octet_lt [of b2] by (subst int_of_ulong_small) (simp_all add: block_iden)
  have tab: "chan_table ?n = int (unat b2 div 16)"
    using unat_octet_lt [of h] iden by (simp add: chan_table_octets)
  define c where "c = the (?chs sys (int (unat b2 div 16)))"
  have c: "?chs sys (chan_table ?n) = Some c"
    by (simp add: c_def tab tsbk_iden_up_def Let_def add_channel_def id)
  have cf: "ch_frequency c = bitset_shift_mask ?b 16 0xffffffff * 5"
      "ch_step c = bitset_shift_mask ?b 48 0x3ff * 125" "\<not> ch_phase2_tdma c"
    by (simp_all add: c_def tsbk_iden_up_def Let_def add_channel_def id)
  have base: "unat (bitset_shift_mask ?b 16 0xffffffff) \<le> 2 ^ 32 - 1"
    and spac: "unat (bitset_shift_mask ?b 48 0x3ff) \<le> 1023"
    by (rule shift_mask_bound, simp)+
  have cok: "channel_ok c"
    using base spac unat_mult_ulong [of "bitset_shift_mask ?b 16 0xffffffff" 5]
      unat_mult_ulong [of "bitset_shift_mask ?b 48 0x3ff" 125]
    by (simp add: channel_ok_def cf)
  have "carrier_hz c (chan_number ?n) = 5 * be_value [b6, b7, b8, b9]
      + 125 * (unat b4 mod 4 * 256 + unat b5) * (be_value [h, l] mod 4096)"
    using base spac unat_mult_ulong [of "bitset_shift_mask ?b 16 0xffffffff" 5]
      unat_mult_ulong [of "bitset_shift_mask ?b 48 0x3ff" 125]
    by (simp add: carrier_hz_def cf block_base block_spacing chan_number_nat)
  then show ?thesis
    using channel_id_to_frequency_entry [of c ?chs sys ?n, OF cok c] dec
    by (auto simp: tsbk_init_def tsbk_iden_up_def Let_def add_channel_def id)
qed

theorem iden_up_then_frequency_witness:
  "\<exists>chs' m. decode_tsbk example_message no_channels (load_octets [0x3d, 0, 0x10, 0, 0, 100, 0, 0, 1, 0] 2) 1 0 = Some (chs', [m])
    \<and> channel_id_to_frequency chs' (int (be_value [0x10, 7])) 0 = Some (1280 + 12500 * 7)"
proof -
  have "unat (0x3d :: octet) mod 64 = 0x3d" "unat (0x10 :: octet) div 16 = unat (0x10 :: octet) div 16"
    by simp_all
  from iden_up_then_frequency [OF this, of example_message no_channels 0 0 0 100 0 0 1 0 1 0 7]
  show ?thesis by (auto simp: be_value_Cons)
qed

text \<open>The two fields that describe a TDMA slot agree.\<close>

definition tdma_consistent :: "TrunkMessage \<Rightarrow> bool" where
  "tdma_consistent m \<longleftrightarrow> (if tm_phase2_tdma m then tm_tdma_slot m \<in> {0, 1} else tm_tdma_slot m = 0)"

lemma tdma_consistent_init: "tdma_consistent (tsbk_init junk op nac sys)"
  by (simp add: tdma_consistent_def tsbk_init_def)

lemma tdma_consistent_set: "tdma_consistent (set_tdma chs ch sys m)"
  using get_tdma_slot_range [of chs "int_of_ulong ch" sys]
  by (auto simp: tdma_consistent_def set_tdma_def)

lemma tdma_consistent_frame [simp]:
  "tdma_consistent (m\<lparr>tm_message_type := t\<rparr>) = tdma_consistent m"
  "tdma_consistent (m\<lparr>tm_freq := f\<rparr>) = tdma_consistent m"
  "tdma_consistent (m\<lparr>tm_talkgroup := g\<rparr>) = tdma_consistent m"
  "tdma_consistent (m\<lparr>tm_source := s\<rparr>) = tdma_consistent m"
  "tdma_consistent (m\<lparr>tm_sys_id := i\<rparr>) = tdma_consistent m"
  "tdma_consistent (m\<lparr>tm_wacn := i\<rparr>) = tdma_consistent m"
  "tdma_consistent (m\<lparr>tm_sys_rfss := r\<rparr>) = tdma_consistent m"
  "tdma_consistent (m\<lparr>tm_sys_site_id := r\<rparr>) = tdma_consistent m"
  "tdma_consistent (m\<lparr>tm_patch_data := p\<rparr>) = tdma_consistent m"
  "tdma_consistent (m\<lparr>tm_emergency := e\<rparr>) = tdma_consistent m"
  "tdma_consistent (m\<lparr>tm_encrypted := e\<rparr>) = tdma_consistent m"
  "tdma_consistent (m\<lparr>tm_duplex := e\<rparr>) = tdma_consistent m"
  "tdma_consistent (m\<lparr>tm_mode := e\<rparr>) = tdma_consistent m"
  "tdma_consistent (m\<lparr>tm_priority := q\<rparr>) = tdma_consistent m"
  "tdma_consistent (m\<lparr>tm_phase2_tdma := False, tm_tdma_slot := 0\<rparr>)"
  by (simp_all add: tdma_consistent_def)

lemmas tsbk_pure_defs =
  tsbk_patch_add_def tsbk_uu_answer_request_def tsbk_acknowledge_def tsbk_affiliation_def
  tsbk_location_def tsbk_registration_def tsbk_deregistration_def tsbk_harris_patch_def

lemma tdma_consistent_dispatch:
  assumes "tsbk_dispatch chs b sys op m0 = Some (chs', ms)" and "m \<in> set ms"
    and "tdma_consistent m0" and "\<not> (op = 0x03 \<and> bitset_shift_mask b 80 0xff \<noteq> 0x90)"
  shows "tdma_consistent m"
  using assms
  by (auto simp: tsbk_dispatch_def keep_table_def table_only_def dispatch_simps tsbk_pure_defs
      set_options_def Let_def tdma_consistent_set bind_eq_Some_conv split: if_splits)

text \<open>
  The slot of a decoded message is consistent: a message marked as TDMA names slot 0 or 1,
  any other has slot 0. The one exception is the standard explicit grant update (opcode 0x03),
  which tests the first channel but takes the slot from the second.
\<close>

theorem decode_tsbk_tdma_consistent:
  assumes "decode_tsbk junk chs b nac sys = Some (chs', ms)" and "m \<in> set ms"
    and "\<not> (bitset_shift_mask b 88 0x3f = 0x03 \<and> bitset_shift_mask b 80 0xff \<noteq> 0x90)"
  shows "tdma_consistent m"
  using assms tdma_consistent_dispatch tdma_consistent_init
  unfolding decode_tsbk_def Let_def by blast

theorem decode_tsbk_tdma_consistent_witness:
  "\<exists>m. decode_tsbk example_message no_channels (load_octets [0x20, 0, 0, 0, 0, 0, 7, 0, 0, 9] 2) 1 0 = Some (no_channels, [m])
    \<and> tm_message_type m = ACKNOWLEDGE \<and> tdma_consistent m"
proof -
  let ?b = "load_octets [0x20, 0, 0, 0, 0, 0, 7, 0, 0, 9] 2"
  have op: "bitset_shift_mask ?b 88 0x3f = 0x20" by (simp add: block_opcode)
  then obtain m where m: "decode_tsbk example_message no_channels ?b 1 0 = Some (no_channels, [m])"
      "tm_message_type m = ACKNOWLEDGE"
    by (simp add: decode_tsbk_def tsbk_dispatch_def keep_table_def tsbk_acknowledge_def Let_def)
  moreover have "tdma_consistent m"
    by (rule decode_tsbk_tdma_consistent [OF m(1)]) (simp_all add: op)
  ultimately show ?thesis by blast
qed

text \<open>
  The exception to the consistency of slots is real: when the first channel of a standard explicit update is on
  a TDMA carrier and the second is not, the message is marked as TDMA and carries the slot -1.
\<close>

theorem explicit_update_wrong_slot:
  assumes "channels_ok chs"
    and "bitset_shift_mask b 88 0x3f = 0x03" and "bitset_shift_mask b 80 0xff \<noteq> 0x90"
    and "0 \<le> get_tdma_slot chs (int_of_ulong (bitset_shift_mask b 48 0xffff)) sys"
    and "get_tdma_slot chs (int_of_ulong (bitset_shift_mask b 32 0xffff)) sys = - 1"
  shows "\<exists>m. decode_tsbk junk chs b nac sys = Some (chs, [m]) \<and> tm_message_type m = UPDATE
    \<and> tm_phase2_tdma m \<and> tm_tdma_slot m = - 1"
proof -
  obtain w1 where w1: "freq_of chs (bitset_shift_mask b 48 0xffff) sys = Some w1"
    using channel_freq_ok [OF assms(1)] by blast
  obtain w2 where w2: "freq_of chs (bitset_shift_mask b 32 0xffff) sys = Some w2"
    using channel_freq_ok [OF assms(1)] by blast
  show ?thesis
    using assms(3-5) by (simp add: decode_tsbk_def assms(2) tsbk_dispatch_def keep_table_def
        tsbk_update_explicit_def tsbk_explicit_update_def Let_def w1 w2)
qed

text \<open>
  A table with identifier 1 on a two-slot TDMA carrier and identifier 0 on an FDMA carrier.
\<close>

definition example_channels :: channels where
  "example_channels = add_channel (add_channel no_channels 0
      \<lparr>ch_id = 0, ch_offset = 0, ch_step = 12500, ch_frequency = 851006250, ch_phase2_tdma = False,
       ch_slots_per_carrier = 1, ch_bandwidth = 125 / 10\<rparr> 0) 1
      \<lparr>ch_id = 1, ch_offset = 0, ch_step = 12500, ch_frequency = 770006250, ch_phase2_tdma = True,
       ch_slots_per_carrier = 2, ch_bandwidth = 625 / 100\<rparr> 0"

lemma example_channels_ok: "channels_ok example_channels"
  unfolding example_channels_def
  by (intro channels_ok_add channels_ok_empty) (simp_all add: channel_ok_def)

theorem explicit_update_wrong_slot_witness:
  "\<exists>m. decode_tsbk example_message example_channels (load_octets [0x03, 0, 0, 0, 0x10, 5, 0, 5, 0, 9] 2) 1 0
      = Some (example_channels, [m]) \<and> tm_phase2_tdma m \<and> tm_tdma_slot m = - 1"
proof -
  let ?b = "load_octets [0x03, 0, 0, 0, 0x10, 5, 0, 5, 0, 9] 2"
  have "unat (bitset_shift_mask ?b 48 0xffff) = be_value [0x10, 5]"
    by (rule bitset_field [where xs = "[0x03, 0, 0, 0]" and zs = "[0, 5, 0, 9, 0, 0]"])
      (simp_all add: replicate_2)
  then have c1: "bitset_shift_mask ?b 48 0xffff = 0x1005" by (simp add: be_value_Cons word_unat_eq_iff)
  have "unat (bitset_shift_mask ?b 32 0xffff) = be_value [0, 5]"
    by (rule bitset_field [where xs = "[0x03, 0, 0, 0, 0x10, 5]" and zs = "[0, 9, 0, 0]"])
      (simp_all add: replicate_2)
  then have c2: "bitset_shift_mask ?b 32 0xffff = 5" by (simp add: be_value_Cons word_unat_eq_iff)
  have slots: "get_tdma_slot example_channels (int_of_ulong 0x1005) 0 = 1"
    "get_tdma_slot example_channels (int_of_ulong 5) 0 = - 1"
    by (simp_all add: int_of_ulong_def get_tdma_slot_def example_channels_def add_channel_def
        chan_table_def chan_number_def)
  from explicit_update_wrong_slot [OF example_channels_ok, of ?b 0 example_message 1] slots
  show ?thesis by (auto simp: block_opcode block_mfrid c1 c2)
qed

text \<open>
  A grant update (opcode 0x02) announces two calls. When both are on the same carrier of a
  TDMA identifier, in different slots, their frequencies are equal and the parser reports only
  the first: the second talkgroup is lost.
\<close>

theorem update_same_carrier_loses_second:
  assumes "channels_ok chs"
    and "bitset_shift_mask b 88 0x3f = 0x02" and "bitset_shift_mask b 80 0xff \<noteq> 0x90"
    and "i1 = int_of_ulong (bitset_shift_mask b 64 0xffff)"
    and "i2 = int_of_ulong (bitset_shift_mask b 32 0xffff)"
    and "chan_table i1 = chan_table i2" and "chs sys (chan_table i1) = Some c"
    and "chan_number i1 div ch_slots_per_carrier c = chan_number i2 div ch_slots_per_carrier c"
    and "ch_phase2_tdma c"
  shows "\<exists>m. decode_tsbk junk chs b nac sys = Some (chs, [m])
    \<and> tm_talkgroup m = long_of_ulong (bitset_shift_mask b 48 0xffff)
    \<and> tm_tdma_slot m = get_tdma_slot chs i1 sys"
proof -
  have c2: "chs sys (chan_table i2) = Some c" using assms(6,7) by simp
  have "carrier_hz c (chan_number i1) = carrier_hz c (chan_number i2)"
    using assms(8,9) by (simp add: carrier_hz_def)
  then have eq: "channel_freq chs i1 sys = channel_freq chs i2 sys"
    using channel_id_to_frequency_known [of chs sys i1 c, OF assms(1,7)]
      channel_id_to_frequency_known [of chs sys i2 c, OF assms(1) c2]
    by (simp add: channel_freq_def)
  obtain w where w: "channel_freq chs i2 sys = Some w" using channel_freq_ok [OF assms(1)] by blast
  have slot: "0 \<le> get_tdma_slot chs i1 sys"
    using assms(7,9) by (simp add: get_tdma_slot_def)
  show ?thesis
    using assms(3) eq w slot
    by (simp add: decode_tsbk_def assms(2) tsbk_dispatch_def keep_table_def tsbk_group_update_def
        tsbk_update_pair_def Let_def set_tdma_def flip: assms(4,5))
qed

theorem update_same_carrier_loses_second_witness:
  "\<exists>m. decode_tsbk example_message example_channels (load_octets [0x02, 0, 0x10, 4, 0, 7, 0x10, 5, 0, 8] 2) 1 0
      = Some (example_channels, [m]) \<and> tm_talkgroup m = 7 \<and> tm_tdma_slot m = 0"
proof -
  let ?b = "load_octets [0x02, 0, 0x10, 4, 0, 7, 0x10, 5, 0, 8] 2"
  have "unat (bitset_shift_mask ?b 64 0xffff) = be_value [0x10, 4]"
    by (rule bitset_field [where xs = "[0x02, 0]" and zs = "[0, 7, 0x10, 5, 0, 8, 0, 0]"])
      (simp_all add: replicate_2)
  then have c1: "bitset_shift_mask ?b 64 0xffff = 0x1004" by (simp add: be_value_Cons word_unat_eq_iff)
  have "unat (bitset_shift_mask ?b 48 0xffff) = be_value [0, 7]"
    by (rule bitset_field [where xs = "[0x02, 0, 0x10, 4]" and zs = "[0x10, 5, 0, 8, 0, 0]"])
      (simp_all add: replicate_2)
  then have g1: "bitset_shift_mask ?b 48 0xffff = 7" by (simp add: be_value_Cons word_unat_eq_iff)
  have "unat (bitset_shift_mask ?b 32 0xffff) = be_value [0x10, 5]"
    by (rule bitset_field [where xs = "[0x02, 0, 0x10, 4, 0, 7]" and zs = "[0, 8, 0, 0]"])
      (simp_all add: replicate_2)
  then have c2: "bitset_shift_mask ?b 32 0xffff = 0x1005" by (simp add: be_value_Cons word_unat_eq_iff)
  have i: "int_of_ulong 0x1004 = 0x1004" "int_of_ulong 0x1005 = 0x1005" "long_of_ulong 7 = 7"
    by (simp_all add: int_of_ulong_def long_of_ulong_def)
  have tab: "chan_table 0x1004 = 1" "chan_table 0x1005 = 1"
      "chan_number 0x1004 = 4" "chan_number 0x1005 = 5"
    by (simp_all add: chan_table_def chan_number_def)
  obtain c where c: "example_channels 0 1 = Some c" "ch_slots_per_carrier c = 2" "ch_phase2_tdma c"
    by (simp add: example_channels_def add_channel_def)
  have "get_tdma_slot example_channels 0x1004 0 = 0"
    by (simp add: get_tdma_slot_def tab c)
  then show ?thesis
    using update_same_carrier_loses_second [OF example_channels_ok, of ?b "0x1004" "0x1005" 0 c example_message 1]
    by (simp add: block_opcode block_mfrid c1 c2 g1 i tab c)
qed

text \<open>What a reader of a message may rely on being initialised.\<close>

definition defined_part :: "TrunkMessage \<Rightarrow> TrunkMessage" where
  "defined_part m =
     m\<lparr>tm_sys_rfss := if tm_message_type m = SYSID then tm_sys_rfss m else 0,
       tm_sys_site_id := if tm_message_type m = SYSID then tm_sys_site_id m else 0,
       tm_patch_data := if tm_message_type m = PATCH_ADD \<or> tm_message_type m = PATCH_DELETE
         then tm_patch_data m else \<lparr>pd_sg = 0, pd_ga1 = 0, pd_ga2 = 0, pd_ga3 = 0\<rparr>\<rparr>"

text \<open>Two messages that differ at most in the fields a local variable leaves indeterminate.\<close>

definition same_but_uninit :: "TrunkMessage \<Rightarrow> TrunkMessage \<Rightarrow> bool" where
  "same_but_uninit m m' \<longleftrightarrow>
     m' = m\<lparr>tm_sys_rfss := tm_sys_rfss m', tm_sys_site_id := tm_sys_site_id m',
            tm_patch_data := tm_patch_data m'\<rparr>"

lemma same_but_uninit_obtain:
  assumes "same_but_uninit m m'"
  obtains r t p where "m' = m\<lparr>tm_sys_rfss := r, tm_sys_site_id := t, tm_patch_data := p\<rparr>"
  using assms that unfolding same_but_uninit_def by blast

lemma same_but_uninit_init: "same_but_uninit (tsbk_init j op nac sys) (tsbk_init j' op nac sys)"
  by (cases j; cases j') (simp add: same_but_uninit_def tsbk_init_def)

definition view_messages :: "TrunkMessage list option \<Rightarrow> TrunkMessage list option" where
  "view_messages = map_option (map defined_part)"

lemma view_keep_table: "map_option (map_prod id (map defined_part)) (keep_table chs r)
    = map_option (Pair chs) (view_messages r)"
  by (cases r) (simp_all add: keep_table_def view_messages_def)

lemma view_table_only: "map_option (map_prod id (map defined_part)) (table_only m r)
    = map_option (\<lambda>chs. (chs, [defined_part m])) r"
  by (cases r) (simp_all add: table_only_def)

lemma view_bind: "view_messages (m \<bind> f) = m \<bind> (\<lambda>x. view_messages (f x))"
  by (cases m) (simp_all add: view_messages_def)

lemma view_Some: "view_messages (Some ms) = Some (map defined_part ms)"
  by (simp add: view_messages_def)

lemmas view_rules = view_bind view_Some if_distrib [of view_messages] if_distrib [of "map defined_part"]
  set_options_def Let_def

text \<open>\<open>defined_part\<close> commutes with every write of an initialised field.\<close>

lemma defined_part_frame:
  "defined_part (m\<lparr>tm_freq := x0\<rparr>) = (defined_part m)\<lparr>tm_freq := x0\<rparr>"
  "defined_part (m\<lparr>tm_talkgroup := x1\<rparr>) = (defined_part m)\<lparr>tm_talkgroup := x1\<rparr>"
  "defined_part (m\<lparr>tm_encrypted := x2\<rparr>) = (defined_part m)\<lparr>tm_encrypted := x2\<rparr>"
  "defined_part (m\<lparr>tm_emergency := x3\<rparr>) = (defined_part m)\<lparr>tm_emergency := x3\<rparr>"
  "defined_part (m\<lparr>tm_duplex := x4\<rparr>) = (defined_part m)\<lparr>tm_duplex := x4\<rparr>"
  "defined_part (m\<lparr>tm_mode := x5\<rparr>) = (defined_part m)\<lparr>tm_mode := x5\<rparr>"
  "defined_part (m\<lparr>tm_priority := x6\<rparr>) = (defined_part m)\<lparr>tm_priority := x6\<rparr>"
  "defined_part (m\<lparr>tm_tdma_slot := x7\<rparr>) = (defined_part m)\<lparr>tm_tdma_slot := x7\<rparr>"
  "defined_part (m\<lparr>tm_phase2_tdma := x8\<rparr>) = (defined_part m)\<lparr>tm_phase2_tdma := x8\<rparr>"
  "defined_part (m\<lparr>tm_source := x9\<rparr>) = (defined_part m)\<lparr>tm_source := x9\<rparr>"
  "defined_part (m\<lparr>tm_sys_id := x10\<rparr>) = (defined_part m)\<lparr>tm_sys_id := x10\<rparr>"
  "defined_part (m\<lparr>tm_wacn := x11\<rparr>) = (defined_part m)\<lparr>tm_wacn := x11\<rparr>"
  by (simp_all add: defined_part_def)

lemma defined_part_set_tdma: "defined_part (set_tdma chs ch sys m) = set_tdma chs ch sys (defined_part m)"
  by (simp add: set_tdma_def defined_part_frame)

lemma defined_part_junk:
  "t \<notin> {SYSID, PATCH_ADD, PATCH_DELETE} \<Longrightarrow>
   defined_part (m\<lparr>tm_sys_rfss := r, tm_sys_site_id := q, tm_patch_data := p, tm_message_type := t\<rparr>)
     = defined_part (m\<lparr>tm_message_type := t\<rparr>)"
  "tm_message_type m = UNKNOWN \<Longrightarrow>
   defined_part (m\<lparr>tm_sys_rfss := r, tm_sys_site_id := q, tm_patch_data := p\<rparr>) = defined_part m"
  by (auto simp: defined_part_def)

lemma defined_part_special:
  "defined_part (m\<lparr>tm_sys_rfss := r, tm_sys_site_id := q, tm_message_type := PATCH_ADD,
      tm_patch_data := d\<rparr>) = defined_part (m\<lparr>tm_message_type := PATCH_ADD, tm_patch_data := d\<rparr>)"
  "defined_part (m\<lparr>tm_sys_rfss := r, tm_sys_site_id := q, tm_message_type := PATCH_DELETE,
      tm_patch_data := d\<rparr>) = defined_part (m\<lparr>tm_message_type := PATCH_DELETE, tm_patch_data := d\<rparr>)"
  "defined_part (m\<lparr>tm_patch_data := p, tm_message_type := SYSID,
      tm_sys_id := i, tm_sys_rfss := r', tm_sys_site_id := q'\<rparr>)
   = defined_part (m\<lparr>tm_message_type := SYSID, tm_sys_id := i, tm_sys_rfss := r', tm_sys_site_id := q'\<rparr>)"
  by (simp_all add: defined_part_def)

lemmas defined_part_rules =
  defined_part_frame defined_part_set_tdma defined_part_junk defined_part_special

lemma junk_branches:
  assumes "tm_message_type m = UNKNOWN"
  shows "defined_part (m\<lparr>tm_sys_rfss := r, tm_sys_site_id := t, tm_patch_data := p\<rparr>) = defined_part m"
    and "view_messages (tsbk_group_grant chs b sys (m\<lparr>tm_sys_rfss := r, tm_sys_site_id := t, tm_patch_data := p\<rparr>)) = view_messages (tsbk_group_grant chs b sys m)"
    and "view_messages (tsbk_group_update chs b sys (m\<lparr>tm_sys_rfss := r, tm_sys_site_id := t, tm_patch_data := p\<rparr>)) = view_messages (tsbk_group_update chs b sys m)"
    and "view_messages (tsbk_update_explicit chs b sys (m\<lparr>tm_sys_rfss := r, tm_sys_site_id := t, tm_patch_data := p\<rparr>)) = view_messages (tsbk_update_explicit chs b sys m)"
    and "view_messages (tsbk_uu_grant chs b sys (m\<lparr>tm_sys_rfss := r, tm_sys_site_id := t, tm_patch_data := p\<rparr>)) = view_messages (tsbk_uu_grant chs b sys m)"
    and "view_messages (tsbk_uu_update chs b sys (m\<lparr>tm_sys_rfss := r, tm_sys_site_id := t, tm_patch_data := p\<rparr>)) = view_messages (tsbk_uu_update chs b sys m)"
    and "view_messages (tsbk_data_grant chs b sys (m\<lparr>tm_sys_rfss := r, tm_sys_site_id := t, tm_patch_data := p\<rparr>)) = view_messages (tsbk_data_grant chs b sys m)"
    and "view_messages (tsbk_secondary_cc chs b sys (m\<lparr>tm_sys_rfss := r, tm_sys_site_id := t, tm_patch_data := p\<rparr>)) = view_messages (tsbk_secondary_cc chs b sys m)"
    and "view_messages (tsbk_rfss_status chs b sys (m\<lparr>tm_sys_rfss := r, tm_sys_site_id := t, tm_patch_data := p\<rparr>)) = view_messages (tsbk_rfss_status chs b sys m)"
    and "view_messages (tsbk_network_status chs b sys (m\<lparr>tm_sys_rfss := r, tm_sys_site_id := t, tm_patch_data := p\<rparr>)) = view_messages (tsbk_network_status chs b sys m)"
    and "view_messages (tsbk_adjacent_status chs b sys (m\<lparr>tm_sys_rfss := r, tm_sys_site_id := t, tm_patch_data := p\<rparr>)) = view_messages (tsbk_adjacent_status chs b sys m)"
    and "map defined_part (tsbk_uu_answer_request b (m\<lparr>tm_sys_rfss := r, tm_sys_site_id := t, tm_patch_data := p\<rparr>)) = map defined_part (tsbk_uu_answer_request b m)"
    and "map defined_part (tsbk_acknowledge b (m\<lparr>tm_sys_rfss := r, tm_sys_site_id := t, tm_patch_data := p\<rparr>)) = map defined_part (tsbk_acknowledge b m)"
    and "map defined_part (tsbk_affiliation b (m\<lparr>tm_sys_rfss := r, tm_sys_site_id := t, tm_patch_data := p\<rparr>)) = map defined_part (tsbk_affiliation b m)"
    and "map defined_part (tsbk_location b (m\<lparr>tm_sys_rfss := r, tm_sys_site_id := t, tm_patch_data := p\<rparr>)) = map defined_part (tsbk_location b m)"
    and "map defined_part (tsbk_registration b (m\<lparr>tm_sys_rfss := r, tm_sys_site_id := t, tm_patch_data := p\<rparr>)) = map defined_part (tsbk_registration b m)"
    and "map defined_part (tsbk_deregistration b (m\<lparr>tm_sys_rfss := r, tm_sys_site_id := t, tm_patch_data := p\<rparr>)) = map defined_part (tsbk_deregistration b m)"
    and "map defined_part (tsbk_harris_patch b (m\<lparr>tm_sys_rfss := r, tm_sys_site_id := t, tm_patch_data := p\<rparr>)) = map defined_part (tsbk_harris_patch b m)"
  subgoal using assms by (simp add: defined_part_def)
  subgoal using assms by (simp add: view_rules tsbk_group_grant_def tsbk_patch_add_def defined_part_rules cong: if_cong)
  subgoal using assms by (simp add: view_rules tsbk_group_update_def tsbk_moto_patch_grant_def tsbk_update_pair_def defined_part_rules cong: if_cong)
  subgoal using assms by (simp add: view_rules tsbk_update_explicit_def tsbk_moto_patch_update_def tsbk_explicit_update_def defined_part_rules if_distrib [of defined_part] cong: if_cong)
  subgoal using assms by (simp add: view_rules tsbk_uu_grant_def defined_part_rules cong: if_cong)
  subgoal using assms by (simp add: view_rules tsbk_uu_update_def defined_part_rules cong: if_cong)
  subgoal using assms by (simp add: view_rules tsbk_data_grant_def defined_part_rules cong: if_cong)
  subgoal using assms by (simp add: view_rules tsbk_secondary_cc_def defined_part_rules cong: if_cong)
  subgoal using assms by (simp add: view_rules tsbk_rfss_status_def defined_part_rules cong: if_cong)
  subgoal using assms by (simp add: view_rules tsbk_network_status_def defined_part_rules if_distrib [of defined_part] cong: if_cong)
  subgoal using assms by (simp add: view_rules tsbk_adjacent_status_def defined_part_rules cong: if_cong)
  subgoal using assms by (simp add: view_rules tsbk_uu_answer_request_def defined_part_rules cong: if_cong)
  subgoal using assms by (simp add: view_rules tsbk_acknowledge_def defined_part_rules cong: if_cong)
  subgoal using assms by (simp add: view_rules tsbk_affiliation_def defined_part_rules cong: if_cong)
  subgoal using assms by (simp add: view_rules tsbk_location_def defined_part_rules cong: if_cong)
  subgoal using assms by (simp add: view_rules tsbk_registration_def defined_part_rules cong: if_cong)
  subgoal using assms by (simp add: view_rules tsbk_deregistration_def defined_part_rules cong: if_cong)
  subgoal using assms by (simp add: view_rules tsbk_harris_patch_def defined_part_rules cong: if_cong)
  done

lemma dispatch_junk:
  assumes "same_but_uninit m m'" and "tm_message_type m = UNKNOWN"
  shows "map_option (map_prod id (map defined_part)) (tsbk_dispatch chs b sys op m)
       = map_option (map_prod id (map defined_part)) (tsbk_dispatch chs b sys op m')"
proof -
  obtain r t p where m': "m' = m\<lparr>tm_sys_rfss := r, tm_sys_site_id := t, tm_patch_data := p\<rparr>"
    using same_but_uninit_obtain [OF assms(1)] .
  show ?thesis
    unfolding m' tsbk_dispatch_def
    by (simp only: if_distrib [of "map_option (map_prod id (map defined_part))"] view_keep_table
        view_table_only view_Some junk_branches [OF assms(2)] list.map)
qed

text \<open>
  Nothing the parser leaves uninitialised matters: two runs that differ only in the
  indeterminate contents of the local \<open>TrunkMessage\<close> produce the same table and messages that
  agree on every field, but for the site numbers of messages that are not \<open>SYSID\<close> and the
  patch data of messages that are neither \<open>PATCH_ADD\<close> nor \<open>PATCH_DELETE\<close>.
\<close>

theorem decode_tsbk_no_uninitialised:
  "map_option (map_prod id (map defined_part)) (decode_tsbk junk chs b nac sys)
     = map_option (map_prod id (map defined_part)) (decode_tsbk junk' chs b nac sys)"
  unfolding decode_tsbk_def Let_def
  by (rule dispatch_junk) (simp_all add: same_but_uninit_init, simp add: tsbk_init_def)

end
