(* ===== verification/Talkgroups.thy ===== *)
theory Talkgroups
  imports Trunk_Message
begin

text \<open>
  The talkgroup list of a system and its unit tags (\<open>trunk-recorder/talkgroup.cc\<close>,
  \<open>talkgroups.cc\<close>, \<open>unit_tags.cc\<close>, \<open>csv_helper.cc\<close>).

  A CSV file is read by the vendored \<open>csv-parser\<close>. What the loaders see of it is a list of
  column names and, for each row, a function from column names to typed fields; a column that
  the file does not have gives \<open>None\<close> (\<open>index_of\<close> is negative). Every \<open>exit(0)\<close> of the loaders
  and every exception of \<open>get<T>()\<close> is an error value.
\<close>

section \<open>Talkgroups\<close>

record Talkgroup =
  tg_number :: int
  tg_mode :: string
  tg_alpha_tag :: string
  tg_description :: string
  tg_tag :: string
  tg_group :: string
  tg_priority :: int
  tg_sys_num :: int
  tg_freq :: double
  tg_tone :: double
  tg_preferredNAC :: ulong
  tg_active :: bool

text \<open>The two constructors of \<open>class Talkgroup\<close>.\<close>

definition new_talkgroup ::
  "int \<Rightarrow> int \<Rightarrow> string \<Rightarrow> string \<Rightarrow> string \<Rightarrow> string \<Rightarrow> string \<Rightarrow> int \<Rightarrow> ulong \<Rightarrow> Talkgroup" where
  "new_talkgroup sys_num num mode alpha_tag description tag grp priority preferredNAC =
     \<lparr>tg_number = num, tg_mode = mode, tg_alpha_tag = alpha_tag, tg_description = description,
      tg_tag = tag, tg_group = grp, tg_priority = priority, tg_sys_num = sys_num, tg_freq = 0,
      tg_tone = 0, tg_preferredNAC = preferredNAC, tg_active = False\<rparr>"

definition new_conventional_talkgroup ::
  "int \<Rightarrow> int \<Rightarrow> double \<Rightarrow> double \<Rightarrow> string \<Rightarrow> string \<Rightarrow> string \<Rightarrow> string \<Rightarrow> Talkgroup" where
  "new_conventional_talkgroup sys_num num freq tone alpha_tag description tag grp =
     \<lparr>tg_number = num, tg_mode = ''Z'', tg_alpha_tag = alpha_tag, tg_description = description,
      tg_tag = tag, tg_group = grp, tg_priority = 0, tg_sys_num = sys_num, tg_freq = freq,
      tg_tone = tone, tg_preferredNAC = 0, tg_active = False\<rparr>"

definition find_tg :: "Talkgroup list \<Rightarrow> int \<Rightarrow> int \<Rightarrow> Talkgroup option" where
  "find_tg tgs sys_num tg_num = List.find (\<lambda>tg. tg_sys_num tg = sys_num \<and> tg_number tg = tg_num) tgs"

definition find_tg_by_freq :: "Talkgroup list \<Rightarrow> int \<Rightarrow> double \<Rightarrow> Talkgroup option" where
  "find_tg_by_freq tgs sys_num freq = List.find (\<lambda>tg. tg_sys_num tg = sys_num \<and> tg_freq tg = freq) tgs"

section \<open>Loading a talkgroup or channel file\<close>

datatype csv_field = CSV_NULL | CSV_STRING string | CSV_INT int | CSV_DOUBLE rat

type_synonym csv_row = "string \<Rightarrow> csv_field option"

datatype load_error =
    Bad_First_Column | Unknown_Column string
  | Missing_Number | Missing_Mode | Missing_Description | Csv_Exception

definition field_str :: "csv_row \<Rightarrow> string \<Rightarrow> string option" where
  "field_str row c = (case row c of Some (CSV_STRING s) \<Rightarrow> Some s | _ \<Rightarrow> None)"

definition field_int :: "csv_row \<Rightarrow> string \<Rightarrow> int option" where
  "field_int row c = (case row c of Some (CSV_INT i) \<Rightarrow> Some i | _ \<Rightarrow> None)"

text \<open>\<open>get<int>()\<close> and \<open>get<unsigned long>()\<close> throw on a number that does not fit.\<close>

definition get_int :: "int \<Rightarrow> load_error + int" where
  "get_int i = (if \<bar>i\<bar> < 2 ^ 31 then Inr i else Inl Csv_Exception)"

definition get_ulong :: "int \<Rightarrow> load_error + ulong" where
  "get_ulong i = (if i < 0 then Inl Csv_Exception else Inr (word_of_int i))"

text \<open>The shared header check of both loaders.\<close>

definition check_headers :: "string \<Rightarrow> string list \<Rightarrow> string list \<Rightarrow> load_error + unit" where
  "check_headers first defined headers =
     (case headers of
        [] \<Rightarrow> Inl Bad_First_Column
      | h # _ \<Rightarrow>
          if h \<noteq> first then Inl Bad_First_Column
          else (case List.find (\<lambda>c. c \<notin> set defined) headers of
              Some c \<Rightarrow> Inl (Unknown_Column c)
            | None \<Rightarrow> Inr ()))"

definition talkgroup_columns :: "string list" where
  "talkgroup_columns = [''Decimal'', ''Mode'', ''Description'', ''Alpha Tag'', ''Hex'', ''Category'',
     ''Tag'', ''Priority'', ''Preferred NAC'', ''Comment'']"

definition talkgroup_of_row :: "int \<Rightarrow> csv_row \<Rightarrow> load_error + Talkgroup" where
  "talkgroup_of_row sys_num row =
     (case field_int row ''Decimal'' of
        None \<Rightarrow> Inl Missing_Number
      | Some tg_num \<Rightarrow>
     (case field_str row ''Mode'' of
        None \<Rightarrow> Inl Missing_Mode
      | Some mode \<Rightarrow>
     (case field_str row ''Description'' of
        None \<Rightarrow> Inl Missing_Description
      | Some description \<Rightarrow>
     (let alpha_tag = (case field_str row ''Alpha Tag'' of Some s \<Rightarrow> s | None \<Rightarrow> '''');
          tag = (case field_str row ''Tag'' of Some s \<Rightarrow> s | None \<Rightarrow> '''');
          grp = (case field_str row ''Category'' of Some s \<Rightarrow> s | None \<Rightarrow> '''')
      in case (case field_int row ''Priority'' of Some p \<Rightarrow> get_int p | None \<Rightarrow> Inr 1) of
        Inl e \<Rightarrow> Inl e
      | Inr priority \<Rightarrow>
     (case (case field_int row ''Preferred NAC'' of Some p \<Rightarrow> get_ulong p | None \<Rightarrow> Inr 0) of
        Inl e \<Rightarrow> Inl e
      | Inr nac \<Rightarrow>
          Inr (new_talkgroup sys_num tg_num mode alpha_tag description tag grp priority nac))))))"

fun load_rows :: "(csv_row \<Rightarrow> load_error + 'a list) \<Rightarrow> csv_row list \<Rightarrow> 'a list \<Rightarrow> load_error + 'a list" where
  "load_rows f [] acc = Inr acc"
| "load_rows f (row # rows) acc =
     (case f row of Inl e \<Rightarrow> Inl e | Inr xs \<Rightarrow> load_rows f rows (acc @ xs))"

definition load_talkgroups ::
  "int \<Rightarrow> string list \<Rightarrow> csv_row list \<Rightarrow> Talkgroup list \<Rightarrow> load_error + Talkgroup list" where
  "load_talkgroups sys_num headers rows tgs =
     (case check_headers ''Decimal'' talkgroup_columns headers of
        Inl e \<Rightarrow> Inl e
      | Inr _ \<Rightarrow>
          load_rows (\<lambda>row. map_sum id (\<lambda>tg. [tg]) (talkgroup_of_row sys_num row)) rows tgs)"

definition channel_columns :: "string list" where
  "channel_columns = [''TG Number'', ''Tone'', ''Frequency'', ''Alpha Tag'', ''Description'', ''Category'',
     ''Tag'', ''Enable'', ''Comment'']"

text \<open>
  The frequency of a channel: a fractional number below 1000 is in MHz. \<open>to_lower\<close> is the
  case folding of \<open>boost::iequals\<close>.
\<close>

definition channel_frequency :: "csv_field option \<Rightarrow> double" where
  "channel_frequency f = (case f of
       Some (CSV_INT i) \<Rightarrow> fl (of_int i)
     | Some (CSV_DOUBLE v) \<Rightarrow> if fl v < 1000 then fl (fl v * 1000000) else fl v
     | _ \<Rightarrow> 0)"

definition char_lower :: "char \<Rightarrow> char" where
  "char_lower c = (if of_char c \<ge> (65 :: nat) \<and> of_char c \<le> (90 :: nat) then char_of (of_char c + (32 :: nat)) else c)"

definition channel_of_row :: "int \<Rightarrow> csv_row \<Rightarrow> load_error + Talkgroup list" where
  "channel_of_row sys_num row =
     (case field_int row ''TG Number'' of
        None \<Rightarrow> Inl Missing_Number
      | Some tg_num \<Rightarrow>
     (let description = (case field_str row ''Description'' of Some s \<Rightarrow> s | None \<Rightarrow> '''');
          alpha_tag = (case field_str row ''Alpha Tag'' of Some s \<Rightarrow> s | None \<Rightarrow> '''');
          tag = (case field_str row ''Tag'' of Some s \<Rightarrow> s | None \<Rightarrow> '''');
          grp = (case field_str row ''Category'' of Some s \<Rightarrow> s | None \<Rightarrow> '''');
          tone = (case row ''Tone'' of Some (CSV_DOUBLE v) \<Rightarrow> fl v | _ \<Rightarrow> 0);
          freq = channel_frequency (row ''Frequency'');
          enable = (case field_str row ''Enable'' of
                      Some s \<Rightarrow> map char_lower s \<noteq> ''false'' | None \<Rightarrow> True)
      in Inr (if enable
           then [new_conventional_talkgroup sys_num tg_num freq tone alpha_tag description tag grp]
           else [])))"

definition load_channels ::
  "int \<Rightarrow> string list \<Rightarrow> csv_row list \<Rightarrow> Talkgroup list \<Rightarrow> load_error + Talkgroup list" where
  "load_channels sys_num headers rows tgs =
     (case check_headers ''TG Number'' channel_columns headers of
        Inl e \<Rightarrow> Inl e
      | Inr _ \<Rightarrow> load_rows (channel_of_row sys_num) rows tgs)"

section \<open>Unit tags\<close>

text \<open>
  \<open>safeGetline\<close> reads a line that ends in LF, CR or CR LF from the rest of a file; the last
  component is the \<open>eof\<close> bit of the stream after the call.
\<close>

definition LF :: char where "LF = CHR 0x0A"
definition CR :: char where "CR = CHR 0x0D"

fun safe_getline :: "string \<Rightarrow> string \<Rightarrow> string \<times> string \<times> bool" where
  "safe_getline t [] = (t, [], t = [])"
| "safe_getline t (c # s) =
     (if c = LF then (t, s, False)
      else if c = CR then (t, (case s of [] \<Rightarrow> [] | d # s' \<Rightarrow> if d = LF then s' else s), False)
      else safe_getline (t @ [c]) s)"

lemma safe_getline_rest_le: "safe_getline t s = (l, r, e) \<Longrightarrow> length r \<le> length s"
  by (induction t s rule: safe_getline.induct) (auto split: if_splits list.splits)

lemma safe_getline_rest_less:
  "safe_getline t s = (l, r, False) \<Longrightarrow> s \<noteq> [] \<Longrightarrow> length r < length s"
  by (induction t s rule: safe_getline.induct)
    (auto split: if_splits list.splits dest: safe_getline_rest_le)

text \<open>The lines the loop \<open>while (!safeGetline(in, line).eof())\<close> visits.\<close>

function read_lines :: "string \<Rightarrow> string list" where
  "read_lines s = (case safe_getline [] s of (l, r, e) \<Rightarrow> if e then [] else l # read_lines r)"
  by pat_completeness auto

termination read_lines
  by (relation "measure length") (auto dest!: sym [of _ "safe_getline [] _"] intro: safe_getline_rest_less)

declare read_lines.simps [simp del]

record UnitTag =
  ut_pattern :: string
  ut_tag :: string

definition unit_tag_pattern :: "string \<Rightarrow> string" where
  "unit_tag_pattern p =
     (if take 1 p = ''/'' \<and> drop (length p - 1) p = ''/'' then take (length p - 2) (drop 1 p)
      else ''^'' @ p @ ''$'')"

definition add_unit_tag :: "string \<Rightarrow> string \<Rightarrow> UnitTag list \<Rightarrow> UnitTag list" where
  "add_unit_tag p tag uts = uts @ [\<lparr>ut_pattern = unit_tag_pattern p, ut_tag = tag\<rparr>]"

text \<open>
  \<open>tok\<close> stands for the tokenizer of Boost. \<open>vec.size() < 2\<close> skips a line; the copy of the line
  without a final CR is the identity after \<open>safeGetline\<close>, which never returns one.
\<close>

definition strip_cr :: "string \<Rightarrow> string" where
  "strip_cr l = (if l \<noteq> [] \<and> last l = CR then butlast l else l)"

definition unit_tag_line :: "(string \<Rightarrow> string list) \<Rightarrow> string \<Rightarrow> UnitTag list \<Rightarrow> UnitTag list" where
  "unit_tag_line tok line uts =
     (let line = strip_cr line
      in if line = [] then uts
         else case tok line of
             p # tag # _ \<Rightarrow> add_unit_tag p tag uts
           | _ \<Rightarrow> uts)"

definition load_unit_tags :: "(string \<Rightarrow> string list) \<Rightarrow> string \<Rightarrow> UnitTag list \<Rightarrow> UnitTag list" where
  "load_unit_tags tok contents uts = fold (unit_tag_line tok) (read_lines contents) uts"

text \<open>\<open>matches\<close> and \<open>replace\<close> stand for \<open>regex_match\<close> and \<open>regex_replace\<close> of Boost.\<close>

definition find_unit_tag ::
  "(string \<Rightarrow> string \<Rightarrow> bool) \<Rightarrow> (string \<Rightarrow> string \<Rightarrow> string \<Rightarrow> string) \<Rightarrow> UnitTag list \<Rightarrow> string \<Rightarrow> string" where
  "find_unit_tag matches replace uts num =
     (case List.find (\<lambda>ut. matches num (ut_pattern ut)) uts of
        None \<Rightarrow> ''''
      | Some ut \<Rightarrow> replace num (ut_pattern ut) (ut_tag ut))"

section \<open>Lemmas\<close>

lemma find_tg_Some: "find_tg tgs s n = Some tg \<Longrightarrow> tg \<in> set tgs \<and> tg_sys_num tg = s \<and> tg_number tg = n"
  unfolding find_tg_def by (auto dest: find_Some_iff_first)

lemma find_append: "List.find P (xs @ ys) = (case List.find P xs of Some x \<Rightarrow> Some x | None \<Rightarrow> List.find P ys)"
  by (induction xs) auto

lemma load_rows_Inr:
  "load_rows f rows acc = Inr res \<longleftrightarrow>
     (\<exists>xss. list_all2 (\<lambda>row xs. f row = Inr xs) rows xss \<and> res = acc @ concat xss)"
proof (induction rows arbitrary: acc)
  case Nil
  then show ?case by auto
next
  case (Cons row rows)
  show ?case
  proof (cases "f row")
    case (Inl e)
    then show ?thesis by (auto simp: list_all2_Cons1)
  next
    case (Inr xs)
    then show ?thesis by (auto simp: list_all2_Cons1 Cons)
  qed
qed

lemma talkgroup_of_row_Inr:
  "talkgroup_of_row s row = Inr tg \<Longrightarrow>
     tg_sys_num tg = s \<and> field_int row ''Decimal'' = Some (tg_number tg)
     \<and> field_str row ''Mode'' = Some (tg_mode tg) \<and> field_str row ''Description'' = Some (tg_description tg)"
  by (auto simp: talkgroup_of_row_def new_talkgroup_def Let_def split: option.splits sum.splits)

lemma safe_getline_plain:
  assumes "LF \<notin> set l" and "CR \<notin> set l"
  shows "safe_getline t (l @ s) = safe_getline (t @ l) s"
  using assms by (induction l arbitrary: t) auto

lemma safe_getline_no_eol:
  "safe_getline t s = (l, r, e) \<Longrightarrow> LF \<notin> set t \<Longrightarrow> CR \<notin> set t \<Longrightarrow> LF \<notin> set l \<and> CR \<notin> set l"
  by (induction t s rule: safe_getline.induct) (auto split: if_splits list.splits)

lemma read_lines_no_eol: "l \<in> set (read_lines s) \<Longrightarrow> LF \<notin> set l \<and> CR \<notin> set l"
proof (induction s rule: read_lines.induct)
  case (1 s)
  obtain l' r e where g: "safe_getline [] s = (l', r, e)" by (cases "safe_getline [] s") auto
  show ?case
  proof (cases e)
    case True
    then show ?thesis using 1(2) g by (subst (asm) read_lines.simps) simp
  next
    case False
    then have "l = l' \<or> l \<in> set (read_lines r)"
      using 1(2) g by (subst (asm) read_lines.simps) auto
    then show ?thesis
      using safe_getline_no_eol [OF g] 1(1) [OF g [symmetric] refl False] by auto
  qed
qed

lemma strip_cr_read_lines: "l \<in> set (read_lines s) \<Longrightarrow> strip_cr l = l"
  using read_lines_no_eol [of l s] by (cases l rule: rev_cases) (auto simp: strip_cr_def)

lemma read_lines_Nil [simp]: "read_lines [] = []"
  by (subst read_lines.simps) simp

lemma LF_neq_CR [simp]: "LF \<noteq> CR" "CR \<noteq> LF"
  by (simp_all add: LF_def CR_def)

lemma read_lines_step:
  assumes "LF \<notin> set l" and "CR \<notin> set l" and "e \<in> {[LF], [CR], [CR, LF]}"
    and "e = [CR] \<Longrightarrow> s = [] \<or> hd s \<noteq> LF"
  shows "read_lines (l @ e @ s) = l # read_lines s"
proof -
  have "safe_getline [] (l @ e @ s) = safe_getline l (e @ s)"
    using safe_getline_plain [OF assms(1,2), of "[]" "e @ s"] by simp
  also have "\<dots> = (l, s, False)"
    using assms(3,4) by (auto split: list.splits)
  finally show ?thesis by (subst read_lines.simps) simp
qed

lemma read_lines_last:
  assumes "LF \<notin> set l" and "CR \<notin> set l" and "l \<noteq> []"
  shows "read_lines l = [l]"
proof -
  have "safe_getline [] (l @ []) = (l, [], False)"
    using safe_getline_plain [OF assms(1,2), of "[]" "[]"] assms(3) by simp
  then show ?thesis by (subst read_lines.simps) simp
qed

end
