(* ===== verification/Std_Map.thy ===== *)
theory Std_Map
  imports TR_Prelude "HOL-Library.AList"
begin

text \<open>
  \<open>std::map\<close> of the C++ standard library, which the program uses for its tables of band plans
  and of talkgroup patches: an association list whose keys ascend strictly, so that iterating
  over the list visits the entries in the order the C++ container does.

  The theory also states the interface the clients of such a table rely on as a locale and
  derives from it what a sequence of assignments or erasures does.
\<close>

type_synonym ('k, 'v) std_map = "('k \<times> 'v) list"

definition sm_empty :: "('k, 'v) std_map" where
  "sm_empty = []"

definition sm_find :: "('k, 'v) std_map \<Rightarrow> 'k \<Rightarrow> 'v option" where
  "sm_find m k = map_of m k"

text \<open>\<open>m[k] = v\<close>\<close>

fun sm_assign :: "'k :: linorder \<Rightarrow> 'v \<Rightarrow> ('k, 'v) std_map \<Rightarrow> ('k, 'v) std_map" where
  "sm_assign k v [] = [(k, v)]"
| "sm_assign k v ((k', v') # m) =
     (if k = k' then (k, v) # m
      else if k < k' then (k, v) # (k', v') # m
      else (k', v') # sm_assign k v m)"

text \<open>\<open>m.erase(k)\<close>\<close>

definition sm_erase :: "'k \<Rightarrow> ('k, 'v) std_map \<Rightarrow> ('k, 'v) std_map" where
  "sm_erase k m = filter (\<lambda>p. fst p \<noteq> k) m"

definition sm_keys :: "('k, 'v) std_map \<Rightarrow> 'k list" where
  "sm_keys m = map fst m"

definition sm_ok :: "('k :: linorder, 'v) std_map \<Rightarrow> bool" where
  "sm_ok m \<longleftrightarrow> sorted_wrt (<) (map fst m)"

section \<open>The operations keep the order and act like a finite map\<close>

lemma sm_ok_distinct: "sm_ok m \<Longrightarrow> distinct (map fst m)"
  by (simp add: sm_ok_def strict_sorted_iff)

lemma sm_ok_empty [simp]: "sm_ok sm_empty"
  by (simp add: sm_ok_def sm_empty_def)

lemma sm_find_empty [simp]: "sm_find sm_empty k = None"
  by (simp add: sm_find_def sm_empty_def)

lemma sm_ok_Cons: "sm_ok ((k, v) # m) \<longleftrightarrow> (\<forall>k' \<in> fst ` set m. k < k') \<and> sm_ok m"
  by (simp add: sm_ok_def)

lemma fst_set_sm_assign: "fst ` set (sm_assign k v m) = insert k (fst ` set m)"
  by (induction k v m rule: sm_assign.induct) auto

lemma sm_ok_assign [simp]: "sm_ok m \<Longrightarrow> sm_ok (sm_assign k v m)"
proof (induction k v m rule: sm_assign.induct)
  case (1 k v)
  then show ?case by (simp add: sm_ok_def)
next
  case (2 k v k' v' m)
  then show ?case
    by (auto simp: sm_ok_Cons fst_set_sm_assign not_less_iff_gr_or_eq)
qed

lemma sm_find_not_key: "k \<notin> fst ` set m \<Longrightarrow> sm_find m k = None"
  by (simp add: sm_find_def map_of_eq_None_iff)

lemma sm_find_assign: "sm_find (sm_assign k v m) k' = (if k' = k then Some v else sm_find m k')"
proof (induction k v m rule: sm_assign.induct)
  case (1 k v)
  then show ?case by (simp add: sm_find_def)
next
  case (2 k v l w m)
  then show ?case by (auto simp: sm_find_def)
qed

lemma sm_ok_filter [simp]: "sm_ok m \<Longrightarrow> sm_ok (filter P m)"
  by (induction m) (auto simp: sm_ok_def)

lemma sm_ok_erase [simp]: "sm_ok m \<Longrightarrow> sm_ok (sm_erase k m)"
  by (simp add: sm_erase_def)

lemma sm_find_erase: "sm_find (sm_erase k m) k' = (if k' = k then None else sm_find m k')"
  by (induction m) (auto simp: sm_find_def sm_erase_def)

lemma set_sm_keys: "set (sm_keys m) = dom (sm_find m)"
  by (simp add: sm_keys_def sm_find_def dom_map_of_conv_image_fst [symmetric])
    (simp add: sm_find_def fun_eq_iff dom_def)

lemma sm_ok_map_snd [simp]: "sm_ok (map (\<lambda>(k, v). (k, f k v)) m) = sm_ok m"
  by (simp add: sm_ok_def comp_def case_prod_unfold)

lemma sm_find_map_snd: "sm_find (map (\<lambda>(k, v). (k, f k v)) m) k = map_option (f k) (sm_find m k)"
  by (induction m) (auto simp: sm_find_def)

lemma sm_find_iff_mem: "sm_ok m \<Longrightarrow> sm_find m k = Some v \<longleftrightarrow> (k, v) \<in> set m"
  by (simp add: sm_find_def sm_ok_distinct)

lemma sm_find_filter:
  assumes "sm_ok m"
  shows "sm_find (filter P m) k = (case sm_find m k of None \<Rightarrow> None | Some v \<Rightarrow> if P (k, v) then Some v else None)"
proof (cases "sm_find m k")
  case None
  then have "k \<notin> fst ` set (filter P m)"
    by (auto simp: sm_find_def map_of_eq_None_iff)
  then show ?thesis by (simp add: None sm_find_not_key)
next
  case (Some v)
  then have mem: "(k, v) \<in> set m" using assms by (simp add: sm_find_iff_mem)
  show ?thesis
  proof (cases "P (k, v)")
    case True
    then have "sm_find (filter P m) k = Some v"
      using mem assms by (subst sm_find_iff_mem) simp_all
    then show ?thesis using Some True by simp
  next
    case False
    have "k \<notin> fst ` set (filter P m)"
    proof
      assume "k \<in> fst ` set (filter P m)"
      then obtain w where w: "(k, w) \<in> set m" "P (k, w)" by auto
      then have "w = v" using mem assms by (simp add: sm_find_iff_mem [symmetric])
      then show False using w False by simp
    qed
    then show ?thesis using Some False by (simp add: sm_find_not_key)
  qed
qed

section \<open>The interface of a table\<close>

text \<open>
  What the clients of a table rely on: an invariant every operation keeps, and the laws of
  lookup after assignment and after erasure.
\<close>

locale table =
  fixes empty :: 'm
    and find :: "'m \<Rightarrow> 'k \<Rightarrow> 'v option"
    and assign :: "'k \<Rightarrow> 'v \<Rightarrow> 'm \<Rightarrow> 'm"
    and erase :: "'k \<Rightarrow> 'm \<Rightarrow> 'm"
    and inv :: "'m \<Rightarrow> bool"
  assumes inv_empty: "inv empty"
    and inv_assign: "inv m \<Longrightarrow> inv (assign k v m)"
    and inv_erase: "inv m \<Longrightarrow> inv (erase k m)"
    and find_empty: "find empty k = None"
    and find_assign: "inv m \<Longrightarrow> find (assign k v m) k' = (if k' = k then Some v else find m k')"
    and find_erase: "inv m \<Longrightarrow> find (erase k m) k' = (if k' = k then None else find m k')"
begin

lemma inv_assign_all: "inv m \<Longrightarrow> inv (fold (\<lambda>k. assign k v) ks m)"
  by (induction ks arbitrary: m) (simp_all add: inv_assign)

lemma find_assign_all:
  "inv m \<Longrightarrow> find (fold (\<lambda>k. assign k v) ks m) k' = (if k' \<in> set ks then Some v else find m k')"
  by (induction ks arbitrary: m) (auto simp: inv_assign find_assign)

lemma inv_erase_all: "inv m \<Longrightarrow> inv (fold erase ks m)"
  by (induction ks arbitrary: m) (simp_all add: inv_erase)

lemma find_erase_all:
  "inv m \<Longrightarrow> find (fold erase ks m) k' = (if k' \<in> set ks then None else find m k')"
  by (induction ks arbitrary: m) (auto simp: inv_erase find_erase)

lemma assign_twice: "inv m \<Longrightarrow> find (assign k v (assign k w m)) = find (assign k v m)"
  by (simp add: fun_eq_iff find_assign inv_assign)

end

interpretation std: table sm_empty sm_find sm_assign sm_erase "sm_ok :: ('k :: linorder, 'v) std_map \<Rightarrow> bool"
  by unfold_locales (simp_all add: sm_find_assign sm_find_erase)

end
