(* ===== verification/System_Impl.thy ===== *)
theory System_Impl
  imports Talkgroups Std_Map
begin

text \<open>
  A radio system (\<open>trunk-recorder/systems/system_impl.cc\<close>): its identity as learnt from the
  control channel, its control channels, its talkgroups and the active talkgroup patches.

  The accessors \<open>get_x\<close> and \<open>set_x\<close> of the class are the selector and the update of the
  field \<open>sy_x\<close>. The descrambling mask of TDMA systems is a function of the three numbers it is
  computed from (\<open>lib/lfsr\<close>), and \<open>sy_xor_mask\<close> holds those, \<open>None\<close> for a null pointer.
\<close>

type_synonym patch = "(ulong, int) std_map"
type_synonym patch_table = "(ulong, patch) std_map"

record System_impl =
  sy_sys_num :: int
  sy_sys_id :: ulong
  sy_wacn :: ulong
  sy_nac :: ulong
  sy_sys_rfss :: int
  sy_sys_site_id :: int
  sy_system_type :: string
  sy_short_name :: string
  sy_talkgroups :: "Talkgroup list"
  sy_unit_tags :: "UnitTag list"
  sy_source :: "nat option"
  sy_channel_file :: string
  sy_message_count :: int
  sy_decode_rate :: int
  sy_retune_attempts :: int
  sy_min_duration :: double
  sy_max_duration :: double
  sy_min_tx_duration :: double
  sy_bandplan :: string
  sy_bandfreq :: int
  sy_bandplan_base :: double
  sy_bandplan_high :: double
  sy_bandplan_spacing :: double
  sy_bandplan_offset :: int
  sy_qpsk_mod :: bool
  sy_squelch_db :: double
  sy_xor_mask :: "(ulong \<times> ulong \<times> ulong) option"
  sy_control_channels :: "double list"
  sy_current_control_channel :: nat
  sy_channels :: "double list"
  sy_conventional_recorders :: "nat list"
  sy_conventionalP25_recorders :: "nat list"
  sy_conventionalDMR_recorders :: "nat list"
  sy_transmission_archive :: bool
  sy_audio_archive :: bool
  sy_call_log :: bool
  sy_compress_wav :: bool
  sy_upload_script :: string
  sy_record_unknown :: bool
  sy_talkgroup_patches :: patch_table
  sy_multiSite :: bool
  sy_multiSiteSystemName :: string
  sy_multiSiteSystemNumber :: ulong

text \<open>
  The constructor writes the fields below; \<open>junk\<close> holds what the others contain, which the
  configuration loader assigns before the system is used.
\<close>

definition new_system :: "System_impl \<Rightarrow> int \<Rightarrow> System_impl" where
  "new_system junk sys_num =
     junk\<lparr>sy_sys_num := sys_num, sy_sys_id := 0, sy_wacn := 0, sy_nac := 0, sy_sys_rfss := 0,
       sy_sys_site_id := 0, sy_system_type := [], sy_short_name := [], sy_talkgroups := [],
       sy_unit_tags := [], sy_channel_file := [], sy_message_count := 0, sy_decode_rate := 0,
       sy_retune_attempts := 0, sy_bandplan := [], sy_xor_mask := None, sy_control_channels := [],
       sy_current_control_channel := 0, sy_channels := [], sy_conventional_recorders := [],
       sy_conventionalP25_recorders := [], sy_conventionalDMR_recorders := [],
       sy_talkgroup_patches := sm_empty, sy_multiSiteSystemName := []\<rparr>"

section \<open>Identity of the system\<close>

definition set_xor_mask :: "ulong \<Rightarrow> ulong \<Rightarrow> ulong \<Rightarrow> System_impl \<Rightarrow> System_impl" where
  "set_xor_mask sys_id wacn nac s =
     (if sys_id \<noteq> 0 \<and> wacn \<noteq> 0 \<and> nac \<noteq> 0
      then s\<lparr>sy_sys_id := sys_id, sy_wacn := wacn, sy_nac := nac, sy_xor_mask := Some (nac, sys_id, wacn)\<rparr>
      else s)"

definition update_status :: "TrunkMessage \<Rightarrow> System_impl \<Rightarrow> bool \<times> System_impl" where
  "update_status m s =
     (if sy_sys_id s = 0 \<or> sy_wacn s = 0 \<or> sy_nac s = 0
      then (let s1 = s\<lparr>sy_sys_id := tm_sys_id m, sy_wacn := tm_wacn m, sy_nac := tm_nac m\<rparr>
            in (True, if sy_sys_id s1 \<noteq> 0 \<and> sy_wacn s1 \<noteq> 0 \<and> sy_nac s1 \<noteq> 0
                      then s1\<lparr>sy_xor_mask := Some (sy_nac s1, sy_sys_id s1, sy_wacn s1)\<rparr> else s1))
      else (False, s))"

definition update_sysid :: "TrunkMessage \<Rightarrow> System_impl \<Rightarrow> bool \<times> System_impl" where
  "update_sysid m s =
     (if sy_sys_rfss s = 0 \<or> sy_sys_site_id s = 0
      then (True, s\<lparr>sy_sys_rfss := tm_sys_rfss m, sy_sys_site_id := tm_sys_site_id m\<rparr>)
      else (False, s))"

section \<open>Talkgroups, unit tags and channels\<close>

definition find_talkgroup :: "System_impl \<Rightarrow> int \<Rightarrow> Talkgroup option" where
  "find_talkgroup s tg = find_tg (sy_talkgroups s) (sy_sys_num s) tg"

definition find_talkgroup_by_freq :: "System_impl \<Rightarrow> double \<Rightarrow> Talkgroup option" where
  "find_talkgroup_by_freq s freq = find_tg_by_freq (sy_talkgroups s) (sy_sys_num s) freq"

definition push_new :: "'a \<Rightarrow> 'a list \<Rightarrow> 'a list" where
  "push_new x xs = (if xs = [] then xs @ [x] else if x \<notin> set xs then xs @ [x] else xs)"

definition add_channel_freq :: "double \<Rightarrow> System_impl \<Rightarrow> System_impl" where
  "add_channel_freq c s = s\<lparr>sy_channels := push_new c (sy_channels s)\<rparr>"

definition has_channel_file :: "System_impl \<Rightarrow> bool" where
  "has_channel_file s \<longleftrightarrow> 0 < length (sy_channel_file s)"

text \<open>An empty file name leaves the list of talkgroups as it is.\<close>

definition set_channel_file ::
  "string \<Rightarrow> string list \<Rightarrow> csv_row list \<Rightarrow> System_impl \<Rightarrow> load_error + System_impl" where
  "set_channel_file file headers rows s =
     (case (if file = [] then Inr (sy_talkgroups s)
            else load_channels (sy_sys_num s) headers rows (sy_talkgroups s)) of
        Inl e \<Rightarrow> Inl e
      | Inr tgs \<Rightarrow>
          Inr (fold (\<lambda>tg. add_channel_freq (tg_freq tg)) tgs
                 (s\<lparr>sy_channel_file := file, sy_talkgroups := tgs\<rparr>)))"

definition set_talkgroups_file ::
  "string \<Rightarrow> string list \<Rightarrow> csv_row list \<Rightarrow> System_impl \<Rightarrow> load_error + System_impl" where
  "set_talkgroups_file file headers rows s =
     (if file = [] then Inr s
      else map_sum id (\<lambda>tgs. s\<lparr>sy_talkgroups := tgs\<rparr>)
             (load_talkgroups (sy_sys_num s) headers rows (sy_talkgroups s)))"

section \<open>Control channels\<close>

definition control_channel_count :: "System_impl \<Rightarrow> nat" where
  "control_channel_count s = length (sy_control_channels s)"

definition add_control_channel :: "double \<Rightarrow> System_impl \<Rightarrow> System_impl" where
  "add_control_channel c s = s\<lparr>sy_control_channels := push_new c (sy_control_channels s)\<rparr>"

text \<open>Reading a vector out of range has no defined result.\<close>

definition vector_at :: "'a list \<Rightarrow> nat \<Rightarrow> 'a option" where
  "vector_at xs i = (if i < length xs then Some (xs ! i) else None)"

definition get_current_control_channel :: "System_impl \<Rightarrow> double option" where
  "get_current_control_channel s = vector_at (sy_control_channels s) (sy_current_control_channel s)"

definition get_next_control_channel :: "System_impl \<Rightarrow> (double \<times> System_impl) option" where
  "get_next_control_channel s =
     (let i = sy_current_control_channel s + 1;
          i = (if i \<ge> length (sy_control_channels s) then 0 else i)
      in do { f \<leftarrow> vector_at (sy_control_channels s) i;
              Some (f, s\<lparr>sy_current_control_channel := i\<rparr>) })"

section \<open>SmartNet band plan\<close>

definition get_bandplan_high :: "System_impl \<Rightarrow> double" where
  "get_bandplan_high s = fl (sy_bandplan_high s / 1000000)"

definition get_bandplan_base :: "System_impl \<Rightarrow> double" where
  "get_bandplan_base s = fl (sy_bandplan_base s / 1000000)"

definition set_bandplan_spacing :: "double \<Rightarrow> System_impl \<Rightarrow> System_impl" where
  "set_bandplan_spacing space s = s\<lparr>sy_bandplan_spacing := fl (space / 1000000)\<rparr>"

section \<open>Talkgroup patches\<close>

definition get_talkgroup_patch :: "System_impl \<Rightarrow> ulong \<Rightarrow> ulong list" where
  "get_talkgroup_patch s tg =
     concat (map (\<lambda>(sg, p). if sm_find p tg \<noteq> None then sm_keys p else []) (sy_talkgroup_patches s))"

text \<open>The four conditional assignments of the two branches.\<close>

definition assign_nonzero :: "int \<Rightarrow> ulong \<Rightarrow> patch \<Rightarrow> patch" where
  "assign_nonzero now g p = (if 0 \<noteq> g then sm_assign g now p else p)"

definition touch_patch :: "int \<Rightarrow> PatchData \<Rightarrow> patch \<Rightarrow> patch" where
  "touch_patch now d p =
     assign_nonzero now (pd_ga3 d) (assign_nonzero now (pd_ga2 d)
       (assign_nonzero now (pd_ga1 d) (assign_nonzero now (pd_sg d) p)))"

definition update_patches :: "int \<Rightarrow> PatchData \<Rightarrow> patch_table \<Rightarrow> patch_table" where
  "update_patches now d ps =
     (let new_flag = (\<forall>(sg, p) \<in> set ps. sg \<noteq> pd_sg d);
          ps' = map (\<lambda>(sg, p). (sg, if sg = pd_sg d then touch_patch now d p else p)) ps
      in if new_flag then sm_assign (pd_sg d) (touch_patch now d sm_empty) ps' else ps')"

definition update_active_talkgroup_patches :: "int \<Rightarrow> PatchData \<Rightarrow> System_impl \<Rightarrow> System_impl" where
  "update_active_talkgroup_patches now d s =
     s\<lparr>sy_talkgroup_patches := update_patches now d (sy_talkgroup_patches s)\<rparr>"

definition delete_from_patches :: "PatchData \<Rightarrow> patch_table \<Rightarrow> patch_table" where
  "delete_from_patches d ps =
     map (\<lambda>(sg, p). (sg, if sg = pd_sg d
       then sm_erase (pd_ga3 d) (sm_erase (pd_ga2 d) (sm_erase (pd_ga1 d) p)) else p)) ps"

definition delete_talkgroup_patch :: "PatchData \<Rightarrow> System_impl \<Rightarrow> System_impl" where
  "delete_talkgroup_patch d s =
     s\<lparr>sy_talkgroup_patches := delete_from_patches d (sy_talkgroup_patches s)\<rparr>"

text \<open>
  The clock is read for every member in turn; one value stands for all of them, since the
  loop over a handful of entries does not last a second.
\<close>

definition stale_talkgroups :: "int \<Rightarrow> patch \<Rightarrow> ulong list" where
  "stale_talkgroups now p = map fst (filter (\<lambda>(tg, t). now - t \<ge> 10) p)"

definition clear_stale :: "int \<Rightarrow> patch_table \<Rightarrow> patch_table" where
  "clear_stale now ps =
     (let ps' = map (\<lambda>(sg, p). (sg, fold sm_erase (stale_talkgroups now p) p)) ps;
          stale_patches = map fst (filter (\<lambda>(sg, p). length p = 0) ps')
      in fold sm_erase stale_patches ps')"

definition clear_stale_talkgroup_patches :: "int \<Rightarrow> System_impl \<Rightarrow> System_impl" where
  "clear_stale_talkgroup_patches now s =
     s\<lparr>sy_talkgroup_patches := clear_stale now (sy_talkgroup_patches s)\<rparr>"

section \<open>The patch table: invariant and abstraction\<close>

definition patches_ok :: "patch_table \<Rightarrow> bool" where
  "patches_ok ps \<longleftrightarrow> sm_ok ps \<and> (\<forall>(sg, p) \<in> set ps. sm_ok p)"

text \<open>
  The abstraction: the set of (supergroup, talkgroup, time last announced) triples. The
  operations of the class are set operations on it.
\<close>

definition members :: "patch_table \<Rightarrow> (ulong \<times> ulong \<times> int) set" where
  "members ps = {(sg, tg, t). \<exists>p. sm_find ps sg = Some p \<and> sm_find p tg = Some t}"

definition announced :: "PatchData \<Rightarrow> ulong set" where
  "announced d = {pd_sg d, pd_ga1 d, pd_ga2 d, pd_ga3 d} - {0}"

lemma assign_nonzero_ok: "sm_ok p \<Longrightarrow> sm_ok (assign_nonzero now g p)"
  by (simp add: assign_nonzero_def)

lemma find_assign_nonzero:
  "sm_find (assign_nonzero now g p) k = (if k = g \<and> g \<noteq> 0 then Some now else sm_find p k)"
  by (auto simp: assign_nonzero_def sm_find_assign)

lemma touch_patch_ok: "sm_ok p \<Longrightarrow> sm_ok (touch_patch now d p)"
  by (simp add: touch_patch_def assign_nonzero_ok)

lemma find_touch_patch:
  "sm_find (touch_patch now d p) k = (if k \<in> announced d then Some now else sm_find p k)"
  by (auto simp: touch_patch_def find_assign_nonzero announced_def)

lemma patches_ok_find: "patches_ok ps \<Longrightarrow> sm_find ps sg = Some p \<Longrightarrow> sm_ok p"
  by (auto simp: patches_ok_def sm_find_iff_mem)

lemma patches_ok_iff: "patches_ok ps \<longleftrightarrow> sm_ok ps \<and> (\<forall>sg p. sm_find ps sg = Some p \<longrightarrow> sm_ok p)"
  by (auto simp: patches_ok_def sm_find_iff_mem)

lemma new_flag_iff: "(\<forall>(sg, p) \<in> set ps. sg \<noteq> k) \<longleftrightarrow> sm_find ps k = None"
  by (force simp: sm_find_def map_of_eq_None_iff)

lemma find_update_patches:
  "sm_find (update_patches now d ps) sg =
     (if sg = pd_sg d then Some (touch_patch now d (case sm_find ps sg of None \<Rightarrow> sm_empty | Some p \<Rightarrow> p))
      else sm_find ps sg)"
proof -
  have m: "sm_find (map (\<lambda>(sg, p). (sg, if sg = pd_sg d then touch_patch now d p else p)) ps) k
      = map_option (\<lambda>p. if k = pd_sg d then touch_patch now d p else p) (sm_find ps k)" for k
    by (rule sm_find_map_snd)
  show ?thesis
    by (auto simp: update_patches_def Let_def new_flag_iff m sm_find_assign option.map_ident split: option.split)
qed

lemma update_patches_ok [invariant_intros]: "patches_ok ps \<Longrightarrow> patches_ok (update_patches now d ps)"
  unfolding patches_ok_iff
proof
  assume ok: "sm_ok ps \<and> (\<forall>sg p. sm_find ps sg = Some p \<longrightarrow> sm_ok p)"
  then show "sm_ok (update_patches now d ps)"
    by (simp add: update_patches_def Let_def)
  show "\<forall>sg p. sm_find (update_patches now d ps) sg = Some p \<longrightarrow> sm_ok p"
    using ok by (auto simp: find_update_patches touch_patch_ok split: if_splits option.splits)
qed

lemma find_delete_from_patches:
  "sm_find (delete_from_patches d ps) sg =
     map_option (\<lambda>p. if sg = pd_sg d
       then sm_erase (pd_ga3 d) (sm_erase (pd_ga2 d) (sm_erase (pd_ga1 d) p)) else p) (sm_find ps sg)"
  unfolding delete_from_patches_def by (rule sm_find_map_snd)

lemma delete_from_patches_ok [invariant_intros]: "patches_ok ps \<Longrightarrow> patches_ok (delete_from_patches d ps)"
  unfolding patches_ok_iff
  by (auto simp: find_delete_from_patches) (simp add: delete_from_patches_def)

lemma stale_iff:
  assumes "sm_ok p"
  shows "tg \<in> set (stale_talkgroups now p) \<longleftrightarrow> (\<exists>t. sm_find p tg = Some t \<and> now - t \<ge> 10)"
  using assms by (force simp: stale_talkgroups_def sm_find_iff_mem)

lemma find_remove_stale:
  assumes "sm_ok p"
  shows "sm_find (fold sm_erase (stale_talkgroups now p) p) tg = Some t
    \<longleftrightarrow> sm_find p tg = Some t \<and> now - t < 10"
  using assms by (auto simp: std.find_erase_all stale_iff not_le)

lemma sm_empty_iff: "length p = 0 \<longleftrightarrow> (\<forall>k. sm_find p k = None)"
  by (cases p) (auto simp: sm_find_def)

lemma find_clear_stale:
  assumes "patches_ok ps"
  shows "sm_find (clear_stale now ps) sg =
    (case sm_find ps sg of None \<Rightarrow> None
     | Some p \<Rightarrow> let q = fold sm_erase (stale_talkgroups now p) p in if q = [] then None else Some q)"
proof -
  define f where "f = (\<lambda>p :: patch. fold sm_erase (stale_talkgroups now p) p)"
  define ps' where "ps' = map (\<lambda>(sg, p). (sg, f p)) ps"
  have ok: "sm_ok ps'" using assms by (simp add: ps'_def patches_ok_def)
  have find: "sm_find ps' k = map_option f (sm_find ps k)" for k
    unfolding ps'_def by (rule sm_find_map_snd)
  have "clear_stale now ps = fold sm_erase (map fst (filter (\<lambda>(sg, p). length p = 0) ps')) ps'"
    by (simp only: clear_stale_def Let_def ps'_def f_def)
  then have "sm_find (clear_stale now ps) sg
      = (if sg \<in> fst ` {x \<in> set ps'. snd x = []} then None else sm_find ps' sg)"
    using ok by (simp add: std.find_erase_all case_prod_unfold)
  moreover have "sg \<in> fst ` {x \<in> set ps'. snd x = []} \<longleftrightarrow> sm_find ps' sg = Some []"
    using ok by (force simp: sm_find_iff_mem)
  ultimately show ?thesis
    by (auto simp: find Let_def f_def split: option.split)
qed

lemma clear_stale_ok [invariant_intros]:
  assumes "patches_ok ps"
  shows "patches_ok (clear_stale now ps)"
  unfolding patches_ok_iff
proof
  show "sm_ok (clear_stale now ps)"
    using assms by (simp add: clear_stale_def Let_def patches_ok_def std.inv_erase_all)
  show "\<forall>sg p. sm_find (clear_stale now ps) sg = Some p \<longrightarrow> sm_ok p"
    using assms patches_ok_find [OF assms]
    by (auto simp: find_clear_stale Let_def std.inv_erase_all split: option.splits if_splits)
qed

section \<open>Effect on the abstraction\<close>

lemma members_iff: "(sg, tg, t) \<in> members ps \<longleftrightarrow> (\<exists>p. sm_find ps sg = Some p \<and> sm_find p tg = Some t)"
  by (simp add: members_def)

lemma members_update:
  "members (update_patches now d ps) =
     {(sg, tg, t) \<in> members ps. \<not> (sg = pd_sg d \<and> tg \<in> announced d)}
     \<union> {(pd_sg d, tg, now) | tg. tg \<in> announced d}"
  by (auto simp: members_iff find_update_patches find_touch_patch split: option.splits if_splits)

lemma members_delete:
  "members (delete_from_patches d ps) =
     {(sg, tg, t) \<in> members ps. \<not> (sg = pd_sg d \<and> tg \<in> {pd_ga1 d, pd_ga2 d, pd_ga3 d})}"
  by (auto simp: members_iff find_delete_from_patches sm_find_erase split: if_splits)

lemma members_clear_stale:
  assumes "patches_ok ps"
  shows "members (clear_stale now ps) = {(sg, tg, t) \<in> members ps. now - t < 10}"
proof -
  have "(sg, tg, t) \<in> members (clear_stale now ps) \<longleftrightarrow> (sg, tg, t) \<in> members ps \<and> now - t < 10" for sg tg t
  proof (cases "sm_find ps sg")
    case None
    then show ?thesis by (simp add: members_iff find_clear_stale [OF assms])
  next
    case (Some p)
    let ?q = "fold sm_erase (stale_talkgroups now p) p"
    have q: "sm_find ?q tg = Some t \<longleftrightarrow> sm_find p tg = Some t \<and> now - t < 10"
      using patches_ok_find [OF assms Some] by (rule find_remove_stale)
    have "?q = [] \<Longrightarrow> sm_find ?q tg = None" by (simp add: sm_find_def)
    then show ?thesis
      using q Some by (auto simp: members_iff find_clear_stale [OF assms] Let_def)
  qed
  then show ?thesis by auto
qed

lemma get_talkgroup_patch_iff:
  assumes "patches_ok (sy_talkgroup_patches s)"
  shows "tg' \<in> set (get_talkgroup_patch s tg) \<longleftrightarrow>
    (\<exists>sg t t'. (sg, tg, t) \<in> members (sy_talkgroup_patches s) \<and> (sg, tg', t') \<in> members (sy_talkgroup_patches s))"
proof -
  let ?ps = "sy_talkgroup_patches s"
  have "tg' \<in> set (get_talkgroup_patch s tg) \<longleftrightarrow>
      (\<exists>(sg, p) \<in> set ?ps. sm_find p tg \<noteq> None \<and> tg' \<in> dom (sm_find p))"
    unfolding get_talkgroup_patch_def by (simp add: case_prod_unfold set_sm_keys) blast
  also have "\<dots> \<longleftrightarrow> (\<exists>sg p. sm_find ?ps sg = Some p \<and> sm_find p tg \<noteq> None \<and> sm_find p tg' \<noteq> None)"
    using assms by (auto simp: patches_ok_def sm_find_iff_mem)
  also have "\<dots> \<longleftrightarrow> (\<exists>sg t t'. (sg, tg, t) \<in> members ?ps \<and> (sg, tg', t') \<in> members ?ps)"
    unfolding members_iff by (metis not_None_eq option.inject)
  finally show ?thesis .
qed

section \<open>Control channels\<close>

lemma push_new_distinct: "distinct xs \<Longrightarrow> distinct (push_new x xs)"
  by (auto simp: push_new_def)

lemma set_push_new: "set (push_new x xs) = insert x (set xs)"
  by (auto simp: push_new_def)

lemma get_next_control_channel_Some:
  assumes "sy_control_channels s \<noteq> []"
  shows "get_next_control_channel s =
    (let i = (if sy_current_control_channel s + 1 \<ge> length (sy_control_channels s) then 0
              else sy_current_control_channel s + 1)
     in Some (sy_control_channels s ! i, s\<lparr>sy_current_control_channel := i\<rparr>))"
  using assms by (simp add: get_next_control_channel_def vector_at_def Let_def)

lemma get_next_in_range:
  assumes "get_next_control_channel s = Some (f, s')"
  shows "sy_current_control_channel s' < length (sy_control_channels s')
    \<and> sy_control_channels s' = sy_control_channels s
    \<and> f = sy_control_channels s' ! sy_current_control_channel s'"
  using assms by (auto simp: get_next_control_channel_def vector_at_def Let_def split: if_splits)

text \<open>\<open>n\<close> retunes in a row, and the frequencies they visit.\<close>

fun retunes :: "nat \<Rightarrow> System_impl \<Rightarrow> (double list \<times> System_impl) option" where
  "retunes 0 s = Some ([], s)"
| "retunes (Suc n) s =
     do { (f, s1) \<leftarrow> get_next_control_channel s; (fs, s2) \<leftarrow> retunes n s1; Some (f # fs, s2) }"

lemma retunes_nth:
  assumes "sy_control_channels s \<noteq> []" and "sy_current_control_channel s < length (sy_control_channels s)"
  shows "\<exists>fs s'. retunes n s = Some (fs, s')
    \<and> fs = map (\<lambda>i. sy_control_channels s ! ((sy_current_control_channel s + 1 + i) mod length (sy_control_channels s))) [0..<n]
    \<and> sy_control_channels s' = sy_control_channels s
    \<and> sy_current_control_channel s' = (sy_current_control_channel s + n) mod length (sy_control_channels s)"
  using assms
proof (induction n arbitrary: s)
  case 0
  then show ?case by simp
next
  case (Suc n)
  let ?cs = "sy_control_channels s" and ?c = "sy_current_control_channel s"
  let ?i = "(?c + 1) mod length ?cs"
  have i: "(if ?c + 1 \<ge> length ?cs then 0 else ?c + 1) = ?i"
  proof (cases "?c + 1 < length ?cs")
    case False
    then have "?c + 1 = length ?cs" using Suc.prems(2) by simp
    then show ?thesis by simp
  qed simp
  let ?s1 = "s\<lparr>sy_current_control_channel := ?i\<rparr>"
  have next_eq: "get_next_control_channel s = Some (?cs ! ?i, ?s1)"
    using get_next_control_channel_Some [OF Suc.prems(1)] i by (simp add: Let_def)
  obtain fs s' where r: "retunes n ?s1 = Some (fs, s')"
    and fs: "fs = map (\<lambda>k. ?cs ! ((?i + 1 + k) mod length ?cs)) [0..<n]"
    and s': "sy_control_channels s' = ?cs" "sy_current_control_channel s' = (?i + n) mod length ?cs"
    using Suc.IH [of ?s1] Suc.prems by auto
  have shift: "(?i + 1 + k) mod length ?cs = (?c + 1 + Suc k) mod length ?cs" for k
    using mod_add_left_eq [of "?c + 1" "length ?cs" "1 + k"] by (simp add: add.assoc)
  have "?cs ! ?i # fs = map (\<lambda>k. ?cs ! ((?c + 1 + k) mod length ?cs)) [0..<Suc n]"
    by (simp only: map_upt_Suc fs shift) simp
  moreover have "(?i + n) mod length ?cs = (?c + Suc n) mod length ?cs"
    using mod_add_left_eq [of "?c + 1" "length ?cs" n] by (simp add: add.assoc)
  ultimately show ?case using next_eq r s' by simp
qed

end
