(* ===== verification/System_Properties.thy ===== *)
theory System_Properties
  imports System_Impl
begin

text \<open>
  What a system (\<open>trunk-recorder/systems/system_impl.cc\<close>) and its talkgroup and unit tag files
  promise: the refinement of the patch table, the life of a patch, the rotation of control
  channels, the adoption of the system identity, and what the loaders accept.
\<close>

section \<open>Histories of the patch table\<close>

datatype patch_event = Announce int PatchData | Withdraw PatchData | Sweep int

fun patch_step :: "patch_event \<Rightarrow> patch_table \<Rightarrow> patch_table" where
  "patch_step (Announce now d) = update_patches now d"
| "patch_step (Withdraw d) = delete_from_patches d"
| "patch_step (Sweep now) = clear_stale now"

definition run_patches :: "patch_event list \<Rightarrow> patch_table" where
  "run_patches es = fold patch_step es sm_empty"

text \<open>The same history on the abstract set of (supergroup, talkgroup, time) triples.\<close>

fun abs_step :: "patch_event \<Rightarrow> (ulong \<times> ulong \<times> int) set \<Rightarrow> (ulong \<times> ulong \<times> int) set" where
  "abs_step (Announce now d) M =
     {(sg, tg, t) \<in> M. \<not> (sg = pd_sg d \<and> tg \<in> announced d)} \<union> {(pd_sg d, tg, now) | tg. tg \<in> announced d}"
| "abs_step (Withdraw d) M = {(sg, tg, t) \<in> M. \<not> (sg = pd_sg d \<and> tg \<in> {pd_ga1 d, pd_ga2 d, pd_ga3 d})}"
| "abs_step (Sweep now) M = {(sg, tg, t) \<in> M. now - t < 10}"

lemma patch_step_refines:
  "patches_ok ps \<Longrightarrow> patches_ok (patch_step e ps) \<and> members (patch_step e ps) = abs_step e (members ps)"
  by (cases e) (simp_all add: update_patches_ok delete_from_patches_ok clear_stale_ok members_update
      members_delete members_clear_stale)

lemma patches_ok_empty: "patches_ok sm_empty"
  by (simp add: patches_ok_def) (simp add: sm_empty_def)

lemma members_empty: "members sm_empty = {}"
  by (simp add: members_def)

lemma fold_patch_refines:
  "patches_ok ps \<Longrightarrow> patches_ok (fold patch_step es ps)
     \<and> members (fold patch_step es ps) = fold abs_step es (members ps)"
  by (induction es arbitrary: ps) (simp_all add: patch_step_refines)

lemma run_patches_ok: "patches_ok (run_patches es)"
  using fold_patch_refines [OF patches_ok_empty] by (simp add: run_patches_def)

lemma members_run: "members (run_patches es) = fold abs_step es {}"
  using fold_patch_refines [OF patches_ok_empty] by (simp add: run_patches_def members_empty)

text \<open>
  C29. After any history of announcements, withdrawals and sweeps the nested map of patches is
  well-formed and stands for the abstract set of memberships: an announcement adds or renews
  the non-zero talkgroups it names, a withdrawal removes the named talkgroups of that
  supergroup, a sweep keeps exactly the memberships younger than ten seconds, and nothing else
  changes.
\<close>

theorem patch_table_refines:
  "patches_ok (run_patches es) \<and> members (run_patches es) = fold abs_step es {}"
  by (simp add: run_patches_ok members_run)


text \<open>Two announcements of one supergroup, the first of them stale when the table is swept.\<close>

definition example_patch :: "ulong \<Rightarrow> PatchData" where
  "example_patch g = \<lparr>pd_sg = 100, pd_ga1 = g, pd_ga2 = 0, pd_ga3 = 0\<rparr>"

definition example_system :: System_impl where
  "example_system =
     \<lparr>sy_sys_num = 0, sy_sys_id = 0, sy_wacn = 0, sy_nac = 0, sy_sys_rfss = 0, sy_sys_site_id = 0,
      sy_system_type = ''p25'', sy_short_name = ''demo'', sy_talkgroups = [], sy_unit_tags = [],
      sy_source = None, sy_channel_file = [], sy_message_count = 0, sy_decode_rate = 0,
      sy_retune_attempts = 0, sy_min_duration = 0, sy_max_duration = 0, sy_min_tx_duration = 0,
      sy_bandplan = [], sy_bandfreq = 800, sy_bandplan_base = 0, sy_bandplan_high = 0, sy_bandplan_spacing = 0,
      sy_bandplan_offset = 0, sy_qpsk_mod = True, sy_squelch_db = 0, sy_xor_mask = None,
      sy_control_channels = [851000000, 852000000, 853000000], sy_current_control_channel = 1,
      sy_channels = [], sy_conventional_recorders = [], sy_conventionalP25_recorders = [],
      sy_conventionalDMR_recorders = [], sy_transmission_archive = False,
      sy_audio_archive = True, sy_call_log = True, sy_compress_wav = True, sy_upload_script = [],
      sy_record_unknown = True,
      sy_talkgroup_patches = sm_empty, sy_multiSite = False, sy_multiSiteSystemName = [],
      sy_multiSiteSystemNumber = 0\<rparr>"


section \<open>Control channels\<close>

text \<open>
  Retuning rotates through the control channels: as many retunes in a row as there are
  control channels tune to every one of them exactly once and end where they started, and each
  of them has a defined result.
\<close>

theorem control_channel_rotation:
  assumes "sy_current_control_channel s < control_channel_count s"
    and "distinct (sy_control_channels s)"
  shows "\<exists>fs s'. retunes (control_channel_count s) s = Some (fs, s')
    \<and> distinct fs \<and> set fs = set (sy_control_channels s)
    \<and> get_current_control_channel s' = get_current_control_channel s"
proof -
  let ?cs = "sy_control_channels s" and ?c = "sy_current_control_channel s"
  let ?n = "length ?cs"
  have ne: "?cs \<noteq> []" and c: "?c < ?n" using assms(1) by (auto simp: control_channel_count_def)
  obtain fs s' where r: "retunes ?n s = Some (fs, s')"
    and fs: "fs = map (\<lambda>i. ?cs ! ((?c + 1 + i) mod ?n)) [0..<?n]"
    and s': "sy_control_channels s' = ?cs" "sy_current_control_channel s' = (?c + ?n) mod ?n"
    using retunes_nth [OF ne c, of ?n] by blast
  have rot: "fs = rotate (?c + 1) ?cs"
    by (rule nth_equalityI) (simp_all add: fs nth_rotate add.commute add.left_commute del: rotate_Suc)
  show ?thesis
    using r s' c assms(2) rot
    by (simp add: control_channel_count_def get_current_control_channel_def)
qed

theorem control_channel_rotation_witness:
  "\<exists>fs s'. retunes 3 example_system = Some (fs, s') \<and> distinct fs
    \<and> set fs = {851000000, 852000000, 853000000}"
proof -
  have c: "control_channel_count example_system = 3" "sy_current_control_channel example_system = 1"
    "sy_control_channels example_system = [851000000, 852000000, 853000000]"
    by (simp_all add: example_system_def control_channel_count_def)
  show ?thesis
    using control_channel_rotation [of example_system] unfolding c by simp blast
qed

section \<open>Identity\<close>

definition complete_status :: "TrunkMessage \<Rightarrow> bool" where
  "complete_status m \<longleftrightarrow> tm_sys_id m \<noteq> 0 \<and> tm_wacn m \<noteq> 0 \<and> tm_nac m \<noteq> 0"

definition run_status :: "TrunkMessage list \<Rightarrow> System_impl \<Rightarrow> System_impl" where
  "run_status ms s = fold (\<lambda>m s. snd (update_status m s)) ms s"

definition unidentified :: "System_impl \<Rightarrow> bool" where
  "unidentified s \<longleftrightarrow> (sy_sys_id s = 0 \<or> sy_wacn s = 0 \<or> sy_nac s = 0)"

lemma run_status_incomplete:
  "unidentified s \<Longrightarrow> \<forall>m \<in> set ms. \<not> complete_status m \<Longrightarrow>
     unidentified (run_status ms s) \<and> sy_xor_mask (run_status ms s) = sy_xor_mask s"
  by (induction ms arbitrary: s)
    (auto simp: run_status_def update_status_def unidentified_def complete_status_def Let_def)

lemma run_status_identified: "\<not> unidentified s \<Longrightarrow> run_status ms s = s"
  by (induction ms arbitrary: s) (auto simp: run_status_def update_status_def unidentified_def)

text \<open>
  A system adopts the identity of the first network status message that names a non-zero
  system, network and access code; from then on no message changes the identity, and the TDMA
  descrambling mask is the one computed from exactly these numbers. Before that there is no
  mask.
\<close>

theorem system_identity_frozen:
  assumes "ms = ms1 @ m # ms2" and "\<forall>m' \<in> set ms1. \<not> complete_status m'" and "complete_status m"
  shows "let s = run_status ms (new_system junk n) in
      sy_sys_id s = tm_sys_id m \<and> sy_wacn s = tm_wacn m \<and> sy_nac s = tm_nac m
      \<and> sy_xor_mask s = Some (tm_nac m, tm_sys_id m, tm_wacn m)
      \<and> sy_xor_mask (run_status ms1 (new_system junk n)) = None"
proof -
  let ?s0 = "new_system junk n"
  let ?s1 = "run_status ms1 ?s0"
  let ?s2 = "snd (update_status m ?s1)"
  have s0: "unidentified ?s0" "sy_xor_mask ?s0 = None" by (simp_all add: unidentified_def new_system_def)
  have s1: "unidentified ?s1" "sy_xor_mask ?s1 = None"
    using run_status_incomplete [OF s0(1) assms(2)] s0(2) by simp_all
  have s2: "sy_sys_id ?s2 = tm_sys_id m \<and> sy_wacn ?s2 = tm_wacn m \<and> sy_nac ?s2 = tm_nac m
      \<and> sy_xor_mask ?s2 = Some (tm_nac m, tm_sys_id m, tm_wacn m)"
    using s1(1) assms(3) by (simp add: update_status_def unidentified_def complete_status_def Let_def)
  have "run_status ms ?s0 = run_status ms2 ?s2"
    by (simp add: assms(1) run_status_def)
  also have "\<dots> = ?s2"
    using s2 assms(3) by (intro run_status_identified) (simp add: unidentified_def complete_status_def)
  finally show ?thesis using s2 s1(2) by (simp add: Let_def)
qed

definition status_message :: "ulong \<Rightarrow> TrunkMessage" where
  "status_message w =
     \<lparr>tm_message_type = STATUS, tm_freq = 0, tm_talkgroup = 0, tm_encrypted = False,
      tm_emergency = False, tm_duplex = False, tm_mode = False, tm_priority = 0, tm_tdma_slot = 0,
      tm_phase2_tdma = False, tm_source = 0, tm_sys_num = 0, tm_sys_id = 0x123, tm_sys_rfss = 0,
      tm_sys_site_id = 0, tm_nac = 0x293, tm_wacn = w,
      tm_patch_data = \<lparr>pd_sg = 0, pd_ga1 = 0, pd_ga2 = 0, pd_ga3 = 0\<rparr>, tm_opcode = 0x3b\<rparr>"

theorem system_identity_frozen_witness:
  "sy_wacn (run_status [status_message 0, status_message 0xBEE00, status_message 7]
     (new_system example_system 0)) = 0xBEE00"
proof -
  let ?ms = "[status_message 0, status_message 0xBEE00, status_message 7]"
  have "?ms = [status_message 0] @ status_message 0xBEE00 # [status_message 7]" by simp
  from system_identity_frozen [OF this, of example_system 0]
  show ?thesis by (simp add: complete_status_def status_message_def Let_def)
qed

section \<open>Talkgroup files\<close>

definition row_ok :: "csv_row \<Rightarrow> bool" where
  "row_ok row \<longleftrightarrow> field_int row ''Decimal'' \<noteq> None \<and> field_str row ''Mode'' \<noteq> None
     \<and> field_str row ''Description'' \<noteq> None
     \<and> (case field_int row ''Priority'' of None \<Rightarrow> True | Some p \<Rightarrow> \<bar>p\<bar> < 2 ^ 31)
     \<and> (case field_int row ''Preferred NAC'' of None \<Rightarrow> True | Some p \<Rightarrow> 0 \<le> p)"

lemma talkgroup_of_row_ok_iff: "(\<exists>tg. talkgroup_of_row s row = Inr tg) \<longleftrightarrow> row_ok row"
  by (auto simp: talkgroup_of_row_def row_ok_def Let_def get_int_def get_ulong_def split: option.splits)

lemma map_sum_singleton: "map_sum id (\<lambda>tg. [tg]) x = Inr xs \<longleftrightarrow> (\<exists>tg. x = Inr tg \<and> xs = [tg])"
  by (cases x) auto

lemma list_all2_singletons:
  "list_all2 (\<lambda>row xs. map_sum id (\<lambda>tg. [tg]) (f row) = Inr xs) rows xss
     \<longleftrightarrow> (\<exists>new. xss = map (\<lambda>tg. [tg]) new \<and> list_all2 (\<lambda>row tg. f row = Inr tg) rows new)"
  unfolding map_sum_singleton
proof (induction rows arbitrary: xss)
  case Nil
  then show ?case by auto
next
  case (Cons row rows)
  show ?case
    by (cases xss) (auto simp: Cons list_all2_Cons1 Cons_eq_map_conv)
qed

lemma load_talkgroups_Inr:
  "load_talkgroups s hs rows tgs = Inr res \<longleftrightarrow>
     check_headers ''Decimal'' talkgroup_columns hs = Inr ()
     \<and> (\<exists>new. list_all2 (\<lambda>row tg. talkgroup_of_row s row = Inr tg) rows new \<and> res = tgs @ new)"
proof -
  have concat_single: "concat (map (\<lambda>tg. [tg]) new) = new" for new :: "Talkgroup list"
    by (induction new) simp_all
  show ?thesis
    by (auto simp: load_talkgroups_def load_rows_Inr list_all2_singletons concat_single split: sum.splits)
qed

text \<open>
  Loading a talkgroup file succeeds exactly if its first column is \<open>Decimal\<close>, all its
  columns are known, and every row has an integer number, a mode and a description that are
  not numeric, a priority that fits an \<open>int\<close> and a preferred access code that is not negative;
  otherwise the program ends. If it succeeds, the rows are appended in order, one talkgroup
  per row, and a talkgroup number that the system did not have before is found with the fields
  of the first row that has it.
\<close>

theorem load_talkgroups_spec:
  "((\<exists>res. load_talkgroups s hs rows tgs = Inr res) \<longleftrightarrow>
      (hs \<noteq> [] \<and> hd hs = ''Decimal'' \<and> set hs \<subseteq> set talkgroup_columns \<and> (\<forall>row \<in> set rows. row_ok row)))
    \<and> (\<forall>res. load_talkgroups s hs rows tgs = Inr res \<longrightarrow>
         (\<exists>new. res = tgs @ new \<and> length new = length rows
           \<and> (\<forall>n tg. find_tg tgs s n = None \<longrightarrow> find_tg res s n = Some tg \<longrightarrow>
               (\<exists>i < length rows. field_int (rows ! i) ''Decimal'' = Some n
                  \<and> field_str (rows ! i) ''Description'' = Some (tg_description tg)
                  \<and> (\<forall>j < i. field_int (rows ! j) ''Decimal'' \<noteq> Some n)))))"
proof (intro conjI allI impI)
  have hd: "check_headers ''Decimal'' talkgroup_columns hs = Inr () \<longleftrightarrow>
      hs \<noteq> [] \<and> hd hs = ''Decimal'' \<and> set hs \<subseteq> set talkgroup_columns"
    using find_None_all [of "\<lambda>c. c \<notin> set talkgroup_columns" hs]
    by (auto simp: check_headers_def split: list.splits option.splits)
  have rows: "(\<exists>new. list_all2 (\<lambda>row tg. talkgroup_of_row s row = Inr tg) rows new) \<longleftrightarrow> (\<forall>row \<in> set rows. row_ok row)"
    by (induction rows) (auto simp: list_all2_Cons1 talkgroup_of_row_ok_iff [symmetric, of _ s])
  show "(\<exists>res. load_talkgroups s hs rows tgs = Inr res) \<longleftrightarrow>
      (hs \<noteq> [] \<and> hd hs = ''Decimal'' \<and> set hs \<subseteq> set talkgroup_columns \<and> (\<forall>row \<in> set rows. row_ok row))"
    unfolding load_talkgroups_Inr hd rows [symmetric] by auto
  fix res assume "load_talkgroups s hs rows tgs = Inr res"
  then obtain new where all: "list_all2 (\<lambda>row tg. talkgroup_of_row s row = Inr tg) rows new"
    and res: "res = tgs @ new"
    by (auto simp: load_talkgroups_Inr)
  have row: "tg_sys_num (new ! i) = s \<and> field_int (rows ! i) ''Decimal'' = Some (tg_number (new ! i))
      \<and> field_str (rows ! i) ''Description'' = Some (tg_description (new ! i))" if "i < length rows" for i
    using list_all2_nthD [OF all that] talkgroup_of_row_Inr by blast
  have "\<exists>i < length rows. field_int (rows ! i) ''Decimal'' = Some n
      \<and> field_str (rows ! i) ''Description'' = Some (tg_description tg)
      \<and> (\<forall>j < i. field_int (rows ! j) ''Decimal'' \<noteq> Some n)"
    if "find_tg tgs s n = None" "find_tg res s n = Some tg" for n tg
  proof -
    have "find_tg new s n = Some tg"
      using that by (simp add: res find_tg_def find_append)
    then obtain i where i: "i < length new" "tg_sys_num (new ! i) = s \<and> tg_number (new ! i) = n" "tg = new ! i"
        "\<forall>j < i. \<not> (tg_sys_num (new ! j) = s \<and> tg_number (new ! j) = n)"
      unfolding find_tg_def find_Some_iff by blast
    moreover have "length new = length rows" using all by (simp add: list_all2_lengthD)
    ultimately show ?thesis
      using row [of i] row by (intro exI [of _ i]) (auto dest: less_trans)
  qed
  then show "\<exists>new. res = tgs @ new \<and> length new = length rows
      \<and> (\<forall>n tg. find_tg tgs s n = None \<longrightarrow> find_tg res s n = Some tg \<longrightarrow>
          (\<exists>i < length rows. field_int (rows ! i) ''Decimal'' = Some n
             \<and> field_str (rows ! i) ''Description'' = Some (tg_description tg)
             \<and> (\<forall>j < i. field_int (rows ! j) ''Decimal'' \<noteq> Some n)))"
    using res list_all2_lengthD [OF all] by auto
qed

theorem load_talkgroups_spec_witness:
  "\<not> (\<exists>res. load_talkgroups 0 [''Decimal'', ''Mode'', ''Description'']
      [(\<lambda>c. None)(''Decimal'' := Some (CSV_INT 101), ''Mode'' := Some (CSV_STRING ''D''),
        ''Description'' := Some (CSV_INT 911))] [] = Inr res)"
  using load_talkgroups_spec [of 0 "[''Decimal'', ''Mode'', ''Description'']"
      "[(\<lambda>c. None)(''Decimal'' := Some (CSV_INT 101), ''Mode'' := Some (CSV_STRING ''D''),
        ''Description'' := Some (CSV_INT 911))]" "[]"]
  by (simp add: row_ok_def field_str_def field_int_def)

section \<open>Unit tag files\<close>

text \<open>
  Reading a text file line by line gives back its lines, whatever the convention for the
  end of a line (LF, CR or CR LF, the same throughout), and whether or not the last line is
  terminated.
\<close>

theorem read_lines_join:
  assumes "eol \<in> {[LF], [CR], [CR, LF]}"
    and "\<forall>l \<in> set ls. LF \<notin> set l \<and> CR \<notin> set l"
    and "LF \<notin> set l'" and "CR \<notin> set l'"
  shows "read_lines (concat (map (\<lambda>l. l @ eol) ls) @ l') = (if l' = [] then ls else ls @ [l'])"
  using assms(2)
proof (induction ls)
  case Nil
  then show ?case using read_lines_last [OF assms(3,4)] by simp
next
  case (Cons l ls)
  let ?rest = "concat (map (\<lambda>l. l @ eol) ls) @ l'"
  have no_lf: "?rest = [] \<or> hd ?rest \<noteq> LF" if "eol = [CR]"
  proof (cases ls)
    case Nil
    then show ?thesis using assms(3) by (cases l') auto
  next
    case (Cons k ks)
    then show ?thesis using Cons.prems that by (cases k) auto
  qed
  have "read_lines (l @ eol @ ?rest) = l # read_lines ?rest"
    using Cons.prems assms(1) no_lf by (intro read_lines_step) auto
  then show ?case using Cons by simp
qed

theorem read_lines_join_witness:
  "read_lines (concat (map (\<lambda>l. l @ [CR, LF]) [''1,a'', []]) @ ''2,b'') = [''1,a'', [], ''2,b'']"
  using read_lines_join [of "[CR, LF]" "[''1,a'', []]" "''2,b''"] by (simp add: LF_def CR_def)

end
