(* ===== verification/Call.thy ===== *)
theory Call
  imports System_Impl Decimal
begin

text \<open>
  A call (\<open>trunk-recorder/call_impl.cc\<close>, \<open>call_conventional.cc\<close>): its data, its two
  constructors, and the operations that touch nothing but the call. What a call does to its
  recorders is in the theory of call operations.

  A pointer to a system is its position in the vector of systems, a pointer to a recorder its
  position in the store of recorders. The display name of the talkgroup, a string for the log,
  is left out. \<open>now\<close> is what \<open>time(NULL)\<close> returns.
\<close>

type_synonym sys_ref = nat
type_synonym rec_ref = nat

text \<open>What the program tells its plugins, in order (\<open>plugin_manager\<close>).\<close>

datatype event =
    Signal int int
  | Setup_Recorder rec_ref
  | Setup_System sys_ref
  | Call_Start int
  | Calls_Active
  | Unit_Registration sys_ref int
  | Unit_Deregistration sys_ref int
  | Unit_Acknowledge sys_ref int
  | Unit_Group_Affiliation sys_ref int int
  | Unit_Data_Grant sys_ref int
  | Unit_Answer_Request sys_ref int int
  | Unit_Location sys_ref int int
  | Trunk_Messages sys_ref "TrunkMessage list"
  | Setup_Config
  | System_Rates

record Call =
  cl_conventional :: bool
  cl_call_num :: int
  cl_talkgroup :: int
  cl_curr_freq :: double
  cl_sys :: sys_ref
  cl_curr_src_id :: int
  cl_state :: State
  cl_monitoringState :: MonitoringState
  cl_last_update :: int
  cl_idle_count :: int
  cl_stop_time :: int
  cl_start_time :: int
  cl_debug_recording :: bool
  cl_sigmf_recording :: bool
  cl_was_update :: bool
  cl_encrypted :: bool
  cl_emergency :: bool
  cl_mode :: bool
  cl_duplex :: bool
  cl_is_analog :: bool
  cl_priority :: int
  cl_phase2_tdma :: bool
  cl_tdma_slot :: int
  cl_final_length :: double
  cl_recorder :: "rec_ref option"
  cl_debug_recorder :: "rec_ref option"
  cl_sigmf_recorder :: "rec_ref option"
  cl_talkgroup_tag :: string
  cl_transmission_list :: "Transmission list"

text \<open>\<open>set_freq\<close> writes only when the value differs, which comes to the same.\<close>

definition set_freq :: "double \<Rightarrow> Call \<Rightarrow> Call" where
  "set_freq f c = (if f \<noteq> cl_curr_freq c then c\<lparr>cl_curr_freq := f\<rparr> else c)"

text \<open>
  \<open>boost::trim\<close>, then an empty tag becomes a dash; the rest of \<open>update_talkgroup_display\<close>
  formats the display name.
\<close>

definition trim :: "string \<Rightarrow> string" where
  "trim s = rev (dropWhile is_space (rev (dropWhile is_space s)))"

definition update_talkgroup_display :: "Call \<Rightarrow> Call" where
  "update_talkgroup_display c =
     (let t = trim (cl_talkgroup_tag c)
      in c\<lparr>cl_talkgroup_tag := (if t = [] then ''-'' else t)\<rparr>)"

definition set_talkgroup_tag :: "string \<Rightarrow> Call \<Rightarrow> Call" where
  "set_talkgroup_tag tag c = update_talkgroup_display (c\<lparr>cl_talkgroup_tag := tag\<rparr>)"

text \<open>
  The constructor for conventional channels, \<open>Call_impl(long, double, System *, Config)\<close>, as
  \<open>Call_conventional\<close> uses it. \<open>num\<close> is the value of the static \<open>call_counter\<close> before it is
  increased. The pointers to the debug and SigMF recorders are not initialised; they are not
  read while the two flags are false.
\<close>

definition new_conventional_call :: "int \<Rightarrow> int \<Rightarrow> int \<Rightarrow> double \<Rightarrow> sys_ref \<Rightarrow> Call" where
  "new_conventional_call now num t f s =
     update_talkgroup_display (set_freq f
       \<lparr>cl_conventional = True, cl_call_num = num, cl_talkgroup = t, cl_curr_freq = 0, cl_sys = s,
        cl_curr_src_id = -1, cl_state = MONITORING, cl_monitoringState = UNSPECIFIED,
        cl_last_update = now, cl_idle_count = 0, cl_stop_time = now, cl_start_time = now,
        cl_debug_recording = False, cl_sigmf_recording = False, cl_was_update = False,
        cl_encrypted = False, cl_emergency = False, cl_mode = False, cl_duplex = False,
        cl_is_analog = False, cl_priority = 0, cl_phase2_tdma = False, cl_tdma_slot = 0,
        cl_final_length = 0, cl_recorder = None, cl_debug_recorder = None,
        cl_sigmf_recorder = None, cl_talkgroup_tag = [], cl_transmission_list = []\<rparr>)"

text \<open>
  The source of a call: \<open>add_source\<close> without what it does to the recorder and the plugins.
\<close>

definition source_changes :: "int \<Rightarrow> Call \<Rightarrow> bool" where
  "source_changes src c \<longleftrightarrow> src \<noteq> -1 \<and> src \<noteq> cl_curr_src_id c"

text \<open>
  The constructor for trunked calls, \<open>Call_impl(TrunkMessage, System *, Config)\<close>. At that time
  the call is not recording, so \<open>add_source\<close> only sets the source and signals the plugins.
\<close>

definition new_call :: "int \<Rightarrow> int \<Rightarrow> TrunkMessage \<Rightarrow> sys_ref \<Rightarrow> Call \<times> event list" where
  "new_call now num m s =
     (let c = set_freq (tm_freq m)
        \<lparr>cl_conventional = False, cl_call_num = num, cl_talkgroup = tm_talkgroup m,
         cl_curr_freq = 0, cl_sys = s, cl_curr_src_id = -1, cl_state = MONITORING,
         cl_monitoringState = UNSPECIFIED, cl_last_update = now, cl_idle_count = 0,
         cl_stop_time = now, cl_start_time = now, cl_debug_recording = False,
         cl_sigmf_recording = False, cl_was_update = (tm_message_type m \<noteq> GRANT),
         cl_encrypted = tm_encrypted m, cl_emergency = tm_emergency m, cl_mode = tm_mode m,
         cl_duplex = tm_duplex m, cl_is_analog = False, cl_priority = tm_priority m,
         cl_phase2_tdma = tm_phase2_tdma m, cl_tdma_slot = tm_tdma_slot m, cl_final_length = 0,
         cl_recorder = None, cl_debug_recorder = None, cl_sigmf_recorder = None,
         cl_talkgroup_tag = [], cl_transmission_list = []\<rparr>;
          src = tm_source m;
          changed = source_changes src c;
          c = (if changed then c\<lparr>cl_curr_src_id := src\<rparr> else c)
      in (update_talkgroup_display c, if changed then [Signal src num] else []))"

definition since_last_update :: "int \<Rightarrow> Call \<Rightarrow> int" where
  "since_last_update now c = now - cl_last_update c"

definition elapsed :: "int \<Rightarrow> Call \<Rightarrow> int" where
  "elapsed now c = now - cl_start_time c"

definition set_emergency :: "bool \<Rightarrow> Call \<Rightarrow> Call" where
  "set_emergency b c = c\<lparr>cl_emergency := (cl_emergency c \<or> b)\<rparr>"

text \<open>
  \<open>Call_conventional::get_start_time\<close> assigns the field as it returns it. The result is a
  \<open>time_t\<close>: the difference of an integer and a \<open>double\<close> is truncated.
\<close>

definition get_start_time :: "Call \<Rightarrow> int \<times> Call" where
  "get_start_time c =
     (if cl_conventional c
      then (let t = trunc (fl (of_int (cl_stop_time c) - cl_final_length c))
            in (t, c\<lparr>cl_start_time := t\<rparr>))
      else (cl_start_time c, c))"

section \<open>Identity of a call on the air\<close>

text \<open>
  What a grant or an update is compared with: talkgroup, system, frequency, slot and the TDMA
  flag. \<open>n\<close> is the number of the call's system.
\<close>

type_synonym call_key = "int \<times> int \<times> double \<times> int \<times> bool"

definition call_key :: "(sys_ref \<Rightarrow> int) \<Rightarrow> Call \<Rightarrow> call_key" where
  "call_key num c = (cl_talkgroup c, num (cl_sys c), cl_curr_freq c, cl_tdma_slot c, cl_phase2_tdma c)"

definition message_key :: "TrunkMessage \<Rightarrow> call_key" where
  "message_key m = (tm_talkgroup m, tm_sys_num m, tm_freq m, tm_tdma_slot m, tm_phase2_tdma m)"

lemma set_freq_simp [simp]: "set_freq f c = c\<lparr>cl_curr_freq := f\<rparr>"
  by (simp add: set_freq_def)

lemma update_talkgroup_display_simps [simp]:
  "cl_conventional (update_talkgroup_display c) = cl_conventional c"
  "cl_call_num (update_talkgroup_display c) = cl_call_num c"
  "cl_talkgroup (update_talkgroup_display c) = cl_talkgroup c"
  "cl_curr_freq (update_talkgroup_display c) = cl_curr_freq c"
  "cl_sys (update_talkgroup_display c) = cl_sys c"
  "cl_curr_src_id (update_talkgroup_display c) = cl_curr_src_id c"
  "cl_state (update_talkgroup_display c) = cl_state c"
  "cl_monitoringState (update_talkgroup_display c) = cl_monitoringState c"
  "cl_last_update (update_talkgroup_display c) = cl_last_update c"
  "cl_tdma_slot (update_talkgroup_display c) = cl_tdma_slot c"
  "cl_phase2_tdma (update_talkgroup_display c) = cl_phase2_tdma c"
  "cl_recorder (update_talkgroup_display c) = cl_recorder c"
  "cl_debug_recorder (update_talkgroup_display c) = cl_debug_recorder c"
  "cl_sigmf_recorder (update_talkgroup_display c) = cl_sigmf_recorder c"
  "cl_debug_recording (update_talkgroup_display c) = cl_debug_recording c"
  "cl_sigmf_recording (update_talkgroup_display c) = cl_sigmf_recording c"
  "cl_encrypted (update_talkgroup_display c) = cl_encrypted c"
  by (simp_all add: update_talkgroup_display_def Let_def)

lemma set_talkgroup_tag_simps [simp]:
  "cl_conventional (set_talkgroup_tag t c) = cl_conventional c"
  "cl_call_num (set_talkgroup_tag t c) = cl_call_num c"
  "cl_talkgroup (set_talkgroup_tag t c) = cl_talkgroup c"
  "cl_curr_freq (set_talkgroup_tag t c) = cl_curr_freq c"
  "cl_sys (set_talkgroup_tag t c) = cl_sys c"
  "cl_curr_src_id (set_talkgroup_tag t c) = cl_curr_src_id c"
  "cl_state (set_talkgroup_tag t c) = cl_state c"
  "cl_monitoringState (set_talkgroup_tag t c) = cl_monitoringState c"
  "cl_last_update (set_talkgroup_tag t c) = cl_last_update c"
  "cl_tdma_slot (set_talkgroup_tag t c) = cl_tdma_slot c"
  "cl_phase2_tdma (set_talkgroup_tag t c) = cl_phase2_tdma c"
  "cl_recorder (set_talkgroup_tag t c) = cl_recorder c"
  "cl_debug_recorder (set_talkgroup_tag t c) = cl_debug_recorder c"
  "cl_sigmf_recorder (set_talkgroup_tag t c) = cl_sigmf_recorder c"
  "cl_debug_recording (set_talkgroup_tag t c) = cl_debug_recording c"
  "cl_sigmf_recording (set_talkgroup_tag t c) = cl_sigmf_recording c"
  "cl_encrypted (set_talkgroup_tag t c) = cl_encrypted c"
  by (simp_all add: set_talkgroup_tag_def)

lemma call_key_tag [simp]:
  "call_key num (set_talkgroup_tag t c) = call_key num c"
  "call_key num (update_talkgroup_display c) = call_key num c"
  "call_key num (c\<lparr>cl_state := st\<rparr>) = call_key num c"
  "call_key num (c\<lparr>cl_monitoringState := ms\<rparr>) = call_key num c"
  "call_key num (c\<lparr>cl_recorder := r\<rparr>) = call_key num c"
  "call_key num (c\<lparr>cl_debug_recorder := r\<rparr>) = call_key num c"
  "call_key num (c\<lparr>cl_sigmf_recorder := r\<rparr>) = call_key num c"
  "call_key num (c\<lparr>cl_debug_recording := b\<rparr>) = call_key num c"
  "call_key num (c\<lparr>cl_sigmf_recording := b\<rparr>) = call_key num c"
  "call_key num (c\<lparr>cl_is_analog := b\<rparr>) = call_key num c"
  "call_key num (c\<lparr>cl_curr_src_id := i\<rparr>) = call_key num c"
  "call_key num (c\<lparr>cl_last_update := i\<rparr>) = call_key num c"
  by (simp_all add: call_key_def)

lemma new_call_simps [simp]:
  "cl_conventional (fst (new_call now num m s)) = False"
  "cl_call_num (fst (new_call now num m s)) = num"
  "cl_talkgroup (fst (new_call now num m s)) = tm_talkgroup m"
  "cl_curr_freq (fst (new_call now num m s)) = tm_freq m"
  "cl_sys (fst (new_call now num m s)) = s"
  "cl_state (fst (new_call now num m s)) = MONITORING"
  "cl_monitoringState (fst (new_call now num m s)) = UNSPECIFIED"
  "cl_last_update (fst (new_call now num m s)) = now"
  "cl_tdma_slot (fst (new_call now num m s)) = tm_tdma_slot m"
  "cl_phase2_tdma (fst (new_call now num m s)) = tm_phase2_tdma m"
  "cl_recorder (fst (new_call now num m s)) = None"
  "cl_debug_recording (fst (new_call now num m s)) = False"
  "cl_sigmf_recording (fst (new_call now num m s)) = False"
  "cl_encrypted (fst (new_call now num m s)) = tm_encrypted m"
  by (simp_all add: new_call_def Let_def)

lemma call_key_new_call:
  "num s = tm_sys_num m \<Longrightarrow> call_key num (fst (new_call now n m s)) = message_key m"
  by (simp add: call_key_def message_key_def)

end
