(* ===== verification/Wav_File.thy ===== *)
theory Wav_File
  imports TR_Prelude
begin

text \<open>
  Reading and writing of WAV files (\<open>trunk-recorder/gr_blocks/wavfile.cc\<close>).

  A \<open>FILE *\<close> that can be written is the contents of the file and the position of the stream;
  writing in the middle replaces octets, writing at the end appends. The host is little-endian,
  so the conversions \<open>host_to_wav\<close> and \<open>wav_to_host\<close> do nothing. Disk errors (\<open>ferror\<close>, a
  failing \<open>fseek\<close>) are not modelled.
\<close>

section \<open>Little-endian numbers and files\<close>

fun le_bytes :: "nat \<Rightarrow> nat \<Rightarrow> octet list" where
  "le_bytes 0 x = []"
| "le_bytes (Suc n) x = word_of_nat x # le_bytes n (x div 256)"

fun le_value :: "octet list \<Rightarrow> nat" where
  "le_value [] = 0"
| "le_value (b # bs) = unat b + 256 * le_value bs"

record wfile =
  wf_bytes :: "octet list"
  wf_pos :: nat

text \<open>\<open>fwrite\<close>: a gap after the end of the file, which \<open>fseek\<close> may leave, is filled with zeros.\<close>

definition put :: "nat \<Rightarrow> octet list \<Rightarrow> octet list \<Rightarrow> octet list" where
  "put off bs file = take off (file @ replicate (off - length file) 0) @ bs @ drop (off + length bs) file"

definition fwrite :: "octet list \<Rightarrow> wfile \<Rightarrow> wfile" where
  "fwrite bs f = \<lparr>wf_bytes = put (wf_pos f) bs (wf_bytes f), wf_pos = wf_pos f + length bs\<rparr>"

definition fseek_set :: "nat \<Rightarrow> wfile \<Rightarrow> wfile" where
  "fseek_set off f = f\<lparr>wf_pos := off\<rparr>"

text \<open>\<open>fread\<close> of \<open>n\<close> octets: what there is, and the new position.\<close>

definition fread :: "nat \<Rightarrow> octet list \<Rightarrow> nat \<Rightarrow> octet list \<times> nat" where
  "fread n file pos = (let bs = take n (drop pos file) in (bs, pos + length bs))"

definition ascii :: "string \<Rightarrow> octet list" where
  "ascii s = map (\<lambda>c. of_char c) s"

section \<open>Writing\<close>

definition wav_hdr_init :: "octet list" where
  "wav_hdr_init = ascii ''RIFF'' @ [0, 0, 0, 0] @ ascii ''WAVEfmt '' @ replicate 20 0 @ ascii ''data'' @ [0, 0, 0, 0]"

definition wavheader_write :: "nat \<Rightarrow> nat \<Rightarrow> nat \<Rightarrow> wfile \<Rightarrow> wfile" where
  "wavheader_write sample_rate nchans bytes_per_sample f =
     (let nchans_f = nchans mod 2 ^ 16;
          sample_rate_f = sample_rate mod 2 ^ 32;
          block_align = bytes_per_sample * nchans mod 2 ^ 16;
          avg_bytes = sample_rate * block_align mod 2 ^ 32;
          bits_per_sample = bytes_per_sample * 8 mod 2 ^ 16;
          h = wav_hdr_init;
          h = h[16 := 0x10];
          h = h[20 := 0x01];
          h = put 22 (le_bytes 2 nchans_f) h;
          h = put 24 (le_bytes 4 sample_rate_f) h;
          h = put 28 (le_bytes 4 avg_bytes) h;
          h = put 32 (le_bytes 2 block_align) h;
          h = put 34 (le_bytes 2 bits_per_sample) h
      in fwrite h f)"

definition wav_write_sample :: "16 word \<Rightarrow> nat \<Rightarrow> wfile \<Rightarrow> wfile" where
  "wav_write_sample sample bytes_per_sample f =
     fwrite (if bytes_per_sample = 1 then [ucast sample] else le_bytes 2 (unat sample)) f"

definition wavheader_complete :: "nat \<Rightarrow> wfile \<Rightarrow> wfile" where
  "wavheader_complete byte_count f =
     (let f = fwrite (le_bytes 4 (byte_count mod 2 ^ 32)) (fseek_set 40 f)
      in fwrite (le_bytes 4 ((byte_count + 36) mod 2 ^ 32)) (fseek_set 4 f))"

section \<open>Parsing\<close>

record wav_header =
  wh_sample_rate :: nat
  wh_nchans :: nat
  wh_bytes_per_sample :: nat
  wh_first_sample_pos :: nat
  wh_samples_per_chan :: nat

text \<open>
  The result is \<open>None\<close> when it is not defined: a division by a channel count of zero, or a
  file that ends inside the size of the data chunk, which is then read from an indeterminate
  variable. \<open>Some None\<close> is the result \<open>false\<close>. A file that ends inside the fields of the format
  chunk also gives \<open>false\<close>: the search for the next chunk then reads nothing.
\<close>

function find_data :: "octet list \<Rightarrow> nat \<Rightarrow> nat option" where
  "find_data file pos =
     (let (tag, pos) = fread 4 file pos
      in if length tag \<noteq> 4 then None
         else if tag = ascii ''data'' then Some pos
         else let (sz, pos) = fread 4 file pos
              in if length sz \<noteq> 4 then None else find_data file (pos + le_value sz))"
  by pat_completeness auto

termination find_data
  by (relation "measure (\<lambda>(file, pos). length file - pos)") (auto simp: fread_def Let_def)

declare find_data.simps [simp del]

definition wavheader_parse :: "octet list \<Rightarrow> wav_header option option" where
  "wavheader_parse file =
     (let (riff, p) = fread 4 file 0;
          (file_size, p) = fread 4 file p
      in if riff \<noteq> ascii ''RIFF'' then Some None
      else let (wavefmt, p) = fread 8 file p
      in if wavefmt \<noteq> ascii ''WAVEfmt '' then Some None
      else let (fmt_hdr_skip, p) = fread 4 file p;
               (compression_type, p) = fread 2 file p
      in if le_value compression_type \<noteq> 1 \<or> length compression_type \<noteq> 2 then Some None
      else let (nchans, p) = fread 2 file p;
               (sample_rate, p) = fread 4 file p;
               (avg_bytes_per_sec, p) = fread 4 file p;
               (block_align, p) = fread 2 file p;
               (bits_per_sample, p) = fread 2 file p
      in if length bits_per_sample \<noteq> 2 \<or> le_value bits_per_sample \<notin> {8, 16} then Some None
      else let skip = (le_value fmt_hdr_skip + 2 ^ 32 - 16) mod 2 ^ 32
      in case find_data file (p + skip) of
           None \<Rightarrow> Some None
         | Some p \<Rightarrow>
             let (chunk_size, p) = fread 4 file p;
                 bps = le_value bits_per_sample div 8
             in if length chunk_size \<noteq> 4 \<or> bps * le_value nchans = 0 then None
                else Some (Some
                  \<lparr>wh_sample_rate = le_value sample_rate, wh_nchans = le_value nchans,
                   wh_bytes_per_sample = bps, wh_first_sample_pos = p,
                   wh_samples_per_chan = le_value chunk_size div (bps * le_value nchans)\<rparr>))"

text \<open>\<open>wav_read_sample\<close> of 16-bit samples; a short read gives 0.\<close>

definition wav_read_sample :: "octet list \<Rightarrow> nat \<Rightarrow> 16 word \<times> nat" where
  "wav_read_sample file pos =
     (let (bs, pos) = fread 2 file pos
      in (if length bs = 2 then word_of_nat (le_value bs) else 0, pos))"

fun wav_read_samples :: "nat \<Rightarrow> octet list \<Rightarrow> nat \<Rightarrow> 16 word list" where
  "wav_read_samples 0 file pos = []"
| "wav_read_samples (Suc n) file pos =
     (let (s, pos) = wav_read_sample file pos in s # wav_read_samples n file pos)"

section \<open>Lemmas\<close>

lemma length_le_bytes [simp]: "length (le_bytes n x) = n"
  by (induction n arbitrary: x) simp_all

lemma unat_octet_of_nat: "unat (word_of_nat x :: octet) = x mod 256"
  by (simp add: unsigned_of_nat take_bit_eq_mod)

lemma le_value_bytes: "le_value (le_bytes n x) = x mod 256 ^ n"
proof (induction n arbitrary: x)
  case 0
  then show ?case by simp
next
  case (Suc n)
  have "le_value (le_bytes (Suc n) x) = x mod 256 + 256 * ((x div 256) mod 256 ^ n)"
    by (simp add: Suc unat_octet_of_nat)
  also have "\<dots> = x mod (256 * 256 ^ n)"
    using mod_mult2_eq [of x 256 "256 ^ n"] by simp
  finally show ?case by simp
qed

lemma le_value_lt: "le_value bs < 256 ^ length bs"
proof (induction bs)
  case Nil
  then show ?case by simp
next
  case (Cons b bs)
  have "unat b + 256 * le_value bs < 256 + 256 * le_value bs" using unat_octet_lt [of b] by simp
  also have "\<dots> \<le> 256 * 256 ^ length bs" using Cons by simp
  finally show ?case by simp
qed

lemma length_put: "length (put off bs file) = max (length file) (off + length bs)"
  by (auto simp: put_def)

lemma put_at_end: "off = length file \<Longrightarrow> put off bs file = file @ bs"
  by (simp add: put_def)

text \<open>Writing over a prefix of a file whose tail is whatever an older file left there.\<close>

lemma put_prefix:
  assumes "length new = off"
  shows "put off bs (new @ old) = (new @ bs) @ drop (length bs) old"
  using assms by (simp add: put_def)

lemma put_inside:
  assumes "off + length bs \<le> length new"
  shows "put off bs (new @ old) = put off bs new @ old"
  using assms by (simp add: put_def)

lemma fread_mid:
  assumes "length a = pos" and "length b = n"
  shows "fread n (a @ b @ c) pos = (b, pos + n)"
  using assms by (simp add: fread_def)

section \<open>The header a written file has\<close>

definition hdr :: "nat \<Rightarrow> nat \<Rightarrow> nat \<Rightarrow> octet list \<Rightarrow> octet list \<Rightarrow> octet list" where
  "hdr rate nch bps sz dsz = ascii ''RIFF'' @ sz @ ascii ''WAVEfmt '' @ [16, 0, 0, 0, 1, 0] @ le_bytes 2 (nch mod 2 ^ 16)
    @ le_bytes 4 (rate mod 2 ^ 32) @ le_bytes 4 (rate * (bps * nch mod 2 ^ 16) mod 2 ^ 32)
    @ le_bytes 2 (bps * nch mod 2 ^ 16) @ le_bytes 2 (bps * 8 mod 2 ^ 16) @ ascii ''data'' @ dsz"

lemma le_bytes_2: "\<exists>a b. le_bytes 2 x = [a, b]" by (simp add: numeral_2_eq_2)

lemma le_bytes_4: "\<exists>a b c d. le_bytes 4 x = [a,b,c,d]"
proof -
  have "(4::nat) = Suc (Suc (Suc (Suc 0)))" by simp
  then show ?thesis by (simp only: le_bytes.simps) simp
qed

lemma replicate_20: "replicate 20 (0::octet) = [0,0,0,0,0,0,0,0,0,0,0,0,0,0,0,0,0,0,0,0]"
  by (simp add: numeral_eq_Suc)
lemma wavheader_write_eq: "wavheader_write rate nch bps f = fwrite (hdr rate nch bps [0,0,0,0] [0,0,0,0]) f"
proof -
  obtain a0 a1 where a: "le_bytes 2 (nch mod 2 ^ 16) = [a0,a1]" using le_bytes_2 by blast
  obtain b0 b1 b2 b3 where b: "le_bytes 4 (rate mod 2 ^ 32) = [b0,b1,b2,b3]" using le_bytes_4 by blast
  obtain c0 c1 c2 c3 where c: "le_bytes 4 (rate * (bps * nch mod 2 ^ 16) mod 2 ^ 32) = [c0,c1,c2,c3]" using le_bytes_4 by blast
  obtain d0 d1 where d: "le_bytes 2 (bps * nch mod 2 ^ 16) = [d0,d1]" using le_bytes_2 by blast
  obtain e0 e1 where e: "le_bytes 2 (bps * 8 mod 2 ^ 16) = [e0,e1]" using le_bytes_2 by blast
  show ?thesis
    unfolding wavheader_write_def Let_def hdr_def a b c d e
    by (rule arg_cong [of _ _ "\<lambda>h. fwrite h f"]) (simp add: wav_hdr_init_def ascii_def put_def replicate_20)
qed

lemma hdr_explicit:
  "\<exists>a0 a1 b0 b1 b2 b3 c0 c1 c2 c3 d0 d1 e0 e1.
     le_bytes 2 (nch mod 2 ^ 16) = [a0, a1] \<and> le_bytes 4 (rate mod 2 ^ 32) = [b0, b1, b2, b3]
     \<and> le_bytes 2 (bps * 8 mod 2 ^ 16) = [e0, e1]
     \<and> (\<forall>sz dsz. hdr rate nch bps sz dsz = ascii ''RIFF'' @ sz @ ascii ''WAVEfmt '' @
         [16, 0, 0, 0, 1, 0, a0, a1, b0, b1, b2, b3, c0, c1, c2, c3, d0, d1, e0, e1] @ ascii ''data'' @ dsz)"
  using le_bytes_2 [of "nch mod 2 ^ 16"] le_bytes_4 [of "rate mod 2 ^ 32"]
    le_bytes_4 [of "rate * (bps * nch mod 2 ^ 16) mod 2 ^ 32"] le_bytes_2 [of "bps * nch mod 2 ^ 16"] le_bytes_2 [of "bps * 8 mod 2 ^ 16"]
  unfolding hdr_def by (elim exE) (simp del: power_numeral)

lemma length_hdr: "length sz = 4 \<Longrightarrow> length dsz = 4 \<Longrightarrow> length (hdr rate nch bps sz dsz) = 44"
  by (simp add: hdr_def ascii_def)

definition sample_bytes :: "16 word list \<Rightarrow> octet list" where
  "sample_bytes ss = concat (map (\<lambda>s. le_bytes 2 (unat s)) ss)"

lemma length_sample_bytes: "length (sample_bytes ss) = 2 * length ss"
  by (induction ss) (simp_all add: sample_bytes_def)

lemma write_samples:
  "fold (\<lambda>s. wav_write_sample s 2) ss \<lparr>wf_bytes = new @ old, wf_pos = length new\<rparr>
     = \<lparr>wf_bytes = (new @ sample_bytes ss) @ drop (2 * length ss) old, wf_pos = length new + 2 * length ss\<rparr>"
proof (induction ss arbitrary: new old)
  case Nil
  then show ?case by (simp add: sample_bytes_def)
next
  case (Cons s ss)
  have "wav_write_sample s 2 \<lparr>wf_bytes = new @ old, wf_pos = length new\<rparr>
      = \<lparr>wf_bytes = (new @ le_bytes 2 (unat s)) @ drop 2 old, wf_pos = length (new @ le_bytes 2 (unat s))\<rparr>"
    by (simp add: wav_write_sample_def fwrite_def put_prefix)
  then have "fold (\<lambda>s. wav_write_sample s 2) (s # ss) \<lparr>wf_bytes = new @ old, wf_pos = length new\<rparr>
      = fold (\<lambda>s. wav_write_sample s 2) ss
          \<lparr>wf_bytes = (new @ le_bytes 2 (unat s)) @ drop 2 old, wf_pos = length (new @ le_bytes 2 (unat s))\<rparr>"
    by (simp only: fold_simps)
  also have "\<dots> = \<lparr>wf_bytes = ((new @ le_bytes 2 (unat s)) @ sample_bytes ss) @ drop (2 * length ss) (drop 2 old),
      wf_pos = length (new @ le_bytes 2 (unat s)) + 2 * length ss\<rparr>"
    by (rule Cons)
  finally show ?case by (simp add: sample_bytes_def)
qed

lemma complete_header:
  "wavheader_complete n \<lparr>wf_bytes = hdr rate nch bps [0, 0, 0, 0] [0, 0, 0, 0] @ rest, wf_pos = p\<rparr>
     = \<lparr>wf_bytes = hdr rate nch bps (le_bytes 4 ((n + 36) mod 2 ^ 32)) (le_bytes 4 (n mod 2 ^ 32)) @ rest, wf_pos = 8\<rparr>"
proof -
  obtain a0 a1 b0 b1 b2 b3 c0 c1 c2 c3 d0 d1 e0 e1 where
    h: "\<forall>sz dsz. hdr rate nch bps sz dsz = ascii ''RIFF'' @ sz @ ascii ''WAVEfmt '' @
         [16, 0, 0, 0, 1, 0, a0, a1, b0, b1, b2, b3, c0, c1, c2, c3, d0, d1, e0, e1] @ ascii ''data'' @ dsz"
    using hdr_explicit [of nch rate bps] by blast
  obtain f0 f1 f2 f3 where f: "le_bytes 4 (n mod 2 ^ 32) = [f0, f1, f2, f3]" using le_bytes_4 by blast
  obtain g0 g1 g2 g3 where g: "le_bytes 4 ((n + 36) mod 2 ^ 32) = [g0, g1, g2, g3]" using le_bytes_4 by blast
  show ?thesis
    unfolding wavheader_complete_def Let_def f g
    by (simp add: h fwrite_def fseek_set_def put_def ascii_def)
qed

lemma fread_hdr:
  assumes "length sz = 4" "length dsz = 4"
  shows "wavheader_parse (hdr rate nch bps sz dsz @ rest) =
    (if bps * 8 mod 2 ^ 16 \<notin> {8, 16} then Some None
     else if bps * 8 mod 2 ^ 16 div 8 * (nch mod 2 ^ 16) = 0 then None
     else Some (Some \<lparr>wh_sample_rate = rate mod 2 ^ 32, wh_nchans = nch mod 2 ^ 16,
            wh_bytes_per_sample = bps * 8 mod 2 ^ 16 div 8, wh_first_sample_pos = 44,
            wh_samples_per_chan = le_value dsz div (bps * 8 mod 2 ^ 16 div 8 * (nch mod 2 ^ 16))\<rparr>))"
proof -
  obtain a0 a1 b0 b1 b2 b3 c0 c1 c2 c3 d0 d1 e0 e1 where
    a: "le_bytes 2 (nch mod 2 ^ 16) = [a0, a1]" and b: "le_bytes 4 (rate mod 2 ^ 32) = [b0, b1, b2, b3]"
    and e: "le_bytes 2 (bps * 8 mod 2 ^ 16) = [e0, e1]"
    and h: "\<forall>sz dsz. hdr rate nch bps sz dsz = ascii ''RIFF'' @ sz @ ascii ''WAVEfmt '' @
         [16, 0, 0, 0, 1, 0, a0, a1, b0, b1, b2, b3, c0, c1, c2, c3, d0, d1, e0, e1] @ ascii ''data'' @ dsz"
    using hdr_explicit [of nch rate bps] by blast
  have av: "le_value [a0, a1] = nch mod 2 ^ 16" and bv: "le_value [b0, b1, b2, b3] = rate mod 2 ^ 32"
    and ev: "le_value [e0, e1] = bps * 8 mod 2 ^ 16"
    using le_value_bytes [of 2 "nch mod 2 ^ 16"] le_value_bytes [of 4 "rate mod 2 ^ 32"]
      le_value_bytes [of 2 "bps * 8 mod 2 ^ 16"] unfolding a b e by simp_all
  obtain s0 s1 s2 s3 where sz: "sz = [s0, s1, s2, s3]"
    using assms(1) by (auto simp: eval_nat_numeral length_Suc_conv)
  obtain z0 z1 z2 z3 where dsz: "dsz = [z0, z1, z2, z3]"
    using assms(2) by (auto simp: eval_nat_numeral length_Suc_conv)
  define F where "F = hdr rate nch bps sz dsz @ rest"
  have fd: "find_data F 36 = Some 40"
    by (subst find_data.simps) (simp add: F_def h sz ascii_def fread_def)
  have r: "fread 4 F 0 = (ascii ''RIFF'', 4)" "fread 4 F 4 = (sz, 8)" "fread 8 F 8 = (ascii ''WAVEfmt '', 16)"
    "fread 4 F 16 = ([16, 0, 0, 0], 20)" "fread 2 F 20 = ([1, 0], 22)" "fread 2 F 22 = ([a0, a1], 24)"
    "fread 4 F 24 = ([b0, b1, b2, b3], 28)" "fread 4 F 28 = ([c0, c1, c2, c3], 32)"
    "fread 2 F 32 = ([d0, d1], 34)" "fread 2 F 34 = ([e0, e1], 36)" "fread 4 F 40 = (dsz, 44)"
    by (simp_all add: F_def h sz dsz ascii_def fread_def)
  have skip: "(le_value [16, 0, 0, 0] + 2 ^ 32 - 16) mod 2 ^ 32 = 0" by simp
  have ct: "le_value [1, 0] = 1" by simp
  show ?thesis
    unfolding F_def [symmetric] wavheader_parse_def Let_def r prod.case skip ct av bv ev add_0_right fd
    using assms by (simp add: r)
qed

lemma unat_sample_lt: "unat (s :: 16 word) < 65536"
  using unsigned_less [of s] by simp

lemma read_samples:
  "length a = pos \<Longrightarrow> wav_read_samples (length ss) (a @ sample_bytes ss @ c) pos = ss"
proof (induction ss arbitrary: a pos)
  case Nil
  then show ?case by simp
next
  case (Cons s ss)
  let ?b = "le_bytes 2 (unat s)"
  have eq: "a @ sample_bytes (s # ss) @ c = a @ ?b @ sample_bytes ss @ c"
    by (simp add: sample_bytes_def)
  have "wav_read_sample (a @ ?b @ sample_bytes ss @ c) pos = (s, pos + 2)"
    using fread_mid [OF Cons.prems, of ?b 2 "sample_bytes ss @ c"] unat_sample_lt [of s]
    by (simp add: wav_read_sample_def le_value_bytes)
  moreover have "wav_read_samples (length ss) ((a @ ?b) @ sample_bytes ss @ c) (pos + 2) = ss"
    using Cons.prems by (intro Cons.IH) simp
  ultimately show ?case by (simp add: eq)
qed

text \<open>
  One recording from the first to the last call of this interface: the file may exist already,
  with whatever contents, because the recorder opens it without truncating it.
\<close>

definition record_wav :: "nat \<Rightarrow> nat \<Rightarrow> octet list \<Rightarrow> 16 word list \<Rightarrow> octet list" where
  "record_wav rate nch old ss =
     wf_bytes (wavheader_complete (2 * length ss)
       (fold (\<lambda>s. wav_write_sample s 2) ss (wavheader_write rate nch 2 \<lparr>wf_bytes = old, wf_pos = 0\<rparr>)))"

text \<open>
  C36. A recording of 16-bit samples can be read back: whatever the file contained before, the
  parser accepts the finished file, reports the sample rate, the channel count, two octets per
  sample, the first sample at offset 44 and the number of samples per channel, and reading from
  there gives the samples that were written, in order. The sizes must fit the 32-bit fields.
\<close>

theorem wav_roundtrip:
  assumes "0 < nch" and "nch < 2 ^ 16" and "rate < 2 ^ 32"
    and "length ss = k * nch" and "2 * length ss < 2 ^ 32"
  shows "wavheader_parse (record_wav rate nch old ss) = Some (Some
      \<lparr>wh_sample_rate = rate, wh_nchans = nch, wh_bytes_per_sample = 2, wh_first_sample_pos = 44,
       wh_samples_per_chan = k\<rparr>)
    \<and> wav_read_samples (length ss) (record_wav rate nch old ss) 44 = ss"
proof -
  let ?z = "[0, 0, 0, 0] :: octet list"
  let ?sz = "le_bytes 4 ((2 * length ss + 36) mod 2 ^ 32)" and ?dsz = "le_bytes 4 (2 * length ss mod 2 ^ 32)"
  have "wavheader_write rate nch 2 \<lparr>wf_bytes = old, wf_pos = 0\<rparr>
      = \<lparr>wf_bytes = hdr rate nch 2 ?z ?z @ drop 44 old, wf_pos = length (hdr rate nch 2 ?z ?z)\<rparr>"
    by (simp add: wavheader_write_eq fwrite_def put_def length_hdr)
  then have rec: "record_wav rate nch old ss = hdr rate nch 2 ?sz ?dsz @ sample_bytes ss @ drop (2 * length ss) (drop 44 old)"
    by (simp add: record_wav_def write_samples complete_header)
  have v: "le_value ?dsz = 2 * length ss"
    using assms(5) by (simp add: le_value_bytes)
  show ?thesis
    using assms v read_samples [of "hdr rate nch 2 ?sz ?dsz" 44 ss]
    by (simp add: rec fread_hdr length_hdr)
qed

theorem wav_roundtrip_witness:
  "wavheader_parse (record_wav 8000 1 [1, 2, 3] [0x1234, 0xFFFF]) = Some (Some
      \<lparr>wh_sample_rate = 8000, wh_nchans = 1, wh_bytes_per_sample = 2, wh_first_sample_pos = 44,
       wh_samples_per_chan = 2\<rparr>)"
  using wav_roundtrip [of 1 8000 "[0x1234, 0xFFFF]" 2 "[1, 2, 3]"] by simp

end
