(* ===== verification/Transmission_Sink.thy ===== *)
theory Transmission_Sink
  imports Call Wav_File Decimal
begin

text \<open>
  The end of a recorder's flow graph (\<open>trunk-recorder/gr_blocks/transmission_sink.cc\<close>): a state
  machine that cuts the stream of samples of a call into transmissions, one WAV file each,
  guided by the tags the decoders attach to the stream.

  The environment of a call of \<open>work\<close> is the clock and whether a file can be opened. What the
  program reads of the call while recording it is copied from the call when recording starts.
  The open file is its name with the contents written so far, and \<open>sk_closed\<close> is the list of
  the files the sink has completed, in order: the effect on the disk.
\<close>

record sink_env =
  env_now :: int
  env_clock :: int
  env_can_open :: "string \<Rightarrow> bool"
  env_contents :: "string \<Rightarrow> octet list"

record sink =
  sk_sample_rate :: nat
  sk_nchans :: nat
  sk_bytes_per_sample :: nat
  sk_slot :: int
  sk_conventional :: bool
  sk_termination_flag :: bool
  sk_start_time :: int
  sk_stop_time :: int
  sk_last_write_time :: int
  sk_spike_count :: int
  sk_error_count :: int
  sk_curr_src_id :: int
  sk_next_src_id :: int
  sk_current_filename :: string
  sk_current_call :: "int option"
  sk_short_name :: string
  sk_temp_dir :: string
  sk_freq :: double
  sk_talkgroup :: int
  sk_talkgroup_encoded :: int
  sk_prior_length :: double
  sk_sample_count :: nat
  sk_fp :: "(string \<times> wfile) option"
  sk_transmission_list :: "Transmission list"
  sk_state :: State
  sk_closed :: "(string \<times> octet list) list"

text \<open>
  The constructor. \<open>junk\<close> holds the members it does not initialise, among them the start time
  and the two source identifiers. An invalid sample size throws.
\<close>

definition new_sink :: "sink \<Rightarrow> nat \<Rightarrow> nat \<Rightarrow> nat \<Rightarrow> sink option" where
  "new_sink junk n_channels sample_rate bits_per_sample =
     (if bits_per_sample \<noteq> 8 \<and> bits_per_sample \<noteq> 16 then None
      else Some (junk\<lparr>sk_sample_rate := sample_rate, sk_nchans := n_channels,
        sk_bytes_per_sample := bits_per_sample div 8, sk_slot := -1, sk_termination_flag := False,
        sk_current_call := None, sk_sample_count := 0, sk_fp := None, sk_transmission_list := [],
        sk_state := AVAILABLE, sk_closed := []\<rparr>))"

section \<open>File names\<close>

text \<open>
  \<open>snprintf\<close> keeps at most 254 characters. The format \<open>%.0f\<close> rounds to the nearest integer.
\<close>

definition wav_path :: "string \<Rightarrow> string \<Rightarrow> int \<Rightarrow> int \<Rightarrow> double \<Rightarrow> int \<Rightarrow> string" where
  "wav_path temp_dir short_name tg start freq slot =
     take 254 (temp_dir @ ''/'' @ short_name @ ''/'' @ decimal tg @ ''-'' @ decimal start @ ''_''
       @ decimal (round_half_even freq)
       @ (if slot = -1 then '''' else ''.'' @ decimal slot) @ ''.wav'')"

definition create_filename :: "sink \<Rightarrow> sink" where
  "create_filename s =
     s\<lparr>sk_current_filename := wav_path (sk_temp_dir s) (sk_short_name s) (sk_talkgroup s)
        (sk_start_time s) (sk_freq s) (sk_slot s)\<rparr>"

section \<open>Starting and stopping\<close>

definition start_recording :: "sink_env \<Rightarrow> Config \<Rightarrow> System_impl \<Rightarrow> Call \<Rightarrow> sink \<Rightarrow> sink" where
  "start_recording env cfg sys c s =
     s\<lparr>sk_current_call := Some (cl_call_num c),
       sk_freq := cl_curr_freq c,
       sk_talkgroup := cl_talkgroup c,
       sk_talkgroup_encoded :=
         (if sy_system_type sys = ''smartnet'' then drop_bit 4 (cl_talkgroup c) else cl_talkgroup c),
       sk_short_name := sy_short_name sys,
       sk_temp_dir := cfg_temp_dir cfg,
       sk_prior_length := 0,
       sk_error_count := 0,
       sk_spike_count := 0,
       sk_last_write_time := env_clock env,
       sk_transmission_list := [],
       sk_conventional := cl_conventional c,
       sk_next_src_id := -1,
       sk_curr_src_id := cl_curr_src_id c,
       sk_sample_count := 0,
       sk_state := IDLE\<rparr>"

definition start_recording_slot :: "sink_env \<Rightarrow> Config \<Rightarrow> System_impl \<Rightarrow> Call \<Rightarrow> int \<Rightarrow> sink \<Rightarrow> sink" where
  "start_recording_slot env cfg sys c slot s = start_recording env cfg sys c (s\<lparr>sk_slot := slot\<rparr>)"

definition length_in_seconds :: "sink \<Rightarrow> double" where
  "length_in_seconds s = fl (fl (of_nat (sk_sample_count s)) / fl (of_nat (sk_sample_rate s)))"

definition total_length_in_seconds :: "sink \<Rightarrow> double" where
  "total_length_in_seconds s = fl (length_in_seconds s + sk_prior_length s)"

text \<open>\<open>byte_count\<close> is an \<open>unsigned int\<close>.\<close>

definition close_wav :: "sink \<Rightarrow> sink" where
  "close_wav s =
     (case sk_fp s of
        None \<Rightarrow> s
      | Some (name, f) \<Rightarrow>
          s\<lparr>sk_fp := None,
            sk_closed := sk_closed s @
              [(name, wf_bytes (wavheader_complete (sk_sample_count s * sk_bytes_per_sample s mod 2 ^ 32) f))]\<rparr>)"

definition end_transmission :: "sink \<Rightarrow> sink" where
  "end_transmission s =
     (if sk_sample_count s > 0
      then let s1 = close_wav s;
               t = \<lparr>tr_source = sk_curr_src_id s1, tr_start_time = sk_start_time s1,
                    tr_stop_time = sk_stop_time s1, tr_sample_count = int (sk_sample_count s1),
                    tr_spike_count = sk_spike_count s1, tr_error_count = sk_error_count s1,
                    tr_length = length_in_seconds s1, tr_filename = sk_current_filename s1\<rparr>;
               s2 = s1\<lparr>sk_prior_length := fl (sk_prior_length s1 + tr_length t),
                       sk_transmission_list := sk_transmission_list s1 @ [t],
                       sk_state := IDLE, sk_sample_count := 0, sk_error_count := 0,
                       sk_spike_count := 0\<rparr>
           in if sk_next_src_id s2 > 0
              then s2\<lparr>sk_curr_src_id := sk_next_src_id s2, sk_next_src_id := -1\<rparr>
              else s2\<lparr>sk_curr_src_id := -1, sk_next_src_id := -1\<rparr>
      else s)"

definition stop_recording :: "sink \<Rightarrow> sink" where
  "stop_recording s =
     (if sk_sample_count s > 0 then end_transmission s else s)
       \<lparr>sk_current_call := None, sk_termination_flag := False, sk_state := AVAILABLE\<rparr>"

definition sink_set_source :: "int \<Rightarrow> sink \<Rightarrow> sink" where
  "sink_set_source src s = (if sk_curr_src_id s = -1 then s\<lparr>sk_curr_src_id := src\<rparr> else s)"

section \<open>Opening a file\<close>

text \<open>
  The file is opened without truncation, positioned at its start, and gets a header. A path of
  254 characters may be a truncated one; it is used all the same.
\<close>

definition open_internal :: "sink_env \<Rightarrow> string \<Rightarrow> sink \<Rightarrow> bool \<times> sink" where
  "open_internal env name s =
     (if \<not> env_can_open env name then (False, s)
      else (True, s\<lparr>sk_fp := Some (name, wavheader_write (sk_sample_rate s) (sk_nchans s)
                      (sk_bytes_per_sample s) \<lparr>wf_bytes = env_contents env name, wf_pos = 0\<rparr>),
                    sk_sample_count := 0\<rparr>))"

section \<open>Work\<close>

datatype tag = Grp_Id int | Src_Id int | Terminate | Spike_Count int | Error_Count int

text \<open>
  One tag of the current window. The keys exclude each other; the counters are taken only
  while the sink is recording.
\<close>

fun process_tag :: "tag \<Rightarrow> sink \<Rightarrow> sink" where
  "process_tag (Grp_Id grp_id) s =
     (if (sk_state s = RECORDING \<or> sk_state s = IDLE) \<and> sk_talkgroup_encoded s \<noteq> grp_id
         \<and> \<not> sk_conventional s
      then (if sk_sample_count s > 0 then end_transmission s else s)\<lparr>sk_state := IGNORE\<rparr>
      else s)"
| "process_tag (Src_Id src_id) s =
     (if sk_curr_src_id s = -1 then s\<lparr>sk_curr_src_id := src_id\<rparr>
      else if src_id \<noteq> sk_curr_src_id s \<and> sk_state s = RECORDING then s\<lparr>sk_curr_src_id := src_id\<rparr>
      else s)"
| "process_tag Terminate s = s\<lparr>sk_termination_flag := True\<rparr>"
| "process_tag (Spike_Count n) s = (if sk_state s = RECORDING then s\<lparr>sk_spike_count := n\<rparr> else s)"
| "process_tag (Error_Count n) s = (if sk_state s = RECORDING then s\<lparr>sk_error_count := n\<rparr> else s)"

text \<open>
  The samples of one item, one per channel of the file; channels without an input are silent.
  \<open>inputs\<close> is the list of the input buffers.
\<close>

definition item_samples :: "nat \<Rightarrow> 16 word list list \<Rightarrow> nat \<Rightarrow> 16 word list" where
  "item_samples nchans inputs i =
     map (\<lambda>chan. if chan < length inputs then (inputs ! chan) ! i else 0) [0..<nchans]"

definition write_items :: "16 word list \<Rightarrow> sink \<Rightarrow> sink" where
  "write_items samples s =
     (case sk_fp s of
        None \<Rightarrow> s
      | Some (name, f) \<Rightarrow>
          s\<lparr>sk_fp := Some (name, fold (\<lambda>x. wav_write_sample x (sk_bytes_per_sample s)) samples f),
            sk_sample_count := (sk_sample_count s + length samples) mod 2 ^ 32\<rparr>)"

text \<open>The start of a transmission: the branch for the state \<open>IDLE\<close>.\<close>

definition open_next :: "sink_env \<Rightarrow> sink \<Rightarrow> bool \<times> sink" where
  "open_next env s =
     (let s = (if sk_fp s \<noteq> None then close_wav s else s);
          s = s\<lparr>sk_start_time :=
                 (if env_now env = sk_start_time s then env_now env + 1 else env_now env)\<rparr>;
          s = create_filename s;
          (ok, s) = open_internal env (sk_current_filename s) s
      in (ok, if ok then s\<lparr>sk_state := RECORDING\<rparr> else s))"

definition dowork :: "sink_env \<Rightarrow> nat \<Rightarrow> 16 word list list \<Rightarrow> sink \<Rightarrow> sink" where
  "dowork env noutput_items inputs s =
     (if sk_state s = STOPPED then s
      else if sk_termination_flag s then
        (let s = s\<lparr>sk_termination_flag := False\<rparr>
         in if sk_current_call s = None then s\<lparr>sk_state := STOPPED\<rparr>
            else let s = (if sk_state s = IGNORE then s\<lparr>sk_state := IDLE\<rparr> else s)
                 in if sk_sample_count s > 0 then end_transmission s else s)
      else if sk_state s = IGNORE then s
      else
        let (ok, s) = (if sk_state s = IDLE then open_next env s else (True, s))
        in if \<not> ok then s
           else if sk_fp s = None then s
           else (if sk_state s = RECORDING
                 then write_items (concat (map (item_samples (sk_nchans s) inputs) [0..<noutput_items])) s
                 else s)\<lparr>sk_stop_time := env_now env, sk_last_write_time := env_clock env\<rparr>)"

definition work :: "sink_env \<Rightarrow> nat \<Rightarrow> tag list \<Rightarrow> 16 word list list \<Rightarrow> sink \<Rightarrow> sink" where
  "work env noutput_items tags inputs s =
     (if sk_current_call s = None then s
      else if sk_state s = STOPPED \<or> sk_state s = AVAILABLE then s
      else dowork env noutput_items inputs (fold process_tag tags s))"

end
