(* ===== verification/Sink_Properties.thy ===== *)
theory Sink_Properties
  imports Transmission_Sink
begin

text \<open>
  What the transmission sink (\<open>trunk-recorder/gr_blocks/transmission_sink.cc\<close>) promises: its
  state machine, and that the samples it accepts during a call are, in order and without loss,
  the contents of the WAV files of the transmissions it reports.
\<close>

section \<open>The state machine\<close>

definition sink_ok :: "sink \<Rightarrow> bool" where
  "sink_ok s \<longleftrightarrow>
     sk_state s \<in> {AVAILABLE, IDLE, RECORDING, IGNORE}
     \<and> (sk_state s = AVAILABLE \<longleftrightarrow> sk_current_call s = None)
     \<and> (sk_state s = RECORDING \<longrightarrow> sk_fp s \<noteq> None)
     \<and> (sk_sample_count s > 0 \<longrightarrow> sk_state s = RECORDING)"

lemma sink_ok_new: "new_sink junk n r b = Some s \<Longrightarrow> sink_ok s"
  by (auto simp: new_sink_def sink_ok_def split: if_splits)

lemma close_wav_simps [simp]:
  "sk_state (close_wav s) = sk_state s" "sk_current_call (close_wav s) = sk_current_call s"
  "sk_sample_count (close_wav s) = sk_sample_count s" "sk_fp (close_wav s) = None"
  "sk_next_src_id (close_wav s) = sk_next_src_id s" "sk_curr_src_id (close_wav s) = sk_curr_src_id s"
  "sk_current_filename (close_wav s) = sk_current_filename s" "sk_start_time (close_wav s) = sk_start_time s"
  "sk_termination_flag (close_wav s) = sk_termination_flag s" "sk_sample_rate (close_wav s) = sk_sample_rate s"
  "sk_nchans (close_wav s) = sk_nchans s" "sk_bytes_per_sample (close_wav s) = sk_bytes_per_sample s"
  "sk_transmission_list (close_wav s) = sk_transmission_list s"
  "sk_talkgroup (close_wav s) = sk_talkgroup s" "sk_freq (close_wav s) = sk_freq s"
  "sk_slot (close_wav s) = sk_slot s" "sk_temp_dir (close_wav s) = sk_temp_dir s"
  "sk_short_name (close_wav s) = sk_short_name s"
  by (simp_all add: close_wav_def split: option.splits)

lemma end_transmission_simps [simp]:
  "sk_current_call (end_transmission s) = sk_current_call s"
  "sk_sample_count (end_transmission s) = 0"
  "sk_termination_flag (end_transmission s) = sk_termination_flag s"
  "sk_nchans (end_transmission s) = sk_nchans s"
  "sk_sample_rate (end_transmission s) = sk_sample_rate s"
  "sk_bytes_per_sample (end_transmission s) = sk_bytes_per_sample s"
  "sk_current_filename (end_transmission s) = sk_current_filename s"
  "sk_start_time (end_transmission s) = sk_start_time s"
  "sk_talkgroup (end_transmission s) = sk_talkgroup s" "sk_freq (end_transmission s) = sk_freq s"
  "sk_slot (end_transmission s) = sk_slot s" "sk_temp_dir (end_transmission s) = sk_temp_dir s"
  "sk_short_name (end_transmission s) = sk_short_name s"
  by (simp_all add: end_transmission_def Let_def)

lemma end_transmission_state: "sk_sample_count s > 0 \<Longrightarrow> sk_state (end_transmission s) = IDLE"
  by (simp add: end_transmission_def Let_def)

lemma end_transmission_none: "sk_sample_count s = 0 \<Longrightarrow> end_transmission s = s"
  by (simp add: end_transmission_def)

lemma end_transmission_fp: "sk_sample_count s > 0 \<Longrightarrow> sk_fp (end_transmission s) = None"
  by (simp add: end_transmission_def Let_def)

lemma sink_ok_start [invariant_intros]: "sink_ok (start_recording env cfg sys c s)"
  by (simp add: start_recording_def sink_ok_def)

lemma sink_ok_stop [invariant_intros]: "sink_ok (stop_recording s)"
  by (auto simp: stop_recording_def sink_ok_def)

lemma sink_ok_set_source [invariant_intros]: "sink_ok s \<Longrightarrow> sink_ok (sink_set_source src s)"
  by (auto simp: sink_set_source_def sink_ok_def)

lemma sink_ok_end [invariant_intros]:
  assumes "sink_ok s" "sk_current_call s \<noteq> None"
  shows "sink_ok (end_transmission s)"
proof (cases "sk_sample_count s > 0")
  case True
  then show ?thesis using assms by (simp add: sink_ok_def end_transmission_state)
next
  case False
  then show ?thesis using assms by (simp add: end_transmission_none)
qed

lemma sink_ok_tag [invariant_intros]:
  assumes "sink_ok s" "sk_current_call s \<noteq> None"
  shows "sink_ok (process_tag t s) \<and> sk_current_call (process_tag t s) = sk_current_call s"
  using assms by (cases t) (auto simp: sink_ok_def end_transmission_state)

lemma sink_ok_tags:
  "sink_ok s \<Longrightarrow> sk_current_call s \<noteq> None \<Longrightarrow>
     sink_ok (fold process_tag ts s) \<and> sk_current_call (fold process_tag ts s) = sk_current_call s"
proof (induction ts arbitrary: s)
  case Nil
  then show ?case by simp
next
  case (Cons t ts)
  then show ?case using sink_ok_tag [of s t] by simp
qed

lemma write_items_simps [simp]:
  "sk_state (write_items xs s) = sk_state s" "sk_current_call (write_items xs s) = sk_current_call s"
  "(sk_fp (write_items xs s) = None) = (sk_fp s = None)"
  by (simp_all add: write_items_def split: option.splits)

definition next_start_time :: "int \<Rightarrow> sink \<Rightarrow> int" where
  "next_start_time now s = (if now = sk_start_time s then now + 1 else now)"

definition next_path :: "int \<Rightarrow> sink \<Rightarrow> string" where
  "next_path now s =
     wav_path (sk_temp_dir s) (sk_short_name s) (sk_talkgroup s) (next_start_time now s) (sk_freq s) (sk_slot s)"

lemma open_next_simps [simp]:
  "fst (open_next env s) = env_can_open env (next_path (env_now env) s)"
  "sk_state (snd (open_next env s)) =
     (if env_can_open env (next_path (env_now env) s) then RECORDING else sk_state s)"
  "sk_current_call (snd (open_next env s)) = sk_current_call s"
  "sk_nchans (snd (open_next env s)) = sk_nchans s"
  "(sk_fp (snd (open_next env s)) = None) = (\<not> env_can_open env (next_path (env_now env) s))"
  "sk_sample_count (snd (open_next env s)) =
     (if env_can_open env (next_path (env_now env) s) then 0 else sk_sample_count s)"
  "sk_current_filename (snd (open_next env s)) = next_path (env_now env) s"
  "sk_start_time (snd (open_next env s)) = next_start_time (env_now env) s"
  by (simp_all add: open_next_def Let_def open_internal_def create_filename_def next_path_def next_start_time_def
      del: not_None_eq)

lemma dowork_term:
  "sk_state s \<noteq> STOPPED \<Longrightarrow> sk_termination_flag s \<Longrightarrow> sk_current_call s \<noteq> None \<Longrightarrow>
   dowork env n inp s =
     end_transmission (if sk_state s = IGNORE then s\<lparr>sk_termination_flag := False, sk_state := IDLE\<rparr>
       else s\<lparr>sk_termination_flag := False\<rparr>)"
  by (auto simp: dowork_def Let_def end_transmission_none)

lemma dowork_idle:
  "sk_state s = IDLE \<Longrightarrow> \<not> sk_termination_flag s \<Longrightarrow>
   dowork env n inp s =
     (let s' = snd (open_next env s)
      in if env_can_open env (next_path (env_now env) s)
         then (write_items (concat (map (item_samples (sk_nchans s) inp) [0..<n])) s')
                \<lparr>sk_stop_time := env_now env, sk_last_write_time := env_clock env\<rparr>
         else s')"
  by (simp add: dowork_def Let_def case_prod_unfold del: not_None_eq)

lemma dowork_recording:
  "sk_state s = RECORDING \<Longrightarrow> \<not> sk_termination_flag s \<Longrightarrow> sk_fp s \<noteq> None \<Longrightarrow>
   dowork env n inp s =
     (write_items (concat (map (item_samples (sk_nchans s) inp) [0..<n])) s)
       \<lparr>sk_stop_time := env_now env, sk_last_write_time := env_clock env\<rparr>"
  by (auto simp: dowork_def)

lemma dowork_ignore: "sk_state s = IGNORE \<Longrightarrow> \<not> sk_termination_flag s \<Longrightarrow> dowork env n inp s = s"
  by (simp add: dowork_def)

lemma sink_ok_frame:
  "sink_ok (s\<lparr>sk_stop_time := t, sk_last_write_time := c\<rparr>) = sink_ok s"
  by (simp add: sink_ok_def)

lemma sink_ok_write: "sink_ok s \<Longrightarrow> sk_state s = RECORDING \<Longrightarrow> sink_ok (write_items xs s)"
  by (simp add: sink_ok_def del: not_None_eq)

lemma sink_ok_open:
  "sink_ok s \<Longrightarrow> sk_state s = IDLE \<Longrightarrow> sink_ok (snd (open_next env s))"
  by (simp add: sink_ok_def del: not_None_eq)

lemma sink_ok_dowork:
  assumes ok: "sink_ok s" and call: "sk_current_call s \<noteq> None"
  shows "sink_ok (dowork env n inp s) \<and> sk_current_call (dowork env n inp s) = sk_current_call s"
proof -
  consider (ended) "sk_termination_flag s" | (ign) "\<not> sk_termination_flag s" "sk_state s = IGNORE"
    | (idle) "\<not> sk_termination_flag s" "sk_state s = IDLE"
    | (rec) "\<not> sk_termination_flag s" "sk_state s = RECORDING"
    using ok call by (auto simp: sink_ok_def)
  then show ?thesis
  proof cases
    case ended
    have "sk_state s \<noteq> STOPPED" using ok by (auto simp: sink_ok_def)
    then show ?thesis
      using ended ok call by (auto simp: dowork_term intro!: sink_ok_end) (auto simp: sink_ok_def)
  next
    case ign
    then show ?thesis using ok by (simp add: dowork_ignore)
  next
    case idle
    then show ?thesis
      using ok by (simp add: dowork_idle Let_def sink_ok_frame sink_ok_write sink_ok_open)
  next
    case rec
    moreover have "sk_fp s \<noteq> None" using rec ok by (auto simp: sink_ok_def)
    ultimately show ?thesis using ok by (simp add: dowork_recording sink_ok_frame sink_ok_write)
  qed
qed

lemma sink_ok_work [invariant_intros]:
  assumes "sink_ok s"
  shows "sink_ok (work env n ts inp s) \<and> sk_current_call (work env n ts inp s) = sk_current_call s"
  using assms sink_ok_tags [OF assms, of ts] sink_ok_dowork
  by (auto simp: work_def)

text \<open>The sinks a running program can hold.\<close>

inductive sink_reachable :: "sink \<Rightarrow> bool" where
  sink_init: "new_sink junk n r b = Some s \<Longrightarrow> sink_reachable s"
| sink_start: "sink_reachable s \<Longrightarrow> sink_reachable (start_recording env cfg sys c s)"
| sink_start_slot: "sink_reachable s \<Longrightarrow> sink_reachable (start_recording_slot env cfg sys c slot s)"
| sink_stop: "sink_reachable s \<Longrightarrow> sink_reachable (stop_recording s)"
| sink_source: "sink_reachable s \<Longrightarrow> sink_reachable (sink_set_source src s)"
| sink_work: "sink_reachable s \<Longrightarrow> sink_reachable (work env n ts inp s)"

lemma sink_reachable_ok: "sink_reachable s \<Longrightarrow> sink_ok s"
  by (induction rule: sink_reachable.induct)
    (auto simp: sink_ok_new sink_ok_start sink_ok_stop sink_ok_set_source sink_ok_work
      start_recording_slot_def)

text \<open>
  C33. A sink is available exactly while it has no call, it holds counted samples only while it
  is recording into an open file, and the state \<open>STOPPED\<close>, which several tests of the recorders
  look for, is never reached.
\<close>

theorem sink_state_machine:
  assumes "sink_reachable s"
  shows "sk_state s \<in> {AVAILABLE, IDLE, RECORDING, IGNORE}
    \<and> (sk_state s = AVAILABLE \<longleftrightarrow> sk_current_call s = None)
    \<and> (sk_sample_count s > 0 \<longrightarrow> sk_state s = RECORDING \<and> sk_fp s \<noteq> None)"
  using sink_reachable_ok [OF assms] by (auto simp: sink_ok_def)

section \<open>Conservation of samples\<close>

text \<open>
  The samples one call of \<open>work\<close> accepts: none without a call, none of a window with a
  termination tag, none while another talkgroup is heard, none if the file cannot be opened;
  otherwise all of them, channel by channel.
\<close>

definition accepted :: "sink_env \<Rightarrow> nat \<Rightarrow> tag list \<Rightarrow> 16 word list list \<Rightarrow> sink \<Rightarrow> 16 word list" where
  "accepted env n ts inp s =
     (if sk_current_call s = None then []
      else let s' = fold process_tag ts s
           in if sk_termination_flag s' \<or> sk_state s' = IGNORE then []
              else if sk_state s' = IDLE \<and> \<not> env_can_open env (next_path (env_now env) s') then []
              else concat (map (item_samples (sk_nchans s) inp) [0..<n]))"

type_synonym window = "sink_env \<times> nat \<times> tag list \<times> 16 word list list"

fun run_work :: "window list \<Rightarrow> sink \<Rightarrow> sink \<times> 16 word list" where
  "run_work [] s = (s, [])"
| "run_work ((env, n, ts, inp) # ws) s =
     (let (s', xs) = run_work ws (work env n ts inp s) in (s', accepted env n ts inp s @ xs))"

text \<open>
  What the disk holds: a list of finished files, each given by its name, what the file
  contained before, and its samples; and the samples in the open file.
\<close>

type_synonym finished = "string \<times> octet list \<times> 16 word list"

definition wav_of :: "nat \<Rightarrow> nat \<Rightarrow> finished \<Rightarrow> string \<times> octet list" where
  "wav_of rate nch f = (case f of (name, old, xs) \<Rightarrow> (name, record_wav rate nch old xs))"

definition samples_of :: "finished \<Rightarrow> 16 word list" where
  "samples_of f = snd (snd f)"

definition open_file :: "sink \<Rightarrow> 16 word list \<Rightarrow> bool" where
  "open_file s xs \<longleftrightarrow>
     (case sk_fp s of
        None \<Rightarrow> xs = []
      | Some (name, f) \<Rightarrow> name = sk_current_filename s \<and>
          (\<exists>old. f = fold (\<lambda>x. wav_write_sample x 2) xs
             (wavheader_write (sk_sample_rate s) (sk_nchans s) 2 \<lparr>wf_bytes = old, wf_pos = 0\<rparr>)))"

definition reported :: "Transmission list \<Rightarrow> finished list \<Rightarrow> bool" where
  "reported ts fs \<longleftrightarrow>
     map (\<lambda>t. (tr_filename t, tr_sample_count t)) ts
       = map (\<lambda>(name, old, xs). (name, int (length xs))) (filter (\<lambda>f. samples_of f \<noteq> []) fs)"

definition disk :: "(string \<times> octet list) list \<Rightarrow> sink \<Rightarrow> finished list \<Rightarrow> 16 word list \<Rightarrow> bool" where
  "disk pre s fs xs \<longleftrightarrow>
     sk_bytes_per_sample s = 2 \<and> open_file s xs \<and> length xs = sk_sample_count s
     \<and> sk_closed s = pre @ map (wav_of (sk_sample_rate s) (sk_nchans s)) fs
     \<and> reported (sk_transmission_list s) fs"

lemma samples_of_simp [simp]: "samples_of (n, old, xs) = xs"
  by (simp add: samples_of_def)

lemma disk_close:
  assumes "disk pre s fs xs" "sk_fp s \<noteq> None" "2 * length xs < 2 ^ 32"
  obtains old where
    "sk_closed (close_wav s) = pre @ map (wav_of (sk_sample_rate s) (sk_nchans s)) (fs @ [(sk_current_filename s, old, xs)])"
proof -
  obtain f old where fp: "sk_fp s = Some (sk_current_filename s, f)"
    and f: "f = fold (\<lambda>x. wav_write_sample x 2) xs
       (wavheader_write (sk_sample_rate s) (sk_nchans s) 2 \<lparr>wf_bytes = old, wf_pos = 0\<rparr>)"
    using assms(1,2) by (auto simp: disk_def open_file_def split: option.splits)
  have "sk_closed (close_wav s) = pre @ map (wav_of (sk_sample_rate s) (sk_nchans s)) (fs @ [(sk_current_filename s, old, xs)])"
    using assms(1,3) by (simp add: close_wav_def fp f disk_def wav_of_def record_wav_def mult.commute)
  then show ?thesis by (rule that)
qed

lemma disk_end:
  assumes "disk pre s fs xs" "sink_ok s" "2 * length xs < 2 ^ 32"
  shows "\<exists>fs'. disk pre (end_transmission s) fs' []
    \<and> concat (map samples_of fs') = concat (map samples_of fs) @ xs"
proof (cases "sk_sample_count s > 0")
  case False
  then have "xs = []" using assms(1) by (simp add: disk_def)
  then show ?thesis using assms(1) False by (intro exI [of _ fs]) (simp add: end_transmission_none)
next
  case True
  then have fp: "sk_fp s \<noteq> None" using assms(2) by (auto simp: sink_ok_def)
  obtain old where closed: "sk_closed (close_wav s)
      = pre @ map (wav_of (sk_sample_rate s) (sk_nchans s)) (fs @ [(sk_current_filename s, old, xs)])"
    using disk_close [OF assms(1) fp assms(3)] .
  have "xs \<noteq> []" using True assms(1) by (auto simp: disk_def)
  then have "disk pre (end_transmission s) (fs @ [(sk_current_filename s, old, xs)]) []"
    using closed assms(1) True
    by (simp add: disk_def end_transmission_def Let_def open_file_def reported_def)
  then show ?thesis by (intro exI [of _ "fs @ [(sk_current_filename s, old, xs)]"]) simp
qed

lemma disk_frame:
  assumes "disk pre s fs xs"
  shows "disk pre (s\<lparr>sk_state := st\<rparr>) fs xs" "disk pre (s\<lparr>sk_termination_flag := b\<rparr>) fs xs"
    "disk pre (s\<lparr>sk_curr_src_id := i\<rparr>) fs xs" "disk pre (s\<lparr>sk_spike_count := i\<rparr>) fs xs"
    "disk pre (s\<lparr>sk_error_count := i\<rparr>) fs xs" "disk pre (s\<lparr>sk_current_call := c\<rparr>) fs xs"
    "disk pre (s\<lparr>sk_stop_time := i\<rparr>) fs xs" "disk pre (s\<lparr>sk_last_write_time := j\<rparr>) fs xs"
  using assms by (simp_all add: disk_def open_file_def cong: option.case_cong)

lemma disk_tag:
  assumes "disk pre s fs xs" "sink_ok s" "2 * length xs < 2 ^ 32"
  shows "\<exists>fs' xs'. disk pre (process_tag t s) fs' xs' \<and> 2 * length xs' < 2 ^ 32
    \<and> concat (map samples_of fs') @ xs' = concat (map samples_of fs) @ xs"
proof (cases "\<exists>g. t = Grp_Id g \<and> (sk_state s = RECORDING \<or> sk_state s = IDLE)
    \<and> sk_talkgroup_encoded s \<noteq> g \<and> \<not> sk_conventional s")
  case False
  then have "disk pre (process_tag t s) fs xs"
    using assms(1) by (cases t) (auto simp: disk_frame)
  then show ?thesis using assms(3) by blast
next
  case True
  then obtain g where t: "process_tag t s = (if sk_sample_count s > 0 then end_transmission s else s)\<lparr>sk_state := IGNORE\<rparr>"
    by auto
  have e: "(if sk_sample_count s > 0 then end_transmission s else s) = end_transmission s"
    by (simp add: end_transmission_none)
  obtain fs' where "disk pre (end_transmission s) fs' []"
    "concat (map samples_of fs') = concat (map samples_of fs) @ xs"
    using disk_end [OF assms] by blast
  then show ?thesis unfolding t e using disk_frame(1) by (intro exI [of _ fs'] exI [of _ "[]"]) simp
qed

lemma disk_tags:
  "disk pre s fs xs \<Longrightarrow> sink_ok s \<Longrightarrow> sk_current_call s \<noteq> None \<Longrightarrow> 2 * length xs < 2 ^ 32 \<Longrightarrow>
   \<exists>fs' xs'. disk pre (fold process_tag ts s) fs' xs' \<and> 2 * length xs' < 2 ^ 32
     \<and> concat (map samples_of fs') @ xs' = concat (map samples_of fs) @ xs"
proof (induction ts arbitrary: s fs xs)
  case Nil
  then show ?case by auto
next
  case (Cons t ts)
  obtain fs1 xs1 where 1: "disk pre (process_tag t s) fs1 xs1" "2 * length xs1 < 2 ^ 32"
    "concat (map samples_of fs1) @ xs1 = concat (map samples_of fs) @ xs"
    using disk_tag [OF Cons.prems(1,2,4)] by blast
  show ?case
    using Cons.IH [OF 1(1) _ _ 1(2)] sink_ok_tag [OF Cons.prems(2,3), of t] Cons.prems(3) 1(3) by simp
qed

lemma process_tag_frame:
  "sk_nchans (process_tag t s) = sk_nchans s" "sk_sample_rate (process_tag t s) = sk_sample_rate s"
  by (cases t; simp)+

lemma process_tags_frame:
  "sk_nchans (fold process_tag ts s) = sk_nchans s" "sk_sample_rate (fold process_tag ts s) = sk_sample_rate s"
  by (induction ts arbitrary: s) (simp_all add: process_tag_frame)

lemma disk_write:
  assumes "disk pre s fs xs" "sk_fp s \<noteq> None" "2 * (length xs + length ys) < 2 ^ 32"
  shows "disk pre (write_items ys s) fs (xs @ ys)"
  using assms
  by (auto simp: disk_def write_items_def open_file_def split: option.splits)

text \<open>Opening the next file closes one that is still open; that one holds no samples.\<close>

lemma open_next_eq:
  "open_next env s =
     (let s0 = (if sk_fp s \<noteq> None then close_wav s else s);
          s1 = s0\<lparr>sk_start_time := next_start_time (env_now env) s, sk_current_filename := next_path (env_now env) s\<rparr>
      in if env_can_open env (next_path (env_now env) s)
         then (True, s1\<lparr>sk_fp := Some (next_path (env_now env) s,
                 wavheader_write (sk_sample_rate s) (sk_nchans s) (sk_bytes_per_sample s)
                   \<lparr>wf_bytes = env_contents env (next_path (env_now env) s), wf_pos = 0\<rparr>),
               sk_sample_count := 0, sk_state := RECORDING\<rparr>)
         else (False, s1))"
  by (auto simp: open_next_def Let_def open_internal_def create_filename_def next_path_def next_start_time_def)

lemma disk_open:
  assumes "disk pre s fs []" "sink_ok s" "sk_state s = IDLE"
  shows "\<exists>fs'. disk pre (snd (open_next env s)) fs' [] \<and> concat (map samples_of fs') = concat (map samples_of fs)"
proof (cases "sk_fp s = None")
  case True
  have "open_file (snd (open_next env s)) []" "sk_closed (snd (open_next env s)) = sk_closed s"
    "sk_transmission_list (snd (open_next env s)) = sk_transmission_list s"
    "sk_bytes_per_sample (snd (open_next env s)) = sk_bytes_per_sample s"
    "sk_sample_rate (snd (open_next env s)) = sk_sample_rate s"
    using True assms(1) by (auto simp: open_next_eq Let_def open_file_def disk_def)
  then have "disk pre (snd (open_next env s)) fs []"
    using assms by (simp add: disk_def)
  then show ?thesis by blast
next
  case False
  obtain old where closed: "sk_closed (close_wav s)
      = pre @ map (wav_of (sk_sample_rate s) (sk_nchans s)) (fs @ [(sk_current_filename s, old, [])])"
    using disk_close [OF assms(1) False] by auto
  have "open_file (snd (open_next env s)) []" "sk_closed (snd (open_next env s)) = sk_closed (close_wav s)"
    "sk_transmission_list (snd (open_next env s)) = sk_transmission_list s"
    "sk_bytes_per_sample (snd (open_next env s)) = sk_bytes_per_sample s"
    "sk_sample_rate (snd (open_next env s)) = sk_sample_rate s"
    using False assms(1) by (auto simp: open_next_eq Let_def open_file_def disk_def)
  then have "disk pre (snd (open_next env s)) (fs @ [(sk_current_filename s, old, [])]) []"
    using assms closed by (simp add: disk_def reported_def)
  then show ?thesis by (intro exI [of _ "fs @ [(sk_current_filename s, old, [])]"]) simp
qed

lemma disk_dowork:
  assumes d: "disk pre s fs xs" and ok: "sink_ok s" and call: "sk_current_call s \<noteq> None"
    and acc: "acc = (if sk_termination_flag s \<or> sk_state s = IGNORE then []
              else if sk_state s = IDLE \<and> \<not> env_can_open env (next_path (env_now env) s) then []
              else concat (map (item_samples (sk_nchans s) inp) [0..<n]))"
    and small: "2 * (length xs + length acc) < 2 ^ 32"
  shows "\<exists>fs' xs'. disk pre (dowork env n inp s) fs' xs'
    \<and> concat (map samples_of fs') @ xs' = concat (map samples_of fs) @ xs @ acc"
proof -
  have small': "2 * length xs < 2 ^ 32" using small by simp
  consider (ended) "sk_termination_flag s" | (ign) "\<not> sk_termination_flag s" "sk_state s = IGNORE"
    | (idle) "\<not> sk_termination_flag s" "sk_state s = IDLE"
    | (rec) "\<not> sk_termination_flag s" "sk_state s = RECORDING"
    using ok call by (auto simp: sink_ok_def)
  then show ?thesis
  proof cases
    case ended
    define s1 where "s1 = (if sk_state s = IGNORE then s\<lparr>sk_termination_flag := False, sk_state := IDLE\<rparr>
        else s\<lparr>sk_termination_flag := False\<rparr>)"
    have "sk_state s \<noteq> STOPPED" using ok by (auto simp: sink_ok_def)
    then have dw: "dowork env n inp s = end_transmission s1"
      using ended call by (simp add: dowork_term s1_def)
    have d1: "disk pre s1 fs xs"
      using disk_frame(2) [OF d] disk_frame(1) [OF disk_frame(2) [OF d]] by (simp add: s1_def)
    have ok1: "sink_ok s1" using ok call by (auto simp: s1_def sink_ok_def)
    obtain fs' where "disk pre (end_transmission s1) fs' []"
        "concat (map samples_of fs') = concat (map samples_of fs) @ xs"
      using disk_end [OF d1 ok1 small'] by blast
    then show ?thesis using dw ended acc by (intro exI [of _ fs'] exI [of _ "[]"]) simp
  next
    case ign
    then show ?thesis using d acc by (intro exI [of _ fs] exI [of _ xs]) (simp add: dowork_ignore)
  next
    case rec
    then have fp: "sk_fp s \<noteq> None" using ok by (auto simp: sink_ok_def)
    have acc': "acc = concat (map (item_samples (sk_nchans s) inp) [0..<n])" using rec acc by simp
    show ?thesis
      unfolding dowork_recording [OF rec(2,1) fp] acc' [symmetric]
      using disk_frame(8) [OF disk_frame(7) [OF disk_write [OF d fp small]]]
      by (intro exI [of _ fs] exI [of _ "xs @ acc"]) simp
  next
    case idle
    have xs: "xs = []" using d ok idle by (auto simp: disk_def sink_ok_def)
    obtain fs' where d': "disk pre (snd (open_next env s)) fs' []"
      and fs': "concat (map samples_of fs') = concat (map samples_of fs)"
      using disk_open [OF d [unfolded xs] ok idle(2)] by blast
    show ?thesis
    proof (cases "env_can_open env (next_path (env_now env) s)")
      case False
      then show ?thesis
        using d' fs' acc idle xs by (intro exI [of _ fs'] exI [of _ "[]"]) (simp add: dowork_idle)
    next
      case True
      have acc': "acc = concat (map (item_samples (sk_nchans s) inp) [0..<n])" using idle True acc by simp
      have fp: "sk_fp (snd (open_next env s)) \<noteq> None" using True by (simp del: not_None_eq)
      have "disk pre (write_items acc (snd (open_next env s))) fs' acc"
        using disk_write [OF d' fp, of acc] small xs by simp
      then show ?thesis
        unfolding dowork_idle [OF idle(2,1)] Let_def acc' [symmetric]
        using True fs' xs disk_frame(8) [OF disk_frame(7)]
        by (intro exI [of _ fs'] exI [of _ acc]) simp
    qed
  qed
qed

lemma disk_work:
  assumes d: "disk pre s fs xs" and ok: "sink_ok s"
    and small: "2 * (length (concat (map samples_of fs)) + length xs + length (accepted env n ts inp s)) < 2 ^ 32"
  shows "\<exists>fs' xs'. disk pre (work env n ts inp s) fs' xs'
    \<and> concat (map samples_of fs') @ xs' = concat (map samples_of fs) @ xs @ accepted env n ts inp s"
proof (cases "sk_current_call s = None")
  case True
  then show ?thesis
    using d by (intro exI [of _ fs] exI [of _ xs]) (simp add: work_def accepted_def)
next
  case False
  let ?s = "fold process_tag ts s"
  have st: "sk_state s \<noteq> STOPPED" "sk_state s \<noteq> AVAILABLE" using ok False by (auto simp: sink_ok_def)
  have small1: "2 * length xs < 2 ^ 32" using small by simp
  obtain fs1 xs1 where 1: "disk pre ?s fs1 xs1" "2 * length xs1 < 2 ^ 32"
    "concat (map samples_of fs1) @ xs1 = concat (map samples_of fs) @ xs"
    using disk_tags [OF d ok False small1, of ts] by blast
  have ok1: "sink_ok ?s" and call1: "sk_current_call ?s \<noteq> None"
    using sink_ok_tags [OF ok False, of ts] False by simp_all
  have len: "length xs1 \<le> length (concat (map samples_of fs)) + length xs"
    using arg_cong [OF 1(3), of length] by simp
  have acc: "accepted env n ts inp s = (if sk_termination_flag ?s \<or> sk_state ?s = IGNORE then []
      else if sk_state ?s = IDLE \<and> \<not> env_can_open env (next_path (env_now env) ?s) then []
      else concat (map (item_samples (sk_nchans ?s) inp) [0..<n]))"
    using False by (auto simp: accepted_def Let_def process_tags_frame)
  obtain fs' xs' where "disk pre (dowork env n inp ?s) fs' xs'"
    "concat (map samples_of fs') @ xs' = concat (map samples_of fs1) @ xs1 @ accepted env n ts inp s"
    using disk_dowork [OF 1(1) ok1 call1 acc] small len by auto
  then show ?thesis
    using 1(3) False st by (intro exI [of _ fs'] exI [of _ xs']) (auto simp: work_def simp flip: append_assoc)
qed

lemma disk_run:
  "run_work ws s = (s', acc) \<Longrightarrow> disk pre s fs xs \<Longrightarrow> sink_ok s \<Longrightarrow>
   2 * (length (concat (map samples_of fs)) + length xs + length acc) < 2 ^ 32 \<Longrightarrow>
   sink_ok s' \<and> (\<exists>fs' xs'. disk pre s' fs' xs'
     \<and> concat (map samples_of fs') @ xs' = concat (map samples_of fs) @ xs @ acc)"
proof (induction ws s arbitrary: acc fs xs rule: run_work.induct)
  case (1 s)
  then show ?case by auto
next
  case (2 env n ts inp ws s)
  let ?a = "accepted env n ts inp s"
  obtain as where run: "run_work ws (work env n ts inp s) = (s', as)" and acc: "acc = ?a @ as"
    using 2(2) by (auto split: prod.splits)
  obtain fs1 xs1 where 1: "disk pre (work env n ts inp s) fs1 xs1"
    "concat (map samples_of fs1) @ xs1 = concat (map samples_of fs) @ xs @ ?a"
    using disk_work [OF 2(3,4), of env n ts inp] 2(5) acc by auto
  have "2 * (length (concat (map samples_of fs1)) + length xs1 + length as) < 2 ^ 32"
    using arg_cong [OF 1(2), of length] 2(5) acc by simp
  from 2(1) [OF run 1(1) _ this] sink_ok_work [OF 2(4)]
  obtain fs' xs' where "sink_ok s'" "disk pre s' fs' xs'"
    "concat (map samples_of fs') @ xs' = concat (map samples_of fs1) @ xs1 @ as"
    by blast
  then show ?case using 1(2) acc by (auto simp flip: append_assoc)
qed

section \<open>The life of one call\<close>

lemma end_transmission_frame [simp]:
  "sk_state (s\<lparr>sk_current_call := None, sk_termination_flag := False, sk_state := AVAILABLE\<rparr>) = AVAILABLE"
  by simp

lemma open_next_frame:
  "sk_sample_rate (snd (open_next env s)) = sk_sample_rate s"
  by (simp add: open_next_eq Let_def)

lemma write_items_frame:
  "sk_sample_rate (write_items xs s) = sk_sample_rate s" "sk_nchans (write_items xs s) = sk_nchans s"
  by (simp_all add: write_items_def split: option.splits)

lemma work_frame:
  "sink_ok s \<Longrightarrow> sk_sample_rate (work env n ts inp s) = sk_sample_rate s
     \<and> sk_nchans (work env n ts inp s) = sk_nchans s"
  by (auto simp: work_def dowork_def Let_def open_next_frame write_items_frame process_tags_frame case_prod_unfold
      split: if_splits)

lemma run_work_frame:
  "run_work ws s = (s', acc) \<Longrightarrow> sink_ok s \<Longrightarrow> sk_sample_rate s' = sk_sample_rate s \<and> sk_nchans s' = sk_nchans s"
proof (induction ws s arbitrary: acc rule: run_work.induct)
  case (1 s)
  then show ?case by simp
next
  case (2 env n ts inp ws s)
  then obtain as where "run_work ws (work env n ts inp s) = (s', as)" by (auto split: prod.splits)
  from 2(1) [OF this] show ?case using sink_ok_work [OF 2(3)] work_frame [OF 2(3)] by simp
qed

lemma reported_sum:
  "reported ts fs \<Longrightarrow> sum_list (map tr_sample_count ts) = int (length (concat (map samples_of fs)))"
proof -
  assume r: "reported ts fs"
  have "map tr_sample_count ts = map snd (map (\<lambda>t. (tr_filename t, tr_sample_count t)) ts)" by simp
  also have "\<dots> = map (\<lambda>f. int (length (samples_of f))) (filter (\<lambda>f. samples_of f \<noteq> []) fs)"
    using r unfolding reported_def by (simp add: samples_of_def case_prod_unfold)
  finally have "sum_list (map tr_sample_count ts) = sum_list (map (\<lambda>f. int (length (samples_of f))) (filter (\<lambda>f. samples_of f \<noteq> []) fs))"
    by (simp only:)
  also have "\<dots> = int (length (concat (map samples_of fs)))"
    by (induction fs) auto
  finally show ?thesis .
qed

text \<open>
  C7. No sample of a call is lost, repeated or reordered between the sink and the disk: when a
  call of 16-bit audio is recorded through any sequence of windows and stopped, the files
  completed since it started hold exactly the samples that were accepted, in order, each file
  readable with its own sample count; the transmissions reported to the call name the
  non-empty files in order with their lengths.
\<close>

theorem samples_conserved:
  assumes s: "sink_reachable s" "sk_fp s = None" "sk_bytes_per_sample s = 2"
    and run: "run_work ws (start_recording env cfg sys c s) = (s', acc)"
    and small: "2 * length acc < 2 ^ 32"
  shows "\<exists>fs. sk_closed (stop_recording s') = sk_closed s @ map (wav_of (sk_sample_rate s) (sk_nchans s)) fs
    \<and> concat (map samples_of fs) = acc
    \<and> reported (sk_transmission_list (stop_recording s')) fs
    \<and> sum_list (map tr_sample_count (sk_transmission_list (stop_recording s'))) = int (length acc)"
proof -
  let ?s0 = "start_recording env cfg sys c s"
  have ok0: "sink_ok ?s0" by (rule sink_ok_start)
  have d0: "disk (sk_closed s) ?s0 [] []"
    using s by (simp add: disk_def start_recording_def open_file_def reported_def)
  obtain fs xs where ok: "sink_ok s'" and d: "disk (sk_closed s) s' fs xs" and eq: "concat (map samples_of fs) @ xs = acc"
    using disk_run [OF run d0 ok0] small by auto
  have rate: "sk_sample_rate s' = sk_sample_rate s" "sk_nchans s' = sk_nchans s"
    using run_work_frame [OF run ok0] by (simp_all add: start_recording_def)
  have "2 * length xs < 2 ^ 32" using small arg_cong [OF eq, of length] by simp
  then obtain fs' where d': "disk (sk_closed s) (end_transmission s') fs' []"
    and eq': "concat (map samples_of fs') = acc"
    using disk_end [OF d ok] eq by auto
  have stop: "stop_recording s' = (end_transmission s')
      \<lparr>sk_current_call := None, sk_termination_flag := False, sk_state := AVAILABLE\<rparr>"
    by (auto simp: stop_recording_def end_transmission_none)
  have "reported (sk_transmission_list (stop_recording s')) fs'"
    using d' by (simp add: stop disk_def)
  moreover have "sk_closed (stop_recording s') = sk_closed s @ map (wav_of (sk_sample_rate s) (sk_nchans s)) fs'"
    using d' rate by (simp add: stop disk_def)
  ultimately show ?thesis using eq' reported_sum by blast
qed

text \<open>A sink with one channel at 8000 samples per second, and two windows of speech.\<close>

definition example_sink :: sink where
  "example_sink =
     \<lparr>sk_sample_rate = 8000, sk_nchans = 1, sk_bytes_per_sample = 2, sk_slot = -1,
      sk_conventional = False, sk_termination_flag = False, sk_start_time = 0, sk_stop_time = 0,
      sk_last_write_time = 0, sk_spike_count = 0, sk_error_count = 0, sk_curr_src_id = 0,
      sk_next_src_id = 0, sk_current_filename = [], sk_current_call = None, sk_short_name = [],
      sk_temp_dir = [], sk_freq = 0, sk_talkgroup = 0, sk_talkgroup_encoded = 0,
      sk_prior_length = 0, sk_sample_count = 0, sk_fp = None, sk_transmission_list = [],
      sk_state = AVAILABLE, sk_closed = []\<rparr>"

definition example_env :: "int \<Rightarrow> sink_env" where
  "example_env t = \<lparr>env_now = t, env_clock = t, env_can_open = (\<lambda>_. True), env_contents = (\<lambda>_. [])\<rparr>"

lemma example_sink_reachable: "sink_reachable example_sink"
proof -
  have "new_sink example_sink 1 8000 16 = Some example_sink"
    by (simp add: new_sink_def example_sink_def)
  then show ?thesis by (rule sink_init)
qed

theorem sink_state_machine_witness:
  "sk_state example_sink = AVAILABLE \<and> sk_current_call example_sink = None"
  using sink_state_machine [OF example_sink_reachable] by (simp add: example_sink_def)

definition example_windows :: "window list" where
  "example_windows = [(example_env 100, 2, [Src_Id 7], [[3, 4]]), (example_env 101, 1, [Terminate], [[9]])]"

lemma accepted_terminate: "accepted env n [Terminate] inp s = []"
  by (simp add: accepted_def Let_def)

theorem samples_conserved_witness:
  "\<forall>cfg sys c. \<exists>fs.
     sk_closed (stop_recording (fst (run_work example_windows (start_recording (example_env 100) cfg sys c example_sink))))
       = map (wav_of 8000 1) fs
     \<and> concat (map samples_of fs) = [3, 4]"
proof (intro allI)
  fix cfg sys c
  let ?s0 = "start_recording (example_env 100) cfg sys c example_sink"
  obtain s' acc where run: "run_work example_windows ?s0 = (s', acc)" by fastforce
  have first: "accepted (example_env 100) 2 [Src_Id 7] [[3, 4]] ?s0 = [3, 4]"
    by (simp add: accepted_def start_recording_def example_sink_def example_env_def item_samples_def Let_def
        numeral_2_eq_2)
  have acc: "acc = [3, 4]"
    using run first by (simp add: example_windows_def accepted_terminate split: prod.splits)
  then have "2 * length acc < 2 ^ 32" by simp
  from samples_conserved [OF example_sink_reachable _ _ run this] acc run
  show "\<exists>fs. sk_closed (stop_recording (fst (run_work example_windows ?s0))) = map (wav_of 8000 1) fs
      \<and> concat (map samples_of fs) = [3, 4]"
    by (auto simp: example_sink_def)
qed

section \<open>Names of transmissions\<close>

definition recording_into :: "string \<times> string \<times> int \<times> double \<times> int \<times> nat \<Rightarrow> int \<Rightarrow> string list \<Rightarrow> sink \<Rightarrow> bool" where
  "recording_into k start names s \<longleftrightarrow>
     sink_ok s \<and> sk_state s = RECORDING \<and> sk_sample_count s > 0 \<and> \<not> sk_termination_flag s
     \<and> (sk_temp_dir s, sk_short_name s, sk_talkgroup s, sk_freq s, sk_slot s, sk_nchans s) = k
     \<and> sk_start_time s = start
     \<and> sk_current_filename s = wav_path (sk_temp_dir s) (sk_short_name s) (sk_talkgroup s) start (sk_freq s) (sk_slot s)
     \<and> map tr_filename (sk_transmission_list s) = names"

lemma length_items: "length (concat (map (item_samples nch inp) [0..<n])) = n * nch"
  by (induction n) (simp_all add: item_samples_def)

lemma next_transmission:
  assumes u: "recording_into k t names u" and opens: "\<forall>p. env_can_open e p"
    and n: "0 < n" "0 < sk_nchans u" "n * sk_nchans u < 2 ^ 32"
  shows "recording_into k (if env_now e = t then t + 1 else env_now e) (names @ [sk_current_filename u])
      (work e n [] inp (work e 1 [Terminate] silence u))"
proof -
  have ok: "sink_ok u" "sk_state u = RECORDING" "0 < sk_sample_count u"
    using u by (simp_all add: recording_into_def)
  define v where "v = end_transmission (u\<lparr>sk_termination_flag := True, sk_termination_flag := False\<rparr>)"
  have fin: "work e 1 [Terminate] silence u = v"
    using ok by (auto simp: work_def sink_ok_def dowork_term v_def)
  have v: "sink_ok v" "sk_state v = IDLE" "\<not> sk_termination_flag v" "sk_current_call v = sk_current_call u"
    "map tr_filename (sk_transmission_list v) = names @ [sk_current_filename u]" "sk_start_time v = t" "sk_fp v = None"
    "(sk_temp_dir v, sk_short_name v, sk_talkgroup v, sk_freq v, sk_slot v, sk_nchans v) = k"
    using u by (auto simp: v_def recording_into_def sink_ok_def end_transmission_def Let_def)
  let ?xs = "concat (map (item_samples (sk_nchans v) inp) [0..<n])"
  have call: "sk_current_call v \<noteq> None" using ok v(4) by (auto simp: sink_ok_def)
  have sp: "work e n [] inp v = (write_items ?xs (snd (open_next e v)))
      \<lparr>sk_stop_time := env_now e, sk_last_write_time := env_clock e\<rparr>"
    using v(2,3) call opens by (auto simp: work_def dowork_idle Let_def)
  have len: "0 < length ?xs" "length ?xs < 2 ^ 32"
    using n v(8) u by (auto simp: length_items recording_into_def)
  have okw: "sink_ok (work e n [] inp v)" using sink_ok_work [OF v(1)] by blast
  show ?thesis
    unfolding fin recording_into_def
    using okw v len opens
    by (auto simp: sp write_items_def open_next_eq Let_def next_start_time_def next_path_def)
qed

text \<open>
  Two transmissions in a row never get the same start time, but the rule that ensures it
  looks one transmission back only: when three transmissions of a call begin within the same
  second, the third has the start time of the first again and is written over its file.
\<close>

theorem third_transmission_reuses_file:
  assumes "sink_ok s" "sk_state s = RECORDING" "sk_sample_count s > 0" "\<not> sk_termination_flag s"
    and "sk_start_time s = env_now e"
      "sk_current_filename s = wav_path (sk_temp_dir s) (sk_short_name s) (sk_talkgroup s) (env_now e) (sk_freq s) (sk_slot s)"
    and opens: "\<forall>p. env_can_open e p" and n: "0 < n" "0 < sk_nchans s" "n * sk_nchans s < 2 ^ 32"
  shows "let speech = work e n [] inp; finish = work e 1 [Terminate] silence;
      s2 = speech (finish s); s4 = speech (finish s2)
    in sk_start_time s2 = env_now e + 1 \<and> sk_start_time s4 = env_now e
      \<and> sk_current_filename s4 = sk_current_filename s
      \<and> map tr_filename (sk_transmission_list s4)
          = map tr_filename (sk_transmission_list s) @ [sk_current_filename s, sk_current_filename s2]"
proof -
  let ?k = "(sk_temp_dir s, sk_short_name s, sk_talkgroup s, sk_freq s, sk_slot s, sk_nchans s)"
  let ?step = "\<lambda>s. work e n [] inp (work e 1 [Terminate] silence s)"
  have 0: "recording_into ?k (env_now e) (map tr_filename (sk_transmission_list s)) s"
    using assms by (simp add: recording_into_def)
  have 1: "recording_into ?k (env_now e + 1) (map tr_filename (sk_transmission_list s) @ [sk_current_filename s]) (?step s)"
    using next_transmission [OF 0 opens n] by simp
  have n1: "sk_nchans (?step s) = sk_nchans s" using 1 by (simp add: recording_into_def)
  have 2: "recording_into ?k (env_now e)
      ((map tr_filename (sk_transmission_list s) @ [sk_current_filename s]) @ [sk_current_filename (?step s)]) (?step (?step s))"
    using next_transmission [OF 1 opens n(1) n(2,3) [folded n1]] by simp
  show ?thesis
    using 0 1 2 by (simp add: recording_into_def Let_def)
qed

definition speaking_sink :: sink where
  "speaking_sink = example_sink\<lparr>sk_start_time := 100, sk_current_call := Some 1, sk_state := RECORDING,
     sk_sample_count := 1, sk_current_filename := wav_path [] [] 0 100 0 (-1),
     sk_fp := Some (wav_path [] [] 0 100 0 (-1), \<lparr>wf_bytes = [], wf_pos = 0\<rparr>)\<rparr>"

theorem third_transmission_reuses_file_witness:
  "sk_current_filename (work (example_env 100) 1 [] [[7]] (work (example_env 100) 1 [Terminate] [[0]]
     (work (example_env 100) 1 [] [[7]] (work (example_env 100) 1 [Terminate] [[0]] speaking_sink))))
   = sk_current_filename speaking_sink"
proof -
  have 1: "sink_ok speaking_sink" "sk_state speaking_sink = RECORDING" "sk_sample_count speaking_sink > 0"
    "\<not> sk_termination_flag speaking_sink" "sk_start_time speaking_sink = env_now (example_env 100)"
    by (simp_all add: speaking_sink_def sink_ok_def example_sink_def example_env_def)
  have 2: "sk_current_filename speaking_sink = wav_path (sk_temp_dir speaking_sink) (sk_short_name speaking_sink)
      (sk_talkgroup speaking_sink) (env_now (example_env 100)) (sk_freq speaking_sink) (sk_slot speaking_sink)"
    by (simp add: speaking_sink_def example_sink_def example_env_def)
  have 3: "\<forall>p. env_can_open (example_env 100) p" "(0 :: nat) < 1" "0 < sk_nchans speaking_sink"
    "1 * sk_nchans speaking_sink < 2 ^ 32"
    by (simp_all add: speaking_sink_def example_sink_def example_env_def)
  from third_transmission_reuses_file [OF 1 2 3, of "[[7]]" "[[0]]"]
  show ?thesis by (simp add: Let_def)
qed

end
