(* ===== verification/Recorder.thy ===== *)
theory Recorder
  imports Transmission_Sink
begin

text \<open>
  The recorders (\<open>trunk-recorder/recorders\<close>): what a call starts and stops. Their filters and
  demodulators are GNU Radio blocks and are left out; what remains is the state of the recorder
  object, the mode its decoders are switched to, and the sinks at the end of its flow graph.

  \<open>state\<close> is written by \<open>start\<close> and \<open>stop\<close>. The availability a source asks for
  (\<open>get_state\<close>) is the state of a sink.
\<close>

datatype Recorder_Type = DEBUG | SIGMF | ANALOG | ANALOGC | P25 | P25C | DMR

section \<open>P25 recorder\<close>

text \<open>
  \<open>p25_recorder_impl\<close> has two chains, one for QPSK and one for FSK4 modulation, each ending in a
  sink. \<open>p_qpsk_tdma\<close> is the mode the demodulator and the frame assembler of the QPSK chain are
  switched to (true for Phase 2).
\<close>

record P25_Recorder =
  p_state :: State
  p_qpsk_mod :: bool
  p_phase2_tdma :: bool
  p_tdma_slot :: int
  p_qpsk_tdma :: bool
  p_qpsk_slot :: int
  p_fsk4_slot :: int
  p_xor_mask :: "(ulong \<times> ulong \<times> ulong) option"
  p_output_index :: nat
  p_valve :: bool
  p_qpsk_sink :: sink
  p_fsk4_sink :: sink
  p_call :: "int option"
  p_talkgroup :: int
  p_chan_freq :: double
  p_squelch_db :: double
  p_recording_count :: int
  p_recording_duration :: double

definition p25_sink :: "P25_Recorder \<Rightarrow> sink" where
  "p25_sink r = (if p_qpsk_mod r then p_qpsk_sink r else p_fsk4_sink r)"

definition p25_get_state :: "P25_Recorder \<Rightarrow> State" where
  "p25_get_state r = sk_state (p25_sink r)"

definition p25_is_active :: "P25_Recorder \<Rightarrow> bool" where
  "p25_is_active r \<longleftrightarrow> p_state r = ACTIVE"

definition p25_is_idle :: "P25_Recorder \<Rightarrow> bool" where
  "p25_is_idle r \<longleftrightarrow> sk_state (p25_sink r) = IDLE \<or> sk_state (p25_sink r) = STOPPED"

definition p25_get_current_length :: "P25_Recorder \<Rightarrow> double" where
  "p25_get_current_length r = total_length_in_seconds (p25_sink r)"

definition p25_get_transmission_list :: "P25_Recorder \<Rightarrow> Transmission list" where
  "p25_get_transmission_list r = sk_transmission_list (p25_sink r)"

definition p25_since_last_write :: "int \<Rightarrow> P25_Recorder \<Rightarrow> int" where
  "p25_since_last_write clock r = clock - sk_last_write_time (p25_sink r)"

definition p25_set_source :: "int \<Rightarrow> P25_Recorder \<Rightarrow> P25_Recorder" where
  "p25_set_source src r =
     (if p_qpsk_mod r then r\<lparr>p_qpsk_sink := sink_set_source src (p_qpsk_sink r)\<rparr>
      else r\<lparr>p_fsk4_sink := sink_set_source src (p_fsk4_sink r)\<rparr>)"

definition p25_switch_tdma :: "bool \<Rightarrow> P25_Recorder \<Rightarrow> P25_Recorder" where
  "p25_switch_tdma phase2 r =
     (let r = r\<lparr>p_phase2_tdma := phase2\<rparr>
      in if p_qpsk_mod r then r\<lparr>p_qpsk_tdma := phase2\<rparr> else r)"

definition p25_set_tdma :: "bool \<Rightarrow> P25_Recorder \<Rightarrow> P25_Recorder" where
  "p25_set_tdma phase2 r = (if phase2 \<noteq> p_phase2_tdma r then p25_switch_tdma phase2 r else r)"

definition p25_set_tdma_slot :: "int \<Rightarrow> P25_Recorder \<Rightarrow> P25_Recorder" where
  "p25_set_tdma_slot slot r =
     (if p_qpsk_mod r then r\<lparr>p_qpsk_slot := slot\<rparr> else r\<lparr>p_fsk4_slot := slot\<rparr>)\<lparr>p_tdma_slot := slot\<rparr>"

text \<open>\<open>p25_recorder_decode::start\<close>: only a Phase 2 call passes its slot to the sink.\<close>

definition decode_start :: "sink_env \<Rightarrow> Config \<Rightarrow> System_impl \<Rightarrow> Call \<Rightarrow> sink \<Rightarrow> sink" where
  "decode_start env cfg sys c s =
     (if cl_phase2_tdma c then start_recording_slot env cfg sys c (cl_tdma_slot c) s
      else start_recording env cfg sys c s)"

definition p25_start :: "sink_env \<Rightarrow> Config \<Rightarrow> System_impl \<Rightarrow> Call \<Rightarrow> P25_Recorder \<Rightarrow> bool \<times> P25_Recorder" where
  "p25_start env cfg sys c r =
     (if p_state r = INACTIVE then
        let r = r\<lparr>p_qpsk_mod := sy_qpsk_mod sys\<rparr>;
            r = p25_set_tdma (cl_phase2_tdma c) r;
            go = (\<lambda>r.
              let r = r\<lparr>p_talkgroup := cl_talkgroup c, p_chan_freq := cl_curr_freq c,
                        p_call := Some (cl_call_num c), p_squelch_db := sy_squelch_db sys\<rparr>;
                  r = (if p_qpsk_mod r
                       then r\<lparr>p_output_index := 1, p_qpsk_sink := decode_start env cfg sys c (p_qpsk_sink r)\<rparr>
                       else r\<lparr>p_output_index := 0, p_fsk4_sink := decode_start env cfg sys c (p_fsk4_sink r)\<rparr>)
              in (True, r\<lparr>p_state := ACTIVE, p_valve := True,
                          p_recording_count := p_recording_count r + 1\<rparr>))
        in if cl_phase2_tdma c then
             if \<not> p_qpsk_mod r then (False, r)
             else let r = p25_set_tdma_slot (cl_tdma_slot c) r
                  in if sy_xor_mask sys \<noteq> None then go (r\<lparr>p_xor_mask := sy_xor_mask sys\<rparr>)
                     else (False, r)
           else go (p25_set_tdma_slot 0 r)
      else (False, r))"

definition p25_stop :: "P25_Recorder \<Rightarrow> P25_Recorder" where
  "p25_stop r =
     (if p_state r = ACTIVE then
        let r = r\<lparr>p_recording_duration := fl (p_recording_duration r + p25_get_current_length r),
                  p_state := INACTIVE, p_valve := False\<rparr>
        in if p_qpsk_mod r then r\<lparr>p_qpsk_sink := stop_recording (p_qpsk_sink r)\<rparr>
           else r\<lparr>p_fsk4_sink := stop_recording (p_fsk4_sink r)\<rparr>
      else r)"

definition p25_work ::
  "sink_env \<Rightarrow> bool \<Rightarrow> nat \<Rightarrow> tag list \<Rightarrow> 16 word list list \<Rightarrow> P25_Recorder \<Rightarrow> P25_Recorder" where
  "p25_work env qpsk n tags inp r =
     (if qpsk then r\<lparr>p_qpsk_sink := work env n tags inp (p_qpsk_sink r)\<rparr>
      else r\<lparr>p_fsk4_sink := work env n tags inp (p_fsk4_sink r)\<rparr>)"

text \<open>\<open>initialize\<close>; the two chains and their sinks are new.\<close>

definition new_p25_recorder :: "P25_Recorder \<Rightarrow> sink \<Rightarrow> sink \<Rightarrow> double \<Rightarrow> P25_Recorder" where
  "new_p25_recorder junk qpsk_sink fsk4_sink center =
     junk\<lparr>p_state := INACTIVE, p_qpsk_mod := True, p_phase2_tdma := False, p_qpsk_tdma := False,
       p_qpsk_sink := qpsk_sink, p_fsk4_sink := fsk4_sink, p_talkgroup := 0, p_chan_freq := center,
       p_squelch_db := 0, p_recording_count := 0, p_recording_duration := 0\<rparr>"

section \<open>Analog recorder\<close>

record Analog_Recorder =
  a_state :: State
  a_sink :: sink
  a_valve :: bool
  a_call :: "int option"
  a_talkgroup :: int
  a_chan_freq :: double
  a_squelch_db :: double
  a_recording_duration :: double

definition analog_start ::
  "sink_env \<Rightarrow> Config \<Rightarrow> System_impl \<Rightarrow> Call \<Rightarrow> Analog_Recorder \<Rightarrow> bool \<times> Analog_Recorder" where
  "analog_start env cfg sys c r =
     (True, r\<lparr>a_call := Some (cl_call_num c), a_talkgroup := cl_talkgroup c,
       a_chan_freq := cl_curr_freq c, a_squelch_db := sy_squelch_db sys,
       a_sink := start_recording env cfg sys c (a_sink r), a_state := ACTIVE, a_valve := True\<rparr>)"

definition analog_stop :: "Analog_Recorder \<Rightarrow> Analog_Recorder" where
  "analog_stop r =
     (if a_state r = ACTIVE
      then r\<lparr>a_recording_duration := fl (a_recording_duration r + length_in_seconds (a_sink r)),
             a_state := INACTIVE, a_valve := False, a_sink := stop_recording (a_sink r)\<rparr>
      else r)"

text \<open>\<open>unmuted\<close> is what the squelch block reports.\<close>

definition analog_is_idle :: "bool \<Rightarrow> Analog_Recorder \<Rightarrow> bool" where
  "analog_is_idle unmuted r \<longleftrightarrow> (if a_state r = ACTIVE then \<not> unmuted else True)"

section \<open>DMR recorder\<close>

record DMR_Recorder =
  d_state :: State
  d_sink0 :: sink
  d_sink1 :: sink
  d_valve :: bool
  d_call :: "int option"
  d_talkgroup :: int
  d_chan_freq :: double
  d_tdma_slot :: int
  d_squelch_db :: double
  d_recording_count :: int
  d_recording_duration :: double

definition dmr_start ::
  "sink_env \<Rightarrow> Config \<Rightarrow> System_impl \<Rightarrow> Call \<Rightarrow> DMR_Recorder \<Rightarrow> bool \<times> DMR_Recorder" where
  "dmr_start env cfg sys c r =
     (if d_state r = INACTIVE then
        (True, r\<lparr>d_tdma_slot := 0, d_talkgroup := cl_talkgroup c, d_chan_freq := cl_curr_freq c,
          d_call := Some (cl_call_num c), d_squelch_db := sy_squelch_db sys,
          d_sink0 := start_recording_slot env cfg sys c 0 (d_sink0 r),
          d_sink1 := start_recording_slot env cfg sys c 1 (d_sink1 r),
          d_state := ACTIVE, d_valve := True, d_recording_count := d_recording_count r + 1\<rparr>)
      else (False, r))"

definition dmr_stop :: "DMR_Recorder \<Rightarrow> DMR_Recorder" where
  "dmr_stop r =
     (if d_state r = ACTIVE
      then r\<lparr>d_recording_duration := fl (d_recording_duration r + total_length_in_seconds (d_sink0 r)),
             d_state := INACTIVE, d_valve := False,
             d_sink0 := stop_recording (d_sink0 r), d_sink1 := stop_recording (d_sink1 r)\<rparr>
      else r)"

text \<open>
  The transmissions of both slots, by start time. \<open>std::sort\<close> promises a sorted permutation;
  the order of equal start times is not specified, and the model keeps the given one.
\<close>

definition dmr_get_transmission_list :: "DMR_Recorder \<Rightarrow> Transmission list" where
  "dmr_get_transmission_list r =
     sort_key tr_start_time (sk_transmission_list (d_sink0 r) @ sk_transmission_list (d_sink1 r))"

section \<open>Debug and SigMF recorders\<close>

record Plain_Recorder =
  b_state :: State
  b_valve :: bool
  b_talkgroup :: int
  b_chan_freq :: double

definition plain_start :: "Call \<Rightarrow> Plain_Recorder \<Rightarrow> bool \<times> Plain_Recorder" where
  "plain_start c r =
     (if b_state r = INACTIVE
      then (True, r\<lparr>b_talkgroup := cl_talkgroup c, b_chan_freq := cl_curr_freq c, b_state := ACTIVE, b_valve := True\<rparr>)
      else (False, r))"

definition plain_stop :: "Plain_Recorder \<Rightarrow> Plain_Recorder" where
  "plain_stop r = (if b_state r = ACTIVE then r\<lparr>b_state := INACTIVE, b_valve := False\<rparr> else r)"

section \<open>The class hierarchy\<close>

datatype Recorder =
    P25_Rec P25_Recorder | Analog_Rec Analog_Recorder | DMR_Rec DMR_Recorder
  | Plain_Rec Plain_Recorder

fun rec_start :: "sink_env \<Rightarrow> Config \<Rightarrow> System_impl \<Rightarrow> Call \<Rightarrow> Recorder \<Rightarrow> bool \<times> Recorder" where
  "rec_start env cfg sys c (P25_Rec r) = map_prod id P25_Rec (p25_start env cfg sys c r)"
| "rec_start env cfg sys c (Analog_Rec r) = map_prod id Analog_Rec (analog_start env cfg sys c r)"
| "rec_start env cfg sys c (DMR_Rec r) = map_prod id DMR_Rec (dmr_start env cfg sys c r)"
| "rec_start env cfg sys c (Plain_Rec r) = map_prod id Plain_Rec (plain_start c r)"

fun rec_stop :: "Recorder \<Rightarrow> Recorder" where
  "rec_stop (P25_Rec r) = P25_Rec (p25_stop r)"
| "rec_stop (Analog_Rec r) = Analog_Rec (analog_stop r)"
| "rec_stop (DMR_Rec r) = DMR_Rec (dmr_stop r)"
| "rec_stop (Plain_Rec r) = Plain_Rec (plain_stop r)"

fun rec_get_state :: "Recorder \<Rightarrow> State" where
  "rec_get_state (P25_Rec r) = p25_get_state r"
| "rec_get_state (Analog_Rec r) = sk_state (a_sink r)"
| "rec_get_state (DMR_Rec r) = sk_state (d_sink0 r)"
| "rec_get_state (Plain_Rec r) = b_state r"

fun rec_is_active :: "Recorder \<Rightarrow> bool" where
  "rec_is_active (P25_Rec r) \<longleftrightarrow> p25_is_active r"
| "rec_is_active (Analog_Rec r) \<longleftrightarrow> a_state r = ACTIVE"
| "rec_is_active (DMR_Rec r) \<longleftrightarrow> d_state r = ACTIVE"
| "rec_is_active (Plain_Rec r) \<longleftrightarrow> b_state r = ACTIVE"

fun rec_is_squelched :: "bool \<Rightarrow> Recorder \<Rightarrow> bool" where
  "rec_is_squelched unmuted (P25_Rec r) \<longleftrightarrow> (if p_state r = ACTIVE then \<not> unmuted else True)"
| "rec_is_squelched unmuted (Analog_Rec r) \<longleftrightarrow> analog_is_idle unmuted r"
| "rec_is_squelched unmuted (DMR_Rec r) \<longleftrightarrow> (if d_state r = ACTIVE then \<not> unmuted else True)"
| "rec_is_squelched unmuted (Plain_Rec r) \<longleftrightarrow> True"

fun rec_get_current_length :: "Recorder \<Rightarrow> double" where
  "rec_get_current_length (P25_Rec r) = p25_get_current_length r"
| "rec_get_current_length (Analog_Rec r) = total_length_in_seconds (a_sink r)"
| "rec_get_current_length (DMR_Rec r) = total_length_in_seconds (d_sink0 r)"
| "rec_get_current_length (Plain_Rec r) = 0"

fun rec_get_transmission_list :: "Recorder \<Rightarrow> Transmission list" where
  "rec_get_transmission_list (P25_Rec r) = p25_get_transmission_list r"
| "rec_get_transmission_list (Analog_Rec r) = sk_transmission_list (a_sink r)"
| "rec_get_transmission_list (DMR_Rec r) = dmr_get_transmission_list r"
| "rec_get_transmission_list (Plain_Rec r) = []"

text \<open>
  The P25 recorder measures since the last write on the steady clock, the others since the
  last stop time on the wall clock; the base class returns 0.
\<close>

fun rec_since_last_write :: "sink_env \<Rightarrow> Recorder \<Rightarrow> int" where
  "rec_since_last_write env (P25_Rec r) = p25_since_last_write (env_clock env) r"
| "rec_since_last_write env (Analog_Rec r) = env_now env - sk_stop_time (a_sink r)"
| "rec_since_last_write env (DMR_Rec r) = env_now env - sk_stop_time (d_sink0 r)"
| "rec_since_last_write env (Plain_Rec r) = 0"

fun rec_set_source :: "int \<Rightarrow> Recorder \<Rightarrow> Recorder" where
  "rec_set_source src (P25_Rec r) = P25_Rec (p25_set_source src r)"
| "rec_set_source src (Analog_Rec r) = Analog_Rec (r\<lparr>a_sink := sink_set_source src (a_sink r)\<rparr>)"
| "rec_set_source src (DMR_Rec r) = DMR_Rec r"
| "rec_set_source src (Plain_Rec r) = Plain_Rec r"

section \<open>Decimation\<close>

text \<open>
  \<open>get_decim\<close>: the first of three intermediate rates that divides the sample rate an even
  number of times decides both decimation factors.
\<close>

fun first_decim :: "int \<Rightarrow> int list \<Rightarrow> int \<times> int" where
  "first_decim s [] = (-1, -1)"
| "first_decim s (if_freq # rest) =
     (if s mod if_freq \<noteq> 0 then first_decim s rest
      else let q = s div if_freq
           in if q AND 1 \<noteq> 0 then first_decim s rest
              else if q \<ge> 40 \<and> q AND 3 = 0 then (q div 4, 4) else (q div 2, 2))"

definition get_decim :: "int \<Rightarrow> int \<times> int" where
  "get_decim speed = first_decim speed [24000, 25000, 32000]"

end
