(* ===== verification/Recorder_Properties.thy ===== *)
theory Recorder_Properties
  imports Recorder Sink_Properties System_Properties
begin

text \<open>
  What the classes of recorders promise their clients, stated once as an interface, and the
  mode of the P25 decoder.
\<close>

section \<open>The interface of a recorder\<close>

text \<open>
  A client starts a recorder for a call and stops it; whether a recorder is free is its state
  \<open>AVAILABLE\<close>. \<open>run\<close> is what the flow graph does to the recorder in between.
\<close>

definition busy :: "('r \<Rightarrow> State) \<Rightarrow> ('i \<Rightarrow> 'r) \<Rightarrow> 'i set" where
  "busy state recs = {i. state (recs i) \<noteq> AVAILABLE}"

locale recorder =
  fixes inv :: "'r \<Rightarrow> bool"
    and start :: "'a \<Rightarrow> 'r \<Rightarrow> bool \<times> 'r"
    and stop :: "'r \<Rightarrow> 'r"
    and run :: "'w \<Rightarrow> 'r \<Rightarrow> 'r"
    and state :: "'r \<Rightarrow> State"
  assumes start_inv: "inv r \<Longrightarrow> inv (snd (start a r))"
    and stop_inv: "inv r \<Longrightarrow> inv (stop r)"
    and run_inv: "inv r \<Longrightarrow> inv (run w r)"
    and started: "inv r \<Longrightarrow> fst (start a r) \<Longrightarrow> state (snd (start a r)) \<noteq> AVAILABLE"
    and refused: "inv r \<Longrightarrow> \<not> fst (start a r) \<Longrightarrow>
          state (snd (start a r)) = AVAILABLE \<longleftrightarrow> state r = AVAILABLE"
    and stopped: "inv r \<Longrightarrow> state (stop r) = AVAILABLE"
    and running: "inv r \<Longrightarrow> state (run w r) = AVAILABLE \<longleftrightarrow> state r = AVAILABLE"
begin

lemma busy_started:
  "inv (recs i) \<Longrightarrow> fst (start a (recs i)) \<Longrightarrow>
     busy state (recs(i := snd (start a (recs i)))) = insert i (busy state recs)"
  using started [of "recs i" a] by (auto simp: busy_def)

lemma busy_refused:
  "inv (recs i) \<Longrightarrow> \<not> fst (start a (recs i)) \<Longrightarrow>
     busy state (recs(i := snd (start a (recs i)))) = busy state recs"
  using refused [of "recs i" a] by (auto simp: busy_def)

lemma busy_stopped:
  "inv (recs i) \<Longrightarrow> busy state (recs(i := stop (recs i))) = busy state recs - {i}"
  using stopped [of "recs i"] by (auto simp: busy_def)

lemma busy_running:
  "inv (recs i) \<Longrightarrow> busy state (recs(i := run w (recs i))) = busy state recs"
  using running [of "recs i" w] by (auto simp: busy_def)

text \<open>Starting a free recorder and stopping it gives a free recorder, whatever ran in between.\<close>

lemma session: "inv r \<Longrightarrow> state (stop (fold run ws (snd (start a r)))) = AVAILABLE"
proof -
  assume "inv r"
  then have "inv (snd (start a r))" by (rule start_inv)
  then have "inv (fold run ws (snd (start a r)))"
    by (induction ws arbitrary: r rule: rev_induct) (simp_all add: run_inv)
  then show ?thesis by (rule stopped)
qed

end

section \<open>Sinks under the recorders\<close>

definition free :: "sink \<Rightarrow> bool" where
  "free s \<longleftrightarrow> sk_state s = AVAILABLE"

lemma free_iff: "sink_ok s \<Longrightarrow> free s \<longleftrightarrow> sk_current_call s = None"
  by (simp add: free_def sink_ok_def)

lemma start_recording_state: "sk_state (start_recording env cfg sys c s) = IDLE"
  by (simp add: start_recording_def)

lemma stop_recording_state: "sk_state (stop_recording s) = AVAILABLE"
  by (simp add: stop_recording_def)

lemma sink_set_source_state: "sk_state (sink_set_source src s) = sk_state s"
  by (simp add: sink_set_source_def)

lemma sink_starts [simp]:
  "sink_ok (decode_start env cfg sys c s)" "\<not> free (decode_start env cfg sys c s)"
  "sink_ok (start_recording_slot env cfg sys c slot s)" "\<not> free (start_recording_slot env cfg sys c slot s)"
  "sink_ok (start_recording env cfg sys c s)" "\<not> free (start_recording env cfg sys c s)"
  by (simp_all add: decode_start_def start_recording_slot_def sink_ok_start free_def start_recording_state)

lemma sink_stops [simp]: "sink_ok (stop_recording s)" "free (stop_recording s)"
  by (simp_all add: sink_ok_stop free_def stop_recording_state)

lemma sink_works [simp]:
  assumes "sink_ok s"
  shows "sink_ok (work env n ts inp s)" "free (work env n ts inp s) = free s"
  using sink_ok_work [OF assms, of env n ts inp] assms by (simp_all add: free_iff)

section \<open>The P25 recorder\<close>

definition p25_inv :: "P25_Recorder \<Rightarrow> bool" where
  "p25_inv r \<longleftrightarrow> sink_ok (p_qpsk_sink r) \<and> sink_ok (p_fsk4_sink r)
     \<and> (if p_state r = ACTIVE
        then (if p_qpsk_mod r then \<not> free (p_qpsk_sink r) \<and> free (p_fsk4_sink r)
              else free (p_qpsk_sink r) \<and> \<not> free (p_fsk4_sink r))
        else p_state r = INACTIVE \<and> free (p_qpsk_sink r) \<and> free (p_fsk4_sink r))"

lemma p25_set_tdma_simps [simp]:
  "p_state (p25_set_tdma b r) = p_state r" "p_qpsk_mod (p25_set_tdma b r) = p_qpsk_mod r"
  "p_qpsk_sink (p25_set_tdma b r) = p_qpsk_sink r" "p_fsk4_sink (p25_set_tdma b r) = p_fsk4_sink r"
  "p_phase2_tdma (p25_set_tdma b r) = b"
  "p_qpsk_tdma (p25_set_tdma b r) = (if b \<noteq> p_phase2_tdma r \<and> p_qpsk_mod r then b else p_qpsk_tdma r)"
  by (simp_all add: p25_set_tdma_def p25_switch_tdma_def Let_def)

lemma p25_set_tdma_slot_simps [simp]:
  "p_state (p25_set_tdma_slot n r) = p_state r" "p_qpsk_mod (p25_set_tdma_slot n r) = p_qpsk_mod r"
  "p_qpsk_sink (p25_set_tdma_slot n r) = p_qpsk_sink r" "p_fsk4_sink (p25_set_tdma_slot n r) = p_fsk4_sink r"
  "p_phase2_tdma (p25_set_tdma_slot n r) = p_phase2_tdma r" "p_qpsk_tdma (p25_set_tdma_slot n r) = p_qpsk_tdma r"
  by (simp_all add: p25_set_tdma_slot_def)

lemma p25_start_active: "p_state r \<noteq> INACTIVE \<Longrightarrow> p25_start env cfg sys c r = (False, r)"
  by (simp add: p25_start_def)

text \<open>When a P25 recorder accepts a call.\<close>

lemma p25_start_accepts:
  "fst (p25_start env cfg sys c r) \<longleftrightarrow>
     p_state r = INACTIVE \<and> (cl_phase2_tdma c \<longrightarrow> sy_qpsk_mod sys \<and> sy_xor_mask sys \<noteq> None)"
  by (simp add: p25_start_def Let_def)

lemma p25_start_accepted:
  assumes "fst (p25_start env cfg sys c r)"
  shows "p_state (snd (p25_start env cfg sys c r)) = ACTIVE
    \<and> p_qpsk_mod (snd (p25_start env cfg sys c r)) = sy_qpsk_mod sys
    \<and> p_qpsk_sink (snd (p25_start env cfg sys c r)) =
        (if sy_qpsk_mod sys then decode_start env cfg sys c (p_qpsk_sink r) else p_qpsk_sink r)
    \<and> p_fsk4_sink (snd (p25_start env cfg sys c r)) =
        (if sy_qpsk_mod sys then p_fsk4_sink r else decode_start env cfg sys c (p_fsk4_sink r))
    \<and> p_phase2_tdma (snd (p25_start env cfg sys c r)) = cl_phase2_tdma c
    \<and> p_qpsk_tdma (snd (p25_start env cfg sys c r)) =
        (if cl_phase2_tdma c \<noteq> p_phase2_tdma r \<and> sy_qpsk_mod sys then cl_phase2_tdma c else p_qpsk_tdma r)"
  using assms [unfolded p25_start_accepts] by (simp add: p25_start_def Let_def)

lemma p25_start_refused:
  assumes "\<not> fst (p25_start env cfg sys c r)"
  shows "p_state (snd (p25_start env cfg sys c r)) = p_state r
    \<and> p_qpsk_sink (snd (p25_start env cfg sys c r)) = p_qpsk_sink r
    \<and> p_fsk4_sink (snd (p25_start env cfg sys c r)) = p_fsk4_sink r
    \<and> (p_state r \<noteq> INACTIVE \<longrightarrow> p_qpsk_mod (snd (p25_start env cfg sys c r)) = p_qpsk_mod r)"
  using assms [unfolded p25_start_accepts] by (auto simp: p25_start_def Let_def)

lemma p25_inv_start: "p25_inv r \<Longrightarrow> p25_inv (snd (p25_start env cfg sys c r))"
proof (cases "fst (p25_start env cfg sys c r)")
  case True
  assume inv: "p25_inv r"
  have "p_state r = INACTIVE" using True by (simp add: p25_start_accepts)
  then show ?thesis using p25_start_accepted [OF True] inv by (simp add: p25_inv_def)
next
  case False
  assume inv: "p25_inv r"
  then show ?thesis using p25_start_refused [OF False] by (auto simp: p25_inv_def split: if_splits)
qed

lemma p25_inv_stop: "p25_inv r \<Longrightarrow> p25_inv (p25_stop r)"
  by (auto simp: p25_inv_def p25_stop_def Let_def split: if_splits)

lemma p25_inv_work: "p25_inv r \<Longrightarrow> p25_inv (p25_work env q n ts inp r)"
  by (auto simp: p25_inv_def p25_work_def split: if_splits)

lemma p25_available: "p25_inv r \<Longrightarrow> p25_get_state r = AVAILABLE \<longleftrightarrow> p_state r = INACTIVE"
  by (auto simp: p25_inv_def p25_get_state_def p25_sink_def free_def split: if_splits)

type_synonym start_args = "sink_env \<times> Config \<times> System_impl \<times> Call"
type_synonym work_args = "sink_env \<times> bool \<times> nat \<times> tag list \<times> 16 word list list"

interpretation p25: recorder p25_inv
  "\<lambda>(env, cfg, sys, c) r. p25_start env cfg sys c r" p25_stop
  "\<lambda>(env, q, n, ts, inp) r. p25_work env q n ts inp r" p25_get_state
proof (unfold_locales, goal_cases)
  case (1 r a)
  then show ?case by (cases a) (simp add: p25_inv_start)
next
  case (2 r)
  then show ?case by (rule p25_inv_stop)
next
  case (3 r w)
  then show ?case by (cases w) (simp add: p25_inv_work)
next
  case (4 r a)
  then show ?case
    using p25_start_accepted p25_inv_start
    by (cases a) (simp add: p25_available)
next
  case (5 r a)
  then show ?case
    using p25_start_refused p25_inv_start
    by (cases a) (simp add: p25_available)
next
  case (6 r)
  then show ?case
    using p25_inv_stop [OF 6] by (auto simp: p25_available p25_stop_def Let_def p25_inv_def split: if_splits)
next
  case (7 r w)
  then show ?case
    using p25_inv_work [OF 7] by (cases w) (simp add: p25_available, simp add: p25_work_def)
qed

section \<open>The analog and DMR recorders\<close>

definition analog_inv :: "Analog_Recorder \<Rightarrow> bool" where
  "analog_inv r \<longleftrightarrow> sink_ok (a_sink r) \<and> (a_state r = ACTIVE \<longleftrightarrow> \<not> free (a_sink r))"

definition analog_work :: "work_args \<Rightarrow> Analog_Recorder \<Rightarrow> Analog_Recorder" where
  "analog_work w r = (case w of (env, q, n, ts, inp) \<Rightarrow> r\<lparr>a_sink := work env n ts inp (a_sink r)\<rparr>)"

interpretation analog: recorder analog_inv
  "\<lambda>(env, cfg, sys, c) r. analog_start env cfg sys c r" analog_stop analog_work "\<lambda>r. sk_state (a_sink r)"
  by unfold_locales
    (auto simp: analog_inv_def analog_start_def analog_stop_def analog_work_def free_def [symmetric])

definition dmr_inv :: "DMR_Recorder \<Rightarrow> bool" where
  "dmr_inv r \<longleftrightarrow> sink_ok (d_sink0 r) \<and> sink_ok (d_sink1 r) \<and> (d_state r = ACTIVE \<or> d_state r = INACTIVE)
     \<and> (d_state r = ACTIVE \<longleftrightarrow> \<not> free (d_sink0 r)) \<and> (d_state r = ACTIVE \<longleftrightarrow> \<not> free (d_sink1 r))"

definition dmr_work :: "work_args \<Rightarrow> DMR_Recorder \<Rightarrow> DMR_Recorder" where
  "dmr_work w r = (case w of (env, q, n, ts, inp) \<Rightarrow>
     if q then r\<lparr>d_sink0 := work env n ts inp (d_sink0 r)\<rparr> else r\<lparr>d_sink1 := work env n ts inp (d_sink1 r)\<rparr>)"

interpretation dmr: recorder dmr_inv
  "\<lambda>(env, cfg, sys, c) r. dmr_start env cfg sys c r" dmr_stop dmr_work "\<lambda>r. sk_state (d_sink0 r)"
  by unfold_locales
    (auto simp: dmr_inv_def dmr_start_def dmr_stop_def dmr_work_def free_def [symmetric] split: if_splits)

section \<open>All recorders a call can be recorded with\<close>

fun rec_inv :: "Recorder \<Rightarrow> bool" where
  "rec_inv (P25_Rec r) = p25_inv r"
| "rec_inv (Analog_Rec r) = analog_inv r"
| "rec_inv (DMR_Rec r) = dmr_inv r"
| "rec_inv (Plain_Rec r) = False"

fun rec_work :: "work_args \<Rightarrow> Recorder \<Rightarrow> Recorder" where
  "rec_work (env, q, n, ts, inp) (P25_Rec r) = P25_Rec (p25_work env q n ts inp r)"
| "rec_work w (Analog_Rec r) = Analog_Rec (analog_work w r)"
| "rec_work w (DMR_Rec r) = DMR_Rec (dmr_work w r)"
| "rec_work w (Plain_Rec r) = Plain_Rec r"

abbreviation rec_starts :: "start_args \<Rightarrow> Recorder \<Rightarrow> bool \<times> Recorder" where
  "rec_starts a r \<equiv> (case a of (env, cfg, sys, c) \<Rightarrow> rec_start env cfg sys c r)"

interpretation any: recorder rec_inv rec_starts rec_stop rec_work rec_get_state
proof (unfold_locales, goal_cases)
  case (1 r a)
  then show ?case
    using p25.start_inv [of _ a] analog.start_inv [of _ a] dmr.start_inv [of _ a] by (cases r; cases a) auto
next
  case (2 r)
  then show ?case using p25.stop_inv analog.stop_inv dmr.stop_inv by (cases r) auto
next
  case (3 r w)
  then show ?case
    using p25.run_inv [of _ w] analog.run_inv [of _ w] dmr.run_inv [of _ w] by (cases r; cases w) auto
next
  case (4 r a)
  then show ?case
    using p25.started [of _ a] analog.started [of _ a] dmr.started [of _ a] by (cases r; cases a) auto
next
  case (5 r a)
  then show ?case
    using p25.refused [of _ a] analog.refused [of _ a] dmr.refused [of _ a] by (cases r; cases a) auto
next
  case (6 r)
  then show ?case using p25.stopped analog.stopped dmr.stopped by (cases r) auto
next
  case (7 r w)
  then show ?case
    using p25.running [of _ w] analog.running [of _ w] dmr.running [of _ w] by (cases r; cases w) auto
qed

lemma sink_set_source_ok [simp]:
  "sink_ok s \<Longrightarrow> sink_ok (sink_set_source src s)" "free (sink_set_source src s) = free s"
  by (simp_all add: sink_ok_set_source free_def sink_set_source_state)

lemma p25_set_source_ok:
  "p25_inv r \<Longrightarrow> p25_inv (p25_set_source src r)" "p25_get_state (p25_set_source src r) = p25_get_state r"
  by (auto simp: p25_inv_def p25_set_source_def p25_get_state_def p25_sink_def sink_set_source_state split: if_splits)

lemma rec_set_source_ok:
  "rec_inv r \<Longrightarrow> rec_inv (rec_set_source src r)" "rec_get_state (rec_set_source src r) = rec_get_state r"
  by (cases r; simp add: p25_set_source_ok analog_inv_def sink_set_source_state)+

section \<open>Runs of a recorder\<close>

text \<open>What happens to a recorder over its life, in any order.\<close>

datatype recorder_op = Rec_Start start_args | Rec_Stop | Rec_Work work_args | Rec_Source int

fun rec_step :: "recorder_op \<Rightarrow> Recorder \<Rightarrow> Recorder" where
  "rec_step (Rec_Start a) r = snd (rec_starts a r)"
| "rec_step Rec_Stop r = rec_stop r"
| "rec_step (Rec_Work w) r = rec_work w r"
| "rec_step (Rec_Source src) r = rec_set_source src r"

lemma rec_inv_step: "rec_inv r \<Longrightarrow> rec_inv (rec_step op r)"
  by (cases op) (simp_all add: any.start_inv any.stop_inv any.run_inv rec_set_source_ok)

lemma rec_inv_run: "rec_inv r \<Longrightarrow> rec_inv (fold rec_step ops r)"
  by (induction ops arbitrary: r) (simp_all add: rec_inv_step)

lemma new_sink_free: "new_sink junk n rate bits = Some s \<Longrightarrow> sink_ok s \<and> free s"
  by (simp add: sink_ok_new) (auto simp: new_sink_def free_def split: if_splits)

lemma new_p25_inv:
  assumes "new_sink j1 n1 r1 b1 = Some s1" and "new_sink j2 n2 r2 b2 = Some s2"
  shows "p25_inv (new_p25_recorder junk s1 s2 center)"
  using new_sink_free [OF assms(1)] new_sink_free [OF assms(2)]
  by (simp add: p25_inv_def new_p25_recorder_def)

lemma rec_p25_step: "\<exists>q'. rec_step op (P25_Rec q) = P25_Rec q'"
proof (cases op)
  case (Rec_Start a)
  then show ?thesis by (cases a) simp
next
  case (Rec_Work w)
  then show ?thesis by (cases w) simp
qed simp_all

lemma rec_p25_run: "\<exists>q'. fold rec_step ops (P25_Rec q) = P25_Rec q'"
proof (induction ops arbitrary: q)
  case (Cons op ops)
  obtain q1 where "rec_step op (P25_Rec q) = P25_Rec q1" using rec_p25_step by blast
  with Cons show ?case by simp
qed simp

text \<open>
  C34. A P25 recorder is lent to one call at a time. Over any life of a recorder (calls it accepts
  or refuses, stops, changes of speaker, and stretches of decoded audio on either chain, in any
  order), the state \<open>AVAILABLE\<close> by which a source finds free recorders and counts them for the
  priorities is the same as not being active; a call it accepts finds it available and leaves it
  taken, whatever audio it then decodes does not free it, and a stop frees it.
\<close>

theorem p25_recorder_availability:
  assumes "new_sink j1 n1 r1 b1 = Some s1" and "new_sink j2 n2 r2 b2 = Some s2"
    and "r = fold rec_step ops (P25_Rec (new_p25_recorder junk s1 s2 center))"
  shows "(rec_get_state r = AVAILABLE \<longleftrightarrow> \<not> rec_is_active r)
    \<and> (fst (rec_start env cfg sys c r) \<longrightarrow> rec_get_state r = AVAILABLE
        \<and> rec_get_state (fold rec_work ws (snd (rec_start env cfg sys c r))) \<noteq> AVAILABLE)
    \<and> rec_get_state (rec_stop r) = AVAILABLE"
proof -
  have inv: "rec_inv r" using rec_inv_run new_p25_inv [OF assms(1,2)] by (simp add: assms(3))
  obtain q where q: "r = P25_Rec q" using rec_p25_run assms(3) by blast
  have avail: "p25_get_state q = AVAILABLE \<longleftrightarrow> p_state q = INACTIVE" using inv p25_available by (simp add: q)
  have cases: "p_state q = ACTIVE \<or> p_state q = INACTIVE" using inv by (auto simp: q p25_inv_def split: if_splits)
  have keep: "rec_inv r' \<Longrightarrow> rec_get_state r' \<noteq> AVAILABLE \<Longrightarrow> rec_get_state (fold rec_work ws r') \<noteq> AVAILABLE" for r'
    by (induction ws arbitrary: r') (simp_all add: any.run_inv any.running)
  show ?thesis
  proof (intro conjI impI)
    show "rec_get_state r = AVAILABLE \<longleftrightarrow> \<not> rec_is_active r"
      using avail cases by (auto simp: q p25_is_active_def)
  next
    assume st: "fst (rec_start env cfg sys c r)"
    then show "rec_get_state r = AVAILABLE" using avail by (simp add: q p25_start_accepts)
    show "rec_get_state (fold rec_work ws (snd (rec_start env cfg sys c r))) \<noteq> AVAILABLE"
      using keep any.start_inv [OF inv, of "(env, cfg, sys, c)"] any.started [OF inv, of "(env, cfg, sys, c)"] st
      by simp
  next
    show "rec_get_state (rec_stop r) = AVAILABLE" using any.stopped inv by simp
  qed
qed

definition example_p25 :: P25_Recorder where
  "example_p25 =
     \<lparr>p_state = INACTIVE, p_qpsk_mod = True, p_phase2_tdma = False, p_tdma_slot = 0, p_qpsk_tdma = False,
      p_qpsk_slot = 0, p_fsk4_slot = 0, p_xor_mask = None, p_output_index = 0, p_valve = False,
      p_qpsk_sink = example_sink, p_fsk4_sink = example_sink, p_call = None, p_talkgroup = 0,
      p_chan_freq = 0, p_squelch_db = 0, p_recording_count = 0, p_recording_duration = 0\<rparr>"

lemma example_sink_new: "new_sink example_sink 1 8000 16 = Some example_sink"
  by (simp add: new_sink_def example_sink_def)

theorem p25_recorder_availability_witness:
  "\<forall>env cfg c. rec_get_state (rec_step (Rec_Start (env, cfg, example_system, c\<lparr>cl_phase2_tdma := False\<rparr>))
       (P25_Rec (new_p25_recorder example_p25 example_sink example_sink 0))) \<noteq> AVAILABLE"
proof (intro allI)
  fix env cfg and c :: Call
  let ?c = "c\<lparr>cl_phase2_tdma := False\<rparr>"
  let ?r = "P25_Rec (new_p25_recorder example_p25 example_sink example_sink 0)"
  have "fst (rec_start env cfg example_system ?c ?r)"
    by (simp add: p25_start_accepts new_p25_recorder_def)
  then show "rec_get_state (rec_step (Rec_Start (env, cfg, example_system, ?c)) ?r) \<noteq> AVAILABLE"
    using p25_recorder_availability [OF example_sink_new example_sink_new, of ?r "[]" example_p25 0
        env cfg example_system ?c "[]"]
    by simp
qed

section \<open>The mode of the P25 decoder\<close>

text \<open>A recorder all of whose calls came from systems with QPSK modulation.\<close>

fun qpsk_op :: "recorder_op \<Rightarrow> bool" where
  "qpsk_op (Rec_Start (env, cfg, sys, c)) \<longleftrightarrow> sy_qpsk_mod sys"
| "qpsk_op op \<longleftrightarrow> True"

definition mode_ok :: "P25_Recorder \<Rightarrow> bool" where
  "mode_ok r \<longleftrightarrow> p_qpsk_mod r \<and> p_qpsk_tdma r = p_phase2_tdma r"

lemma p25_start_mode:
  assumes "mode_ok r" and "sy_qpsk_mod sys"
  shows "mode_ok (snd (p25_start env cfg sys c r))"
proof (cases "fst (p25_start env cfg sys c r)")
  case True
  then show ?thesis using p25_start_accepted [OF True] assms by (auto simp: mode_ok_def)
next
  case False
  then show ?thesis
    using assms unfolding p25_start_accepts by (auto simp: p25_start_def Let_def mode_ok_def)
qed

lemma mode_ok_step:
  "mode_ok q \<Longrightarrow> qpsk_op op \<Longrightarrow> \<exists>q'. rec_step op (P25_Rec q) = P25_Rec q' \<and> mode_ok q'"
proof (cases op)
  case (Rec_Start a)
  moreover assume "mode_ok q" "qpsk_op op"
  ultimately show ?thesis by (cases a) (simp add: p25_start_mode)
next
  case (Rec_Work w)
  moreover assume "mode_ok q"
  ultimately show ?thesis by (cases w) (simp add: mode_ok_def p25_work_def)
qed (simp_all add: mode_ok_def p25_stop_def p25_set_source_def Let_def)

lemma mode_ok_run:
  "mode_ok q \<Longrightarrow> \<forall>op \<in> set ops. qpsk_op op \<Longrightarrow>
     \<exists>q'. fold rec_step ops (P25_Rec q) = P25_Rec q' \<and> mode_ok q'"
proof (induction ops arbitrary: q)
  case (Cons op ops)
  then obtain q1 where "rec_step op (P25_Rec q) = P25_Rec q1" "mode_ok q1" using mode_ok_step by fastforce
  with Cons show ?case by simp
qed simp

text \<open>
  A P25 recorder decodes in the mode of its call. If every system a recorder has served uses
  QPSK modulation, then after any history an accepted call leaves the demodulator and the frame
  assembler of the QPSK chain switched to Phase 2 exactly when the call is a Phase 2 call, however
  often earlier calls switched the mode back and forth or were refused.
\<close>

theorem p25_mode_follows_call:
  assumes "\<forall>op \<in> set ops. qpsk_op op" and "sy_qpsk_mod sys"
    and "fold rec_step ops (P25_Rec (new_p25_recorder junk s1 s2 center)) = P25_Rec r"
    and "fst (p25_start env cfg sys c r)"
  shows "p_qpsk_tdma (snd (p25_start env cfg sys c r)) = cl_phase2_tdma c"
proof -
  have "mode_ok (new_p25_recorder junk s1 s2 center)" by (simp add: mode_ok_def new_p25_recorder_def)
  from mode_ok_run [OF this assms(1)] assms(3) have "mode_ok r" by auto
  then show ?thesis using p25_start_accepted [OF assms(4)] assms(2) by (auto simp: mode_ok_def)
qed

theorem p25_mode_follows_call_witness:
  "\<forall>env cfg c. p_qpsk_tdma (snd (p25_start env cfg (set_xor_mask 1 2 3 example_system) (c\<lparr>cl_phase2_tdma := True\<rparr>)
     (new_p25_recorder example_p25 example_sink example_sink 0)))"
proof (intro allI)
  fix env cfg and c :: Call
  let ?r = "new_p25_recorder example_p25 example_sink example_sink 0"
  let ?c = "c\<lparr>cl_phase2_tdma := True\<rparr>" and ?s = "set_xor_mask 1 2 3 example_system"
  have "fst (p25_start env cfg ?s ?c ?r)"
    by (simp add: p25_start_accepts new_p25_recorder_def set_xor_mask_def example_system_def)
  then show "p_qpsk_tdma (snd (p25_start env cfg ?s ?c ?r))"
    using p25_mode_follows_call [of "[]" ?s example_p25 example_sink example_sink 0 ?r env cfg ?c]
    by (simp add: set_xor_mask_def example_system_def)
qed

text \<open>
  When a source also serves a system with FSK4 modulation, the mode can be stale. A Phase 2
  call on the FSK4 system is refused, but only after the recorder has noted the Phase 2 mode
  without switching the QPSK chain. The next Phase 2 call, on a QPSK system, is accepted and
  finds nothing to switch: the QPSK chain decodes it as Phase 1.
\<close>

theorem p25_mode_stale:
  assumes "p_state r = INACTIVE" and "\<not> p_phase2_tdma r" and "\<not> p_qpsk_tdma r"
    and "\<not> sy_qpsk_mod fsk" and "cl_phase2_tdma c"
    and "sy_qpsk_mod qpsk" and "sy_xor_mask qpsk \<noteq> None" and "cl_phase2_tdma c'"
  shows "let (ok, r1) = p25_start env cfg fsk c r; (ok', r2) = p25_start env' cfg qpsk c' r1
    in \<not> ok \<and> ok' \<and> p_phase2_tdma r2 \<and> \<not> p_qpsk_tdma r2"
proof -
  let ?r1 = "snd (p25_start env cfg fsk c r)"
  have 1: "\<not> fst (p25_start env cfg fsk c r)" using assms by (simp add: p25_start_accepts)
  have r1: "p_state ?r1 = INACTIVE" "p_phase2_tdma ?r1" "\<not> p_qpsk_tdma ?r1"
    using assms by (simp_all add: p25_start_def Let_def)
  have 2: "fst (p25_start env' cfg qpsk c' ?r1)"
    using assms r1 by (simp add: p25_start_accepts)
  show ?thesis using 1 2 r1 assms p25_start_accepted [OF 2] by (simp add: Let_def split_def)
qed

theorem p25_mode_stale_witness:
  "\<forall>env cfg c. let (ok, r1) = p25_start env cfg (example_system\<lparr>sy_qpsk_mod := False\<rparr>) (c\<lparr>cl_phase2_tdma := True\<rparr>) example_p25;
        (ok', r2) = p25_start env cfg (set_xor_mask 1 2 3 example_system) (c\<lparr>cl_phase2_tdma := True\<rparr>) r1
    in \<not> ok \<and> ok' \<and> \<not> p_qpsk_tdma r2"
proof (intro allI)
  fix env cfg and c :: Call
  have "p_state example_p25 = INACTIVE" "\<not> p_phase2_tdma example_p25" "\<not> p_qpsk_tdma example_p25"
    "\<not> sy_qpsk_mod (example_system\<lparr>sy_qpsk_mod := False\<rparr>)" "cl_phase2_tdma (c\<lparr>cl_phase2_tdma := True\<rparr>)"
    "sy_qpsk_mod (set_xor_mask 1 2 3 example_system)" "sy_xor_mask (set_xor_mask 1 2 3 example_system) \<noteq> None"
    by (simp_all add: example_p25_def set_xor_mask_def example_system_def)
  from p25_mode_stale [OF this this(5), of env cfg env] show "let (ok, r1) = p25_start env cfg (example_system\<lparr>sy_qpsk_mod := False\<rparr>) (c\<lparr>cl_phase2_tdma := True\<rparr>) example_p25;
        (ok', r2) = p25_start env cfg (set_xor_mask 1 2 3 example_system) (c\<lparr>cl_phase2_tdma := True\<rparr>) r1
    in \<not> ok \<and> ok' \<and> \<not> p_qpsk_tdma r2"
    by (auto simp: Let_def split: prod.splits)
qed

end
