(* ===== verification/Call_Concluder.thy ===== *)
theory Call_Concluder
  imports Transmission_Sink
begin

text \<open>
  What happens to a call after it has ended (\<open>trunk-recorder/call_concluder/call_concluder.cc\<close>):
  its transmissions are summed up, combined and compressed by external programs, handed to the
  plugins, and cleaned up; a call a plugin could not take is retried.

  The disk is the set of the names of existing files. \<open>ce_system\<close> is what the shell does with a
  command line: its exit code and the files there are afterwards. \<open>ce_localtime\<close> gives year,
  month and day of a time. \<open>ce_call_end\<close> holds the \<open>call_end\<close> functions of the running plugins.
\<close>

type_synonym files = "string set"

datatype Call_Data_Status = INITIAL | SUCCESS | RETRY | FAILED

record Call_Source =
  cs_source :: int
  cs_time :: int
  cs_position :: double
  cs_emergency :: bool
  cs_signal_system :: string
  cs_tag :: string

record Call_Error =
  ce_time :: int
  ce_position :: double
  ce_total_len :: double
  ce_error_count :: double
  ce_spike_count :: double

record Call_Data =
  cd_talkgroup :: int
  cd_patched_talkgroups :: "ulong list"
  cd_talkgroup_tag :: string
  cd_talkgroup_alpha_tag :: string
  cd_talkgroup_description :: string
  cd_talkgroup_group :: string
  cd_call_num :: int
  cd_freq :: double
  cd_start_time :: int
  cd_stop_time :: int
  cd_error_count :: int
  cd_spike_count :: int
  cd_encrypted :: bool
  cd_emergency :: bool
  cd_priority :: int
  cd_mode :: bool
  cd_duplex :: bool
  cd_audio_archive :: bool
  cd_transmission_archive :: bool
  cd_call_log :: bool
  cd_compress_wav :: bool
  cd_filename :: string
  cd_status_filename :: string
  cd_converted :: string
  cd_min_transmissions_removed :: int
  cd_sys_num :: int
  cd_short_name :: string
  cd_upload_script :: string
  cd_audio_type :: string
  cd_tdma_slot :: int
  cd_length :: double
  cd_phase2_tdma :: bool
  cd_source_list :: "Call_Source list"
  cd_error_list :: "Call_Error list"
  cd_transmission_list :: "Transmission list"
  cd_status :: Call_Data_Status
  cd_process_call_time :: int
  cd_retry_attempt :: int

record concluder_env =
  ce_now :: int
  ce_localtime :: "int \<Rightarrow> int \<times> int \<times> int"
  ce_matches :: "string \<Rightarrow> string \<Rightarrow> bool"
  ce_replace :: "string \<Rightarrow> string \<Rightarrow> string \<Rightarrow> string"
  ce_system :: "string \<Rightarrow> files \<Rightarrow> int \<times> files"
  ce_can_write :: "string \<Rightarrow> bool"
  ce_call_end :: "(Call_Data \<Rightarrow> int) list"

section \<open>External programs\<close>

definition combine_wav :: "concluder_env \<Rightarrow> string \<Rightarrow> string \<Rightarrow> files \<Rightarrow> int \<times> files" where
  "combine_wav env names target fs =
     (let cmd = ''sox '' @ names @ '' '' @ target @ '' ''
      in if length cmd \<ge> 4000 then (-1, fs)
         else let (rc, fs) = ce_system env cmd fs
              in (if rc > 0 then -1 else int (length cmd), fs))"

definition convert_media :: "concluder_env \<Rightarrow> string \<Rightarrow> string \<Rightarrow> files \<Rightarrow> int \<times> files" where
  "convert_media env filename converted fs =
     (let cmd = ''sox '' @ filename
            @ '' --norm=-.01 -t wav - | fdkaac --silent  -p 2 --moov-before-mdat --ignorelength -b 8000 -o ''
            @ converted @ '' -''
      in if length cmd \<ge> 400 then (-1, fs)
         else let (rc, fs) = ce_system env cmd fs
              in (if rc > 0 then -1 else int (length cmd), fs))"

text \<open>\<open>create_call_json\<close>: the file, or the result 1. Its text is left out.\<close>

definition create_call_json :: "concluder_env \<Rightarrow> Call_Data \<Rightarrow> files \<Rightarrow> int \<times> files" where
  "create_call_json env ci fs =
     (if ce_can_write env (cd_status_filename ci) then (0, insert (cd_status_filename ci) fs) else (1, fs))"

section \<open>Cleaning up\<close>

text \<open>
  \<open>remove\<close> of a file that is there, and nothing otherwise. \<open>copy_file\<close> throws when the target
  exists, and nobody catches it.
\<close>

definition remove_file :: "string \<Rightarrow> files \<Rightarrow> files" where
  "remove_file f fs = (if f \<in> fs then fs - {f} else fs)"

definition file_part :: "string \<Rightarrow> string" where
  "file_part p = rev (takeWhile (\<lambda>c. c \<noteq> CHR ''/'') (rev p))"

definition dir_part :: "string \<Rightarrow> string" where
  "dir_part p = rev (dropWhile (\<lambda>c. c \<noteq> CHR ''/'') (rev p))"

definition archive_path :: "Call_Data \<Rightarrow> Transmission \<Rightarrow> string" where
  "archive_path ci t = dir_part (cd_filename ci) @ file_part (tr_filename t)"

fun archive_transmissions :: "Call_Data \<Rightarrow> Transmission list \<Rightarrow> files \<Rightarrow> files option" where
  "archive_transmissions ci [] fs = Some fs"
| "archive_transmissions ci (t # ts) fs =
     (if tr_filename t \<in> fs
      then if archive_path ci t \<in> fs then None
           else archive_transmissions ci ts (insert (archive_path ci t) fs)
      else archive_transmissions ci ts fs)"

definition remove_transmissions :: "Transmission list \<Rightarrow> files \<Rightarrow> files" where
  "remove_transmissions ts fs = fold (\<lambda>t. remove_file (tr_filename t)) ts fs"

definition remove_call_files :: "Call_Data \<Rightarrow> files \<Rightarrow> files option" where
  "remove_call_files ci fs =
     (if \<not> cd_audio_archive ci
      then Some (remove_transmissions (cd_transmission_list ci)
                  (remove_file (cd_converted ci) (remove_file (cd_filename ci) fs)))
      else map_option (remove_transmissions (cd_transmission_list ci))
             (if cd_transmission_archive ci then archive_transmissions ci (cd_transmission_list ci) fs
              else Some fs))
     \<bind> (\<lambda>fs. Some (if \<not> cd_call_log ci then remove_file (cd_status_filename ci) fs else fs))"

section \<open>The worker\<close>

definition plugman_call_end :: "concluder_env \<Rightarrow> Call_Data \<Rightarrow> int" where
  "plugman_call_end env ci = foldl (\<lambda>sum call_end. sum + call_end ci) 0 (ce_call_end env)"

definition existing_names :: "Transmission list \<Rightarrow> files \<Rightarrow> string" where
  "existing_names ts fs = concat (map (\<lambda>t. if tr_filename t \<in> fs then tr_filename t @ '' '' else []) ts)"

definition notify_plugins :: "concluder_env \<Rightarrow> Call_Data \<Rightarrow> files \<Rightarrow> (Call_Data \<times> files) option" where
  "notify_plugins env ci fs =
     (if plugman_call_end env ci = 0
      then map_option (\<lambda>fs. (ci\<lparr>cd_status := SUCCESS\<rparr>, fs)) (remove_call_files ci fs)
      else Some (ci\<lparr>cd_status := RETRY\<rparr>, fs))"

definition run_script :: "concluder_env \<Rightarrow> Call_Data \<Rightarrow> files \<Rightarrow> files" where
  "run_script env ci fs =
     (if cd_upload_script ci \<noteq> []
      then snd (ce_system env (cd_upload_script ci @ '' '' @ cd_filename ci @ '' '' @ cd_status_filename ci
             @ '' '' @ cd_converted ci) fs)
      else fs)"

definition upload_call_worker :: "concluder_env \<Rightarrow> Call_Data \<Rightarrow> files \<Rightarrow> (Call_Data \<times> files) option" where
  "upload_call_worker env ci fs =
     (if cd_status ci = INITIAL then
        let (_, fs) = combine_wav env (existing_names (cd_transmission_list ci) fs) (cd_filename ci) fs;
            (result, fs) = create_call_json env ci fs
        in if result < 0 then Some (ci\<lparr>cd_status := FAILED\<rparr>, fs)
           else if cd_compress_wav ci then
             let (result, fs) = convert_media env (cd_filename ci) (cd_converted ci) fs
             in if result < 0 then Some (ci\<lparr>cd_status := FAILED\<rparr>, fs)
                else notify_plugins env ci (run_script env ci fs)
           else notify_plugins env ci (run_script env ci fs)
      else notify_plugins env ci fs)"

section \<open>Data of a call\<close>

text \<open>\<open>snprintf\<close> into 255 and 300 characters keeps at most 254 and 299.\<close>

definition create_base_filename :: "concluder_env \<Rightarrow> Config \<Rightarrow> System_impl \<Rightarrow> Call \<Rightarrow> Call_Data \<Rightarrow> Call_Data \<times> Call" where
  "create_base_filename env cfg sys c ci =
     (let (t, c) = get_start_time c;
          (y, m, d) = ce_localtime env t;
          path = cfg_capture_dir cfg @ ''/'' @ sy_short_name sys @ ''/'' @ decimal y @ ''/'' @ decimal m
                   @ ''/'' @ decimal d;
          name = path @ ''/'' @ decimal (cl_talkgroup c) @ ''-'' @ decimal t @ ''_''
                   @ decimal (round_half_even (cl_curr_freq c));
          base = take 254 (if cl_tdma_slot c = -1 then name else name @ ''.'' @ decimal (cl_tdma_slot c));
          call = base @ ''-call_'' @ digits (nat (cl_call_num c mod 2 ^ 64))
      in (ci\<lparr>cd_filename := take 299 (call @ ''.wav''), cd_status_filename := take 299 (call @ ''.json''),
             cd_converted := take 299 (call @ ''.m4a'')\<rparr>, c))"

text \<open>
  The loop over the transmissions. \<open>kept\<close> are those before the iterator; a transmission that is
  too short is erased, and its file removed unless transmissions are archived. The first one kept
  gives the start time; the stop time is taken when nothing follows in the list.
\<close>

fun scan_transmissions ::
  "double \<Rightarrow> (int \<Rightarrow> string) \<Rightarrow> Transmission list \<Rightarrow> Transmission list \<Rightarrow> double \<Rightarrow> Call_Data \<Rightarrow> files
     \<Rightarrow> Call_Data \<times> files" where
  "scan_transmissions min_tx tag kept [] sofar ci fs =
     (ci\<lparr>cd_transmission_list := kept, cd_length := sofar\<rparr>, fs)"
| "scan_transmissions min_tx tag kept (t # ts) sofar ci fs =
     (if tr_length t < min_tx
      then if \<not> cd_transmission_archive ci
           then scan_transmissions min_tx tag kept ts sofar
                  (ci\<lparr>cd_min_transmissions_removed := cd_min_transmissions_removed ci + 1\<rparr>)
                  (remove_file (tr_filename t) fs)
           else scan_transmissions min_tx tag kept ts sofar ci fs
      else
        let ci = (if kept = [] then ci\<lparr>cd_start_time := tr_start_time t\<rparr> else ci);
            ci = (if ts = [] then ci\<lparr>cd_stop_time := tr_stop_time t\<rparr> else ci);
            ci = ci\<lparr>cd_error_count := cd_error_count ci + tr_error_count t,
                    cd_spike_count := cd_spike_count ci + tr_spike_count t,
                    cd_source_list := cd_source_list ci @
                      [\<lparr>cs_source = tr_source t, cs_time = tr_start_time t, cs_position = sofar,
                        cs_emergency = False, cs_signal_system = [], cs_tag = tag (tr_source t)\<rparr>],
                    cd_error_list := cd_error_list ci @
                      [\<lparr>ce_time = tr_start_time t, ce_position = sofar, ce_total_len = tr_length t,
                        ce_error_count = fl (of_int (tr_error_count t)),
                        ce_spike_count = fl (of_int (tr_spike_count t))\<rparr>]\<rparr>
        in scan_transmissions min_tx tag (kept @ [t]) ts (fl (sofar + tr_length t)) ci fs)"

text \<open>
  The aggregate \<open>junk\<close> is the local variable; its start and stop time have no value until they are
  assigned, its lists are empty.
\<close>

definition create_call_data ::
  "concluder_env \<Rightarrow> Config \<Rightarrow> Call_Data \<Rightarrow> System_impl \<Rightarrow> Call \<Rightarrow> files \<Rightarrow> Call_Data \<times> Call \<times> files" where
  "create_call_data env cfg junk sys c fs =
     (let (ci, c) = create_base_filename env cfg sys c (junk\<lparr>cd_source_list := [], cd_error_list := []\<rparr>);
          ci = ci\<lparr>cd_status := INITIAL, cd_process_call_time := ce_now env, cd_retry_attempt := 0,
            cd_error_count := 0, cd_spike_count := 0, cd_freq := cl_curr_freq c,
            cd_encrypted := cl_encrypted c, cd_emergency := cl_emergency c, cd_priority := cl_priority c,
            cd_mode := cl_mode c, cd_duplex := cl_duplex c, cd_tdma_slot := cl_tdma_slot c,
            cd_phase2_tdma := cl_phase2_tdma c, cd_transmission_list := cl_transmission_list c,
            cd_sys_num := sy_sys_num sys, cd_short_name := sy_short_name sys,
            cd_upload_script := sy_upload_script sys, cd_audio_archive := sy_audio_archive sys,
            cd_transmission_archive := sy_transmission_archive sys, cd_call_log := sy_call_log sys,
            cd_call_num := cl_call_num c, cd_compress_wav := sy_compress_wav sys,
            cd_talkgroup := cl_talkgroup c,
            cd_patched_talkgroups := get_talkgroup_patch sys (word_of_int (cl_talkgroup c)),
            cd_min_transmissions_removed := 0\<rparr>;
          ci = (case find_talkgroup sys (cl_talkgroup c) of
                  Some tg \<Rightarrow> ci\<lparr>cd_talkgroup_tag := tg_tag tg, cd_talkgroup_alpha_tag := tg_alpha_tag tg,
                    cd_talkgroup_description := tg_description tg, cd_talkgroup_group := tg_group tg\<rparr>
                | None \<Rightarrow> ci\<lparr>cd_talkgroup_tag := [], cd_talkgroup_alpha_tag := [],
                    cd_talkgroup_description := [], cd_talkgroup_group := []\<rparr>);
          ci = ci\<lparr>cd_audio_type := (if cl_is_analog c then ''analog''
                    else if cl_phase2_tdma c then ''digital tdma'' else ''digital'')\<rparr>;
          tag = (\<lambda>src. find_unit_tag (ce_matches env) (ce_replace env) (sy_unit_tags sys) (decimal src));
          (ci, fs) = scan_transmissions (sy_min_tx_duration sys) tag [] (cd_transmission_list ci) 0 ci fs
      in (ci, c, fs))"

section \<open>The queue of concluded calls\<close>

text \<open>A future is running with its call, or ready with the result of the worker.\<close>

datatype worker = Running Call_Data | Ready Call_Data

record concluder =
  co_workers :: "worker list"
  co_retry :: "Call_Data list"
  co_files :: files

definition concluder_conclude_call ::
  "concluder_env \<Rightarrow> Config \<Rightarrow> Call_Data \<Rightarrow> System_impl \<Rightarrow> Call \<Rightarrow> concluder \<Rightarrow> (Call \<times> concluder) option" where
  "concluder_conclude_call env cfg junk sys c co =
     (let (ci, c, fs) = create_call_data env cfg junk sys c (co_files co); co = co\<lparr>co_files := fs\<rparr>
      in if cl_state c = MONITORING \<and> cl_monitoringState c = SUPERSEDED
         then map_option (\<lambda>fs. (c, co\<lparr>co_files := fs\<rparr>)) (remove_call_files ci fs)
         else if cd_transmission_list ci = [] then Some (c, co)
         else if cd_length ci \<le> sy_min_duration sys
         then map_option (\<lambda>fs. (c, co\<lparr>co_files := fs\<rparr>)) (remove_call_files ci fs)
         else Some (c, co\<lparr>co_workers := co_workers co @ [Running ci]\<rparr>))"

definition MAX_RETRY :: int where
  "MAX_RETRY = 2"

text \<open>The backoff: \<open>^\<close> is exclusive or, and binds weaker than the product. \<open>jitter\<close> is \<open>rand() % 10\<close>.\<close>

definition backoff :: "int \<Rightarrow> int \<Rightarrow> int" where
  "backoff attempt jitter = (2 XOR (attempt * 60)) + jitter"

fun collect_workers :: "int \<Rightarrow> (nat \<Rightarrow> int) \<Rightarrow> worker list \<Rightarrow> worker list \<times> Call_Data list" where
  "collect_workers now jitter [] = ([], [])"
| "collect_workers now jitter (Running ci # ws) =
     (let (ws', retry) = collect_workers now jitter ws in (Running ci # ws', retry))"
| "collect_workers now jitter (Ready ci # ws) =
     (let (ws', retry) = collect_workers now jitter ws
      in if cd_status ci = RETRY then
           let ci = ci\<lparr>cd_retry_attempt := cd_retry_attempt ci + 1\<rparr>
           in if cd_retry_attempt ci > MAX_RETRY then (ws', retry)
              else (ws', ci\<lparr>cd_process_call_time := now + backoff (cd_retry_attempt ci) (jitter (length ws))\<rparr> # retry)
         else (ws', retry))"

definition manage_call_data_workers :: "int \<Rightarrow> (nat \<Rightarrow> int) \<Rightarrow> concluder \<Rightarrow> concluder" where
  "manage_call_data_workers now jitter co =
     (let (ws, retry) = collect_workers now jitter (co_workers co);
          queue = co_retry co @ retry;
          due = filter (\<lambda>ci. cd_process_call_time ci \<le> now) queue
      in co\<lparr>co_workers := ws @ map Running due,
            co_retry := filter (\<lambda>ci. \<not> cd_process_call_time ci \<le> now) queue\<rparr>)"

text \<open>A worker thread runs to its end; an exception in it is rethrown where its result is read.\<close>

definition run_worker :: "concluder_env \<Rightarrow> nat \<Rightarrow> concluder \<Rightarrow> concluder option" where
  "run_worker env i co =
     (if i < length (co_workers co) then
        case co_workers co ! i of
          Ready ci \<Rightarrow> Some co
        | Running ci \<Rightarrow> map_option (\<lambda>(ci', fs). co\<lparr>co_workers := (co_workers co)[i := Ready ci'], co_files := fs\<rparr>)
            (upload_call_worker env ci (co_files co))
      else Some co)"

end
