(* ===== verification/Concluder_Properties.thy ===== *)
theory Concluder_Properties
  imports Call_Concluder System_Properties Sink_Properties
begin

text \<open>
  Properties of concluding a call: the names and the summary of its recording, what the worker
  leaves on the disk, and the retries.
\<close>

section \<open>File names of a call\<close>

lemma not_digit: "\<not> is_digit CHR ''_''" "\<not> is_digit CHR ''.''"
  by (simp_all add: is_digit_def)

definition call_path :: "string \<Rightarrow> nat \<Rightarrow> string \<Rightarrow> string" where
  "call_path base n ext = base @ ''-call_'' @ digits n @ ext"

lemma takeWhile_rev_last:
  assumes "x \<notin> set ys"
  shows "takeWhile (\<lambda>c. c \<noteq> x) (rev (xs @ x # ys)) = rev ys"
  using assms by (simp add: takeWhile_tail) (auto simp: takeWhile_eq_all_conv)

lemma call_path_inj:
  assumes "call_path b n e = call_path b' n' e'"
    and "e \<in> {''.wav'', ''.json'', ''.m4a''}" "e' \<in> {''.wav'', ''.json'', ''.m4a''}"
  shows "n = n' \<and> e = e'"
proof -
  have tail: "takeWhile (\<lambda>c. c \<noteq> CHR ''_'') (rev (call_path b n e)) = rev (digits n @ e)"
    if "e \<in> {''.wav'', ''.json'', ''.m4a''}" for b n e
  proof -
    have "CHR ''_'' \<notin> set (digits n @ e)" using that digits_digit [of "CHR ''_''"] not_digit by auto
    from takeWhile_rev_last [OF this, of "b @ ''-call''"] show ?thesis by (simp add: call_path_def)
  qed
  have "rev (digits n @ e) = rev (digits n' @ e')" using tail assms by metis
  then have eq: "digits n @ e = digits n' @ e'" by (simp only: rev_is_rev_conv)
  have head: "takeWhile (\<lambda>c. c \<noteq> CHR ''.'') (digits n @ e) = digits n"
    if "e \<in> {''.wav'', ''.json'', ''.m4a''}" for n e
    using that digits_digit [of _ n] not_digit by (subst takeWhile_append2) auto
  have "digits n = digits n'" using head assms(2,3) eq by metis
  with eq show ?thesis by (simp add: digits_inj)
qed

lemma call_paths:
  fixes env cfg sys c ci
  defines "d \<equiv> fst (create_base_filename env cfg sys c ci)"
  obtains b where "cd_filename d = call_path b (nat (cl_call_num c mod 2 ^ 64)) ''.wav''"
    "cd_status_filename d = call_path b (nat (cl_call_num c mod 2 ^ 64)) ''.json''"
    "cd_converted d = call_path b (nat (cl_call_num c mod 2 ^ 64)) ''.m4a''"
proof -
  obtain t c' where t: "get_start_time c = (t, c')" by fastforce
  have num: "cl_call_num c' = cl_call_num c" using t by (auto simp: get_start_time_def Let_def split: if_splits)
  obtain y m e where ymd: "ce_localtime env t = (y, m, e)" by (cases "ce_localtime env t")
  let ?n = "nat (cl_call_num c mod 2 ^ 64)"
  have "?n < 10 ^ Suc 19" by (simp add: nat_less_iff)
  from length_digits [OF this] have len: "length (digits ?n) \<le> 20" by simp
  have "cd_filename d = take 299 (call_path (take 254 b) ?n ''.wav'')
      \<and> cd_status_filename d = take 299 (call_path (take 254 b) ?n ''.json'')
      \<and> cd_converted d = take 299 (call_path (take 254 b) ?n ''.m4a'')"
    if "b = (let name = cfg_capture_dir cfg @ ''/'' @ sy_short_name sys @ ''/'' @ decimal y @ ''/'' @ decimal m
                   @ ''/'' @ decimal e @ ''/'' @ decimal (cl_talkgroup c') @ ''-'' @ decimal t @ ''_''
                   @ decimal (round_half_even (cl_curr_freq c'))
        in if cl_tdma_slot c' = -1 then name else name @ ''.'' @ decimal (cl_tdma_slot c'))" for b
    using that by (simp add: d_def create_base_filename_def t ymd num call_path_def Let_def del: take_append)
  then show ?thesis using that len by (simp add: call_path_def)
qed

text \<open>
  C9. Two calls never write to the same file. The names of the combined recording, the status file
  and the compressed recording of calls with different numbers are all different, whatever their
  talkgroups, frequencies, slots and start times are, and however long the directory is; the
  truncation to 254 characters happens before the number is appended, and the rest always fits.
\<close>

theorem call_files_distinct:
  assumes "0 \<le> cl_call_num c" "cl_call_num c < 2 ^ 64" "0 \<le> cl_call_num c'" "cl_call_num c' < 2 ^ 64"
    and "cl_call_num c \<noteq> cl_call_num c'"
    and "d = fst (create_base_filename env cfg sys c ci)"
    and "d' = fst (create_base_filename env' cfg' sys' c' ci')"
  shows "{cd_filename d, cd_status_filename d, cd_converted d}
           \<inter> {cd_filename d', cd_status_filename d', cd_converted d'} = {}
    \<and> distinct [cd_filename d, cd_status_filename d, cd_converted d]"
proof -
  obtain b where b: "cd_filename d = call_path b (nat (cl_call_num c)) ''.wav''"
    "cd_status_filename d = call_path b (nat (cl_call_num c)) ''.json''"
    "cd_converted d = call_path b (nat (cl_call_num c)) ''.m4a''"
    using call_paths [of env cfg sys c ci] assms(1,2,6) by (metis mod_pos_pos_trivial)
  obtain b' where b': "cd_filename d' = call_path b' (nat (cl_call_num c')) ''.wav''"
    "cd_status_filename d' = call_path b' (nat (cl_call_num c')) ''.json''"
    "cd_converted d' = call_path b' (nat (cl_call_num c')) ''.m4a''"
    using call_paths [of env' cfg' sys' c' ci'] assms(3,4,7) by (metis mod_pos_pos_trivial)
  have n: "nat (cl_call_num c) \<noteq> nat (cl_call_num c')" using assms(1,3,5) by simp
  let ?E = "{''.wav'', ''.json'', ''.m4a''}"
  have ne: "call_path x (nat (cl_call_num c)) e \<noteq> call_path y (nat (cl_call_num c')) e'"
    if "e \<in> ?E" "e' \<in> ?E" for x y e e'
    using call_path_inj that n by blast
  have own: "call_path x k e \<noteq> call_path x k e'" if "e \<in> ?E" "e' \<in> ?E" "e \<noteq> e'" for x k e e'
    using call_path_inj that by blast
  show ?thesis unfolding b b' using ne own by simp
qed

theorem call_files_distinct_witness:
  "\<forall>env cfg c ci. cd_filename (fst (create_base_filename env cfg example_system (c\<lparr>cl_call_num := 1\<rparr>) ci))
     \<noteq> cd_filename (fst (create_base_filename env cfg example_system (c\<lparr>cl_call_num := 2\<rparr>) ci))"
proof (intro allI)
  fix env cfg ci and c :: Call
  let ?c = "c\<lparr>cl_call_num := 1\<rparr>" and ?c' = "c\<lparr>cl_call_num := 2\<rparr>"
  have "0 \<le> cl_call_num ?c" "cl_call_num ?c < 2 ^ 64" "0 \<le> cl_call_num ?c'" "cl_call_num ?c' < 2 ^ 64"
    "cl_call_num ?c \<noteq> cl_call_num ?c'" by simp_all
  from call_files_distinct [OF this refl refl]
  show "cd_filename (fst (create_base_filename env cfg example_system ?c ci))
     \<noteq> cd_filename (fst (create_base_filename env cfg example_system ?c' ci))" by blast
qed

section \<open>The disk after the worker\<close>

lemma remove_file_eq [simp]: "remove_file f fs = fs - {f}"
  by (auto simp: remove_file_def)

lemma remove_transmissions_eq: "remove_transmissions ts fs = fs - tr_filename ` set ts"
  unfolding remove_transmissions_def by (induction ts arbitrary: fs) auto

lemma archive_transmissions_eq:
  assumes "distinct (map (archive_path ci) ts)" and "archive_path ci ` set ts \<inter> (fs \<union> tr_filename ` set ts) = {}"
  shows "archive_transmissions ci ts fs = Some (fs \<union> archive_path ci ` {t \<in> set ts. tr_filename t \<in> fs})"
  using assms
proof (induction ts arbitrary: fs)
  case (Cons t ts)
  show ?case
  proof (cases "tr_filename t \<in> fs")
    case False
    moreover from Cons.prems have "archive_path ci ` set ts \<inter> (fs \<union> tr_filename ` set ts) = {}" by auto
    ultimately show ?thesis using Cons.IH [of fs] Cons.prems(1) by (auto intro!: arg_cong [of _ _ "image _"])
  next
    case True
    let ?fs = "insert (archive_path ci t) fs"
    from Cons.prems have "archive_path ci ` set ts \<inter> (?fs \<union> tr_filename ` set ts) = {}" by auto
    with Cons.IH [of ?fs] Cons.prems(1)
    have "archive_transmissions ci ts ?fs = Some (?fs \<union> archive_path ci ` {t \<in> set ts. tr_filename t \<in> ?fs})" by simp
    moreover have "{t' \<in> set ts. tr_filename t' \<in> ?fs} = {t' \<in> set ts. tr_filename t' \<in> fs}"
      using Cons.prems(2) by (auto simp: image_iff)
    moreover have "archive_path ci t \<notin> fs" using Cons.prems(2) by auto
    moreover have "{t' \<in> set (t # ts). tr_filename t' \<in> fs} = insert t {t' \<in> set ts. tr_filename t' \<in> fs}"
      using True by auto
    ultimately show ?thesis using True by simp
  qed
qed simp

text \<open>What the worker needs from the shell for one call: \<open>sox\<close> and the conversion write their targets.\<close>

definition sox_command :: "Call_Data \<Rightarrow> files \<Rightarrow> string" where
  "sox_command ci fs = ''sox '' @ existing_names (cd_transmission_list ci) fs @ '' '' @ cd_filename ci @ '' ''"

definition tools_work :: "concluder_env \<Rightarrow> Call_Data \<Rightarrow> files \<Rightarrow> bool" where
  "tools_work env ci fs \<longleftrightarrow>
     length (sox_command ci fs) < 4000
     \<and> ce_system env (sox_command ci fs) fs = (0, insert (cd_filename ci) fs)
     \<and> ce_can_write env (cd_status_filename ci)
     \<and> (cd_compress_wav ci \<longrightarrow>
          fst (convert_media env (cd_filename ci) (cd_converted ci)
            (insert (cd_status_filename ci) (insert (cd_filename ci) fs))) \<ge> 0
          \<and> snd (convert_media env (cd_filename ci) (cd_converted ci)
            (insert (cd_status_filename ci) (insert (cd_filename ci) fs)))
             = insert (cd_converted ci) (insert (cd_status_filename ci) (insert (cd_filename ci) fs)))"

definition call_products :: "Call_Data \<Rightarrow> files" where
  "call_products ci = {cd_filename ci, cd_status_filename ci} \<union> (if cd_compress_wav ci then {cd_converted ci} else {})"

lemma worker_products:
  assumes "tools_work env ci fs" "cd_status ci = INITIAL" "cd_upload_script ci = []"
  shows "upload_call_worker env ci fs = notify_plugins env ci (fs \<union> call_products ci)"
proof -
  have "combine_wav env (existing_names (cd_transmission_list ci) fs) (cd_filename ci) fs
      = (int (length (sox_command ci fs)), insert (cd_filename ci) fs)"
    using assms(1) by (simp add: tools_work_def combine_wav_def sox_command_def Let_def)
  moreover have "create_call_json env ci (insert (cd_filename ci) fs)
      = (0, insert (cd_status_filename ci) (insert (cd_filename ci) fs))"
    using assms(1) by (simp add: tools_work_def create_call_json_def)
  ultimately show ?thesis
    using assms unfolding upload_call_worker_def tools_work_def
    by (auto simp: run_script_def call_products_def Let_def split_def insert_commute)
qed

lemma disk_sets:
  assumes "P = {fn, st} \<union> (if cw then {cv} else {})" "A \<inter> (T \<union> P) = {}" "P \<inter> (F \<union> T) = {}"
    "fn \<noteq> st" "fn \<noteq> cv" "st \<noteq> cv"
  shows "(if aa then ((F \<union> P) \<union> (if ta then A else {})) - T else (F \<union> P) - {fn} - {cv} - T)
      - (if cl then {} else {st})
    = (F - T - (if aa then {} else {cv})) \<union> (if cl then {st} else {})
       \<union> (if aa then {fn} \<union> (if cw then {cv} else {}) else {}) \<union> (if aa \<and> ta then A else {})"
proof -
  have P: "x \<in> P \<longleftrightarrow> x = fn \<or> x = st \<or> cw \<and> x = cv" for x by (simp add: assms(1))
  have "fn \<in> P" "st \<in> P" by (simp_all add: P)
  with assms(2,3) have n: "fn \<notin> A" "fn \<notin> F" "fn \<notin> T" "st \<notin> A" "st \<notin> F" "st \<notin> T" by blast+
  have c: "cw \<Longrightarrow> cv \<notin> A \<and> cv \<notin> F \<and> cv \<notin> T" using assms(2,3) P by blast
  have d: "x \<in> A \<Longrightarrow> x \<notin> T" for x using assms(2) by blast
  show ?thesis
    using n c d assms(4-6) by (intro set_eqI) (cases aa; cases ta; cases cl; cases cw; simp add: P; metis)
qed


definition example_transmission :: "string \<Rightarrow> Transmission" where
  "example_transmission f =
     \<lparr>tr_source = 7, tr_start_time = 100, tr_stop_time = 105, tr_sample_count = 40000, tr_spike_count = 0,
      tr_error_count = 0, tr_length = 5, tr_filename = f\<rparr>"

definition example_call_data :: Call_Data where
  "example_call_data =
     \<lparr>cd_talkgroup = 100, cd_patched_talkgroups = [], cd_talkgroup_tag = [], cd_talkgroup_alpha_tag = [],
      cd_talkgroup_description = [], cd_talkgroup_group = [], cd_call_num = 0, cd_freq = 851000000,
      cd_start_time = 100, cd_stop_time = 105, cd_error_count = 0, cd_spike_count = 0,
      cd_encrypted = False, cd_emergency = False, cd_priority = 0, cd_mode = False, cd_duplex = False,
      cd_audio_archive = True, cd_transmission_archive = True, cd_call_log = True,
      cd_compress_wav = False, cd_filename = ''/cap/c.wav'', cd_status_filename = ''/cap/c.json'',
      cd_converted = ''/cap/c.m4a'', cd_min_transmissions_removed = 0, cd_sys_num = 0,
      cd_short_name = ''demo'', cd_upload_script = [], cd_audio_type = ''digital'', cd_tdma_slot = 0,
      cd_length = 5, cd_phase2_tdma = False, cd_source_list = [], cd_error_list = [],
      cd_transmission_list = [example_transmission ''/tmp/t.wav''], cd_status = INITIAL,
      cd_process_call_time = 0, cd_retry_attempt = 0\<rparr>"

definition example_concluder_env :: concluder_env where
  "example_concluder_env =
     \<lparr>ce_now = 110, ce_localtime = (\<lambda>t. (2024, 1, 1)), ce_matches = (\<lambda>x y. x = y),
      ce_replace = (\<lambda>x y z. z), ce_system = (\<lambda>cmd fs. (0, insert ''/cap/c.wav'' fs)),
      ce_can_write = (\<lambda>f. True), ce_call_end = []\<rparr>"

lemma example_call_files:
  "cd_transmission_list example_call_data = [example_transmission ''/tmp/t.wav'']"
  "tr_filename (example_transmission f) = f"
  "archive_path example_call_data (example_transmission ''/tmp/t.wav'') = ''/cap/t.wav''"
  "call_products example_call_data = {''/cap/c.wav'', ''/cap/c.json''}"
  "cd_filename example_call_data = ''/cap/c.wav''" "cd_status_filename example_call_data = ''/cap/c.json''"
  "cd_converted example_call_data = ''/cap/c.m4a''"
  "cd_audio_archive example_call_data" "cd_transmission_archive example_call_data" "cd_call_log example_call_data"
  by (simp_all add: example_call_data_def archive_path_def dir_part_def file_part_def
      example_transmission_def call_products_def)


text \<open>
  A call with too many transmissions is lost. When the command line for \<open>sox\<close> would reach 4000
  characters the transmissions are not combined, but the worker goes on: with an audio archive, no
  compression, no transmission archive and plugins that accept the call it reports success with no
  recording at its path and deletes every transmission file.
\<close>

theorem long_call_lost:
  assumes "length (sox_command ci fs) \<ge> 4000"
    and "cd_status ci = INITIAL" "\<not> cd_compress_wav ci" "cd_upload_script ci = []"
    and "cd_audio_archive ci" "\<not> cd_transmission_archive ci" "plugman_call_end env ci = 0"
    and "cd_filename ci \<notin> fs" "cd_status_filename ci \<noteq> cd_filename ci"
  shows "\<exists>ci' fs'. upload_call_worker env ci fs = Some (ci', fs') \<and> cd_status ci' = SUCCESS
    \<and> cd_filename ci \<notin> fs' \<and> tr_filename ` set (cd_transmission_list ci) \<inter> fs' = {}"
proof -
  have "combine_wav env (existing_names (cd_transmission_list ci) fs) (cd_filename ci) fs = (-1, fs)"
    using assms(1) by (simp add: combine_wav_def sox_command_def Let_def)
  then show ?thesis
    using assms
    by (auto simp: upload_call_worker_def create_call_json_def run_script_def notify_plugins_def
        remove_call_files_def remove_transmissions_eq split: if_splits)
qed

theorem long_call_lost_witness:
  "let f = replicate 90 CHR ''t''; ci = example_call_data\<lparr>cd_transmission_archive := False,
        cd_transmission_list := replicate 50 (example_transmission f)\<rparr>
   in \<exists>ci' fs'. upload_call_worker example_concluder_env ci {f} = Some (ci', fs') \<and> cd_status ci' = SUCCESS
        \<and> f \<notin> fs' \<and> cd_filename ci \<notin> fs'"
proof -
  define f where "f = replicate 90 CHR ''t''"
  let ?ci = "example_call_data\<lparr>cd_transmission_archive := False,
        cd_transmission_list := replicate 50 (example_transmission f)\<rparr>"
  have f: "length f = 90" "''/cap/c.wav'' \<noteq> f" by (auto simp: f_def numeral_eq_Suc)
  have len: "length (sox_command ?ci {f}) \<ge> 4000"
    by (simp add: sox_command_def existing_names_def length_concat sum_list_replicate f example_transmission_def
        map_replicate)
  have "cd_status ?ci = INITIAL" "\<not> cd_compress_wav ?ci" "cd_upload_script ?ci = []"
    "cd_audio_archive ?ci" "\<not> cd_transmission_archive ?ci" "plugman_call_end example_concluder_env ?ci = 0"
    "cd_filename ?ci \<notin> {f}" "cd_status_filename ?ci \<noteq> cd_filename ?ci"
    using f(2) by (simp_all add: example_call_data_def plugman_call_end_def example_concluder_env_def)
  from long_call_lost [OF len this]
  show ?thesis unfolding f_def [symmetric] Let_def by (auto simp: example_transmission_def)
qed

section \<open>Retries\<close>

text \<open>
  What happens in the queue after a call was put there: a worker thread runs to its end, or the
  main loop manages the queue. \<open>run_queue\<close> counts how often a worker ran.
\<close>

datatype queue_event = Finish concluder_env nat | Manage int "nat \<Rightarrow> int"

definition is_running :: "nat \<Rightarrow> concluder \<Rightarrow> bool" where
  "is_running i co \<longleftrightarrow> (case drop i (co_workers co) of Running ci # _ \<Rightarrow> True | _ \<Rightarrow> False)"

fun run_queue :: "queue_event list \<Rightarrow> concluder \<Rightarrow> (nat \<times> concluder) option" where
  "run_queue [] co = Some (0, co)"
| "run_queue (Finish env i # es) co =
     run_worker env i co \<bind> (\<lambda>co'. run_queue es co' \<bind> (\<lambda>(n, co''). Some (of_bool (is_running i co) + n, co'')))"
| "run_queue (Manage now jitter # es) co = run_queue es (manage_call_data_workers now jitter co)"

text \<open>How often the calls in the queue can still be tried.\<close>

fun tries_left :: "worker \<Rightarrow> int" where
  "tries_left (Running ci) = 3 - cd_retry_attempt ci"
| "tries_left (Ready ci) = (if cd_status ci = RETRY then 2 - cd_retry_attempt ci else 0)"

fun worker_ok :: "worker \<Rightarrow> bool" where
  "worker_ok (Running ci) \<longleftrightarrow> cd_retry_attempt ci \<le> 2"
| "worker_ok (Ready ci) \<longleftrightarrow> cd_retry_attempt ci \<le> 2"

definition queue_ok :: "concluder \<Rightarrow> bool" where
  "queue_ok co \<longleftrightarrow> (\<forall>w \<in> set (co_workers co). worker_ok w) \<and> (\<forall>ci \<in> set (co_retry co). worker_ok (Running ci))"

definition queue_tries :: "concluder \<Rightarrow> int" where
  "queue_tries co = sum_list (map tries_left (co_workers co)) + sum_list (map (tries_left \<circ> Running) (co_retry co))"

lemma upload_keeps_attempt:
  "upload_call_worker env ci fs = Some (ci', fs') \<Longrightarrow> cd_retry_attempt ci' = cd_retry_attempt ci"
  by (auto simp: upload_call_worker_def notify_plugins_def split_def Let_def split: if_splits)

lemma tries_left_nonneg: "worker_ok w \<Longrightarrow> 0 \<le> tries_left w"
  by (cases w) auto

lemma queue_tries_nonneg: "queue_ok co \<Longrightarrow> 0 \<le> queue_tries co"
  unfolding queue_tries_def queue_ok_def
  by (intro add_nonneg_nonneg sum_list_nonneg) (auto simp del: tries_left.simps intro!: tries_left_nonneg)

lemma sum_list_replace:
  "i < length xs \<Longrightarrow> sum_list (map f (xs[i := x])) = sum_list (map f xs) - f (xs ! i) + (f x :: int)"
  by (induction xs arbitrary: i) (auto split: nat.split)

lemma run_worker_queue:
  assumes "run_worker env i co = Some co'" and "queue_ok co"
  shows "queue_ok co' \<and> queue_tries co' + of_bool (is_running i co) \<le> queue_tries co"
proof (cases "i < length (co_workers co)")
  case False
  then show ?thesis using assms by (simp add: run_worker_def is_running_def)
next
  case True
  then have run: "is_running i co \<longleftrightarrow> (\<exists>ci. co_workers co ! i = Running ci)"
    by (simp add: is_running_def Cons_nth_drop_Suc [symmetric] split: worker.split)
  show ?thesis
  proof (cases "co_workers co ! i")
    case (Ready ci)
    then show ?thesis using assms True run by (simp add: run_worker_def)
  next
    case (Running ci)
    then obtain ci' fs where up: "upload_call_worker env ci (co_files co) = Some (ci', fs)"
      and co': "co' = co\<lparr>co_workers := (co_workers co)[i := Ready ci'], co_files := fs\<rparr>"
      using assms(1) True by (auto simp: run_worker_def)
    have ok: "worker_ok (Running ci)" using assms(2) True Running by (metis queue_ok_def nth_mem)
    have "queue_ok co'"
      using assms(2) ok upload_keeps_attempt [OF up]
      by (auto simp: co' queue_ok_def dest!: set_update_subset_insert [THEN subsetD])
    then show ?thesis
      using run Running True ok upload_keeps_attempt [OF up]
      by (auto simp: co' queue_tries_def sum_list_replace)
  qed
qed

lemma collect_workers_tries:
  "collect_workers now jitter ws = (ws', retry) \<Longrightarrow> \<forall>w \<in> set ws. worker_ok w \<Longrightarrow>
     (\<forall>w \<in> set ws'. worker_ok w) \<and> (\<forall>ci \<in> set retry. worker_ok (Running ci))
     \<and> sum_list (map tries_left ws') + sum_list (map (tries_left \<circ> Running) retry) \<le> sum_list (map tries_left ws)"
proof (induction now jitter ws arbitrary: ws' retry rule: collect_workers.induct)
  case (2 now jitter ci ws)
  obtain a b where ab: "collect_workers now jitter ws = (a, b)" by (cases "collect_workers now jitter ws")
  from 2(3) have "\<forall>w \<in> set ws. worker_ok w" "cd_retry_attempt ci \<le> 2" by simp_all
  with 2(1) [OF ab] 2(2) show ?case by (auto simp: ab)
next
  case (3 now jitter ci ws)
  obtain a b where ab: "collect_workers now jitter ws = (a, b)" by (cases "collect_workers now jitter ws")
  from 3(3) have "\<forall>w \<in> set ws. worker_ok w" by simp
  note IH = 3(1) [OF ab this]
  have ok: "cd_retry_attempt ci \<le> 2" using 3(3) by simp
  show ?case
    using 3(2) IH ok by (auto simp: ab Let_def MAX_RETRY_def split: if_splits)
qed simp

lemma sum_list_partition:
  "sum_list (map f (filter P xs)) + sum_list (map f (filter (\<lambda>x. \<not> P x) xs)) = (sum_list (map f xs) :: int)"
  by (induction xs) auto

lemma manage_queue:
  assumes "queue_ok co"
  shows "queue_ok (manage_call_data_workers now jitter co)
    \<and> queue_tries (manage_call_data_workers now jitter co) \<le> queue_tries co"
proof -
  obtain ws retry where c: "collect_workers now jitter (co_workers co) = (ws, retry)" by fastforce
  have t: "(\<forall>w \<in> set ws. worker_ok w) \<and> (\<forall>ci \<in> set retry. worker_ok (Running ci))
     \<and> sum_list (map tries_left ws) + sum_list (map (tries_left \<circ> Running) retry)
         \<le> sum_list (map tries_left (co_workers co))"
    using collect_workers_tries [OF c] assms by (simp add: queue_ok_def)
  then show ?thesis
    using assms sum_list_partition [of "tries_left \<circ> Running" "\<lambda>ci. cd_process_call_time ci \<le> now" "co_retry co @ retry"]
    by (auto simp: manage_call_data_workers_def c queue_ok_def queue_tries_def Let_def simp del: filter_append)
qed

lemma run_queue_bound:
  "run_queue es co = Some (n, co') \<Longrightarrow> queue_ok co \<Longrightarrow> queue_ok co' \<and> int n + queue_tries co' \<le> queue_tries co"
proof (induction es co arbitrary: n rule: run_queue.induct)
  case (2 env i es co)
  then obtain co1 n1 where r: "run_worker env i co = Some co1" "run_queue es co1 = Some (n1, co')"
    and n: "n = of_bool (is_running i co) + n1"
    by (auto simp: bind_eq_Some_conv)
  from run_worker_queue [OF r(1) 2(3)] 2(1) [OF r] n show ?case by auto
next
  case (3 now jitter es co)
  then show ?case using manage_queue [OF 3(3), of now jitter] by force
qed simp


definition busy_plugin :: concluder_env where
  "busy_plugin = example_concluder_env\<lparr>ce_call_end := [\<lambda>ci. 1]\<rparr>"

definition failing_events :: "queue_event list" where
  "failing_events = [Finish busy_plugin 0, Manage 200 (\<lambda>_. 0), Manage 262 (\<lambda>_. 0), Finish busy_plugin 0]"

lemma rejected: "cd_status ci = RETRY \<Longrightarrow> upload_call_worker busy_plugin ci fs = Some (ci, fs)"
  by (simp add: upload_call_worker_def notify_plugins_def plugman_call_end_def busy_plugin_def)

lemma first_rejected:
  "upload_call_worker busy_plugin example_call_data {}
     = Some (example_call_data\<lparr>cd_status := RETRY\<rparr>, {''/cap/c.wav'', ''/cap/c.json''})"
  by (simp add: upload_call_worker_def notify_plugins_def plugman_call_end_def busy_plugin_def combine_wav_def
      example_call_data_def create_call_json_def example_concluder_env_def Let_def run_script_def existing_names_def
      insert_commute)

lemma failing_run:
  "\<exists>ci. run_queue failing_events \<lparr>co_workers = [Running example_call_data], co_retry = [], co_files = {}\<rparr>
     = Some (2, \<lparr>co_workers = [Ready ci], co_retry = [], co_files = {''/cap/c.wav'', ''/cap/c.json''}\<rparr>)
     \<and> cd_status ci = RETRY \<and> cd_retry_attempt ci = 1"
proof -
  define ci where "ci = example_call_data\<lparr>cd_status := RETRY\<rparr>"
  have ci: "cd_status ci = RETRY" "cd_retry_attempt ci = 0" by (simp_all add: ci_def example_call_data_def)
  have b: "backoff 1 0 = 62" by (simp add: backoff_def)
  show ?thesis
    by (simp add: failing_events_def run_worker_def first_rejected is_running_def manage_call_data_workers_def
        ci ci_def [symmetric] MAX_RETRY_def b rejected)
qed


text \<open>
  C35. A call that a plugin rejects is retried about one minute, then about two minutes later: after
  its first and second rejection the next management of the queue schedules it \<open>60 * attempt + 2\<close>
  seconds plus the jitter ahead; until then further managements leave it in the queue, and the
  first one after that starts a worker for it. The delay grows linearly, since the operator in the
  code is an exclusive or.
\<close>

theorem retry_delay:
  assumes "co_workers co = [Ready ci]" "co_retry co = []" "cd_status ci = RETRY"
    and "cd_retry_attempt ci \<in> {0, 1}" "0 \<le> jitter 0"
    and "retried = ci\<lparr>cd_retry_attempt := cd_retry_attempt ci + 1,
           cd_process_call_time := now + 60 * (cd_retry_attempt ci + 1) + 2 + jitter 0\<rparr>"
  shows "co_workers (manage_call_data_workers now jitter co) = []
    \<and> co_retry (manage_call_data_workers now jitter co) = [retried]
    \<and> (later < cd_process_call_time retried \<longrightarrow>
         manage_call_data_workers later jitter' (manage_call_data_workers now jitter co)
           = manage_call_data_workers now jitter co)
    \<and> (cd_process_call_time retried \<le> later \<longrightarrow>
         co_workers (manage_call_data_workers later jitter' (manage_call_data_workers now jitter co)) = [Running retried])"
proof -
  have b: "backoff (cd_retry_attempt ci + 1) (jitter 0) = 60 * (cd_retry_attempt ci + 1) + 2 + jitter 0"
    using assms(4) by (auto simp: backoff_def)
  have r: "retried = ci\<lparr>cd_retry_attempt := cd_retry_attempt ci + 1,
      cd_process_call_time := now + backoff (cd_retry_attempt ci + 1) (jitter 0)\<rparr>"
    unfolding b assms(6) by simp
  have a: "cd_retry_attempt ci + 1 \<le> 2" using assms(4) by auto
  have t: "now < now + backoff (cd_retry_attempt ci + 1) (jitter 0)" using b assms(4,5) by auto
  have 1: "manage_call_data_workers now jitter co = co\<lparr>co_workers := [], co_retry := [retried]\<rparr>"
    using assms(1-3) a t by (simp add: manage_call_data_workers_def r MAX_RETRY_def Let_def)
  show ?thesis unfolding 1 by (simp add: manage_call_data_workers_def)
qed

theorem retry_delay_witness:
  "cd_process_call_time (hd (co_retry (manage_call_data_workers 200 (\<lambda>_. 0)
     \<lparr>co_workers = [Ready (example_call_data\<lparr>cd_status := RETRY\<rparr>)], co_retry = [], co_files = {}\<rparr>))) = 262"
proof -
  let ?ci = "example_call_data\<lparr>cd_status := RETRY\<rparr>"
  let ?co = "\<lparr>co_workers = [Ready ?ci], co_retry = [], co_files = {}\<rparr>"
  have "cd_retry_attempt ?ci \<in> {0, 1}" by (simp add: example_call_data_def)
  from retry_delay [of ?co ?ci "\<lambda>_. 0", OF _ _ _ this _ refl, of 200]
  have "co_retry (manage_call_data_workers 200 (\<lambda>_. 0) ?co)
      = [?ci\<lparr>cd_retry_attempt := cd_retry_attempt ?ci + 1,
           cd_process_call_time := 200 + 60 * (cd_retry_attempt ?ci + 1) + 2 + 0\<rparr>]" by simp
  then show ?thesis by (simp add: example_call_data_def)
qed

section \<open>The summary of a call\<close>

definition total_length :: "double \<Rightarrow> Transmission list \<Rightarrow> double" where
  "total_length start ts = foldl (\<lambda>len t. fl (len + tr_length t)) start ts"

lemma total_length_simps [simp]:
  "total_length s [] = s" "total_length s (t # ts) = total_length (fl (s + tr_length t)) ts"
  by (simp_all add: total_length_def)

definition long_enough :: "double \<Rightarrow> Transmission \<Rightarrow> bool" where
  "long_enough min_tx t \<longleftrightarrow> min_tx \<le> tr_length t"

lemma scan_files:
  "snd (scan_transmissions min_tx tg kept ts sofar ci fs) =
     (if cd_transmission_archive ci then fs else fs - tr_filename ` {t \<in> set ts. \<not> long_enough min_tx t})"
proof (induction ts arbitrary: kept sofar ci fs)
  case (Cons t ts)
  show ?case
  proof (cases "tr_length t < min_tx")
    case True
    have "{u. (u = t \<or> u \<in> set ts) \<and> \<not> long_enough min_tx u} = insert t {u \<in> set ts. \<not> long_enough min_tx u}"
      using True by (auto simp: long_enough_def)
    then show ?thesis using True by (simp add: Cons) blast
  next
    case False
    then have "{u. (u = t \<or> u \<in> set ts) \<and> \<not> long_enough min_tx u} = {u \<in> set ts. \<not> long_enough min_tx u}"
      by (auto simp: long_enough_def)
    with False show ?thesis by (simp add: Cons Let_def)
  qed
qed simp

lemma scan_data:
  fixes min_tx ts sofar ci
  defines "ls \<equiv> filter (long_enough min_tx) ts"
  assumes "scan_transmissions min_tx tg kept ts sofar ci fs = (ci', fs')"
  shows "cd_transmission_list ci' = kept @ ls \<and> cd_length ci' = total_length sofar ls
    \<and> map cs_source (cd_source_list ci') = map cs_source (cd_source_list ci) @ map tr_source ls
    \<and> map cs_time (cd_source_list ci') = map cs_time (cd_source_list ci) @ map tr_start_time ls
    \<and> map cs_position (cd_source_list ci') = map cs_position (cd_source_list ci)
          @ map (\<lambda>i. total_length sofar (take i ls)) [0..<length ls]
    \<and> cd_error_count ci' = cd_error_count ci + sum_list (map tr_error_count ls)
    \<and> cd_spike_count ci' = cd_spike_count ci + sum_list (map tr_spike_count ls)
    \<and> cd_start_time ci' = (if kept = [] \<and> ls \<noteq> [] then tr_start_time (hd ls) else cd_start_time ci)
    \<and> cd_stop_time ci' = (if ts \<noteq> [] \<and> long_enough min_tx (last ts) then tr_stop_time (last ts) else cd_stop_time ci)
    \<and> cd_call_num ci' = cd_call_num ci \<and> cd_retry_attempt ci' = cd_retry_attempt ci \<and> cd_status ci' = cd_status ci"
  using assms(2) unfolding ls_def
proof (induction ts arbitrary: kept sofar ci fs)
  case Nil
  then show ?case by auto
next
  case (Cons t ts)
  show ?case
  proof (cases "tr_length t < min_tx")
    case True
    then have "\<not> long_enough min_tx t" by (simp add: long_enough_def)
    moreover from True Cons.prems obtain ci1 fs1 where ci1:
      "scan_transmissions min_tx tg kept ts sofar ci1 fs1 = (ci', fs')"
      "cd_source_list ci1 = cd_source_list ci" "cd_error_count ci1 = cd_error_count ci"
      "cd_spike_count ci1 = cd_spike_count ci" "cd_start_time ci1 = cd_start_time ci"
      "cd_stop_time ci1 = cd_stop_time ci" "cd_call_num ci1 = cd_call_num ci"
      "cd_retry_attempt ci1 = cd_retry_attempt ci" "cd_status ci1 = cd_status ci"
      by (cases "cd_transmission_archive ci") simp_all
    ultimately show ?thesis using Cons.IH [OF ci1(1)] by (simp add: ci1(2-))
  next
    case False
    then have l: "long_enough min_tx t" by (simp add: long_enough_def)
    have up: "map (\<lambda>i. total_length sofar (take i (t # xs))) [0..<Suc (length xs)]
        = sofar # map (\<lambda>i. total_length (fl (sofar + tr_length t)) (take i xs)) [0..<length xs]" for xs
      by (simp add: upt_conv_Cons map_Suc_upt [symmetric] del: upt_Suc)
    from False Cons.prems obtain ci1 where ci1:
      "scan_transmissions min_tx tg (kept @ [t]) ts (fl (sofar + tr_length t)) ci1 fs = (ci', fs')"
      "cd_source_list ci1 = cd_source_list ci @ [\<lparr>cs_source = tr_source t, cs_time = tr_start_time t,
          cs_position = sofar, cs_emergency = False, cs_signal_system = [], cs_tag = tg (tr_source t)\<rparr>]"
      "cd_error_count ci1 = cd_error_count ci + tr_error_count t"
      "cd_spike_count ci1 = cd_spike_count ci + tr_spike_count t"
      "cd_start_time ci1 = (if kept = [] then tr_start_time t else cd_start_time ci)"
      "cd_stop_time ci1 = (if ts = [] then tr_stop_time t else cd_stop_time ci)"
      "cd_call_num ci1 = cd_call_num ci" "cd_retry_attempt ci1 = cd_retry_attempt ci" "cd_status ci1 = cd_status ci"
      by (simp add: Let_def)
    from Cons.IH [OF ci1(1)] show ?thesis
      using l up [of "filter (long_enough min_tx) ts"] up [of "[]"] by (cases ts) (simp_all add: ci1(2-) del: upt_Suc)
  qed
qed

lemma base_filename_call:
  "snd (create_base_filename env cfg sys c ci) = snd (get_start_time c)"
  by (simp add: create_base_filename_def split_def Let_def)

lemma get_start_time_frame [simp]:
  "cl_transmission_list (snd (get_start_time c)) = cl_transmission_list c"
  "cl_call_num (snd (get_start_time c)) = cl_call_num c" "cl_state (snd (get_start_time c)) = cl_state c"
  "cl_monitoringState (snd (get_start_time c)) = cl_monitoringState c"
  by (simp_all add: get_start_time_def Let_def)

lemma base_filename_data:
  "cd_source_list (fst (create_base_filename env cfg sys c ci)) = cd_source_list ci"
  "cd_stop_time (fst (create_base_filename env cfg sys c ci)) = cd_stop_time ci"
  by (simp_all add: create_base_filename_def split_def Let_def)

lemma call_scan_result:
  "(case scan_transmissions m tg [] (cd_transmission_list d) z d fs of (ci, fs) \<Rightarrow> (ci, c0, fs)) = (ci', c', fs')
     \<Longrightarrow> cd_transmission_list d = ts \<Longrightarrow> scan_transmissions m tg [] ts z d fs = (ci', fs')"
  "(case p of (ci, fs) \<Rightarrow> (ci, c0, fs)) = (ci', c', fs') \<Longrightarrow> c' = c0"
  by (cases "scan_transmissions m tg [] (cd_transmission_list d) z d fs"; cases p; simp)+

lemma create_call_data_scan:
  assumes "create_call_data env cfg junk sys c fs = (ci, c', fs')"
  obtains tg ci1 where
    "scan_transmissions (sy_min_tx_duration sys) tg [] (cl_transmission_list c) 0 ci1 fs = (ci, fs')"
    "cd_source_list ci1 = []" "cd_error_count ci1 = 0" "cd_spike_count ci1 = 0"
    "cd_transmission_archive ci1 = sy_transmission_archive sys" "cd_stop_time ci1 = cd_stop_time junk"
    "cd_retry_attempt ci1 = 0" "cd_call_num ci1 = cl_call_num c" "cl_state c' = cl_state c"
    "cl_monitoringState c' = cl_monitoringState c"
proof -
  obtain ci0 c0 where b: "create_base_filename env cfg sys c (junk\<lparr>cd_source_list := [], cd_error_list := []\<rparr>) = (ci0, c0)"
    by (rule prod.exhaust)
  then have start: "c0 = snd (get_start_time c)" using base_filename_call by (metis snd_conv)
  have c0: "cl_transmission_list c0 = cl_transmission_list c" "cl_call_num c0 = cl_call_num c"
    "cl_state c0 = cl_state c" "cl_monitoringState c0 = cl_monitoringState c"
    by (simp_all add: start)
  have ci0: "cd_source_list ci0 = []" "cd_stop_time ci0 = cd_stop_time junk"
    using base_filename_data [of env cfg sys c "junk\<lparr>cd_source_list := [], cd_error_list := []\<rparr>"]
    unfolding b by simp_all
  note unfolded = assms [unfolded create_call_data_def b Let_def prod.case]
  show ?thesis
  proof (cases "find_talkgroup sys (cl_talkgroup c0)")
    case None
    note u = unfolded [unfolded None option.case]
    show ?thesis
      by (rule that [OF call_scan_result(1) [OF u]]; (simp only: call_scan_result(2) [OF u])?; simp add: c0 ci0)
  next
    case (Some g)
    note u = unfolded [unfolded Some option.case]
    show ?thesis
      by (rule that [OF call_scan_result(1) [OF u]]; (simp only: call_scan_result(2) [OF u])?; simp add: c0 ci0)
  qed
qed

text \<open>
  C14. The summary of a concluded call is that of its transmissions that are long enough: exactly
  those are kept, in order; the call's length is the sum of theirs, each is listed with its speaker,
  its start time and its position (the length of all before it), the error and spike counts are
  added up, the call starts when the first of them starts, and stops when the last one stops if the
  last transmission was not too short. The files of the others are removed, unless the system
  archives transmissions.
\<close>

theorem call_data_summary:
  assumes "create_call_data env cfg junk sys c fs = (ci, c', fs')"
    and "kept = filter (long_enough (sy_min_tx_duration sys)) (cl_transmission_list c)"
  shows "cd_transmission_list ci = kept \<and> cd_length ci = total_length 0 kept
    \<and> map cs_source (cd_source_list ci) = map tr_source kept
    \<and> map cs_time (cd_source_list ci) = map tr_start_time kept
    \<and> map cs_position (cd_source_list ci) = map (\<lambda>i. total_length 0 (take i kept)) [0..<length kept]
    \<and> cd_error_count ci = sum_list (map tr_error_count kept)
    \<and> cd_spike_count ci = sum_list (map tr_spike_count kept)
    \<and> (kept \<noteq> [] \<longrightarrow> cd_start_time ci = tr_start_time (hd kept))
    \<and> (kept \<noteq> [] \<and> last (cl_transmission_list c) = last kept \<longrightarrow> cd_stop_time ci = tr_stop_time (last kept))
    \<and> fs' = (if sy_transmission_archive sys then fs
             else fs - tr_filename ` (set (cl_transmission_list c) - set kept))"
proof -
  obtain tg ci1 where s: "scan_transmissions (sy_min_tx_duration sys) tg [] (cl_transmission_list c) 0 ci1 fs = (ci, fs')"
    and ci1: "cd_source_list ci1 = []" "cd_error_count ci1 = 0" "cd_spike_count ci1 = 0"
      "cd_transmission_archive ci1 = sy_transmission_archive sys"
    using create_call_data_scan [OF assms(1)] by metis
  note d = scan_data [OF s, folded assms(2)]
  have last: "long_enough (sy_min_tx_duration sys) (last ts)"
    if "ls = filter (long_enough (sy_min_tx_duration sys)) ts" "ls \<noteq> []" "last ts = last ls" for ls ts
    using that last_in_set [of ls] by auto
  have ne: "kept \<noteq> [] \<Longrightarrow> cl_transmission_list c \<noteq> []" using assms(2) by auto
  have f: "{t \<in> set (cl_transmission_list c). \<not> long_enough (sy_min_tx_duration sys) t}
      = set (cl_transmission_list c) - set kept" by (auto simp: assms(2))
  have "fs' = snd (scan_transmissions (sy_min_tx_duration sys) tg [] (cl_transmission_list c) 0 ci1 fs)"
    by (simp add: s)
  then have fs': "fs' = (if sy_transmission_archive sys then fs
             else fs - tr_filename ` (set (cl_transmission_list c) - set kept))"
    unfolding scan_files f ci1(4) .
  show ?thesis using d fs' ne last [OF assms(2)] by (auto simp: ci1)
qed

theorem call_data_summary_witness:
  "\<forall>env cfg junk c fs. cd_transmission_list (fst (create_call_data env cfg junk (example_system\<lparr>sy_min_tx_duration := 1\<rparr>)
       (c\<lparr>cl_transmission_list := [example_transmission ''a'', (example_transmission ''b'')\<lparr>tr_length := 0\<rparr>]\<rparr>) fs))
     = [example_transmission ''a'']"
proof (intro allI)
  fix env cfg junk fs and c :: Call
  let ?s = "example_system\<lparr>sy_min_tx_duration := 1\<rparr>"
  let ?c = "c\<lparr>cl_transmission_list := [example_transmission ''a'', (example_transmission ''b'')\<lparr>tr_length := 0\<rparr>]\<rparr>"
  obtain ci c' fs' where r: "create_call_data env cfg junk ?s ?c fs = (ci, c', fs')" by (rule prod_cases3)
  have "cd_transmission_list ci = [example_transmission ''a'']"
    using call_data_summary [OF r refl] by (simp add: long_enough_def example_transmission_def)
  then show "cd_transmission_list (fst (create_call_data env cfg junk ?s ?c fs)) = [example_transmission ''a'']"
    unfolding r fst_conv .
qed

text \<open>
  A call whose last transmission is too short has no stop time: the field keeps the
  indeterminate value of the local variable, which then goes into the call log and to the plugins.
\<close>

theorem short_last_transmission_no_stop_time:
  assumes "create_call_data env cfg junk sys c fs = (ci, c', fs')"
    and "cl_transmission_list c \<noteq> []" and "tr_length (last (cl_transmission_list c)) < sy_min_tx_duration sys"
  shows "cd_stop_time ci = cd_stop_time junk"
proof -
  obtain tg ci1 where s: "scan_transmissions (sy_min_tx_duration sys) tg [] (cl_transmission_list c) 0 ci1 fs = (ci, fs')"
    and ci1: "cd_stop_time ci1 = cd_stop_time junk"
    using create_call_data_scan [OF assms(1)] by metis
  show ?thesis using scan_data [OF s] assms(3) by (simp add: ci1 long_enough_def)
qed

theorem short_last_transmission_no_stop_time_witness:
  "\<forall>env cfg junk c fs. cd_stop_time (fst (create_call_data env cfg junk (example_system\<lparr>sy_min_tx_duration := 10\<rparr>)
       (c\<lparr>cl_transmission_list := [example_transmission ''a'']\<rparr>) fs)) = cd_stop_time junk"
proof (intro allI)
  fix env cfg junk fs and c :: Call
  let ?s = "example_system\<lparr>sy_min_tx_duration := 10\<rparr>"
  let ?c = "c\<lparr>cl_transmission_list := [example_transmission ''a'']\<rparr>"
  obtain ci c' fs' where r: "create_call_data env cfg junk ?s ?c fs = (ci, c', fs')" by (rule prod_cases3)
  have "cd_stop_time ci = cd_stop_time junk"
    using short_last_transmission_no_stop_time [OF r] by (simp add: example_transmission_def)
  then show "cd_stop_time (fst (create_call_data env cfg junk ?s ?c fs)) = cd_stop_time junk"
    unfolding r fst_conv .
qed

end
