(* ===== verification/Source.thy ===== *)
theory Source
  imports Recorder
begin

text \<open>
  A source, one radio (\<open>trunk-recorder/source.cc\<close>): the band it covers, the recorders attached to
  it, and which of them it hands to a call.

  Recorders live in a store, and a source holds references into it, in the order the recorders
  were created. \<open>osmosdr\<close> and UHD are called through the driver named by \<open>so_driver\<close>; what they
  are told is what the fields below record.
\<close>

type_synonym recorders = "rec_ref \<Rightarrow> Recorder"

record Source =
  so_src_num :: int
  so_center :: double
  so_rate :: double
  so_error :: double
  so_min_hz :: double
  so_max_hz :: double
  so_driver :: string
  so_device :: string
  so_antenna :: string
  so_ppm :: double
  so_gain_mode :: bool
  so_gain :: int
  so_gain_stages :: "(string \<times> int) list"
  so_silence_frames :: int
  so_debug_recorder_port :: int
  so_max_digital_recorders :: int
  so_max_analog_recorders :: int
  so_max_debug_recorders :: int
  so_max_sigmf_recorders :: int
  so_digital_recorders :: "rec_ref list"
  so_digital_conv_recorders :: "rec_ref list"
  so_dmr_conv_recorders :: "rec_ref list"
  so_analog_recorders :: "rec_ref list"
  so_analog_conv_recorders :: "rec_ref list"
  so_debug_recorders :: "rec_ref list"
  so_sigmf_recorders :: "rec_ref list"

section \<open>The band\<close>

text \<open>
  The decimation of \<open>set_min_max\<close>: the loop has no exit, so the last intermediate rate that fits
  decides, and 24000 stands when none fits.
\<close>

fun last_decim :: "int \<Rightarrow> int \<Rightarrow> int list \<Rightarrow> int" where
  "last_decim s decim [] = decim"
| "last_decim s decim (if_freq # rest) =
     (if s mod if_freq \<noteq> 0 then last_decim s decim rest
      else let q = s div if_freq
           in if q AND 1 \<noteq> 0 then last_decim s decim rest
              else if q \<ge> 40 \<and> q AND 3 = 0 then last_decim s (q div 4) rest
              else last_decim s (q div 2) rest)"

definition min_max_decim :: "int \<Rightarrow> int" where
  "min_max_decim s = last_decim s 24000 [24000, 25000, 32000]"

text \<open>
  \<open>min_hz\<close> and \<open>max_hz\<close>. The rate becomes a \<open>long\<close> by truncation, the quotient of the rate and
  the decimation is a \<open>double\<close> truncated to a \<open>long\<close>, and half of that is an integer division.
  A decimation of zero (a rate below one) divides by zero: no defined result.
\<close>

definition set_min_max :: "Source \<Rightarrow> Source option" where
  "set_min_max so =
     (let decim = min_max_decim (trunc (so_rate so))
      in if decim = 0 then None
         else let if1 = trunc (fl (so_rate so / of_int decim));
                  half = fl (fl (so_rate so / 2) - of_int (if1 div 2))
              in Some (so\<lparr>so_min_hz := fl (so_center so - half), so_max_hz := fl (so_center so + half)\<rparr>))"

text \<open>The test every user of a source makes.\<close>

definition covers :: "Source \<Rightarrow> double \<Rightarrow> bool" where
  "covers so f \<longleftrightarrow> so_min_hz so \<le> f \<and> f \<le> so_max_hz so"

section \<open>Construction and settings\<close>

text \<open>
  The constructor for a radio. \<open>num\<close> is the value of \<open>src_counter\<close>, \<open>actual\<close> what the driver
  reports as the rate it really runs at; only \<open>osmosdr\<close> reports it before \<open>rate\<close> is rounded, and
  the band is not computed again. \<open>junk\<close> holds the members that are not initialised.
\<close>

definition round_away :: "rat \<Rightarrow> int" where
  "round_away x = (if 0 \<le> x then \<lfloor>x + 1 / 2\<rfloor> else \<lceil>x - 1 / 2\<rceil>)"

definition new_source ::
  "Source \<Rightarrow> int \<Rightarrow> double \<Rightarrow> double \<Rightarrow> double \<Rightarrow> string \<Rightarrow> string \<Rightarrow> double \<Rightarrow> Source option" where
  "new_source junk num c r e drv dev actual =
     set_min_max (junk\<lparr>so_rate := r, so_center := c, so_error := e\<rparr>) \<bind> (\<lambda>so.
       let so = so\<lparr>so_driver := drv, so_device := dev, so_gain := 0, so_src_num := num,
          so_max_digital_recorders := 0, so_max_debug_recorders := 0, so_max_sigmf_recorders := 0,
          so_max_analog_recorders := 0, so_debug_recorder_port := 0, so_gain_stages := [],
          so_antenna := [], so_digital_recorders := [], so_digital_conv_recorders := [],
          so_dmr_conv_recorders := [], so_analog_recorders := [], so_analog_conv_recorders := [],
          so_debug_recorders := [], so_sigmf_recorders := []\<rparr>
       in Some (if drv = ''osmosdr'' then so\<lparr>so_rate := of_int (round_away actual)\<rparr> else so))"

text \<open>A source that replays a file covers the whole of its band.\<close>

definition set_iq_source :: "int \<Rightarrow> double \<Rightarrow> double \<Rightarrow> Source \<Rightarrow> Source" where
  "set_iq_source num c r so =
     so\<lparr>so_rate := r, so_center := c, so_error := 0, so_min_hz := fl (c - fl (r / 2)),
        so_max_hz := fl (c + fl (r / 2)), so_driver := ''iqfile'', so_device := [], so_gain := 0,
        so_src_num := num, so_max_digital_recorders := 0, so_max_debug_recorders := 0,
        so_max_sigmf_recorders := 0, so_max_analog_recorders := 0, so_debug_recorder_port := 0\<rparr>"

definition set_gain :: "int \<Rightarrow> Source \<Rightarrow> Source" where
  "set_gain g so = (if so_driver so \<in> {''osmosdr'', ''usrp''} then so\<lparr>so_gain := g\<rparr> else so)"

definition add_gain_stage :: "string \<Rightarrow> int \<Rightarrow> Source \<Rightarrow> Source" where
  "add_gain_stage name g so = so\<lparr>so_gain_stages := so_gain_stages so @ [(name, g)]\<rparr>"

definition set_gain_by_name :: "string \<Rightarrow> int \<Rightarrow> Source \<Rightarrow> Source" where
  "set_gain_by_name name g so = (if so_driver so = ''osmosdr'' then add_gain_stage name g so else so)"

definition set_gain_mode :: "bool \<Rightarrow> Source \<Rightarrow> Source" where
  "set_gain_mode m so = (if so_driver so = ''osmosdr'' then so\<lparr>so_gain_mode := m\<rparr> else so)"

section \<open>Creating recorders\<close>

text \<open>
  \<open>n\<close> is the number of recorders made so far and the reference of the next one; \<open>mk\<close> is what
  the recorder class makes for a reference.
\<close>

definition make_recorder :: "(rec_ref \<Rightarrow> Recorder) \<Rightarrow> rec_ref \<times> recorders \<Rightarrow> rec_ref \<times> recorders" where
  "make_recorder mk st = (case st of (n, rs) \<Rightarrow> (Suc n, rs(n := mk n)))"

fun make_recorders :: "nat \<Rightarrow> (rec_ref \<Rightarrow> Recorder) \<Rightarrow> rec_ref \<times> recorders \<Rightarrow> rec_ref list \<times> rec_ref \<times> recorders" where
  "make_recorders 0 mk st = ([], st)"
| "make_recorders (Suc k) mk st =
     (let (ids, st') = make_recorders k mk (make_recorder mk st) in (fst st # ids, st'))"

definition create_digital_recorders where
  "create_digital_recorders r mk st so =
     (let (ids, st) = make_recorders (nat r) mk st
      in (st, so\<lparr>so_max_digital_recorders := r, so_digital_recorders := so_digital_recorders so @ ids\<rparr>))"

definition create_analog_recorders where
  "create_analog_recorders r mk st so =
     (let (ids, st) = make_recorders (nat r) mk st
      in (st, so\<lparr>so_max_analog_recorders := r, so_analog_recorders := so_analog_recorders so @ ids\<rparr>))"

definition create_sigmf_recorders where
  "create_sigmf_recorders r mk st so =
     (let (ids, st) = make_recorders (nat r) mk st
      in (st, so\<lparr>so_max_sigmf_recorders := r, so_sigmf_recorders := so_sigmf_recorders so @ ids\<rparr>))"

definition create_debug_recorder where
  "create_debug_recorder port source_num mk st so =
     (make_recorder mk st,
      so\<lparr>so_max_debug_recorders := 1, so_debug_recorder_port := port + source_num,
         so_debug_recorders := so_debug_recorders so @ [fst st]\<rparr>)"

definition create_conventional_recorder where
  "create_conventional_recorder mk st so =
     (make_recorder mk st, so\<lparr>so_analog_conv_recorders := so_analog_conv_recorders so @ [fst st]\<rparr>)"

definition create_digital_conventional_recorder where
  "create_digital_conventional_recorder mk st so =
     (make_recorder mk st, so\<lparr>so_digital_conv_recorders := so_digital_conv_recorders so @ [fst st]\<rparr>)"

definition create_dmr_conventional_recorder where
  "create_dmr_conventional_recorder mk st so =
     (make_recorder mk st, so\<lparr>so_dmr_conv_recorders := so_dmr_conv_recorders so @ [fst st]\<rparr>)"

definition digital_recorder_count :: "Source \<Rightarrow> nat" where
  "digital_recorder_count so = length (so_digital_recorders so) + length (so_digital_conv_recorders so)
     + length (so_dmr_conv_recorders so)"

definition analog_recorder_count :: "Source \<Rightarrow> nat" where
  "analog_recorder_count so = length (so_analog_recorders so) + length (so_analog_conv_recorders so)"

definition get_recorders :: "Source \<Rightarrow> rec_ref list" where
  "get_recorders so = so_digital_recorders so @ so_digital_conv_recorders so @ so_dmr_conv_recorders so
     @ so_analog_recorders so @ so_analog_conv_recorders so @ so_debug_recorders so @ so_sigmf_recorders so"

section \<open>Handing out recorders\<close>

definition get_num_available_digital_recorders :: "recorders \<Rightarrow> Source \<Rightarrow> int" where
  "get_num_available_digital_recorders rs so =
     int (length (filter (\<lambda>i. rec_get_state (rs i) = AVAILABLE) (so_digital_recorders so)))"

definition get_num_available_analog_recorders :: "recorders \<Rightarrow> Source \<Rightarrow> int" where
  "get_num_available_analog_recorders rs so =
     int (length (filter (\<lambda>i. rec_get_state (rs i) = AVAILABLE) (so_analog_recorders so)))"

definition get_digital_recorder :: "recorders \<Rightarrow> Source \<Rightarrow> rec_ref option" where
  "get_digital_recorder rs so = List.find (\<lambda>i. rec_get_state (rs i) = AVAILABLE) (so_digital_recorders so)"

definition get_analog_recorder :: "recorders \<Rightarrow> Source \<Rightarrow> rec_ref option" where
  "get_analog_recorder rs so = List.find (\<lambda>i. rec_get_state (rs i) = AVAILABLE) (so_analog_recorders so)"

text \<open>
  The overloads for a talkgroup from the file: priority -1 means never record, and otherwise at
  least as many recorders must be free as the number of the priority.
\<close>

definition get_digital_recorder_tg ::
  "recorders \<Rightarrow> Source \<Rightarrow> Talkgroup option \<Rightarrow> int \<Rightarrow> Call \<Rightarrow> rec_ref option \<times> Call" where
  "get_digital_recorder_tg rs so talkgroup priority c =
     (if talkgroup \<noteq> None \<and> priority = -1
      then (None, c\<lparr>cl_state := MONITORING, cl_monitoringState := IGNORED_TG\<rparr>)
      else if talkgroup \<noteq> None \<and> priority > get_num_available_digital_recorders rs so
      then (None, c\<lparr>cl_state := MONITORING, cl_monitoringState := NO_RECORDER\<rparr>)
      else (get_digital_recorder rs so, c))"

definition get_analog_recorder_tg ::
  "recorders \<Rightarrow> Source \<Rightarrow> Talkgroup option \<Rightarrow> int \<Rightarrow> Call \<Rightarrow> rec_ref option \<times> Call" where
  "get_analog_recorder_tg rs so talkgroup priority c =
     (if talkgroup \<noteq> None \<and> priority = -1
      then (None, c\<lparr>cl_state := MONITORING, cl_monitoringState := IGNORED_TG\<rparr>)
      else if talkgroup \<noteq> None \<and> priority > get_num_available_analog_recorders rs so
      then (None, c\<lparr>cl_state := MONITORING, cl_monitoringState := NO_RECORDER\<rparr>)
      else (get_analog_recorder rs so, c))"

definition get_debug_recorder :: "recorders \<Rightarrow> Source \<Rightarrow> rec_ref option" where
  "get_debug_recorder rs so = List.find (\<lambda>i. rec_get_state (rs i) = INACTIVE) (so_debug_recorders so)"

definition get_sigmf_recorder :: "recorders \<Rightarrow> Source \<Rightarrow> rec_ref option" where
  "get_sigmf_recorder rs so = List.find (\<lambda>i. rec_get_state (rs i) = INACTIVE) (so_sigmf_recorders so)"

lemmas get_recorder_defs =
  get_digital_recorder_tg_def get_analog_recorder_tg_def get_digital_recorder_def get_analog_recorder_def
  get_debug_recorder_def get_sigmf_recorder_def

end
