(* ===== verification/Source_Properties.thy ===== *)
theory Source_Properties
  imports Source
begin

text \<open>The decimation of the recorders.\<close>

lemma odd_bit: "(q :: int) AND 1 \<noteq> 0 \<longleftrightarrow> odd q"
  by (simp add: and_one_eq odd_iff_mod_2_eq_one)

lemma and_3: "(q :: int) AND 3 = q mod 4"
  using take_bit_eq_mask [of 2 q] by (simp add: mask_eq_exp_minus_1 take_bit_eq_mod)

lemma first_decim_spec:
  assumes "first_decim s rates = (d1, d2)" "0 < s" "\<forall>r \<in> set rates. 0 < r"
  shows "(d1, d2) = (-1, -1) \<and> (\<forall>r \<in> set rates. \<not> 2 * r dvd s)
    \<or> (\<exists>r \<in> set rates. s = d1 * d2 * r \<and> 0 < d1 \<and> (d2 = 2 \<or> d2 = 4 \<and> 10 \<le> d1))"
  using assms
proof (induction rates)
  case (Cons r rates)
  let ?q = "s div r"
  have r: "0 < r" using Cons.prems by simp
  show ?case
  proof (cases "s mod r = 0 \<and> even ?q")
    case False
    then have "first_decim s rates = (d1, d2)" using Cons.prems(1) by (auto simp: odd_bit Let_def split: if_splits)
    moreover have "\<not> 2 * r dvd s"
    proof
      assume "2 * r dvd s"
      then obtain k where "s = 2 * r * k" by blast
      then show False using False r by simp
    qed
    ultimately show ?thesis using Cons by auto
  next
    case True
    then have s: "s = ?q * r" by auto
    have "0 < ?q" using s Cons.prems(2) r by (metis zero_less_mult_pos2)
    show ?thesis
    proof (cases "?q \<ge> 40 \<and> ?q mod 4 = 0")
      case four: True
      then have d: "d1 = ?q div 4" "d2 = 4" using Cons.prems(1) True by (auto simp: odd_bit and_3 Let_def)
      then have "s = d1 * d2 * r" "10 \<le> d1" using s four by (auto simp: mult.commute)
      then show ?thesis using d by auto
    next
      case two: False
      then have d: "d1 = ?q div 2" "d2 = 2" using Cons.prems(1) True by (auto simp: odd_bit and_3 Let_def)
      then have "s = d1 * d2 * r" "0 < d1" using s True \<open>0 < ?q\<close> by (auto elim!: evenE)
      then show ?thesis using d by auto
    qed
  qed
qed simp

text \<open>
  The decimation of a recorder is exact. For every sample rate, either the two factors multiply
  with one of the three intermediate rates to the sample rate, the second is 2 or 4, and 4 only
  when the first is at least 10; or no intermediate rate fits an even number of times and the
  result says so.
\<close>

theorem decimation_exact:
  assumes "get_decim s = (d1, d2)" and "0 < s"
  shows "if d1 = -1 then d2 = -1 \<and> (\<forall>r \<in> {24000, 25000, 32000}. \<not> 2 * r dvd s)
    else \<exists>r \<in> {24000, 25000, 32000}. s = d1 * d2 * r \<and> 0 < d1 \<and> (d2 = 2 \<or> d2 = 4 \<and> 10 \<le> d1)"
  using first_decim_spec [OF assms(1) [unfolded get_decim_def] assms(2)] by auto

theorem decimation_exact_witness: "\<exists>d1 d2. get_decim 8000000 = (d1, d2) \<and> d1 = 80 \<and> (\<exists>r \<in> {24000, 25000, 32000}. 8000000 = d1 * d2 * r)"
proof -
  have g: "get_decim 8000000 = (80, 4)" by (simp add: get_decim_def)
  show ?thesis using decimation_exact [OF g] g by auto
qed

end
