(* ===== verification/Call_Operations.thy ===== *)
theory Call_Operations
  imports Source Call_Concluder
begin

text \<open>
  The state of the running program (the globals of \<open>trunk-recorder/main.cc\<close>) and the operations
  of a call that reach beyond the call: to its recorders, to the concluder and to the plugins
  (\<open>call_impl.cc\<close>, \<open>call_conventional.cc\<close>).

  \<open>w_calls\<close> is the vector of calls; a pointer to a call is its position there, and an operation on
  a call takes and returns the call. \<open>w_events\<close> is what the plugins were told, in order. The
  environment \<open>menv\<close> holds the clock and the other things the operations read from outside.
\<close>

record World =
  w_calls :: "Call list"
  w_systems :: "System_impl list"
  w_sources :: "Source list"
  w_recorders :: "rec_ref \<times> recorders"
  w_call_counter :: int
  w_concluder :: concluder
  w_events :: "event list"
  w_exit_flag :: bool

abbreviation w_recs :: "World \<Rightarrow> recorders" where
  "w_recs w \<equiv> snd (w_recorders w)"

definition set_rec :: "rec_ref \<Rightarrow> Recorder \<Rightarrow> World \<Rightarrow> World" where
  "set_rec i r w = w\<lparr>w_recorders := (fst (w_recorders w), (w_recs w)(i := r))\<rparr>"

definition emit :: "event list \<Rightarrow> World \<Rightarrow> World" where
  "emit es w = w\<lparr>w_events := w_events w @ es\<rparr>"

record menv =
  me_sink :: sink_env
  me_concluder :: concluder_env
  me_junk :: Call_Data
  me_unmuted :: "rec_ref \<Rightarrow> bool"
  me_config :: Config

abbreviation me_now :: "menv \<Rightarrow> int" where
  "me_now env \<equiv> env_now (me_sink env)"

section \<open>Operations of every call\<close>

definition get_current_length :: "recorders \<Rightarrow> Call \<Rightarrow> double" where
  "get_current_length rs c =
     (if cl_state c = RECORDING then
        case cl_recorder c of Some i \<Rightarrow> rec_get_current_length (rs i) | None \<Rightarrow> 0
      else 0)"

definition since_last_voice_update :: "menv \<Rightarrow> recorders \<Rightarrow> Call \<Rightarrow> int" where
  "since_last_voice_update env rs c =
     (if cl_state c = RECORDING then
        case cl_recorder c of Some i \<Rightarrow> rec_since_last_write (me_sink env) (rs i) | None \<Rightarrow> -1
      else -1)"

definition add_source :: "int \<Rightarrow> Call \<Rightarrow> World \<Rightarrow> bool \<times> Call \<times> World" where
  "add_source src c w =
     (if src = -1 then (False, c, w)
      else if src = cl_curr_src_id c then (False, c, w)
      else
        let c = c\<lparr>cl_curr_src_id := src\<rparr>;
            w = (if cl_state c = RECORDING then
                   case cl_recorder c of Some i \<Rightarrow> set_rec i (rec_set_source src (w_recs w i)) w | None \<Rightarrow> w
                 else w)
        in (True, c, emit [Signal src (cl_call_num c)] w))"

definition call_update :: "menv \<Rightarrow> TrunkMessage \<Rightarrow> Call \<Rightarrow> World \<Rightarrow> bool \<times> Call \<times> World" where
  "call_update env m c w =
     (let c = c\<lparr>cl_last_update := me_now env\<rparr>
      in if tm_freq m \<noteq> cl_curr_freq c \<or> tm_talkgroup m \<noteq> cl_talkgroup c then (False, c, w)
         else add_source (tm_source m) c w)"

text \<open>
  \<open>conclude_call\<close>. The recorder is used before it is compared with the null pointer, so a call
  without one has no defined result. \<open>sys\<close> is the call's system.
\<close>

definition stop_if :: "bool \<Rightarrow> rec_ref option \<Rightarrow> World \<Rightarrow> World option" where
  "stop_if b ref w =
     (if b then case ref of Some i \<Rightarrow> Some (set_rec i (rec_stop (w_recs w i)) w) | None \<Rightarrow> None else Some w)"

definition call_conclude :: "menv \<Rightarrow> System_impl \<Rightarrow> Call \<Rightarrow> World \<Rightarrow> (Call \<times> World) option" where
  "call_conclude env sys c w =
     (let c = c\<lparr>cl_stop_time := me_now env\<rparr>
      in if cl_state c = RECORDING \<or> cl_state c = MONITORING \<and> cl_monitoringState c = SUPERSEDED then
           do { i \<leftarrow> cl_recorder c;
                let c = c\<lparr>cl_final_length := rec_get_current_length (w_recs w i)\<rparr>;
                let w = set_rec i (rec_stop (w_recs w i)) w;
                let c = c\<lparr>cl_transmission_list := rec_get_transmission_list (w_recs w i)\<rparr>;
                w \<leftarrow> stop_if (cl_sigmf_recording c) (cl_sigmf_recorder c) w;
                w \<leftarrow> stop_if (cl_debug_recording c) (cl_debug_recorder c) w;
                (c, co) \<leftarrow> concluder_conclude_call (me_concluder env) (me_config env) (me_junk env) sys c (w_concluder w);
                Some (c, w\<lparr>w_concluder := co\<rparr>) }
         else Some (c, w))"

definition increase_idle_count :: "Call \<Rightarrow> Call" where
  "increase_idle_count c = c\<lparr>cl_idle_count := cl_idle_count c + 1\<rparr>"

definition reset_idle_count :: "Call \<Rightarrow> Call" where
  "reset_idle_count c = c\<lparr>cl_idle_count := 0\<rparr>"

section \<open>Conventional calls\<close>

text \<open>\<open>restart_call\<close>: the next recording on the same channel. A trunked call ignores it.\<close>

definition restart_call :: "menv \<Rightarrow> System_impl \<Rightarrow> Call \<Rightarrow> World \<Rightarrow> (Call \<times> World) option" where
  "restart_call env sys c w =
     (if \<not> cl_conventional c then Some (c, w)
      else
        let now = me_now env;
            c = update_talkgroup_display (c\<lparr>cl_idle_count := 0, cl_curr_src_id := -1, cl_start_time := now,
              cl_stop_time := now, cl_last_update := now, cl_state := RECORDING, cl_debug_recording := False,
              cl_phase2_tdma := False, cl_tdma_slot := 0, cl_encrypted := False, cl_emergency := False\<rparr>)
        in case cl_recorder c of
             None \<Rightarrow> None
           | Some i \<Rightarrow> Some (c, set_rec i (snd (rec_start (me_sink env) (me_config env) sys c (w_recs w i))) w))"

definition recording_started :: "menv \<Rightarrow> Call \<Rightarrow> Call" where
  "recording_started env c = c\<lparr>cl_start_time := me_now env\<rparr>"

end
