(* ===== verification/Main_Loop.thy ===== *)
theory Main_Loop
  imports Call_Operations
begin

text \<open>
  The program's main loop (\<open>trunk-recorder/main.cc\<close>): starting recorders for calls, the messages of
  the control channels, the periodic management of calls and control channels, and the set-up of
  the systems.

  A function of the source that takes a pointer to a system takes its position here. A result
  \<open>None\<close> is a null pointer that is followed, or an exception nobody catches.
\<close>

text \<open>\<open>GCD\<close>, on 32-bit unsigned integers.\<close>

function main_GCD :: "32 word \<Rightarrow> 32 word \<Rightarrow> 32 word" where
  "main_GCD u v = (if v \<noteq> 0 then main_GCD v (u mod v) else u)"
  by pat_completeness auto
termination
  by (relation "measure (\<lambda>(u, v). unat v)") (auto simp: unat_mod unat_gt_0)

definition get_total_recorders :: "World \<Rightarrow> nat" where
  "get_total_recorders w = length (filter (\<lambda>c. cl_state c = RECORDING) (w_calls w))"

section \<open>Starting a recorder\<close>

text \<open>
  The priority of a talkgroup is the smallest among it and the talkgroups it is patched with;
  talkgroup numbers in a patch are \<open>unsigned long\<close>, those of a system \<open>long\<close>.
\<close>

definition patched_priority :: "System_impl \<Rightarrow> Talkgroup \<Rightarrow> Call \<Rightarrow> int" where
  "patched_priority sys tg c =
     fold (\<lambda>tgid priority.
         case find_talkgroup sys (sint tgid) of
           None \<Rightarrow> priority
         | Some tg \<Rightarrow> if tg_priority tg < priority then tg_priority tg else priority)
       (get_talkgroup_patch sys (word_of_int (cl_talkgroup c))) (tg_priority tg)"

definition choose_recorder ::
  "Config \<Rightarrow> System_impl \<Rightarrow> recorders \<Rightarrow> Source \<Rightarrow> Talkgroup option \<Rightarrow> Call \<Rightarrow> rec_ref option \<times> Call" where
  "choose_recorder cfg sys rs so talkgroup c =
     (case talkgroup of
        Some tg \<Rightarrow>
          (let priority = patched_priority sys tg c
           in if tg_mode tg = ''A''
              then (let (r, c) = get_analog_recorder_tg rs so talkgroup priority c in (r, c\<lparr>cl_is_analog := True\<rparr>))
              else get_digital_recorder_tg rs so talkgroup priority c)
      | None \<Rightarrow>
          if cfg_default_mode cfg = ''analog'' \<and> sy_system_type sys = ''smartnet''
          then (get_analog_recorder rs so, c\<lparr>cl_is_analog := True\<rparr>)
          else (get_digital_recorder rs so, c))"

text \<open>A debug or SigMF recorder is started if the source has an idle one; its answer is ignored.\<close>

definition start_debug :: "menv \<Rightarrow> System_impl \<Rightarrow> Source \<Rightarrow> Call \<Rightarrow> World \<Rightarrow> Call \<times> World" where
  "start_debug env sys so c w =
     (case get_debug_recorder (w_recs w) so of
        None \<Rightarrow> (c, w)
      | Some i \<Rightarrow>
          (c\<lparr>cl_debug_recorder := Some i, cl_debug_recording := True\<rparr>,
           emit [Setup_Recorder i] (set_rec i (snd (rec_start (me_sink env) (me_config env) sys c (w_recs w i))) w)))"

definition start_sigmf :: "menv \<Rightarrow> System_impl \<Rightarrow> Source \<Rightarrow> Call \<Rightarrow> World \<Rightarrow> Call \<times> World" where
  "start_sigmf env sys so c w =
     (case get_sigmf_recorder (w_recs w) so of
        None \<Rightarrow> (c, w)
      | Some i \<Rightarrow>
          (c\<lparr>cl_sigmf_recorder := Some i, cl_sigmf_recording := True\<rparr>,
           emit [Setup_Recorder i] (set_rec i (snd (rec_start (me_sink env) (me_config env) sys c (w_recs w i))) w)))"

text \<open>The loop over the sources: the first one that covers the frequency decides.\<close>

fun try_sources ::
  "menv \<Rightarrow> System_impl \<Rightarrow> Talkgroup option \<Rightarrow> Source list \<Rightarrow> Call \<Rightarrow> World \<Rightarrow> bool \<times> Call \<times> World" where
  "try_sources env sys talkgroup [] c w =
     (False, c\<lparr>cl_state := MONITORING, cl_monitoringState := NO_SOURCE\<rparr>, w)"
| "try_sources env sys talkgroup (so # sources) c w =
     (if covers so (cl_curr_freq c) then
        case choose_recorder (me_config env) sys (w_recs w) so talkgroup c of
          (None, c) \<Rightarrow> (False, c, w)
        | (Some i, c) \<Rightarrow>
            (let (ok, r) = rec_start (me_sink env) (me_config env) sys c (w_recs w i);
                 w = set_rec i r w
             in if ok then
                  let c = c\<lparr>cl_recorder := Some i, cl_state := RECORDING\<rparr>;
                      (c, w) = start_debug env sys so c (emit [Setup_Recorder i] w);
                      (c, w) = start_sigmf env sys so c w
                  in (True, c, w)
                else (False, c\<lparr>cl_state := MONITORING\<rparr>, w))
      else try_sources env sys talkgroup sources c w)"

definition encrypted_mode :: "Talkgroup option \<Rightarrow> bool" where
  "encrypted_mode talkgroup \<longleftrightarrow>
     (case talkgroup of None \<Rightarrow> False | Some tg \<Rightarrow> tg_mode tg \<in> {''E'', ''TE'', ''DE''})"

definition tag_of :: "Talkgroup option \<Rightarrow> string" where
  "tag_of talkgroup = (case talkgroup of Some tg \<Rightarrow> tg_alpha_tag tg | None \<Rightarrow> ''-'')"

definition start_recorder :: "menv \<Rightarrow> System_impl \<Rightarrow> Call \<Rightarrow> World \<Rightarrow> bool \<times> Call \<times> World" where
  "start_recorder env sys c w =
     (let talkgroup = find_talkgroup sys (cl_talkgroup c)
      in if talkgroup = None \<and> \<not> sy_record_unknown sys
         then (False, c\<lparr>cl_state := MONITORING, cl_monitoringState := UNKNOWN_TG\<rparr>, w)
         else
           let c = set_talkgroup_tag (tag_of talkgroup) c
           in if cl_encrypted c \<or> encrypted_mode talkgroup
              then (False, c\<lparr>cl_state := MONITORING, cl_monitoringState := ENCRYPTED\<rparr>, w)
              else try_sources env sys talkgroup (w_sources w) c w)"

section \<open>Managing calls\<close>

definition sys_of :: "World \<Rightarrow> Call \<Rightarrow> System_impl" where
  "sys_of w c = w_systems w ! cl_sys c"

definition conclude_and_restart :: "menv \<Rightarrow> rec_ref \<Rightarrow> Call \<Rightarrow> World \<Rightarrow> (Call \<times> World) option" where
  "conclude_and_restart env i c w =
     do { (c, w) \<leftarrow> call_conclude env (sys_of w c) c w;
          (c, w) \<leftarrow> restart_call env (sys_of w c) c w;
          Some (c, emit [Setup_Recorder i, Call_Start (cl_call_num c)] w) }"

definition manage_conventional_call :: "menv \<Rightarrow> Call \<Rightarrow> World \<Rightarrow> (Call \<times> World) option" where
  "manage_conventional_call env c w =
     (case cl_recorder c of
        None \<Rightarrow> Some (c, w)
      | Some i \<Rightarrow>
          if get_current_length (w_recs w) c > 0 then
            let c = (if rec_is_squelched (me_unmuted env i) (w_recs w i) then increase_idle_count c
                     else if cl_idle_count c > 0 then reset_idle_count c else c)
            in if of_int (cl_idle_count c) > cfg_call_timeout (me_config env)
               then conclude_and_restart env i c w
               else if get_current_length (w_recs w) c > sy_max_duration (sys_of w c)
                       \<and> sy_max_duration (sys_of w c) > 0
               then conclude_and_restart env i c w
               else Some (c, w)
          else if \<not> rec_is_active (w_recs w i) then
            Some (c\<lparr>cl_state := RECORDING\<rparr>,
              emit [Call_Start (cl_call_num c)]
                (set_rec i (snd (rec_start (me_sink env) (me_config env) (sys_of w c) c (w_recs w i))) w))
          else Some (c, w))"

text \<open>
  The loop of \<open>manage_calls\<close>. The result for one call is the call if it stays in the vector. The
  last branch of the source only writes to the log.
\<close>

definition manage_call :: "menv \<Rightarrow> Call \<Rightarrow> World \<Rightarrow> (Call option \<times> World) option" where
  "manage_call env c w =
     (let timeout = cfg_call_timeout (me_config env);
          idle = of_int (since_last_update (me_now env) c) > timeout
      in if cl_conventional c then
           do { (c, w) \<leftarrow> manage_conventional_call env c w; Some (Some c, w) }
         else if cl_state c = MONITORING \<and> idle then Some (None, w)
         else if cl_state c = RECORDING then
           do { i \<leftarrow> cl_recorder c;
                if of_int (rec_since_last_write (me_sink env) (w_recs w i)) > timeout \<and> idle
                then do { (c, w) \<leftarrow> call_conclude env (sys_of w c) c w; Some (None, emit [Setup_Recorder i] w) }
                else Some (Some c, w) }
         else Some (Some c, w))"

fun manage_call_list :: "menv \<Rightarrow> Call list \<Rightarrow> World \<Rightarrow> (Call list \<times> World) option" where
  "manage_call_list env [] w = Some ([], w)"
| "manage_call_list env (c # cs) w =
     do { (r, w) \<leftarrow> manage_call env c w;
          (cs, w) \<leftarrow> manage_call_list env cs w;
          Some (case r of Some c \<Rightarrow> c # cs | None \<Rightarrow> cs, w) }"

definition manage_calls :: "menv \<Rightarrow> World \<Rightarrow> World option" where
  "manage_calls env w =
     do { (cs, w') \<leftarrow> manage_call_list env (w_calls w) w;
          let ended = length cs < length (w_calls w);
          Some (emit (if ended then [Calls_Active] else []) (w'\<lparr>w_calls := cs\<rparr>)) }"

section \<open>Grants and updates\<close>

definition matches_message :: "World \<Rightarrow> TrunkMessage \<Rightarrow> Call \<Rightarrow> bool" where
  "matches_message w m c \<longleftrightarrow>
     cl_talkgroup c = tm_talkgroup m \<and> sy_sys_num (sys_of w c) = tm_sys_num m
     \<and> cl_curr_freq c = tm_freq m \<and> cl_tdma_slot c = tm_tdma_slot m \<and> cl_phase2_tdma c = tm_phase2_tdma m"

text \<open>
  A call of another site on the same talkgroup, and whether the new grant is to supersede it.
  \<open>nac\<close> is the preferred NAC or site of the talkgroup in the respective system's file.
\<close>

definition preferred_nac :: "System_impl \<Rightarrow> int \<Rightarrow> ulong" where
  "preferred_nac sys tg = (case find_talkgroup sys tg of Some t \<Rightarrow> tg_preferredNAC t | None \<Rightarrow> 0)"

definition rfss_site :: "System_impl \<Rightarrow> ulong" where
  "rfss_site sys = word_of_int (sy_sys_rfss sys * 10000 + sy_sys_site_id sys)"

definition multi_site :: "System_impl \<Rightarrow> TrunkMessage \<Rightarrow> System_impl \<Rightarrow> Call \<Rightarrow> bool" where
  "multi_site sys m call_sys c \<longleftrightarrow>
     cl_talkgroup c = tm_talkgroup m \<and> sy_sys_num call_sys \<noteq> tm_sys_num m
     \<and> sy_multiSite call_sys \<and> sy_multiSite sys \<and> sy_wacn call_sys = sy_wacn sys"

definition compare_sites :: "System_impl \<Rightarrow> TrunkMessage \<Rightarrow> System_impl \<Rightarrow> Call \<Rightarrow> bool \<times> bool" where
  "compare_sites sys m call_sys c =
     (let message_nac = preferred_nac sys (tm_talkgroup m);
          call_nac = preferred_nac call_sys (tm_talkgroup m)
      in if \<not> multi_site sys m call_sys c then (False, False)
         else if rfss_site sys \<noteq> rfss_site call_sys \<and> sy_multiSiteSystemName call_sys = [] then
           if cl_state c = RECORDING then
             (True, call_nac \<noteq> sy_nac call_sys \<and> message_nac = sy_nac sys
                  \<or> call_nac \<noteq> rfss_site call_sys \<and> message_nac = rfss_site sys)
           else (False, False)
         else if sy_multiSiteSystemName call_sys \<noteq> []
                 \<and> sy_multiSiteSystemName call_sys = sy_multiSiteSystemName sys then
           if cl_state c = RECORDING then
             (True, sy_multiSiteSystemNumber call_sys \<noteq> 0 \<and> sy_multiSiteSystemNumber sys \<noteq> 0
                  \<and> call_nac \<noteq> sy_multiSiteSystemNumber call_sys \<and> message_nac = sy_multiSiteSystemNumber sys)
           else (False, False)
         else (False, False))"

text \<open>
  The loop of \<open>handle_call_grant\<close> over the calls: \<open>original\<close> is the position of the last duplicate,
  \<open>superseding\<close> is set by any of them.
\<close>

record grant_state =
  gr_found :: bool
  gr_superseding :: bool
  gr_original :: "nat option"

definition update_call_at :: "menv \<Rightarrow> TrunkMessage \<Rightarrow> nat \<Rightarrow> World \<Rightarrow> World" where
  "update_call_at env m i w =
     (let (updated, c, w) = call_update env m (w_calls w ! i) w
      in emit (if updated then [Call_Start (cl_call_num c)] else []) (w\<lparr>w_calls := (w_calls w)[i := c]\<rparr>))"

definition grant_call :: "menv \<Rightarrow> System_impl \<Rightarrow> TrunkMessage \<Rightarrow> nat \<Rightarrow> grant_state \<times> World \<Rightarrow> grant_state \<times> World" where
  "grant_call env sys m i gw =
     (let (g, w) = gw;
          c = w_calls w ! i;
          (dup, super) = compare_sites sys m (sys_of w c) c;
          g = g\<lparr>gr_superseding := (gr_superseding g \<or> super), gr_original := (if dup then Some i else gr_original g)\<rparr>
      in if matches_message w m c then (g\<lparr>gr_found := True\<rparr>, update_call_at env m i w) else (g, w))"

definition grant_scan :: "menv \<Rightarrow> System_impl \<Rightarrow> TrunkMessage \<Rightarrow> World \<Rightarrow> grant_state \<times> World" where
  "grant_scan env sys m w =
     fold (grant_call env sys m) [0..<length (w_calls w)]
       (\<lparr>gr_found = False, gr_superseding = False, gr_original = None\<rparr>, w)"

text \<open>The original call is stopped and concluded, and stays in the vector.\<close>

definition supersede :: "menv \<Rightarrow> nat option \<Rightarrow> World \<Rightarrow> World option" where
  "supersede env original w =
     do { j \<leftarrow> original;
          let c = (w_calls w ! j)\<lparr>cl_state := MONITORING, cl_monitoringState := SUPERSEDED\<rparr>;
          (c, w) \<leftarrow> call_conclude env (sys_of w c) c w;
          Some (w\<lparr>w_calls := (w_calls w)[j := c]\<rparr>) }"

text \<open>
  The new call with its tag, then the three ways on: superseding, duplicate, or a plain grant.
\<close>

definition make_grant_call :: "menv \<Rightarrow> TrunkMessage \<Rightarrow> sys_ref \<Rightarrow> World \<Rightarrow> Call \<times> World" where
  "make_grant_call env m s w =
     (let (c, es) = new_call (me_now env) (w_call_counter w) m s;
          talkgroup = find_talkgroup (w_systems w ! s) (cl_talkgroup c)
      in (set_talkgroup_tag (tag_of talkgroup) c, emit es (w\<lparr>w_call_counter := w_call_counter w + 1\<rparr>)))"

definition start_grant :: "menv \<Rightarrow> System_impl \<Rightarrow> grant_state \<Rightarrow> Call \<Rightarrow> World \<Rightarrow> (Call \<times> World) option" where
  "start_grant env sys g c w =
     (if gr_superseding g then
        let (started, c, w) = start_recorder env sys c w
        in if started then do { w \<leftarrow> supersede env (gr_original g) w; Some (c, w) } else Some (c, w)
      else if gr_original g \<noteq> None then
        Some (c\<lparr>cl_state := MONITORING, cl_monitoringState := DUPLICATE\<rparr>, w)
      else let (started, c, w) = start_recorder env sys c w in Some (c, w))"

definition push_call :: "Call \<Rightarrow> World \<Rightarrow> World" where
  "push_call c w = emit [Call_Start (cl_call_num c), Calls_Active] (w\<lparr>w_calls := w_calls w @ [c]\<rparr>)"

definition handle_call_grant :: "menv \<Rightarrow> TrunkMessage \<Rightarrow> sys_ref \<Rightarrow> World \<Rightarrow> World option" where
  "handle_call_grant env m s w =
     (let (g, w) = grant_scan env (w_systems w ! s) m w
      in if gr_found g then Some w
         else let (c, w) = make_grant_call env m s w
              in do { (c, w) \<leftarrow> start_grant env (w_systems w ! s) g c w; Some (push_call c w) })"

definition handle_call_update :: "menv \<Rightarrow> TrunkMessage \<Rightarrow> World \<Rightarrow> World" where
  "handle_call_update env m w =
     fold (\<lambda>i w. if matches_message w m (w_calls w ! i) then update_call_at env m i w else w)
       [0..<length (w_calls w)] w"

section \<open>Messages\<close>

definition set_sys :: "sys_ref \<Rightarrow> System_impl \<Rightarrow> World \<Rightarrow> World" where
  "set_sys s sys w = w\<lparr>w_systems := (w_systems w)[s := sys]\<rparr>"

definition current_system_status :: "TrunkMessage \<Rightarrow> sys_ref \<Rightarrow> World \<Rightarrow> World" where
  "current_system_status m s w =
     (let (changed, sys) = update_status m (w_systems w ! s)
      in emit (if changed then [Setup_System s] else []) (set_sys s sys w))"

definition current_system_sysid :: "TrunkMessage \<Rightarrow> sys_ref \<Rightarrow> World \<Rightarrow> World" where
  "current_system_sysid m s w =
     (if sy_system_type (w_systems w ! s) \<in> {''p25'', ''conventionalP25''} then
        let (changed, sys) = update_sysid m (w_systems w ! s)
        in emit (if changed then [Setup_System s] else []) (set_sys s sys w)
      else w)"

fun handle_one :: "menv \<Rightarrow> MessageType \<Rightarrow> TrunkMessage \<Rightarrow> sys_ref \<Rightarrow> World \<Rightarrow> World option" where
  "handle_one env GRANT m s w = handle_call_grant env m s w"
| "handle_one env UPDATE m s w =
     (if cfg_new_call_from_update (me_config env) then handle_call_grant env m s w
      else Some (handle_call_update env m w))"
| "handle_one env UU_V_GRANT m s w =
     (if cfg_record_uu_v_calls (me_config env) then handle_call_grant env m s w else Some w)"
| "handle_one env UU_V_UPDATE m s w =
     (if cfg_record_uu_v_calls (me_config env) then Some (handle_call_update env m w) else Some w)"
| "handle_one env CONTROL_CHANNEL m s w = Some (set_sys s (add_control_channel (tm_freq m) (w_systems w ! s)) w)"
| "handle_one env REGISTRATION m s w = Some (emit [Unit_Registration s (tm_source m)] w)"
| "handle_one env DEREGISTRATION m s w = Some (emit [Unit_Deregistration s (tm_source m)] w)"
| "handle_one env AFFILIATION m s w = Some (emit [Unit_Group_Affiliation s (tm_source m) (tm_talkgroup m)] w)"
| "handle_one env SYSID m s w = Some (current_system_sysid m s w)"
| "handle_one env STATUS m s w = Some (current_system_status m s w)"
| "handle_one env LOCATION m s w = Some (emit [Unit_Location s (tm_source m) (tm_talkgroup m)] w)"
| "handle_one env ACKNOWLEDGE m s w = Some (emit [Unit_Acknowledge s (tm_source m)] w)"
| "handle_one env PATCH_ADD m s w =
     Some (set_sys s (update_active_talkgroup_patches (me_now env) (tm_patch_data m) (w_systems w ! s)) w)"
| "handle_one env PATCH_DELETE m s w =
     Some (set_sys s (delete_talkgroup_patch (tm_patch_data m) (w_systems w ! s)) w)"
| "handle_one env DATA_GRANT m s w = Some (emit [Unit_Data_Grant s (tm_source m)] w)"
| "handle_one env UU_ANS_REQ m s w = Some (emit [Unit_Answer_Request s (tm_source m) (tm_talkgroup m)] w)"
| "handle_one env UNKNOWN m s w = Some w"

fun handle_message :: "menv \<Rightarrow> TrunkMessage list \<Rightarrow> sys_ref \<Rightarrow> World \<Rightarrow> World option" where
  "handle_message env [] s w = Some w"
| "handle_message env (m # ms) s w = handle_one env (tm_message_type m) m s w \<bind> handle_message env ms s"

definition find_system :: "int \<Rightarrow> World \<Rightarrow> System_impl option" where
  "find_system n w = List.find (\<lambda>sys. sy_sys_num sys = n) (w_systems w)"

end
