(* ===== verification/Main_Control.thy ===== *)
theory Main_Control
  imports Main_Loop P25_Parser
begin

text \<open>
  The rest of the main loop (\<open>trunk-recorder/main.cc\<close>): following the control channels, one turn of
  the loop, the exit, and the set-up of conventional channels and systems.

  The GNU Radio blocks that demodulate a control channel are left out; a retune returns the
  frequency and the source the decoder of the system listens to afterwards.
\<close>

section \<open>Control channels\<close>

definition first_covering :: "double \<Rightarrow> Source list \<Rightarrow> nat option" where
  "first_covering f sources = List.find (\<lambda>i. covers (sources ! i) f) [0..<length sources]"

definition retune_system :: "sys_ref \<Rightarrow> World \<Rightarrow> ((double \<times> nat) option \<times> World) option" where
  "retune_system s w =
     do { let sys = w_systems w ! s;
          (f, sys) \<leftarrow> get_next_control_channel sys;
          current \<leftarrow> sy_source sys;
          let known = sy_system_type sys \<in> {''smartnet'', ''p25''};
          if covers (w_sources w ! current) f
          then Some (if known then Some (f, current) else None, set_sys s sys w)
          else case first_covering f (w_sources w) of
                 Some i \<Rightarrow> Some (if known then Some (f, i) else None,
                             set_sys s (if known then sys\<lparr>sy_source := Some i\<rparr> else sys) w)
               | None \<Rightarrow> Some (None, set_sys s sys w) }"

text \<open>
  \<open>check_message_count\<close>: \<open>rate\<close> is the number of messages divided by the seconds passed, a quotient
  of small numbers, rounded down. The limit on retunes leaves the function at once.
\<close>

definition is_conventional_type :: "string \<Rightarrow> bool" where
  "is_conventional_type t \<longleftrightarrow> t \<in> {''conventional'', ''conventionalP25'', ''conventionalDMR''}"

datatype check_result = Go_On World | Terminate_Program World

fun check_world :: "check_result \<Rightarrow> World" where
  "check_world (Go_On w) = w" | "check_world (Terminate_Program w) = w"

definition reset_message_count :: "sys_ref \<Rightarrow> World \<Rightarrow> World" where
  "reset_message_count s w = set_sys s ((w_systems w ! s)\<lparr>sy_message_count := 0\<rparr>) w"

definition check_system :: "menv \<Rightarrow> rat \<Rightarrow> sys_ref \<Rightarrow> World \<Rightarrow> check_result option" where
  "check_system env seconds s w =
     (let sys = w_systems w ! s
      in if is_conventional_type (sy_system_type sys) then Some (Go_On (reset_message_count s w))
         else
           let rate = \<lfloor>of_int (sy_message_count sys) / seconds\<rfloor>;
               sys = sys\<lparr>sy_decode_rate := rate\<rparr>;
               limit = cfg_control_retune_limit (me_config env)
           in if rate < 2 then
                let sys = (if limit > 0 then sys\<lparr>sy_retune_attempts := sy_retune_attempts sys + 1\<rparr> else sys);
                    w = set_sys s sys w
                in if limit > 0 \<and> sy_retune_attempts sys > limit
                   then Some (Terminate_Program (w\<lparr>w_exit_flag := True\<rparr>))
                   else if control_channel_count sys > 1
                   then map_option (\<lambda>(_, w). Go_On (reset_message_count s w)) (retune_system s w)
                   else Some (Go_On (reset_message_count s w))
              else Some (Go_On (reset_message_count s (set_sys s (sys\<lparr>sy_retune_attempts := 0\<rparr>) w))))"

fun check_systems :: "menv \<Rightarrow> rat \<Rightarrow> sys_ref list \<Rightarrow> World \<Rightarrow> World option" where
  "check_systems env seconds [] w = Some w"
| "check_systems env seconds (s # ss) w =
     do { r \<leftarrow> check_system env seconds s w;
          case r of Terminate_Program w \<Rightarrow> Some w | Go_On w \<Rightarrow> check_systems env seconds ss w }"

definition check_message_count :: "menv \<Rightarrow> rat \<Rightarrow> World \<Rightarrow> World option" where
  "check_message_count env seconds w =
     check_systems env seconds [0..<length (w_systems w)] (emit [Setup_Config, System_Rates] w)"

section \<open>One turn of the loop\<close>

text \<open>
  The messages waiting in the queue of a system, one after the other; \<open>parse\<close> is the parser of its
  type with the state \<open>p\<close>.
\<close>

fun poll_system ::
  "menv \<Rightarrow> ('p \<Rightarrow> 'm \<Rightarrow> System_impl \<Rightarrow> ('p \<times> TrunkMessage list) option) \<Rightarrow> sys_ref \<Rightarrow> 'm list \<Rightarrow> 'p \<times> World
     \<Rightarrow> ('p \<times> World) option" where
  "poll_system env parse s [] pw = Some pw"
| "poll_system env parse s (m # ms) (p, w) =
     do { let sys = w_systems w ! s;
          let sys = sys\<lparr>sy_message_count := sy_message_count sys + 1\<rparr>;
          let w = set_sys s sys w;
          (p, trunk_messages) \<leftarrow> parse p m sys;
          w \<leftarrow> handle_message env trunk_messages s w;
          poll_system env parse s ms (p, emit [Trunk_Messages s trunk_messages] w) }"

text \<open>The exit: every call that is not merely monitored is concluded, and all are removed.\<close>

fun conclude_all :: "menv \<Rightarrow> Call list \<Rightarrow> World \<Rightarrow> World option" where
  "conclude_all env [] w = Some w"
| "conclude_all env (c # cs) w =
     (if cl_state c \<noteq> MONITORING
      then do { (c, w) \<leftarrow> call_conclude env (sys_of w c) c w; conclude_all env cs w }
      else conclude_all env cs w)"

definition exit_loop :: "menv \<Rightarrow> World \<Rightarrow> World option" where
  "exit_loop env w = map_option (\<lambda>w. w\<lparr>w_calls := []\<rparr>) (conclude_all env (w_calls w) w)"

record loop_times =
  lt_management :: int
  lt_decode_rate :: int

text \<open>The part of a turn that follows the clock; \<open>jitter\<close> feeds the retries of the concluder.\<close>

definition clear_patches :: "menv \<Rightarrow> World \<Rightarrow> World" where
  "clear_patches env w =
     w\<lparr>w_systems := map (\<lambda>sys. if sy_system_type sys = ''p25''
        then clear_stale_talkgroup_patches (me_now env) sys else sys) (w_systems w)\<rparr>"

definition timed_work :: "menv \<Rightarrow> (nat \<Rightarrow> int) \<Rightarrow> loop_times \<Rightarrow> World \<Rightarrow> (loop_times \<times> World) option" where
  "timed_work env jitter lt w =
     do { let now = me_now env;
          (lt, w) \<leftarrow>
            (if now - lt_management lt \<ge> 1 then
               do { w \<leftarrow> manage_calls env w;
                    Some (lt\<lparr>lt_management := now\<rparr>,
                      w\<lparr>w_concluder := manage_call_data_workers now jitter (w_concluder w)\<rparr>) }
             else Some (lt, w));
          if now - lt_decode_rate lt \<ge> 3 then
            do { w \<leftarrow> check_message_count env (of_int (now - lt_decode_rate lt)) w;
                 Some (lt\<lparr>lt_decode_rate := now\<rparr>, clear_patches env w) }
          else Some (lt, w) }"

section \<open>Set-up\<close>

text \<open>What the recorder classes make, per reference.\<close>

record factory =
  fac_analog :: "rec_ref \<Rightarrow> Recorder"
  fac_p25 :: "rec_ref \<Rightarrow> Recorder"
  fac_dmr :: "rec_ref \<Rightarrow> Recorder"

text \<open>The call of a conventional channel; with a channel file it is the first channel of that frequency.\<close>

definition channel_call :: "menv \<Rightarrow> sys_ref \<Rightarrow> System_impl \<Rightarrow> double \<Rightarrow> int \<Rightarrow> World \<Rightarrow> Call option" where
  "channel_call env s sys frequency channel_index w =
     (if has_channel_file sys then
        map_option (\<lambda>tg. set_talkgroup_tag (tg_alpha_tag tg)
            (new_conventional_call (me_now env) (w_call_counter w) (tg_number tg) (tg_freq tg) s))
          (find_talkgroup_by_freq sys frequency)
      else Some (new_conventional_call (me_now env) (w_call_counter w) channel_index frequency s))"

definition put_recorder ::
  "(rec_ref \<times> recorders) \<times> Source \<Rightarrow> nat \<Rightarrow> World \<Rightarrow> World" where
  "put_recorder r k w = w\<lparr>w_recorders := fst r, w_sources := (w_sources w)[k := snd r]\<rparr>"

definition add_channel ::
  "menv \<Rightarrow> factory \<Rightarrow> sys_ref \<Rightarrow> nat \<Rightarrow> Call \<Rightarrow> World \<Rightarrow> World" where
  "add_channel env fac s k c w =
     (let sys = w_systems w ! s; so = w_sources w ! k; i = fst (w_recorders w)
      in if sy_system_type sys = ''conventional'' then
           let w = put_recorder (create_conventional_recorder (fac_analog fac) (w_recorders w) so) k w;
               w = set_rec i (snd (rec_start (me_sink env) (me_config env) sys c (w_recs w i))) w;
               c = c\<lparr>cl_is_analog := True, cl_recorder := Some i, cl_state := RECORDING\<rparr>
           in emit [Setup_Recorder i, Call_Start (cl_call_num c)]
                (w\<lparr>w_calls := w_calls w @ [c],
                   w_systems := (w_systems w)[s := sys\<lparr>sy_conventional_recorders := sy_conventional_recorders sys @ [i]\<rparr>]\<rparr>)
         else if sy_system_type sys = ''conventionalDMR'' then
           let w = put_recorder (create_dmr_conventional_recorder (fac_dmr fac) (w_recorders w) so) k w
           in w\<lparr>w_calls := w_calls w @ [c\<lparr>cl_recorder := Some i\<rparr>],
                w_systems := (w_systems w)[s := sys\<lparr>sy_conventionalDMR_recorders := sy_conventionalDMR_recorders sys @ [i]\<rparr>]\<rparr>
         else
           let w = put_recorder (create_digital_conventional_recorder (fac_p25 fac) (w_recorders w) so) k w
           in w\<lparr>w_calls := w_calls w @ [c\<lparr>cl_recorder := Some i\<rparr>],
                w_systems := (w_systems w)[s := sys\<lparr>sy_conventionalP25_recorders := sy_conventionalP25_recorders sys @ [i]\<rparr>]\<rparr>)"

definition setup_convetional_channel ::
  "menv \<Rightarrow> factory \<Rightarrow> sys_ref \<Rightarrow> double \<Rightarrow> int \<Rightarrow> World \<Rightarrow> (bool \<times> World) option" where
  "setup_convetional_channel env fac s frequency channel_index w =
     (let sys = w_systems w ! s
      in case first_covering frequency (w_sources w) of
           None \<Rightarrow> Some (False, w)
         | Some k \<Rightarrow>
             if sy_squelch_db sys = -160 then Some (False, w)
             else do { c \<leftarrow> channel_call env s sys frequency channel_index w;
                       Some (True, add_channel env fac s k c (w\<lparr>w_call_counter := w_call_counter w + 1\<rparr>)) })"

fun setup_channels ::
  "menv \<Rightarrow> factory \<Rightarrow> sys_ref \<Rightarrow> (double \<times> int) list \<Rightarrow> World \<Rightarrow> (bool \<times> World) option" where
  "setup_channels env fac s [] w = Some (False, w)"
| "setup_channels env fac s ((f, n) # chs) w =
     do { (added, w) \<leftarrow> setup_convetional_channel env fac s f n w;
          (more, w) \<leftarrow> setup_channels env fac s chs w;
          Some (added \<or> more, w) }"

definition setup_conventional_system :: "menv \<Rightarrow> factory \<Rightarrow> sys_ref \<Rightarrow> World \<Rightarrow> (bool \<times> World) option" where
  "setup_conventional_system env fac s w =
     (let sys = w_systems w ! s
      in setup_channels env fac s
           (if has_channel_file sys then map (\<lambda>tg. (tg_freq tg, tg_number tg)) (sy_talkgroups sys)
            else zip (sy_channels sys) (map int [1..<Suc (length (sy_channels sys))])) w)"

text \<open>The answer for conventional systems is not looked at.\<close>

fun setup_systems :: "menv \<Rightarrow> factory \<Rightarrow> sys_ref list \<Rightarrow> World \<Rightarrow> (bool \<times> World) option" where
  "setup_systems env fac [] w = Some (True, w)"
| "setup_systems env fac (s # ss) w =
     (let sys = w_systems w ! s
      in if is_conventional_type (sy_system_type sys) then
           do { (_, w) \<leftarrow> setup_conventional_system env fac s w; setup_systems env fac ss w }
         else
           do { f \<leftarrow> get_current_control_channel sys;
                case first_covering f (w_sources w) of
                  Some k \<Rightarrow> setup_systems env fac ss (set_sys s (sys\<lparr>sy_source := Some k\<rparr>) w)
                | None \<Rightarrow> Some (False, w) })"

end
