(* ===== verification/World_Invariant.thy ===== *)
theory World_Invariant
  imports Main_Control Recorder_Properties Concluder_Properties
begin

text \<open>
  The invariant of the running program: a recorder of the trunking pool is taken exactly when one
  call in the vector is recording with it. One lemma per operation shows what it does to the
  calls, the recorders and the sources.
\<close>

section \<open>What an operation on a call leaves alone\<close>

text \<open>The identity of a call, and what it holds.\<close>

definition ident :: "Call \<Rightarrow> bool \<times> int \<times> int \<times> double \<times> sys_ref \<times> int \<times> bool" where
  "ident c = (cl_conventional c, cl_call_num c, cl_talkgroup c, cl_curr_freq c, cl_sys c, cl_tdma_slot c,
     cl_phase2_tdma c)"

definition hold :: "Call \<Rightarrow> State \<times> rec_ref option \<times> bool \<times> rec_ref option \<times> bool \<times> rec_ref option" where
  "hold c = (cl_state c, cl_recorder c, cl_debug_recording c, cl_debug_recorder c, cl_sigmf_recording c,
     cl_sigmf_recorder c)"

definition same_call :: "Call \<Rightarrow> Call \<Rightarrow> bool" where
  "same_call c c' \<longleftrightarrow> ident c' = ident c \<and> hold c' = hold c"

lemma same_call_refl [simp]: "same_call c c"
  by (simp add: same_call_def)

lemma same_call_trans: "same_call a b \<Longrightarrow> same_call b c \<Longrightarrow> same_call a c"
  by (simp add: same_call_def)

definition recs_equiv :: "recorders \<Rightarrow> recorders \<Rightarrow> bool" where
  "recs_equiv rs rs' \<longleftrightarrow>
     (\<forall>i. rec_get_state (rs' i) = rec_get_state (rs i) \<and> (rec_inv (rs i) \<longrightarrow> rec_inv (rs' i)))"

lemma recs_equiv_refl [simp]: "recs_equiv rs rs"
  by (simp add: recs_equiv_def)

lemma recs_equiv_trans: "recs_equiv a b \<Longrightarrow> recs_equiv b c \<Longrightarrow> recs_equiv a c"
  by (simp add: recs_equiv_def)

definition world_same :: "World \<Rightarrow> World \<Rightarrow> bool" where
  "world_same w w' \<longleftrightarrow>
     list_all2 same_call (w_calls w) (w_calls w') \<and> recs_equiv (w_recs w) (w_recs w')
     \<and> fst (w_recorders w') = fst (w_recorders w) \<and> w_systems w' = w_systems w \<and> w_sources w' = w_sources w
     \<and> w_call_counter w' = w_call_counter w \<and> w_concluder w' = w_concluder w"

lemma list_all2_same_refl [simp]: "list_all2 same_call cs cs"
  by (simp add: list.rel_refl)

lemma world_same_refl [simp]: "world_same w w"
  by (simp add: world_same_def)

lemma world_same_trans: "world_same a b \<Longrightarrow> world_same b c \<Longrightarrow> world_same a c"
  unfolding world_same_def by (auto intro: recs_equiv_trans list_all2_trans [OF same_call_trans])

lemma world_frame [simp]:
  "w_calls (set_rec i r w) = w_calls w" "w_systems (set_rec i r w) = w_systems w"
  "w_sources (set_rec i r w) = w_sources w" "fst (w_recorders (set_rec i r w)) = fst (w_recorders w)"
  "w_recs (set_rec i r w) = (w_recs w)(i := r)" "w_call_counter (set_rec i r w) = w_call_counter w"
  "w_concluder (set_rec i r w) = w_concluder w"
  "w_calls (emit es w) = w_calls w" "w_systems (emit es w) = w_systems w" "w_sources (emit es w) = w_sources w"
  "w_recorders (emit es w) = w_recorders w" "w_call_counter (emit es w) = w_call_counter w"
  "w_concluder (emit es w) = w_concluder w"
  "w_calls (set_sys s sys w) = w_calls w" "w_systems (set_sys s sys w) = (w_systems w)[s := sys]"
  "w_sources (set_sys s sys w) = w_sources w" "w_recorders (set_sys s sys w) = w_recorders w"
  "w_call_counter (set_sys s sys w) = w_call_counter w" "w_concluder (set_sys s sys w) = w_concluder w"
  by (simp_all add: set_rec_def emit_def set_sys_def)

section \<open>The invariant\<close>

definition trunk :: "Source list \<Rightarrow> rec_ref set" where
  "trunk sources = (\<Union>so \<in> set sources. set (so_digital_recorders so) \<union> set (so_analog_recorders so))"

definition records :: "Call \<Rightarrow> bool" where
  "records c \<longleftrightarrow> \<not> cl_conventional c \<and> cl_state c = RECORDING"

definition held :: "Call list \<Rightarrow> rec_ref list" where
  "held cs = map (\<lambda>c. the (cl_recorder c)) (filter records cs)"

definition outside :: "rec_ref set \<Rightarrow> bool \<Rightarrow> rec_ref option \<Rightarrow> bool" where
  "outside T b ref \<longleftrightarrow> (b \<longrightarrow> (\<exists>i. ref = Some i \<and> i \<notin> T))"

definition call_ok :: "rec_ref set \<Rightarrow> nat \<Rightarrow> Call \<Rightarrow> bool" where
  "call_ok T n c \<longleftrightarrow> cl_sys c < n
     \<and> outside T (cl_debug_recording c) (cl_debug_recorder c) \<and> outside T (cl_sigmf_recording c) (cl_sigmf_recorder c)
     \<and> (if cl_conventional c then outside T True (cl_recorder c)
        else (cl_state c = RECORDING \<and> cl_recorder c \<noteq> None) \<or> cl_state c = MONITORING)"

definition calls_ok :: "rec_ref set \<Rightarrow> nat \<Rightarrow> recorders \<Rightarrow> Call list \<Rightarrow> bool" where
  "calls_ok T n rs cs \<longleftrightarrow> (\<forall>i \<in> T. rec_inv (rs i)) \<and> (\<forall>c \<in> set cs. call_ok T n c)
     \<and> distinct (held cs) \<and> set (held cs) = T \<inter> busy rec_get_state rs"

definition sources_ok :: "Source list \<Rightarrow> nat \<Rightarrow> bool" where
  "sources_ok sources n \<longleftrightarrow> trunk sources \<subseteq> {..<n}
     \<and> (\<forall>so \<in> set sources. (set (so_debug_recorders so) \<union> set (so_sigmf_recorders so)) \<inter> trunk sources = {})"

definition world_ok :: "World \<Rightarrow> bool" where
  "world_ok w \<longleftrightarrow> calls_ok (trunk (w_sources w)) (length (w_systems w)) (w_recs w) (w_calls w)
     \<and> sources_ok (w_sources w) (fst (w_recorders w))"

lemma same_call_fields:
  assumes "same_call c c'"
  shows "cl_conventional c' = cl_conventional c" "cl_call_num c' = cl_call_num c"
    "cl_talkgroup c' = cl_talkgroup c" "cl_curr_freq c' = cl_curr_freq c" "cl_sys c' = cl_sys c"
    "cl_tdma_slot c' = cl_tdma_slot c" "cl_phase2_tdma c' = cl_phase2_tdma c"
    "cl_state c' = cl_state c" "cl_recorder c' = cl_recorder c"
    "cl_debug_recording c' = cl_debug_recording c" "cl_debug_recorder c' = cl_debug_recorder c"
    "cl_sigmf_recording c' = cl_sigmf_recording c" "cl_sigmf_recorder c' = cl_sigmf_recorder c"
  using assms unfolding same_call_def ident_def hold_def prod.inject by blast+

lemma same_call_simps:
  assumes "same_call c c'"
  shows "cl_conventional c' = cl_conventional c" "cl_sys c' = cl_sys c"
    "cl_state c' = cl_state c" "cl_recorder c' = cl_recorder c" "records c' = records c"
    "call_ok T n c' = call_ok T n c" "call_key num c' = call_key num c"
  unfolding records_def call_ok_def call_key_def same_call_fields [OF assms] by (rule refl)+

lemma held_same: "list_all2 same_call cs cs' \<Longrightarrow> held cs' = held cs"
  by (induction rule: list_all2_induct) (auto simp: held_def same_call_simps)

lemma ball_same: "list_all2 same_call cs cs' \<Longrightarrow> (\<forall>c \<in> set cs'. call_ok T n c) \<longleftrightarrow> (\<forall>c \<in> set cs. call_ok T n c)"
  by (induction rule: list_all2_induct) (simp_all add: same_call_simps)

lemma busy_equiv: "recs_equiv rs rs' \<Longrightarrow> busy rec_get_state rs' = busy rec_get_state rs"
  by (simp add: recs_equiv_def busy_def)

lemma calls_ok_same:
  assumes "calls_ok T n rs cs" "recs_equiv rs rs'" "list_all2 same_call cs cs'"
  shows "calls_ok T n rs' cs'"
proof -
  have "\<forall>c \<in> set cs'. call_ok T n c"
    using assms(3) assms(1) [unfolded calls_ok_def]
    by (simp add: ball_same)
  moreover have "\<forall>i \<in> T. rec_inv (rs' i)" using assms(1,2) by (simp add: calls_ok_def recs_equiv_def)
  ultimately show ?thesis
    using assms(1) by (simp add: calls_ok_def held_same [OF assms(3)] busy_equiv [OF assms(2)])
qed

lemma world_ok_same: "world_ok w \<Longrightarrow> world_same w w' \<Longrightarrow> world_ok w'"
  unfolding world_ok_def world_same_def by (auto intro: calls_ok_same)

text \<open>Adding a call, and replacing the one at a position.\<close>

lemma held_append [simp]: "held (cs @ [c]) = held cs @ (if records c then [the (cl_recorder c)] else [])"
  by (simp add: held_def)

lemma held_Cons [simp]: "held (c # cs) = (if records c then [the (cl_recorder c)] else []) @ held cs"
  by (simp add: held_def)

lemma held_Nil [simp]: "held [] = []"
  by (simp add: held_def)

section \<open>Sources of a call\<close>

lemma recs_equiv_source: "recs_equiv rs (rs(i := rec_set_source src (rs i)))"
  by (simp add: recs_equiv_def rec_set_source_ok)

lemma add_source_same:
  assumes "add_source src c w = (b, c', w')"
  shows "same_call c c' \<and> w_calls w' = w_calls w \<and> world_same w w'"
proof -
  have "same_call c (c\<lparr>cl_curr_src_id := src\<rparr>)" by (simp add: same_call_def ident_def hold_def)
  then show ?thesis
    using assms recs_equiv_source
    by (auto simp: add_source_def Let_def world_same_def split: if_splits option.splits)
qed

lemma call_update_same:
  assumes "call_update env m c w = (b, c', w')"
  shows "same_call c c' \<and> w_calls w' = w_calls w \<and> world_same w w'"
proof -
  have "same_call c (c\<lparr>cl_last_update := me_now env\<rparr>)" by (simp add: same_call_def ident_def hold_def)
  then show ?thesis
    using assms add_source_same [of "tm_source m" "c\<lparr>cl_last_update := me_now env\<rparr>" w b c' w']
    by (auto simp: call_update_def Let_def split: if_splits intro: same_call_trans)
qed

lemma list_all2_update_same:
  "i < length cs \<Longrightarrow> same_call (cs ! i) c \<Longrightarrow> list_all2 same_call cs (cs[i := c])"
  by (simp add: list_all2_conv_all_nth nth_list_update)

lemma update_call_at_same:
  assumes "i < length (w_calls w)"
  shows "world_same w (update_call_at env m i w)"
proof -
  obtain b c' w' where u: "call_update env m (w_calls w ! i) w = (b, c', w')" by (rule prod_cases3)
  note s = call_update_same [OF u]
  then show ?thesis
    using assms list_all2_update_same [of i "w_calls w" c']
    by (simp add: update_call_at_def u world_same_def emit_def)
qed

lemma world_same_length: "world_same w w' \<Longrightarrow> length (w_calls w') = length (w_calls w)"
  unfolding world_same_def by (metis list_all2_lengthD)

lemma world_same_nth: "world_same w w' \<Longrightarrow> i < length (w_calls w) \<Longrightarrow> same_call (w_calls w ! i) (w_calls w' ! i)"
  by (simp add: world_same_def list_all2_conv_all_nth)

lemma handle_call_update_same: "world_same w (handle_call_update env m w)"
proof -
  have "world_same w w' \<Longrightarrow> set is \<subseteq> {..<length (w_calls w)} \<Longrightarrow>
    world_same w (fold (\<lambda>i w. if matches_message w m (w_calls w ! i) then update_call_at env m i w else w) is w')"
    for "is" w'
  proof (induction "is" arbitrary: w')
    case (Cons i "is")
    have "world_same w (if matches_message w' m (w_calls w' ! i) then update_call_at env m i w' else w')"
      using Cons.prems update_call_at_same [of i w'] by (auto intro: world_same_trans simp: world_same_length)
    with Cons show ?case by simp
  qed simp
  from this [of w "[0..<length (w_calls w)]"] show ?thesis by (simp add: handle_call_update_def atLeast_upt lessThan_def subset_iff)
qed

section \<open>The scan of a grant\<close>

lemma matches_same:
  assumes "same_call c c'" "w_systems w' = w_systems w"
  shows "matches_message w' m c' \<longleftrightarrow> matches_message w m c"
  by (simp add: matches_message_def sys_of_def assms(2) same_call_fields [OF assms(1)])

lemma compare_sites_same:
  assumes "same_call c c'"
  shows "compare_sites sys m call_sys c' = compare_sites sys m call_sys c"
  unfolding compare_sites_def multi_site_def same_call_fields [OF assms] ..

lemma compare_sites_recording:
  "fst (compare_sites sys m call_sys c) \<Longrightarrow> cl_state c = RECORDING"
  "snd (compare_sites sys m call_sys c) \<Longrightarrow> fst (compare_sites sys m call_sys c)"
  by (auto simp: compare_sites_def Let_def split: if_splits)

definition compare_at :: "System_impl \<Rightarrow> TrunkMessage \<Rightarrow> World \<Rightarrow> nat \<Rightarrow> bool \<times> bool" where
  "compare_at sys m w i = compare_sites sys m (sys_of w (w_calls w ! i)) (w_calls w ! i)"

lemma grant_fold:
  assumes "world_same w w'" "set is \<subseteq> {..<length (w_calls w)}"
  shows "world_same w (snd (fold (grant_call env sys m) is (g, w')))
    \<and> gr_found (fst (fold (grant_call env sys m) is (g, w')))
        = (gr_found g \<or> (\<exists>i \<in> set is. matches_message w m (w_calls w ! i)))
    \<and> gr_superseding (fst (fold (grant_call env sys m) is (g, w')))
        = (gr_superseding g \<or> (\<exists>i \<in> set is. snd (compare_at sys m w i)))
    \<and> gr_original (fst (fold (grant_call env sys m) is (g, w')))
        = (let js = filter (\<lambda>i. fst (compare_at sys m w i)) is in if js = [] then gr_original g else Some (last js))"
  using assms
proof (induction "is" arbitrary: g w')
  case (Cons i "is")
  have i: "i < length (w_calls w)" using Cons.prems by simp
  note same = world_same_nth [OF Cons.prems(1) i]
  have sys: "w_systems w' = w_systems w" using Cons.prems(1) by (simp add: world_same_def)
  have so: "sys_of w' (w_calls w' ! i) = sys_of w (w_calls w ! i)"
    by (simp add: sys_of_def sys same_call_simps(2) [OF same])
  have m: "matches_message w' m (w_calls w' ! i) = matches_message w m (w_calls w ! i)"
    by (rule matches_same [OF same sys])
  obtain dup super where cmp: "compare_at sys m w i = (dup, super)" by fastforce
  define g1 where "g1 = g\<lparr>gr_superseding := (gr_superseding g \<or> super),
      gr_original := (if dup then Some i else gr_original g)\<rparr>"
  have step: "grant_call env sys m i (g, w') =
      (if matches_message w m (w_calls w ! i) then (g1\<lparr>gr_found := True\<rparr>, update_call_at env m i w') else (g1, w'))"
    using cmp by (simp add: grant_call_def compare_at_def compare_sites_same [OF same] so m g1_def Let_def)
  have after: "world_same w (update_call_at env m i w')"
    using Cons.prems i update_call_at_same [of i w'] by (auto intro: world_same_trans simp: world_same_length)
  have sub: "set is \<subseteq> {..<length (w_calls w)}" using Cons.prems by simp
  show ?case
  proof (cases "matches_message w m (w_calls w ! i)")
    case True
    with step Cons.IH [OF after sub, of "g1\<lparr>gr_found := True\<rparr>"] cmp show ?thesis
      by (auto simp: g1_def Let_def)
  next
    case False
    with step Cons.IH [OF Cons.prems(1) sub, of g1] cmp show ?thesis
      by (auto simp: g1_def Let_def)
  qed
qed simp

lemma grant_scan_spec:
  assumes "grant_scan env sys m w = (g, w')"
  shows "world_same w w'"
    and "gr_found g = (\<exists>c \<in> set (w_calls w). matches_message w m c)"
    and "gr_superseding g = (\<exists>i < length (w_calls w). snd (compare_at sys m w i))"
    and "gr_original g = (let js = filter (\<lambda>i. fst (compare_at sys m w i)) [0..<length (w_calls w)]
         in if js = [] then None else Some (last js))"
proof -
  note f = grant_fold [of w w "[0..<length (w_calls w)]" env sys m
      "\<lparr>gr_found = False, gr_superseding = False, gr_original = None\<rparr>", folded grant_scan_def,
      OF world_same_refl, unfolded assms fst_conv snd_conv grant_state.simps]
  have sub: "set [0..<length (w_calls w)] \<subseteq> {..<length (w_calls w)}" by auto
  show "world_same w w'" using f [OF sub] by blast
  show "gr_found g = (\<exists>c \<in> set (w_calls w). matches_message w m c)"
  proof -
    have "gr_found g = (\<exists>i \<in> set [0..<length (w_calls w)]. matches_message w m (w_calls w ! i))" using f [OF sub] by blast
    then show ?thesis by (metis (no_types, lifting) atLeastLessThan_iff in_set_conv_nth set_upt zero_le)
  qed
  show "gr_superseding g = (\<exists>i < length (w_calls w). snd (compare_at sys m w i))"
    using f [OF sub] by auto
  show "gr_original g = (let js = filter (\<lambda>i. fst (compare_at sys m w i)) [0..<length (w_calls w)]
         in if js = [] then None else Some (last js))"
    using f [OF sub] by blast
qed

lemma grant_original:
  assumes "grant_scan env sys m w = (g, w')"
  shows "gr_original g = Some j \<Longrightarrow> j < length (w_calls w) \<and> cl_state (w_calls w ! j) = RECORDING
       \<and> fst (compare_at sys m w j)"
    and "gr_superseding g \<Longrightarrow> gr_original g \<noteq> None"
proof -
  define js where "js = filter (\<lambda>i. fst (compare_at sys m w i)) [0..<length (w_calls w)]"
  have orig: "gr_original g = (if js = [] then None else Some (last js))"
    using grant_scan_spec(4) [OF assms] by (simp add: js_def Let_def)
  have js: "k < length (w_calls w) \<and> cl_state (w_calls w ! k) = RECORDING \<and> fst (compare_at sys m w k)"
    if "k \<in> set js" for k
    using that compare_sites_recording(1) by (auto simp: js_def compare_at_def)
  show "gr_original g = Some j \<Longrightarrow> j < length (w_calls w) \<and> cl_state (w_calls w ! j) = RECORDING \<and> fst (compare_at sys m w j)"
  proof -
    assume "gr_original g = Some j"
    then have "js \<noteq> []" "j = last js" using orig by (simp_all split: if_splits)
    then show ?thesis using js [OF last_in_set] by simp
  qed
  show "gr_superseding g \<Longrightarrow> gr_original g \<noteq> None"
  proof -
    assume "gr_superseding g"
    then obtain i where "i < length (w_calls w)" "snd (compare_at sys m w i)"
      using grant_scan_spec(3) [OF assms] by auto
    then have "i \<in> set js"
      using compare_sites_recording(2) by (auto simp: js_def compare_at_def)
    then show ?thesis using orig by auto
  qed
qed

section \<open>Starting a recorder\<close>

text \<open>An operation that touches nothing of the program but the recorders in \<open>R\<close>.\<close>

definition touches :: "rec_ref set \<Rightarrow> World \<Rightarrow> World \<Rightarrow> bool" where
  "touches R w w' \<longleftrightarrow> w_calls w' = w_calls w \<and> w_systems w' = w_systems w \<and> w_sources w' = w_sources w
     \<and> fst (w_recorders w') = fst (w_recorders w) \<and> w_call_counter w' = w_call_counter w
     \<and> (\<forall>i. i \<notin> R \<longrightarrow> w_recs w' i = w_recs w i)"

lemma touches_refl [simp]: "touches R w w"
  by (simp add: touches_def)

lemma touches_trans: "touches R a b \<Longrightarrow> touches R' b c \<Longrightarrow> touches (R \<union> R') a c"
  by (auto simp: touches_def)

lemma touches_mono: "touches R a b \<Longrightarrow> R \<subseteq> R' \<Longrightarrow> touches R' a b"
  by (auto simp: touches_def)

lemma touches_set_rec: "i \<in> R \<Longrightarrow> touches R w (set_rec i r w)"
  by (auto simp: touches_def)

lemma touches_emit [simp]: "touches R w (emit es w') = touches R w w'"
  by (simp add: touches_def)

text \<open>Recorders outside the pool do not matter to the invariant.\<close>

definition pool_same :: "rec_ref set \<Rightarrow> World \<Rightarrow> World \<Rightarrow> bool" where
  "pool_same T w w' \<longleftrightarrow> (\<forall>i \<in> T. w_recs w' i = w_recs w i)"

lemma touches_pool: "touches R w w' \<Longrightarrow> R \<inter> T = {} \<Longrightarrow> pool_same T w w'"
  by (auto simp: touches_def pool_same_def)

lemma pool_busy: "pool_same T w w' \<Longrightarrow> T \<inter> busy rec_get_state (w_recs w') = T \<inter> busy rec_get_state (w_recs w)"
  by (auto simp: pool_same_def busy_def)

lemma find_in_set: "List.find P xs = Some x \<Longrightarrow> x \<in> set xs \<and> P x"
  by (auto simp: find_Some_iff in_set_conv_nth)

lemma choose_recorder_spec:
  assumes "choose_recorder cfg sys rs so talkgroup c = (r, c')" and "cl_state c = MONITORING"
  shows "ident c' = ident c \<and> cl_state c' = MONITORING
    \<and> cl_debug_recording c' = cl_debug_recording c \<and> cl_sigmf_recording c' = cl_sigmf_recording c
    \<and> (\<forall>i. r = Some i \<longrightarrow> i \<in> set (so_digital_recorders so) \<union> set (so_analog_recorders so)
          \<and> rec_get_state (rs i) = AVAILABLE)"
  using assms
  by (auto simp: choose_recorder_def get_recorder_defs ident_def Let_def split: option.splits if_splits
      dest: find_in_set)

lemma start_debug_spec:
  assumes "start_debug env sys so c w = (c', w')" and "set (so_debug_recorders so) \<inter> T = {}"
    and "outside T (cl_debug_recording c) (cl_debug_recorder c)"
  shows "ident c' = ident c \<and> cl_state c' = cl_state c \<and> cl_recorder c' = cl_recorder c
    \<and> outside T (cl_debug_recording c') (cl_debug_recorder c')
    \<and> cl_sigmf_recording c' = cl_sigmf_recording c \<and> cl_sigmf_recorder c' = cl_sigmf_recorder c
    \<and> touches (set (so_debug_recorders so)) w w' \<and> w_concluder w' = w_concluder w"
proof (cases "get_debug_recorder (w_recs w) so")
  case None
  then show ?thesis using assms by (auto simp: start_debug_def)
next
  case (Some i)
  then have "i \<in> set (so_debug_recorders so)" by (auto simp: get_recorder_defs dest: find_in_set)
  then show ?thesis
    using assms(1,2) by (auto simp: start_debug_def Some ident_def outside_def touches_set_rec)
qed

lemma start_sigmf_spec:
  assumes "start_sigmf env sys so c w = (c', w')" and "set (so_sigmf_recorders so) \<inter> T = {}"
    and "outside T (cl_sigmf_recording c) (cl_sigmf_recorder c)"
  shows "ident c' = ident c \<and> cl_state c' = cl_state c \<and> cl_recorder c' = cl_recorder c
    \<and> outside T (cl_sigmf_recording c') (cl_sigmf_recorder c')
    \<and> cl_debug_recording c' = cl_debug_recording c \<and> cl_debug_recorder c' = cl_debug_recorder c
    \<and> touches (set (so_sigmf_recorders so)) w w' \<and> w_concluder w' = w_concluder w"
proof (cases "get_sigmf_recorder (w_recs w) so")
  case None
  then show ?thesis using assms by (auto simp: start_sigmf_def)
next
  case (Some i)
  then have "i \<in> set (so_sigmf_recorders so)" by (auto simp: get_recorder_defs dest: find_in_set)
  then show ?thesis
    using assms(1,2) by (auto simp: start_sigmf_def Some ident_def outside_def touches_set_rec)
qed

text \<open>
  What a call that is not recording yet becomes: recording on a recorder of the pool that was free
  and is now taken, or still only monitored with the pool as it was.
\<close>

definition started_call :: "rec_ref set \<Rightarrow> Call \<Rightarrow> World \<Rightarrow> bool \<Rightarrow> Call \<Rightarrow> World \<Rightarrow> bool" where
  "started_call T c w ok c' w' \<longleftrightarrow> ident c' = ident c \<and> touches UNIV w w' \<and> w_concluder w' = w_concluder w
     \<and> (\<forall>i \<in> T. rec_inv (w_recs w' i))
     \<and> outside T (cl_debug_recording c') (cl_debug_recorder c') \<and> outside T (cl_sigmf_recording c') (cl_sigmf_recorder c')
     \<and> (if ok
        then cl_state c' = RECORDING \<and> (\<exists>i \<in> T. cl_recorder c' = Some i \<and> i \<notin> busy rec_get_state (w_recs w)
               \<and> T \<inter> busy rec_get_state (w_recs w') = insert i (T \<inter> busy rec_get_state (w_recs w)))
        else cl_state c' = MONITORING
               \<and> T \<inter> busy rec_get_state (w_recs w') = T \<inter> busy rec_get_state (w_recs w))"

definition fresh_call :: "Call \<Rightarrow> bool" where
  "fresh_call c \<longleftrightarrow> cl_state c = MONITORING \<and> \<not> cl_debug_recording c \<and> \<not> cl_sigmf_recording c"

lemma not_started:
  assumes "ident c' = ident c" "cl_state c' = MONITORING" "\<not> cl_debug_recording c'" "\<not> cl_sigmf_recording c'"
    and "\<forall>i \<in> T. rec_inv (w_recs w i)"
  shows "started_call T c w False c' w"
  using assms by (simp add: started_call_def outside_def)

lemma try_sources_started:
  assumes "set sources \<subseteq> set (w_sources w)" "fresh_call c" "sources_ok (w_sources w) n"
    and "\<forall>i \<in> trunk (w_sources w). rec_inv (w_recs w i)"
    and "try_sources env sys talkgroup sources c w = (ok, c', w')"
  shows "started_call (trunk (w_sources w)) c w ok c' w'"
  using assms(1,5)
proof (induction sources)
  case Nil
  then show ?case
    using not_started [of "c\<lparr>cl_state := MONITORING, cl_monitoringState := NO_SOURCE\<rparr>" c "trunk (w_sources w)" w] assms(2,4)
    by (auto simp: fresh_call_def ident_def)
next
  case (Cons so sources)
  let ?T = "trunk (w_sources w)"
  show ?case
  proof (cases "covers so (cl_curr_freq c)")
    case False
    with Cons show ?thesis by simp
  next
    case True
    obtain r c1 where ch: "choose_recorder (me_config env) sys (w_recs w) so talkgroup c = (r, c1)" by fastforce
    have so: "so \<in> set (w_sources w)" using Cons.prems by simp
    have st: "cl_state c = MONITORING" using assms(2) by (simp add: fresh_call_def)
    note c1 = choose_recorder_spec [OF ch st]
    have fl: "\<not> cl_debug_recording c1" "\<not> cl_sigmf_recording c1" using c1 assms(2) by (simp_all add: fresh_call_def)
    show ?thesis
    proof (cases r)
      case None
      then show ?thesis
        using Cons.prems(2) True ch not_started [OF _ _ fl assms(4), of c] c1 by auto
    next
      case (Some i)
      have i: "i \<in> ?T" "i \<notin> busy rec_get_state (w_recs w)"
        using c1 Some so by (auto simp: trunk_def busy_def)
      obtain b rec1 where rs: "rec_start (me_sink env) (me_config env) sys c1 (w_recs w i) = (b, rec1)" by fastforce
      have inv: "rec_inv (w_recs w i)" using assms(4) i by blast
      have inv1: "rec_inv rec1" using any.start_inv [OF inv, of "(me_sink env, me_config env, sys, c1)"] rs by simp
      define w1 where "w1 = set_rec i rec1 w"
      have inv2: "\<forall>j \<in> ?T. rec_inv (w_recs w1 j)" using assms(4) inv1 by (simp add: w1_def)
      show ?thesis
      proof (cases b)
        case False
        have "busy rec_get_state ((w_recs w)(i := rec1)) = busy rec_get_state (w_recs w)"
          using any.busy_refused [of "w_recs w" i, OF inv, of "(me_sink env, me_config env, sys, c1)"] rs False by simp
        then show ?thesis
          using Cons.prems(2) True ch Some rs False c1 fl inv2
          by (auto simp: started_call_def outside_def w1_def touches_set_rec ident_def)
      next
        case True
        have busy1: "busy rec_get_state (w_recs w1) = insert i (busy rec_get_state (w_recs w))"
          using any.busy_started [of "w_recs w" i, OF inv, of "(me_sink env, me_config env, sys, c1)"] rs True by (simp add: w1_def)
        define c2 where "c2 = c1\<lparr>cl_recorder := Some i, cl_state := RECORDING\<rparr>"
        have c2: "ident c2 = ident c" "cl_state c2 = RECORDING" "cl_recorder c2 = Some i"
          "outside ?T (cl_debug_recording c2) (cl_debug_recorder c2)" "outside ?T (cl_sigmf_recording c2) (cl_sigmf_recorder c2)"
          using c1 fl by (simp_all add: c2_def ident_def outside_def)
        obtain c3 w3 where d: "start_debug env sys so c2 (emit [Setup_Recorder i] w1) = (c3, w3)" by fastforce
        obtain c4 w4 where g: "start_sigmf env sys so c3 w3 = (c4, w4)" by fastforce
        have out: "set (so_debug_recorders so) \<inter> ?T = {}" "set (so_sigmf_recorders so) \<inter> ?T = {}"
          using assms(3) so by (auto simp: sources_ok_def)
        note sd = start_debug_spec [OF d out(1) c2(4)]
        have "outside ?T (cl_sigmf_recording c3) (cl_sigmf_recorder c3)" using sd c2(5) by simp
        note ss = start_sigmf_spec [OF g out(2) this]
        have res: "ok = True" "c' = c4" "w' = w4"
          using Cons.prems(2) \<open>covers so (cl_curr_freq c)\<close> ch Some rs True d g
          by (simp_all add: c2_def w1_def)
        have t: "touches (set (so_debug_recorders so) \<union> set (so_sigmf_recorders so)) (emit [Setup_Recorder i] w1) w4"
          using sd ss touches_trans by blast
        then have p: "pool_same ?T (emit [Setup_Recorder i] w1) w4" using out by (intro touches_pool [OF t]) auto
        have inv4: "\<forall>j \<in> ?T. rec_inv (w_recs w4 j)" using inv2 p by (simp add: pool_same_def)
        have b4: "?T \<inter> busy rec_get_state (w_recs w4) = insert i (?T \<inter> busy rec_get_state (w_recs w))"
          using pool_busy [OF p] busy1 i(1) by auto
        have t0: "touches UNIV w w4" using t by (simp add: touches_def w1_def)
        have conc: "w_concluder w4 = w_concluder w" using sd ss by (simp add: w1_def)
        show ?thesis
          unfolding started_call_def res using sd ss c2 i inv4 b4 t0 conc by auto
      qed
    qed
  qed
qed

lemma tag_ident [simp]: "ident (set_talkgroup_tag t c) = ident c"
  by (simp add: ident_def set_talkgroup_tag_def update_talkgroup_display_def Let_def)

lemma fresh_tag [simp]: "fresh_call (set_talkgroup_tag t c) = fresh_call c"
  by (simp add: fresh_call_def)

lemma start_recorder_started:
  assumes "fresh_call c" "sources_ok (w_sources w) n" "\<forall>i \<in> trunk (w_sources w). rec_inv (w_recs w i)"
    and "start_recorder env sys c w = (ok, c', w')"
  shows "started_call (trunk (w_sources w)) c w ok c' w'"
proof -
  let ?tg = "find_talkgroup sys (cl_talkgroup c)" and ?T = "trunk (w_sources w)"
  have keep: "started_call ?T c w False (d\<lparr>cl_state := MONITORING, cl_monitoringState := ms\<rparr>) w"
    if "ident d = ident c" "fresh_call d" for d ms
    using that by (intro not_started assms(3)) (simp_all add: ident_def fresh_call_def)
  consider "?tg = None \<and> \<not> sy_record_unknown sys"
    | "\<not> (?tg = None \<and> \<not> sy_record_unknown sys)" "cl_encrypted c \<or> encrypted_mode ?tg"
    | "\<not> (?tg = None \<and> \<not> sy_record_unknown sys)" "\<not> (cl_encrypted c \<or> encrypted_mode ?tg)" by blast
  then show ?thesis
  proof cases
    case 1
    then show ?thesis using assms(1,4) keep [of c] by (auto simp: start_recorder_def)
  next
    case 2
    then have "ok = False" "w' = w"
      "c' = (set_talkgroup_tag (tag_of ?tg) c)\<lparr>cl_state := MONITORING, cl_monitoringState := ENCRYPTED\<rparr>"
      using assms(4) by (auto simp: start_recorder_def Let_def)
    then show ?thesis using assms(1) keep [of "set_talkgroup_tag (tag_of ?tg) c"] by simp
  next
    case 3
    then have "try_sources env sys ?tg (w_sources w) (set_talkgroup_tag (tag_of ?tg) c) w = (ok, c', w')"
      using assms(4) unfolding start_recorder_def Let_def if_not_P [OF 3(1)] by simp
    from try_sources_started [OF subset_refl _ assms(2,3) this] assms(1)
    show ?thesis by (simp add: started_call_def)
  qed
qed

section \<open>Concluding a call\<close>

lemma get_start_time_same: "same_call c (snd (get_start_time c))"
  by (simp add: get_start_time_def same_call_def ident_def hold_def Let_def)

lemma create_call_data_call: "fst (snd (create_call_data env cfg junk sys c fs)) = snd (get_start_time c)"
  unfolding create_call_data_def Let_def split_def fst_conv snd_conv by (rule base_filename_call)

lemma concluder_same:
  assumes "concluder_conclude_call env cfg junk sys c co = Some (c', co')"
  shows "same_call c c'"
proof -
  obtain ci c1 fs where d: "create_call_data env cfg junk sys c (co_files co) = (ci, c1, fs)" by (rule prod_cases3)
  have "c1 = snd (get_start_time c)" using create_call_data_call [of env cfg junk sys c "co_files co"] by (simp add: d)
  moreover have "c' = c1"
    using assms by (auto simp: concluder_conclude_call_def d Let_def split: if_splits)
  ultimately show ?thesis using get_start_time_same by simp
qed

definition concludes :: "Call \<Rightarrow> bool" where
  "concludes c \<longleftrightarrow> cl_state c = RECORDING \<or> cl_state c = MONITORING \<and> cl_monitoringState c = SUPERSEDED"

lemma stop_if_touches:
  assumes "stop_if b ref w = Some w'" and "outside T b ref"
  shows "touches (- T) w w' \<and> w_concluder w' = w_concluder w"
  using assms by (auto simp: stop_if_def outside_def touches_def split: if_splits option.splits)

lemma call_conclude_spec:
  assumes "call_conclude env sys c w = Some (c', w')"
    and "outside T (cl_debug_recording c) (cl_debug_recorder c)" "outside T (cl_sigmf_recording c) (cl_sigmf_recorder c)"
    and "\<forall>i \<in> T. rec_inv (w_recs w i)"
  shows "same_call c c' \<and> touches (set_option (cl_recorder c) \<union> - T) w w' \<and> (\<forall>i \<in> T. rec_inv (w_recs w' i))
    \<and> (if concludes c
       then \<exists>i. cl_recorder c = Some i \<and> T \<inter> busy rec_get_state (w_recs w') = T \<inter> busy rec_get_state (w_recs w) - {i}
       else w' = w)"
proof (cases "concludes c")
  case False
  then show ?thesis
    using assms by (auto simp: call_conclude_def concludes_def Let_def same_call_def ident_def hold_def)
next
  case True
  define c0 where "c0 = c\<lparr>cl_stop_time := me_now env\<rparr>"
  have c0: "cl_recorder c0 = cl_recorder c" "cl_sigmf_recording c0 = cl_sigmf_recording c"
    "cl_sigmf_recorder c0 = cl_sigmf_recorder c" "cl_debug_recording c0 = cl_debug_recording c"
    "cl_debug_recorder c0 = cl_debug_recorder c" "same_call c c0"
    by (simp_all add: c0_def same_call_def ident_def hold_def)
  have conc: "cl_state c0 = RECORDING \<or> cl_state c0 = MONITORING \<and> cl_monitoringState c0 = SUPERSEDED"
    using True by (simp add: c0_def concludes_def)
  obtain i where i: "cl_recorder c = Some i"
    using assms(1) conc unfolding call_conclude_def c0_def [symmetric] Let_def if_P [OF conc]
    by (auto simp: bind_eq_Some_conv c0)
  define w1 where "w1 = set_rec i (rec_stop (w_recs w i)) w"
  define c1 where "c1 = c0\<lparr>cl_final_length := rec_get_current_length (w_recs w i),
      cl_transmission_list := rec_get_transmission_list (w_recs w1 i)\<rparr>"
  have c1: "same_call c c1" "cl_sigmf_recording c1 = cl_sigmf_recording c" "cl_sigmf_recorder c1 = cl_sigmf_recorder c"
    "cl_debug_recording c1 = cl_debug_recording c" "cl_debug_recorder c1 = cl_debug_recorder c"
    by (simp_all add: c1_def c0_def same_call_def ident_def hold_def)
  obtain w2 w3 co where w2: "stop_if (cl_sigmf_recording c) (cl_sigmf_recorder c) w1 = Some w2"
    and w3: "stop_if (cl_debug_recording c) (cl_debug_recorder c) w2 = Some w3"
    and co: "concluder_conclude_call (me_concluder env) (me_config env) (me_junk env) sys c1 (w_concluder w3) = Some (c', co)"
    and w': "w' = w3\<lparr>w_concluder := co\<rparr>"
    using assms(1) conc unfolding call_conclude_def c0_def [symmetric] Let_def if_P [OF conc]
    by (auto simp: bind_eq_Some_conv c0 i c1_def w1_def)
  have t1: "touches {i} w w1" by (simp add: w1_def touches_set_rec)
  have t3: "touches (- T) w1 w3"
    using stop_if_touches [OF w2 assms(3)] stop_if_touches [OF w3 assms(2)] touches_trans by fastforce
  have p: "pool_same T w1 w3" using touches_pool [OF t3] by auto
  have b1: "T \<inter> busy rec_get_state (w_recs w1) = T \<inter> busy rec_get_state (w_recs w) - {i}"
  proof (cases "i \<in> T")
    case True
    then have "busy rec_get_state (w_recs w1) = busy rec_get_state (w_recs w) - {i}"
      using any.busy_stopped [of "w_recs w" i] assms(4) by (simp add: w1_def)
    then show ?thesis by auto
  next
    case False
    then show ?thesis by (auto simp: w1_def busy_def)
  qed
  have inv: "\<forall>j \<in> T. rec_inv (w_recs w1 j)" using assms(4) any.stop_inv by (auto simp: w1_def)
  have tw: "touches (set_option (cl_recorder c) \<union> - T) w w'" using touches_trans [OF t1 t3] by (simp add: touches_def w' i)
  have "same_call c c'" using c1(1) concluder_same [OF co] same_call_trans by blast
  moreover have "\<forall>j \<in> T. rec_inv (w_recs w' j)" using inv p by (simp add: pool_same_def w')
  ultimately show ?thesis using True i tw b1 pool_busy [OF p] by (simp add: w')
qed

section \<open>Changes of the vector\<close>

lemma held_app: "held (xs @ ys) = held xs @ held ys"
  by (simp add: held_def)

lemma call_ok_parts:
  assumes "call_ok T n c"
  shows "outside T (cl_debug_recording c) (cl_debug_recorder c)" "outside T (cl_sigmf_recording c) (cl_sigmf_recorder c)"
    "cl_sys c < n" "records c \<Longrightarrow> \<exists>i. cl_recorder c = Some i" "cl_conventional c \<Longrightarrow> outside T True (cl_recorder c)"
  using assms by (auto simp: call_ok_def records_def)

lemma calls_ok_append:
  assumes "calls_ok T n rs cs" "call_ok T n c" "\<forall>i \<in> T. rec_inv (rs' i)"
    and "T \<inter> busy rec_get_state rs' =
      (if records c then insert (the (cl_recorder c)) (T \<inter> busy rec_get_state rs) else T \<inter> busy rec_get_state rs)"
    and "records c \<Longrightarrow> the (cl_recorder c) \<notin> busy rec_get_state rs"
  shows "calls_ok T n rs' (cs @ [c])"
  using assms by (auto simp: calls_ok_def split: if_splits)

lemma calls_ok_release:
  assumes "calls_ok T n rs (ds @ c # cs)" "\<forall>i \<in> T. rec_inv (rs' i)"
    and "\<forall>c' \<in> set new. call_ok T n c' \<and> \<not> records c'"
    and "T \<inter> busy rec_get_state rs' =
      (if records c then T \<inter> busy rec_get_state rs - {the (cl_recorder c)} else T \<inter> busy rec_get_state rs)"
  shows "calls_ok T n rs' (ds @ new @ cs)"
proof -
  have "held new = []" using assms(3) by (simp add: held_def)
  then show ?thesis using assms by (auto simp: calls_ok_def held_app split: if_splits)
qed

lemma calls_ok_call: "calls_ok T n rs cs \<Longrightarrow> c \<in> set cs \<Longrightarrow> call_ok T n c"
  by (simp add: calls_ok_def)

lemma calls_ok_inv: "calls_ok T n rs cs \<Longrightarrow> \<forall>i \<in> T. rec_inv (rs i)"
  by (simp add: calls_ok_def)

section \<open>Superseding\<close>

lemma supersede_ok:
  assumes "supersede env (Some j) w = Some w'" "j < length (w_calls w)" "cl_state (w_calls w ! j) = RECORDING"
    and "calls_ok T n (w_recs w) (w_calls w @ new)"
  shows "calls_ok T n (w_recs w') (w_calls w' @ new) \<and> map ident (w_calls w') = map ident (w_calls w)
    \<and> w_systems w' = w_systems w \<and> w_sources w' = w_sources w \<and> fst (w_recorders w') = fst (w_recorders w)
    \<and> w_call_counter w' = w_call_counter w
    \<and> T \<inter> busy rec_get_state (w_recs w') \<subseteq> T \<inter> busy rec_get_state (w_recs w)"
proof -
  let ?c = "w_calls w ! j"
  define c1 where "c1 = ?c\<lparr>cl_state := MONITORING, cl_monitoringState := SUPERSEDED\<rparr>"
  obtain c2 w2 where cc: "call_conclude env (sys_of w c1) c1 w = Some (c2, w2)"
    and w': "w' = w2\<lparr>w_calls := (w_calls w2)[j := c2]\<rparr>"
    using assms(1) by (auto simp: supersede_def c1_def [symmetric] bind_eq_Some_conv Let_def)
  have ok: "call_ok T n ?c" by (rule calls_ok_call [OF assms(4)]) (use assms(2) in simp)
  have rec: "cl_recorder c1 = cl_recorder ?c" "concludes c1" "ident c1 = ident ?c"
    by (simp_all add: c1_def concludes_def ident_def)
  have ok1: "call_ok T n c1" "\<not> records c1" using ok by (auto simp: call_ok_def c1_def records_def)
  note spec = call_conclude_spec [OF cc call_ok_parts(1,2) [OF ok1(1)] calls_ok_inv [OF assms(4)]]
  then have same: "same_call c1 c2" and inv: "\<forall>i \<in> T. rec_inv (w_recs w2 i)"
    and t: "touches UNIV w w2" using touches_mono by blast+
  obtain i where i: "cl_recorder ?c = Some i"
    and b: "T \<inter> busy rec_get_state (w_recs w2) = T \<inter> busy rec_get_state (w_recs w) - {i}"
    using spec rec by auto
  have calls: "w_calls w2 = w_calls w" using t by (simp add: touches_def)
  have split: "w_calls w @ new = take j (w_calls w) @ ?c # drop (Suc j) (w_calls w) @ new"
    using id_take_nth_drop [OF assms(2)] by (metis append.assoc append_Cons)
  have ok2: "call_ok T n c2" "\<not> records c2" using ok1 same by (simp_all add: same_call_simps)
  have b': "T \<inter> busy rec_get_state (w_recs w2) = (if records ?c then T \<inter> busy rec_get_state (w_recs w) - {the (cl_recorder ?c)}
      else T \<inter> busy rec_get_state (w_recs w))"
  proof (cases "records ?c")
    case True
    then show ?thesis using b i by simp
  next
    case False
    then have "cl_conventional ?c" using assms(3) by (simp add: records_def)
    then have "i \<notin> T" using call_ok_parts(5) [OF ok] i by (simp add: outside_def)
    then show ?thesis using b False by auto
  qed
  have "calls_ok T n (w_recs w2) (take j (w_calls w) @ [c2] @ drop (Suc j) (w_calls w) @ new)"
    by (rule calls_ok_release [OF _ inv _ b']) (use assms(4) split ok2 in auto)
  moreover have "(w_calls w)[j := c2] @ new = take j (w_calls w) @ [c2] @ drop (Suc j) (w_calls w) @ new"
    using assms(2) by (simp add: upd_conv_take_nth_drop)
  moreover have "map ident ((w_calls w)[j := c2]) = map ident (w_calls w)"
    using same rec(3) assms(2) by (simp add: map_update same_call_def list_update_same_conv)
  ultimately show ?thesis using t b by (auto simp: w' calls touches_def)
qed

end
