(* ===== verification/World_Grants.thy ===== *)
theory World_Grants
  imports World_Invariant
begin

text \<open>
  What a grant on the control channel does to the calls and the recorders
  (\<open>handle_call_grant\<close>), and that the invariant of the running program survives it.
\<close>

section \<open>The call of a grant\<close>

definition grant_ident :: "World \<Rightarrow> TrunkMessage \<Rightarrow> sys_ref \<Rightarrow> bool \<times> int \<times> int \<times> double \<times> sys_ref \<times> int \<times> bool" where
  "grant_ident w m s = (False, w_call_counter w, tm_talkgroup m, tm_freq m, s, tm_tdma_slot m, tm_phase2_tdma m)"

lemma make_grant_call_spec:
  assumes "make_grant_call env m s w = (c, w')"
  shows "ident c = grant_ident w m s" "fresh_call c" "cl_sys c = s" "\<not> cl_conventional c"
    "w_calls w' = w_calls w" "w_recorders w' = w_recorders w" "w_systems w' = w_systems w"
    "w_sources w' = w_sources w" "w_call_counter w' = w_call_counter w + 1" "w_concluder w' = w_concluder w"
  using assms new_call_simps [of "me_now env" "w_call_counter w" m s]
  by (auto simp: make_grant_call_def split_def Let_def fresh_call_def ident_def grant_ident_def)

lemma ident_fields:
  "ident c = ident d \<Longrightarrow> cl_conventional c = cl_conventional d \<and> cl_sys c = cl_sys d"
  by (simp add: ident_def)

lemma started_call_ok:
  assumes "started_call T c w ok c' w'" "cl_sys c < n" "\<not> cl_conventional c"
  shows "call_ok T n c' \<and> records c' = ok \<and> cl_sys c' = cl_sys c"
  using assms ident_fields [of c' c] by (auto simp: started_call_def call_ok_def records_def split: if_splits)

lemma calls_ok_started:
  assumes "calls_ok T n (w_recs w) (w_calls w)" "started_call T c w ok c' w'" "cl_sys c < n" "\<not> cl_conventional c"
  shows "calls_ok T n (w_recs w') (w_calls w' @ [c'])"
proof -
  have calls: "w_calls w' = w_calls w" using assms(2) by (simp add: started_call_def touches_def)
  show ?thesis unfolding calls
    by (rule calls_ok_append [OF assms(1)])
      (use started_call_ok [OF assms(2-4)] assms(2) in \<open>auto simp: started_call_def split: if_splits\<close>)
qed

text \<open>What no operation of the loop changes.\<close>

definition outcome :: "World \<Rightarrow> World \<Rightarrow> bool" where
  "outcome w w' \<longleftrightarrow> w_systems w' = w_systems w \<and> w_sources w' = w_sources w \<and> fst (w_recorders w') = fst (w_recorders w)"

lemma outcome_refl [simp]: "outcome w w"
  by (simp add: outcome_def)

lemma outcome_trans: "outcome a b \<Longrightarrow> outcome b c \<Longrightarrow> outcome a c"
  by (simp add: outcome_def)

lemma outcome_ok: "outcome w w' \<Longrightarrow> calls_ok (trunk (w_sources w)) (length (w_systems w)) (w_recs w') (w_calls w')
    \<Longrightarrow> world_ok w \<Longrightarrow> world_ok w'"
  by (simp add: world_ok_def outcome_def)

lemma same_idents: "list_all2 same_call cs cs' \<Longrightarrow> map ident cs' = map ident cs"
  by (induction rule: list_all2_induct) (simp_all add: same_call_def)

lemma world_same_outcome: "world_same w w' \<Longrightarrow> outcome w w' \<and> map ident (w_calls w') = map ident (w_calls w)
    \<and> w_call_counter w' = w_call_counter w"
  by (simp add: world_same_def outcome_def same_idents)

section \<open>A grant\<close>

lemma start_grant_ok:
  assumes "start_grant env sys g c w = Some (c', w')"
    and "calls_ok T n (w_recs w) (w_calls w)" "sources_ok (w_sources w) (fst (w_recorders w))" "T = trunk (w_sources w)"
    and "fresh_call c" "cl_sys c < n" "\<not> cl_conventional c"
    and "\<And>j. gr_original g = Some j \<Longrightarrow> j < length (w_calls w) \<and> cl_state (w_calls w ! j) = RECORDING"
  shows "calls_ok T n (w_recs w') (w_calls w' @ [c']) \<and> outcome w w' \<and> ident c' = ident c
    \<and> map ident (w_calls w') = map ident (w_calls w) \<and> w_call_counter w' = w_call_counter w"
proof (cases "gr_original g \<noteq> None \<and> \<not> gr_superseding g")
  case True
  then have r: "c' = c\<lparr>cl_state := MONITORING, cl_monitoringState := DUPLICATE\<rparr>" "w' = w"
    using assms(1) by (simp_all add: start_grant_def del: not_None_eq)
  have "call_ok T n c'" "\<not> records c'"
    using assms(5-7) by (auto simp: r call_ok_def fresh_call_def outside_def records_def)
  then have "calls_ok T n (w_recs w) (w_calls w @ [c'])"
    using calls_ok_append [OF assms(2), of c' "w_recs w"] calls_ok_inv [OF assms(2)] by simp
  then show ?thesis by (simp add: r ident_def)
next
  case False
  obtain ok c3 w3 where st: "start_recorder env sys c w = (ok, c3, w3)" by (rule prod_cases3)
  have started: "started_call T c w ok c3 w3"
    using start_recorder_started [OF assms(5,3) _ st] calls_ok_inv [OF assms(2)] assms(4) by simp
  note calls3 = calls_ok_started [OF assms(2) started assms(6,7)]
  have o3: "outcome w w3" "w_calls w3 = w_calls w" "w_call_counter w3 = w_call_counter w" "ident c3 = ident c"
    using started by (simp_all add: started_call_def touches_def outcome_def)
  show ?thesis
  proof (cases "gr_superseding g \<and> ok")
    case True
    then have sup: "supersede env (gr_original g) w3 = Some w'" and c': "c' = c3"
      using assms(1) by (auto simp: start_grant_def st bind_eq_Some_conv)
    then obtain j where j: "gr_original g = Some j" by (cases "gr_original g") (simp_all add: supersede_def)
    have "j < length (w_calls w3)" "cl_state (w_calls w3 ! j) = RECORDING" using assms(8) [OF j] o3 by simp_all
    from supersede_ok [OF sup [unfolded j] this calls3] show ?thesis
      using o3 by (simp add: c' outcome_def)
  next
    case not: False
    then have "c' = c3" "w' = w3" using assms(1) False by (auto simp: start_grant_def st split: if_splits)
    then show ?thesis using calls3 o3 by simp
  qed
qed

text \<open>
  What a grant does: nothing but refresh the calls it matches, or append one call; the invariant
  holds afterwards.
\<close>

definition grant_result :: "World \<Rightarrow> TrunkMessage \<Rightarrow> sys_ref \<Rightarrow> World \<Rightarrow> bool" where
  "grant_result w m s w' \<longleftrightarrow>
     (if \<exists>c \<in> set (w_calls w). matches_message w m c
      then map ident (w_calls w') = map ident (w_calls w) \<and> w_call_counter w' = w_call_counter w
      else map ident (w_calls w') = map ident (w_calls w) @ [grant_ident w m s]
        \<and> w_call_counter w' = w_call_counter w + 1)"

lemma handle_call_grant_ok:
  assumes "handle_call_grant env m s w = Some w'" "world_ok w" "s < length (w_systems w)"
  shows "world_ok w' \<and> outcome w w' \<and> grant_result w m s w'"
proof -
  let ?T = "trunk (w_sources w)" and ?n = "length (w_systems w)"
  obtain g w1 where scan: "grant_scan env (w_systems w ! s) m w = (g, w1)" by fastforce
  note sp = grant_scan_spec [OF scan]
  have ok1: "world_ok w1" by (rule world_ok_same [OF assms(2) sp(1)])
  note o1 = world_same_outcome [OF sp(1)]
  show ?thesis
  proof (cases "gr_found g")
    case True
    then have "w' = w1" using assms(1) by (simp add: handle_call_grant_def scan)
    then show ?thesis using True ok1 o1 sp(2) by (simp add: grant_result_def)
  next
    case False
    obtain c w2 where mk: "make_grant_call env m s w1 = (c, w2)" by fastforce
    note c = make_grant_call_spec [OF mk]
    obtain c3 w3 where st: "start_grant env (w_systems w ! s) g c w2 = Some (c3, w3)" and w': "w' = push_call c3 w3"
    proof -
      have "w_systems w2 = w_systems w" using o1 c(7) by (simp add: outcome_def)
      then show ?thesis
        using that assms(1) False by (simp add: handle_call_grant_def scan mk) (auto simp: bind_eq_Some_conv)
    qed
    have pre: "calls_ok ?T ?n (w_recs w2) (w_calls w2)" "sources_ok (w_sources w2) (fst (w_recorders w2))"
      "?T = trunk (w_sources w2)" "cl_sys c < ?n"
      using ok1 o1 c assms(3) by (simp_all add: world_ok_def outcome_def)
    have orig: "j < length (w_calls w2) \<and> cl_state (w_calls w2 ! j) = RECORDING" if "gr_original g = Some j" for j
      using grant_original(1) [OF scan that] c(5) world_same_length [OF sp(1)] world_same_nth [OF sp(1), of j]
      by (simp add: same_call_simps)
    note fin = start_grant_ok [OF st pre(1-3) c(2) pre(4) c(4) orig]
    have ow: "outcome w w'" using fin o1 c by (simp add: outcome_def w' push_call_def)
    have "calls_ok ?T ?n (w_recs w') (w_calls w')" using fin by (simp add: w' push_call_def)
    moreover have "grant_result w m s w'"
      using fin o1 c False sp(2) by (simp add: grant_result_def w' push_call_def grant_ident_def)
    ultimately show ?thesis using outcome_ok [OF ow] assms(2) ow by blast
  qed
qed

end
