(* ===== verification/World_Management.thy ===== *)
theory World_Management
  imports World_Grants
begin

text \<open>
  The periodic management of the calls (\<open>manage_calls\<close>) and the exit of the loop: which calls leave
  the vector, and that the recorders they held are free again.
\<close>

section \<open>Removing a call\<close>

lemma conclude_held:
  assumes "call_conclude env sys c w = Some (c', w')" "calls_ok T n (w_recs w) (ds @ c # cs)" "cl_state c = RECORDING"
  shows "calls_ok T n (w_recs w') (ds @ cs) \<and> touches (set_option (cl_recorder c) \<union> - T) w w'"
proof -
  have ok: "call_ok T n c" by (rule calls_ok_call [OF assms(2)]) simp
  have c: "concludes c" using assms(3) by (simp add: concludes_def)
  note spec = call_conclude_spec [OF assms(1) call_ok_parts(1,2) [OF ok] calls_ok_inv [OF assms(2)]]
  obtain i where i: "cl_recorder c = Some i"
    and b: "T \<inter> busy rec_get_state (w_recs w') = T \<inter> busy rec_get_state (w_recs w) - {i}"
    using spec c by auto
  have "T \<inter> busy rec_get_state (w_recs w') = (if records c then T \<inter> busy rec_get_state (w_recs w) - {the (cl_recorder c)}
      else T \<inter> busy rec_get_state (w_recs w))"
  proof (cases "records c")
    case True
    then show ?thesis using b i by simp
  next
    case False
    then have "i \<notin> T" using call_ok_parts(5) [OF ok] assms(3) i by (simp add: records_def outside_def)
    then show ?thesis using b False by auto
  qed
  from calls_ok_release [OF assms(2) _ _ this, of "[]"] spec show ?thesis by simp
qed

section \<open>Calls on conventional channels\<close>

definition conv_ok :: "rec_ref set \<Rightarrow> Call \<Rightarrow> Call \<Rightarrow> World \<Rightarrow> World \<Rightarrow> bool" where
  "conv_ok T c c' w w' \<longleftrightarrow> (\<forall>n. call_ok T n c \<longrightarrow> call_ok T n c') \<and> cl_conventional c'
     \<and> cl_call_num c' = cl_call_num c \<and> cl_talkgroup c' = cl_talkgroup c
     \<and> cl_sys c' = cl_sys c \<and> touches (- T) w w'"

lemma restart_call_conv:
  assumes "restart_call env sys c w = Some (c', w')" "call_ok T n c" "cl_conventional c"
  shows "conv_ok T c c' w w'"
  using assms call_ok_parts(5) [OF assms(2,3)]
  by (auto simp: restart_call_def conv_ok_def call_ok_def outside_def Let_def split: option.splits
      intro!: touches_set_rec)

lemma conv_ok_trans:
  assumes "conv_ok T a b u v" "conv_ok T b c v w"
  shows "conv_ok T a c u w"
  using assms touches_trans [of "- T" u v "- T" w] by (simp add: conv_ok_def)

lemma conclude_conv:
  assumes "call_conclude env sys c w = Some (c', w')" "call_ok T n c" "cl_conventional c" "\<forall>i \<in> T. rec_inv (w_recs w i)"
  shows "conv_ok T c c' w w'"
proof -
  note spec = call_conclude_spec [OF assms(1) call_ok_parts(1,2) [OF assms(2)] assms(4)]
  then have same: "same_call c c'" and t: "touches (set_option (cl_recorder c) \<union> - T) w w'" by simp_all
  have "set_option (cl_recorder c) \<subseteq> - T" using call_ok_parts(5) [OF assms(2,3)] by (auto simp: outside_def)
  then have "touches (- T) w w'" using touches_mono [OF t] by blast
  then show ?thesis
    using same_call_fields [OF same] same_call_simps(6) [OF same] assms(3) by (simp add: conv_ok_def)
qed

lemma conclude_and_restart_conv:
  assumes "conclude_and_restart env i c w = Some (c', w')" "call_ok T n c" "cl_conventional c"
    and "\<forall>i \<in> T. rec_inv (w_recs w i)"
  shows "conv_ok T c c' w w'"
proof -
  obtain c1 w1 w2 where 1: "call_conclude env (sys_of w c) c w = Some (c1, w1)"
    and 2: "restart_call env (sys_of w1 c1) c1 w1 = Some (c', w2)"
    and w': "w' = emit [Setup_Recorder i, Call_Start (cl_call_num c')] w2"
    using assms(1) by (auto simp: conclude_and_restart_def bind_eq_Some_conv)
  note a = conclude_conv [OF 1 assms(2-4)]
  then have "call_ok T n c1" "cl_conventional c1" using assms(2) by (simp_all add: conv_ok_def)
  from conv_ok_trans [OF a restart_call_conv [OF 2 this]] show ?thesis by (simp add: w' conv_ok_def)
qed

lemma call_ok_idle [simp]: "call_ok T n (c\<lparr>cl_idle_count := k\<rparr>) = call_ok T n c"
  unfolding call_ok_def by simp

lemma conv_ok_idle:
  assumes "conv_ok T (c\<lparr>cl_idle_count := k\<rparr>) c' w w'"
  shows "conv_ok T c c' w w'"
  using assms by (simp add: conv_ok_def)

lemma manage_conventional_conv:
  assumes "manage_conventional_call env c w = Some (c', w')" "call_ok T n c" "cl_conventional c"
    and inv: "\<forall>i \<in> T. rec_inv (w_recs w i)"
  shows "conv_ok T c c' w w'"
proof -
  obtain i where i: "cl_recorder c = Some i" "i \<notin> T" using call_ok_parts(5) [OF assms(2,3)] by (auto simp: outside_def)
  show ?thesis
  proof (cases "get_current_length (w_recs w) c > 0")
    case True
    define k where "k = (if rec_is_squelched (me_unmuted env i) (w_recs w i) then cl_idle_count c + 1
        else if cl_idle_count c > 0 then 0 else cl_idle_count c)"
    define d where "d = c\<lparr>cl_idle_count := k\<rparr>"
    have d: "(if rec_is_squelched (me_unmuted env i) (w_recs w i) then increase_idle_count c
        else if cl_idle_count c > 0 then reset_idle_count c else c) = d"
      by (simp add: d_def k_def increase_idle_count_def reset_idle_count_def)
    have "call_ok T n d" "cl_conventional d" using assms(2,3) by (simp_all add: d_def)
    note cr = conclude_and_restart_conv [OF _ this inv]
    have "conclude_and_restart env i d w = Some (c', w') \<or> c' = d \<and> w' = w"
      using assms(1) True by (auto simp: manage_conventional_call_def i d Let_def split: if_splits)
    then have "conv_ok T d c' w w'" using cr by (auto simp: conv_ok_def d_def assms(3))
    then show ?thesis unfolding d_def by (rule conv_ok_idle)
  next
    case False
    then show ?thesis
      using assms i
      by (auto simp: manage_conventional_call_def conv_ok_def call_ok_def intro!: touches_set_rec split: if_splits)
  qed
qed

section \<open>The periodic management of the calls\<close>

definition expired :: "menv \<Rightarrow> recorders \<Rightarrow> Call \<Rightarrow> bool" where
  "expired env rs c \<longleftrightarrow> \<not> cl_conventional c
     \<and> of_int (since_last_update (me_now env) c) > cfg_call_timeout (me_config env)
     \<and> (cl_state c = MONITORING
        \<or> cl_state c = RECORDING
          \<and> of_int (rec_since_last_write (me_sink env) (rs (the (cl_recorder c)))) > cfg_call_timeout (me_config env))"

definition trunked :: "Call \<Rightarrow> bool" where
  "trunked c \<longleftrightarrow> \<not> cl_conventional c"

definition own :: "Call \<Rightarrow> rec_ref set" where
  "own c = (if records c then set_option (cl_recorder c) else {})"

lemma manage_call_conv:
  assumes "cl_conventional c"
  shows "manage_call env c w = map_option (\<lambda>(c, w). (Some c, w)) (manage_conventional_call env c w)"
  using assms by (auto simp: manage_call_def Let_def map_option_case split: option.splits)

lemma manage_call_trunked:
  assumes "\<not> cl_conventional c" "cl_state c = RECORDING \<and> cl_recorder c \<noteq> None \<or> cl_state c = MONITORING"
  shows "manage_call env c w =
    (if \<not> expired env (w_recs w) c then Some (Some c, w)
     else if cl_state c = MONITORING then Some (None, w)
     else map_option (\<lambda>(c', w'). (None, emit [Setup_Recorder (the (cl_recorder c))] w')) (call_conclude env (sys_of w c) c w))"
  using assms
  by (auto simp: manage_call_def expired_def Let_def map_option_case split: option.splits bind_splits)

lemma manage_call_spec:
  assumes m: "manage_call env c w = Some (r, w')" and ok: "calls_ok T n (w_recs w) (ds @ c # cs)"
  shows "touches (own c \<union> - T) w w' \<and>
    (case r of
       None \<Rightarrow> expired env (w_recs w) c \<and> calls_ok T n (w_recs w') (ds @ cs)
     | Some c' \<Rightarrow> \<not> expired env (w_recs w) c \<and> calls_ok T n (w_recs w') (ds @ c' # cs)
         \<and> cl_call_num c' = cl_call_num c \<and> trunked c' = trunked c \<and> (trunked c \<longrightarrow> c' = c))"
proof -
  have cok: "call_ok T n c" by (rule calls_ok_call [OF ok]) simp
  note inv = calls_ok_inv [OF ok]
  show ?thesis
  proof (cases "cl_conventional c")
    case True
    obtain c' where c': "manage_conventional_call env c w = Some (c', w')" and r: "r = Some c'"
      using m by (auto simp: manage_call_conv [OF True])
    have cv: "conv_ok T c c' w w'" by (rule manage_conventional_conv [OF c' cok True inv])
    then have p: "pool_same T w w'" using touches_pool by (fastforce simp: conv_ok_def)
    have "calls_ok T n (w_recs w') (ds @ [c'] @ cs)"
      using cv cok True p
      by (intro calls_ok_release [OF ok]) (auto simp: conv_ok_def records_def pool_same_def inv pool_busy [OF p])
    then show ?thesis using cv True by (simp add: r conv_ok_def own_def records_def trunked_def expired_def)
  next
    case False
    have st: "cl_state c = RECORDING \<and> cl_recorder c \<noteq> None \<or> cl_state c = MONITORING"
      using cok False by (simp add: call_ok_def)
    note mt = m [unfolded manage_call_trunked [OF False st]]
    consider "\<not> expired env (w_recs w) c" | "expired env (w_recs w) c" "cl_state c = MONITORING"
      | "expired env (w_recs w) c" "cl_state c = RECORDING" using st by blast
    then show ?thesis
    proof cases
      case 1
      then show ?thesis using mt ok by auto
    next
      case 2
      then have "calls_ok T n (w_recs w) (ds @ [] @ cs)"
        by (intro calls_ok_release [OF ok inv]) (simp_all add: records_def)
      then show ?thesis using 2 mt by auto
    next
      case 3
      then obtain c1 w1 where cc: "call_conclude env (sys_of w c) c w = Some (c1, w1)" and r: "r = None"
        and w': "w' = emit [Setup_Recorder (the (cl_recorder c))] w1"
        using mt by auto
      from conclude_held [OF cc ok 3(2)] show ?thesis
        using 3 False by (simp add: r w' own_def records_def)
    qed
  qed
qed

lemma expired_frame:
  assumes "touches R w w'" "call_ok T n c" "own c \<inter> R = {}"
  shows "expired env (w_recs w') c = expired env (w_recs w) c"
  using assms by (auto simp: expired_def own_def records_def touches_def call_ok_def split: if_splits)

lemma own_apart:
  assumes "calls_ok T n rs (ds @ c # cs)" "d \<in> set cs"
  shows "own d \<inter> (own c \<union> - T) = {}"
proof -
  have "x \<in> set (held cs)" if "x \<in> own d" for x
    using that assms(2) by (auto simp: own_def held_def split: if_splits intro!: rev_image_eqI [of d])
  moreover have "own c \<inter> set (held cs) = {}" "set (held cs) \<subseteq> T"
    using assms(1) by (auto simp: calls_ok_def own_def held_app split: if_splits)
  ultimately show ?thesis by auto
qed

lemma manage_call_list_spec:
  assumes "manage_call_list env cs w = Some (cs', w')" "calls_ok T n (w_recs w) (ds @ cs)"
  shows "calls_ok T n (w_recs w') (ds @ cs') \<and> touches UNIV w w'
    \<and> map cl_call_num cs' = map cl_call_num (filter (\<lambda>c. \<not> expired env (w_recs w) c) cs)
    \<and> filter trunked cs' = filter (\<lambda>c. trunked c \<and> \<not> expired env (w_recs w) c) cs"
  using assms
proof (induction cs arbitrary: ds w cs')
  case (Cons c cs)
  obtain r w1 cs1 where m: "manage_call env c w = Some (r, w1)" and l: "manage_call_list env cs w1 = Some (cs1, w')"
    and cs': "cs' = (case r of Some c \<Rightarrow> c # cs1 | None \<Rightarrow> cs1)"
    using Cons.prems(1) by (auto simp: bind_eq_Some_conv)
  note s = manage_call_spec [OF m Cons.prems(2)]
  have t: "touches UNIV w w1" using s touches_mono by blast
  have e: "expired env (w_recs w1) d = expired env (w_recs w) d" if "d \<in> set cs" for d
  proof (rule expired_frame)
    show "touches (own c \<union> - T) w w1" using s by simp
    show "call_ok T n d" using calls_ok_call [OF Cons.prems(2), of d] that by simp
    show "own d \<inter> (own c \<union> - T) = {}" by (rule own_apart [OF Cons.prems(2) that])
  qed
  have f: "filter (\<lambda>d. \<not> expired env (w_recs w1) d) cs = filter (\<lambda>d. \<not> expired env (w_recs w) d) cs"
    "filter (\<lambda>d. trunked d \<and> \<not> expired env (w_recs w1) d) cs = filter (\<lambda>d. trunked d \<and> \<not> expired env (w_recs w) d) cs"
    by (auto intro!: filter_cong simp: e)
  show ?case
  proof (cases r)
    case None
    then have "calls_ok T n (w_recs w1) (ds @ cs)" using s by simp
    from Cons.IH [OF l this] show ?thesis using None s t cs' touches_trans [of UNIV w w1 UNIV w'] by (simp add: f)
  next
    case (Some c')
    then have "calls_ok T n (w_recs w1) ((ds @ [c']) @ cs)" using s by simp
    from Cons.IH [OF l this] show ?thesis
      using Some s t cs' touches_trans [of UNIV w w1 UNIV w'] by (auto simp: f)
  qed
qed auto

lemma manage_calls_spec:
  assumes "manage_calls env w = Some w'" "world_ok w"
  shows "world_ok w' \<and> outcome w w' \<and> w_call_counter w' = w_call_counter w
    \<and> map cl_call_num (w_calls w') = map cl_call_num (filter (\<lambda>c. \<not> expired env (w_recs w) c) (w_calls w))
    \<and> filter trunked (w_calls w') = filter (\<lambda>c. trunked c \<and> \<not> expired env (w_recs w) c) (w_calls w)"
proof -
  obtain cs w1 where l: "manage_call_list env (w_calls w) w = Some (cs, w1)"
    and w': "w' = emit (if length cs < length (w_calls w) then [Calls_Active] else []) (w1\<lparr>w_calls := cs\<rparr>)"
    using assms(1) by (auto simp: manage_calls_def bind_eq_Some_conv Let_def)
  have "calls_ok (trunk (w_sources w)) (length (w_systems w)) (w_recs w) ([] @ w_calls w)"
    using assms(2) by (simp add: world_ok_def)
  note s = manage_call_list_spec [OF l this]
  have o: "outcome w w'" using s by (simp add: w' outcome_def touches_def)
  moreover have "world_ok w'" by (rule outcome_ok [OF o _ assms(2)]) (use s in \<open>simp add: w'\<close>)
  ultimately show ?thesis using s by (simp add: w' touches_def)
qed

section \<open>The exit\<close>

lemma conclude_all_spec:
  assumes "conclude_all env cs w = Some w'" "calls_ok T n (w_recs w) cs"
  shows "calls_ok T n (w_recs w') [] \<and> touches UNIV w w'"
  using assms
proof (induction cs arbitrary: w)
  case (Cons c cs)
  have ok: "calls_ok T n (w_recs w) ([] @ c # cs)" using Cons.prems(2) by simp
  show ?case
  proof (cases "cl_state c = MONITORING")
    case True
    then have "calls_ok T n (w_recs w) ([] @ [] @ cs)"
      using calls_ok_inv [OF ok] by (intro calls_ok_release [OF ok]) (simp_all add: records_def)
    then show ?thesis using Cons True by simp
  next
    case False
    obtain c1 w1 where cc: "call_conclude env (sys_of w c) c w = Some (c1, w1)" and r: "conclude_all env cs w1 = Some w'"
      using Cons.prems(1) False by (auto simp: bind_eq_Some_conv)
    have "calls_ok T n (w_recs w1) cs \<and> touches UNIV w w1"
    proof (cases "cl_state c = RECORDING")
      case True
      from conclude_held [OF cc ok this] show ?thesis using touches_mono by simp blast
    next
      case F: False
      then have "\<not> concludes c" using False by (simp add: concludes_def)
      moreover have "call_ok T n c" by (rule calls_ok_call [OF ok]) simp
      ultimately have "w1 = w" using call_conclude_spec [OF cc call_ok_parts(1,2) calls_ok_inv [OF ok]] by fastforce
      moreover have "calls_ok T n (w_recs w) ([] @ [] @ cs)"
        using calls_ok_inv [OF ok] F by (intro calls_ok_release [OF ok]) (simp_all add: records_def)
      ultimately show ?thesis by simp
    qed
    with Cons.IH [OF r] show ?thesis using touches_trans [of UNIV w w1 UNIV w'] by simp
  qed
qed simp

lemma exit_loop_spec:
  assumes "exit_loop env w = Some w'" "world_ok w"
  shows "world_ok w' \<and> outcome w w' \<and> w_calls w' = [] \<and> trunk (w_sources w') \<inter> busy rec_get_state (w_recs w') = {}"
proof -
  obtain w1 where l: "conclude_all env (w_calls w) w = Some w1" and w': "w' = w1\<lparr>w_calls := []\<rparr>"
    using assms(1) by (auto simp: exit_loop_def)
  have "calls_ok (trunk (w_sources w)) (length (w_systems w)) (w_recs w) (w_calls w)" using assms(2) by (simp add: world_ok_def)
  note s = conclude_all_spec [OF l this]
  have o: "outcome w w'" using s by (simp add: w' outcome_def touches_def)
  moreover have "world_ok w'" by (rule outcome_ok [OF o _ assms(2)]) (use s in \<open>simp add: w'\<close>)
  ultimately show ?thesis by (simp add: world_ok_def calls_ok_def w')
qed

end
