(* ===== verification/World_Runs.thy ===== *)
theory World_Runs
  imports World_Management
begin

text \<open>
  The invariant of the running program over everything that can happen: messages of the control
  channels, the timer, audio in the flow graph, the worker threads.
\<close>

section \<open>What the loop does to a system\<close>

text \<open>
  A system keeps its number, its type and the settings of its archive, and a trunked one the
  source of its control channel.
\<close>

definition has_source :: "nat \<Rightarrow> System_impl \<Rightarrow> bool" where
  "has_source n sys \<longleftrightarrow> (\<exists>k < n. sy_source sys = Some k)"

definition sys_frame :: "nat \<Rightarrow> System_impl \<Rightarrow> System_impl \<Rightarrow> bool" where
  "sys_frame n sys sys' \<longleftrightarrow> sy_sys_num sys' = sy_sys_num sys \<and> sy_system_type sys' = sy_system_type sys
     \<and> sy_transmission_archive sys' = sy_transmission_archive sys \<and> (has_source n sys \<longrightarrow> has_source n sys')"

lemma sys_frame_refl [simp]: "sys_frame n sys sys"
  by (simp add: sys_frame_def)

lemma sys_frame_trans: "sys_frame n a b \<Longrightarrow> sys_frame n b c \<Longrightarrow> sys_frame n a c"
  by (simp add: sys_frame_def)

definition w_frame :: "World \<Rightarrow> World \<Rightarrow> bool" where
  "w_frame w w' \<longleftrightarrow> w_sources w' = w_sources w \<and> fst (w_recorders w') = fst (w_recorders w)
     \<and> list_all2 (sys_frame (length (w_sources w))) (w_systems w) (w_systems w')"

lemma list_all2_frame_refl [simp]: "list_all2 (sys_frame n) ss ss"
  by (simp add: list.rel_refl)

lemma outcome_frame: "outcome w w' \<Longrightarrow> w_frame w w'"
  by (simp add: outcome_def w_frame_def)

lemma w_frame_refl [simp]: "w_frame w w"
  by (simp add: w_frame_def)

lemma w_frame_trans: "w_frame a b \<Longrightarrow> w_frame b c \<Longrightarrow> w_frame a c"
  unfolding w_frame_def by (auto intro: list_all2_trans [OF sys_frame_trans])

lemma w_frame_length: "w_frame w w' \<Longrightarrow> length (w_systems w') = length (w_systems w)"
  unfolding w_frame_def by (metis list_all2_lengthD)

lemma w_frame_nth:
  "w_frame w w' \<Longrightarrow> s < length (w_systems w) \<Longrightarrow> sys_frame (length (w_sources w)) (w_systems w ! s) (w_systems w' ! s)"
  by (simp add: w_frame_def list_all2_conv_all_nth)

lemma set_sys_frame:
  assumes "sys_frame (length (w_sources w)) (w_systems w ! s) sys"
  shows "w_frame w (set_sys s sys w)"
proof -
  have "sys_frame (length (w_sources w)) (w_systems w ! i) ((w_systems w)[s := sys] ! i)" if "i < length (w_systems w)" for i
    using that assms by (cases "i = s") simp_all
  then show ?thesis by (simp add: w_frame_def list_all2_conv_all_nth)
qed

lemma w_frame_emit [simp]: "w_frame w (emit es w') = w_frame w w'"
  by (simp add: w_frame_def)

lemma control_frames:
  "sys_frame n sys (add_control_channel f sys)" "sys_frame n sys (snd (update_status m sys))"
  "sys_frame n sys (snd (update_sysid m sys))" "sys_frame n sys (update_active_talkgroup_patches now d sys)"
  "sys_frame n sys (delete_talkgroup_patch d sys)" "sys_frame n sys (clear_stale_talkgroup_patches now sys)"
  by (simp_all add: sys_frame_def has_source_def add_control_channel_def update_status_def update_sysid_def
      update_active_talkgroup_patches_def delete_talkgroup_patch_def clear_stale_talkgroup_patches_def Let_def)

section \<open>Calls on the air\<close>

abbreviation sys_num :: "World \<Rightarrow> sys_ref \<Rightarrow> int" where
  "sys_num w s \<equiv> sy_sys_num (w_systems w ! s)"

definition keys :: "World \<Rightarrow> call_key list" where
  "keys w = map (call_key (sys_num w)) (filter trunked (w_calls w))"

definition numbers_ok :: "World \<Rightarrow> bool" where
  "numbers_ok w \<longleftrightarrow> distinct (map cl_call_num (w_calls w)) \<and> (\<forall>n \<in> set (map cl_call_num (w_calls w)). n < w_call_counter w)"

definition world_inv :: "World \<Rightarrow> bool" where
  "world_inv w \<longleftrightarrow> world_ok w \<and> distinct (keys w) \<and> numbers_ok w"

text \<open>Keys and numbers depend on the identities alone.\<close>

lemma matches_key: "trunked c \<Longrightarrow> matches_message w m c \<longleftrightarrow> call_key (sys_num w) c = message_key m"
  by (auto simp: matches_message_def call_key_def message_key_def sys_of_def)

lemma ident_key: "ident c = ident d \<Longrightarrow> trunked c = trunked d \<and> call_key num c = call_key num d \<and> cl_call_num c = cl_call_num d"
  by (simp add: ident_def trunked_def call_key_def)

lemma idents_facts:
  "map ident cs = map ident ds \<Longrightarrow>
     map (call_key num) (filter trunked cs) = map (call_key num) (filter trunked ds) \<and> map cl_call_num cs = map cl_call_num ds"
proof (induction cs arbitrary: ds)
  case (Cons c cs)
  then obtain d ds' where "ds = d # ds'" "ident c = ident d" "map ident cs = map ident ds'" by (cases ds) auto
  with Cons.IH [of ds'] ident_key [of c d num] show ?case by simp
qed simp

lemma idents_append:
  assumes "map ident cs = map ident ds @ [i]"
  obtains cs' c where "cs = cs' @ [c]" "map ident cs' = map ident ds" "ident c = i"
proof (cases cs rule: rev_cases)
  case Nil
  with assms show ?thesis by simp
next
  case (snoc cs' c)
  with assms that show ?thesis by simp
qed

lemma frame_keys:
  assumes "w_frame w w'" "world_ok w"
  shows "map (call_key (sys_num w')) (filter trunked (w_calls w)) = keys w"
proof -
  have "sys_num w' (cl_sys c) = sys_num w (cl_sys c)" if "c \<in> set (w_calls w)" for c
  proof -
    have "cl_sys c < length (w_systems w)" using that assms(2) by (simp add: world_ok_def calls_ok_def call_ok_def)
    from w_frame_nth [OF assms(1) this] show ?thesis by (simp add: sys_frame_def)
  qed
  then show ?thesis by (simp add: keys_def call_key_def)
qed

lemma numbers_cong:
  assumes "map cl_call_num (w_calls w') = map cl_call_num (w_calls w)" "w_call_counter w' = w_call_counter w"
  shows "numbers_ok w' = numbers_ok w"
  unfolding numbers_ok_def assms ..

lemma grant_inv:
  assumes "grant_result w m s w'" "outcome w w'" "world_ok w'" "world_inv w" "sys_num w s = tm_sys_num m"
  shows "world_inv w'"
proof -
  have num: "sys_num w' = sys_num w" using assms(2) by (simp add: outcome_def)
  show ?thesis
  proof (cases "\<exists>c \<in> set (w_calls w). matches_message w m c")
    case True
    then have "map ident (w_calls w') = map ident (w_calls w)" "w_call_counter w' = w_call_counter w"
      using assms(1) by (simp_all add: grant_result_def)
    then show ?thesis
      using idents_facts [of "w_calls w'" "w_calls w" "sys_num w"] numbers_cong [of w' w] assms(3,4)
      by (simp add: world_inv_def keys_def num)
  next
    case False
    then have g: "map ident (w_calls w') = map ident (w_calls w) @ [grant_ident w m s]"
      and cnt: "w_call_counter w' = w_call_counter w + 1"
      using assms(1) by (simp_all add: grant_result_def)
    obtain cs c where cs: "w_calls w' = cs @ [c]" "map ident cs = map ident (w_calls w)" "ident c = grant_ident w m s"
      using g by (rule idents_append)
    note f = idents_facts [OF cs(2), of "sys_num w"]
    have c: "trunked c" "call_key (sys_num w) c = message_key m" "cl_call_num c = w_call_counter w"
      using cs(3) assms(5) by (simp_all add: ident_def grant_ident_def trunked_def call_key_def message_key_def)
    have new: "message_key m \<notin> set (keys w)" using False matches_key by (auto simp: keys_def)
    have "keys w' = keys w @ [message_key m]" using f c by (simp add: keys_def cs(1) num)
    then have k: "distinct (keys w')" using new assms(4) by (simp add: world_inv_def)
    have "map cl_call_num (w_calls w') = map cl_call_num (w_calls w) @ [w_call_counter w]"
      using f c(3) by (simp add: cs(1))
    then have "numbers_ok w'"
      using assms(4) unfolding world_inv_def numbers_ok_def cnt by (auto simp del: set_map)
    then show ?thesis using assms(3) k by (simp add: world_inv_def)
  qed
qed

lemma world_same_inv:
  assumes "world_same w w'" "world_inv w"
  shows "world_inv w'"
proof -
  note o = world_same_outcome [OF assms(1)]
  show ?thesis
    using idents_facts [of "w_calls w'" "w_calls w" "sys_num w"] numbers_cong [of w' w] assms o
      world_ok_same [OF _ assms(1)]
    by (simp add: world_inv_def keys_def outcome_def)
qed

text \<open>A change of nothing but the systems, within their frame.\<close>

lemma frame_inv:
  assumes "w_frame w w'" "w_calls w' = w_calls w" "w_recorders w' = w_recorders w" "w_call_counter w' = w_call_counter w"
    and "world_inv w"
  shows "world_inv w'"
proof -
  have "world_ok w'"
    using assms(1,2,3,5) w_frame_length [OF assms(1)] by (simp add: world_inv_def world_ok_def w_frame_def)
  moreover have "keys w' = keys w"
    using frame_keys [OF assms(1)] assms(2,5) by (simp add: keys_def world_inv_def)
  ultimately show ?thesis
    using assms(5) numbers_cong [of w' w] assms(2,4) by (simp add: world_inv_def)
qed

section \<open>Messages\<close>

lemma current_system_frame:
  "w_frame w (current_system_status m s w)" "w_frame w (current_system_sysid m s w)"
  by (simp_all add: current_system_status_def current_system_sysid_def split_def Let_def set_sys_frame control_frames)

lemma current_system_parts [simp]:
  "w_calls (current_system_status m s w) = w_calls w" "w_calls (current_system_sysid m s w) = w_calls w"
  "w_recorders (current_system_status m s w) = w_recorders w" "w_recorders (current_system_sysid m s w) = w_recorders w"
  "w_call_counter (current_system_status m s w) = w_call_counter w" "w_call_counter (current_system_sysid m s w) = w_call_counter w"
  "w_concluder (current_system_status m s w) = w_concluder w" "w_concluder (current_system_sysid m s w) = w_concluder w"
  by (simp_all add: current_system_status_def current_system_sysid_def split_def Let_def)

text \<open>A message that is not about voice leaves calls, recorders and the concluder alone.\<close>

lemma handle_one_control:
  assumes "\<not> is_call_message k"
  shows "\<exists>w'. handle_one env k m s w = Some w' \<and> w_frame w w' \<and> w_calls w' = w_calls w \<and> w_recorders w' = w_recorders w
    \<and> w_call_counter w' = w_call_counter w \<and> w_concluder w' = w_concluder w"
  using assms by (cases k) (simp_all add: is_call_message_def set_sys_frame control_frames current_system_frame)

lemma handle_one_voice:
  assumes "is_call_message k" "handle_one env k m s w = Some w'"
  shows "handle_call_grant env m s w = Some w' \<or> world_same w w'"
  using assms by (cases k) (auto simp: is_call_message_def handle_call_update_same split: if_splits)

lemma handle_one_inv:
  assumes "handle_one env k m s w = Some w'" "world_inv w" "s < length (w_systems w)" "sys_num w s = tm_sys_num m"
  shows "world_inv w' \<and> w_frame w w'"
proof (cases "is_call_message k")
  case False
  from handle_one_control [OF this, of env m s w] assms(1) frame_inv [OF _ _ _ _ assms(2)] show ?thesis by fastforce
next
  case True
  have ok: "world_ok w" using assms(2) by (simp add: world_inv_def)
  from handle_one_voice [OF True assms(1)] show ?thesis
  proof
    assume g: "handle_call_grant env m s w = Some w'"
    note r = handle_call_grant_ok [OF g ok assms(3)]
    then show ?thesis using grant_inv [OF _ _ _ assms(2,4)] outcome_frame by blast
  next
    assume "world_same w w'"
    then show ?thesis using world_same_inv [OF _ assms(2)] outcome_frame world_same_outcome by blast
  qed
qed

lemma frame_num: "w_frame w w' \<Longrightarrow> s < length (w_systems w) \<Longrightarrow> sys_num w' s = sys_num w s"
  using w_frame_nth [of w w' s] by (simp add: sys_frame_def)

lemma handle_message_inv:
  assumes "handle_message env ms s w = Some w'" "world_inv w" "s < length (w_systems w)"
    and "\<forall>m \<in> set ms. tm_sys_num m = sys_num w s"
  shows "world_inv w' \<and> w_frame w w'"
  using assms
proof (induction ms arbitrary: w)
  case (Cons m ms)
  then obtain w1 where 1: "handle_one env (tm_message_type m) m s w = Some w1" and r: "handle_message env ms s w1 = Some w'"
    by (auto simp: bind_eq_Some_conv)
  have i: "world_inv w1" "w_frame w w1" using handle_one_inv [OF 1 Cons.prems(2,3)] Cons.prems(4) by simp_all
  have "world_inv w' \<and> w_frame w1 w'"
    using i Cons.prems(3,4) w_frame_length [OF i(2)] frame_num [OF i(2) Cons.prems(3)]
    by (intro Cons.IH [OF r]) simp_all
  then show ?case using i w_frame_trans by blast
qed simp

section \<open>The timer\<close>

lemma manage_calls_inv:
  assumes "manage_calls env w = Some w'" "world_inv w"
  shows "world_inv w' \<and> outcome w w'"
proof -
  have ok: "world_ok w" using assms(2) by (simp add: world_inv_def)
  note s = manage_calls_spec [OF assms(1) ok]
  have num: "sys_num w' = sys_num w" using s by (simp add: outcome_def)
  have d: "distinct (map (call_key num) (filter trunked cs)) \<Longrightarrow> distinct (map (call_key num) (filter (\<lambda>c. trunked c \<and> P c) cs))" for num cs P
    by (induction cs) (auto split: if_splits)
  have "distinct (keys w')"
    using s d [of "sys_num w" "w_calls w"] assms(2) unfolding keys_def num world_inv_def by simp
  moreover have "distinct (map f xs) \<Longrightarrow> distinct (map f (filter P xs))" "set (map f (filter P xs)) \<subseteq> set (map f xs)" for f :: "Call \<Rightarrow> int" and xs P
    by (induction xs) auto
  then have "numbers_ok w'"
    using s assms(2) unfolding world_inv_def numbers_ok_def by (metis subsetD)
  ultimately show ?thesis using s by (simp add: world_inv_def)
qed

lemma retune_frame:
  assumes "retune_system s w = Some (r, w')"
  shows "w_frame w w' \<and> w_calls w' = w_calls w \<and> w_recorders w' = w_recorders w \<and> w_call_counter w' = w_call_counter w"
proof -
  obtain f sys where n: "get_next_control_channel (w_systems w ! s) = Some (f, sys)"
    using assms by (auto simp: retune_system_def bind_eq_Some_conv)
  have fr: "sys_frame (length (w_sources w)) (w_systems w ! s) sys"
    using n by (auto simp: get_next_control_channel_def Let_def bind_eq_Some_conv sys_frame_def has_source_def)
  have fr': "sys_frame (length (w_sources w)) (w_systems w ! s) (sys\<lparr>sy_source := Some i\<rparr>)"
    if "first_covering f (w_sources w) = Some i" for i
    using that fr find_in_set [of _ "[0..<length (w_sources w)]" i]
    by (auto simp: sys_frame_def has_source_def first_covering_def)
  show ?thesis
    using assms set_sys_frame [OF fr] set_sys_frame [OF fr']
    by (auto simp: retune_system_def n Let_def bind_eq_Some_conv split: if_splits option.splits)
qed

definition control_only :: "World \<Rightarrow> World \<Rightarrow> bool" where
  "control_only w w' \<longleftrightarrow> w_frame w w' \<and> w_calls w' = w_calls w \<and> w_recorders w' = w_recorders w
     \<and> w_call_counter w' = w_call_counter w"

lemma control_only_trans: "control_only a b \<Longrightarrow> control_only b c \<Longrightarrow> control_only a c"
  unfolding control_only_def using w_frame_trans by auto

lemma control_only_set:
  "sys_frame (length (w_sources w)) (w_systems w ! s) sys \<Longrightarrow> control_only w (set_sys s sys w)"
  by (simp add: control_only_def set_sys_frame)

lemma counters_frame [simp]:
  "sys_frame n sys (sys\<lparr>sy_message_count := a\<rparr>)" "sys_frame n sys (sys\<lparr>sy_decode_rate := b\<rparr>)"
  "sys_frame n sys (sys\<lparr>sy_decode_rate := b, sy_retune_attempts := d\<rparr>)"
  by (simp_all add: sys_frame_def has_source_def)

lemma reset_control_only: "control_only w (reset_message_count s w)"
  by (simp add: reset_message_count_def control_only_set)

lemma check_system_control_only:
  assumes "check_system env seconds s w = Some r"
  shows "control_only w (check_world r)"
proof -
  let ?sys = "w_systems w ! s"
  define b where "b = \<lfloor>of_int (sy_message_count ?sys) / seconds\<rfloor>"
  have set: "control_only w (reset_message_count s (set_sys s sys w))" "control_only w ((set_sys s sys w)\<lparr>w_exit_flag := True\<rparr>)"
    if "sys \<in> {?sys\<lparr>sy_decode_rate := b\<rparr>} \<union> (\<lambda>d. ?sys\<lparr>sy_decode_rate := b, sy_retune_attempts := d\<rparr>) ` UNIV" for sys
  proof -
    have c: "control_only w (set_sys s sys w)" using that by (auto intro!: control_only_set)
    then show "control_only w (reset_message_count s (set_sys s sys w))" using reset_control_only control_only_trans by blast
    show "control_only w ((set_sys s sys w)\<lparr>w_exit_flag := True\<rparr>)" using c by (simp add: control_only_def w_frame_def)
  qed
  have ret: "control_only w (reset_message_count s w2)" if "retune_system s (set_sys s sys w) = Some (x, w2)"
    "sys \<in> {?sys\<lparr>sy_decode_rate := b\<rparr>} \<union> (\<lambda>d. ?sys\<lparr>sy_decode_rate := b, sy_retune_attempts := d\<rparr>) ` UNIV" for sys x w2
  proof -
    have c: "control_only w (set_sys s sys w)" using that(2) by (auto intro!: control_only_set)
    have "control_only (set_sys s sys w) w2" using retune_frame [OF that(1)] by (simp add: control_only_def)
    then show ?thesis using c reset_control_only control_only_trans by blast
  qed
  show ?thesis
    using assms set ret reset_control_only
    by (auto simp: check_system_def b_def [symmetric] Let_def split: if_splits)
qed

lemma check_systems_control_only: "check_systems env seconds ss w = Some w' \<Longrightarrow> control_only w w'"
proof (induction env seconds ss w rule: check_systems.induct)
  case (1 env seconds w)
  then show ?case by (simp add: control_only_def)
next
  case (2 env seconds s ss w)
  then obtain r where r: "check_system env seconds s w = Some r" by (auto simp: bind_eq_Some_conv)
  note c = check_system_control_only [OF r]
  show ?case
  proof (cases r)
    case (Go_On w1)
    with 2 r c show ?thesis using control_only_trans by fastforce
  next
    case (Terminate_Program w1)
    with 2 r c show ?thesis by simp
  qed
qed

lemma timed_work_inv:
  assumes "timed_work env jitter lt w = Some (lt', w')" "world_inv w"
  shows "world_inv w' \<and> w_frame w w'"
proof -
  obtain lt1 w1 where 1: "(if me_now env - lt_management lt \<ge> 1 then
       do { w \<leftarrow> manage_calls env w;
            Some (lt\<lparr>lt_management := me_now env\<rparr>,
              w\<lparr>w_concluder := manage_call_data_workers (me_now env) jitter (w_concluder w)\<rparr>) }
     else Some (lt, w)) = Some (lt1, w1)"
    and 2: "(if me_now env - lt_decode_rate lt1 \<ge> 3 then
            do { w \<leftarrow> check_message_count env (of_int (me_now env - lt_decode_rate lt1)) w1;
                 Some (lt1\<lparr>lt_decode_rate := me_now env\<rparr>, clear_patches env w) }
          else Some (lt1, w1)) = Some (lt', w')"
  proof -
    from assms(1) [unfolded timed_work_def Let_def bind_eq_Some_conv] that show ?thesis
      by (auto simp only: split_paired_Ex prod.case)
  qed
  have i1: "world_inv w1" "w_frame w w1"
  proof -
    have "w1 = w \<or> (\<exists>v. manage_calls env w = Some v \<and>
        w1 = v\<lparr>w_concluder := manage_call_data_workers (me_now env) jitter (w_concluder v)\<rparr>)"
      using 1 by (auto simp: bind_eq_Some_conv split: if_splits)
    moreover have "world_inv (v\<lparr>w_concluder := co\<rparr>) = world_inv v" "outcome w (v\<lparr>w_concluder := co\<rparr>) = outcome w v" for v co
      by (simp_all add: world_inv_def world_ok_def keys_def numbers_ok_def outcome_def)
    ultimately show "world_inv w1" "w_frame w w1"
      using manage_calls_inv [OF _ assms(2)] assms(2) outcome_frame by fastforce+
  qed
  have "w' = w1 \<or> (\<exists>v. check_message_count env (of_int (me_now env - lt_decode_rate lt1)) w1 = Some v \<and> w' = clear_patches env v)"
    using 2 by (auto simp: bind_eq_Some_conv split: if_splits)
  moreover have "control_only w1 (clear_patches env v)" if "check_message_count env q w1 = Some v" for v q
  proof -
    have "control_only w1 v"
      using check_systems_control_only [OF that [unfolded check_message_count_def]] by (simp add: control_only_def w_frame_def)
    moreover have "control_only v (clear_patches env v)"
      by (simp add: control_only_def clear_patches_def w_frame_def list_all2_conv_all_nth control_frames)
    ultimately show ?thesis by (rule control_only_trans)
  qed
  ultimately have "control_only w1 w'" by (auto simp: control_only_def)
  then show ?thesis using frame_inv [OF _ _ _ _ i1(1), of w'] i1(2) w_frame_trans by (auto simp: control_only_def)
qed

section \<open>The flow graph and the worker threads\<close>

lemma audio_inv:
  assumes "world_inv w"
  shows "world_inv (set_rec i (rec_work a (w_recs w i)) w) \<and> outcome w (set_rec i (rec_work a (w_recs w i)) w)"
proof -
  let ?r = "rec_work a (w_recs w i)" and ?T = "trunk (w_sources w)"
  have inv: "\<forall>j \<in> ?T. rec_inv (w_recs w j)" using assms by (simp add: world_inv_def world_ok_def calls_ok_def)
  have "?T \<inter> busy rec_get_state ((w_recs w)(i := ?r)) = ?T \<inter> busy rec_get_state (w_recs w)"
  proof (cases "i \<in> ?T")
    case True
    then show ?thesis using any.busy_running [of "w_recs w" i a] inv by simp
  next
    case False
    then show ?thesis by (auto simp: busy_def)
  qed
  moreover have "\<forall>j \<in> ?T. rec_inv (((w_recs w)(i := ?r)) j)" using inv any.run_inv by simp
  ultimately show ?thesis
    using assms by (simp add: world_inv_def world_ok_def calls_ok_def keys_def numbers_ok_def outcome_def)
qed

lemma worker_inv: "world_inv (w\<lparr>w_concluder := co\<rparr>) = world_inv w" "outcome w (w\<lparr>w_concluder := co\<rparr>)"
  by (simp_all add: world_inv_def world_ok_def keys_def numbers_ok_def outcome_def)

end
