(* ===== verification/World_Progress.thy ===== *)
theory World_Progress
  imports World_Runs
begin

text \<open>
  Runs of the program from its set-up on: the step relation, the invariant after the set-up of the
  systems, and that no operation of the loop follows a null pointer.
\<close>

section \<open>Runs\<close>

text \<open>
  One thing that happens: the messages of one control channel, each carrying the number of its
  system, the timer, a stretch of audio in a recorder, or a worker thread that finishes. The
  flow graph and the workers are threads of their own; their steps come between any others.
\<close>

inductive loop_step :: "World \<Rightarrow> World \<Rightarrow> bool" where
  messages: "s < length (w_systems w) \<Longrightarrow> \<forall>m \<in> set ms. tm_sys_num m = sys_num w s \<Longrightarrow>
    handle_message env ms s w = Some w' \<Longrightarrow> loop_step w w'"
| timer: "timed_work env jitter lt w = Some (lt', w') \<Longrightarrow> loop_step w w'"
| audio: "loop_step w (set_rec i (rec_work a (w_recs w i)) w)"
| worker: "run_worker cenv i (w_concluder w) = Some co \<Longrightarrow> loop_step w (w\<lparr>w_concluder := co\<rparr>)"

abbreviation loop_steps :: "World \<Rightarrow> World \<Rightarrow> bool" where
  "loop_steps \<equiv> loop_step\<^sup>*\<^sup>*"

lemma loop_step_inv: "loop_step w w' \<Longrightarrow> world_inv w \<Longrightarrow> world_inv w' \<and> w_frame w w'"
proof (induction rule: loop_step.induct)
  case (messages s w ms env w')
  then show ?case using handle_message_inv by blast
next
  case (timer env jitter lt w lt' w')
  then show ?case using timed_work_inv by blast
next
  case (audio w i a)
  then show ?case using audio_inv outcome_frame by blast
next
  case (worker cenv i w co)
  then show ?case using worker_inv outcome_frame by blast
qed

lemma loop_steps_inv: "loop_steps w w' \<Longrightarrow> world_inv w \<Longrightarrow> world_inv w' \<and> w_frame w w'"
  by (induction rule: rtranclp_induct) (use loop_step_inv w_frame_trans in \<open>auto\<close>)

section \<open>Set-up\<close>

text \<open>Before the set-up of the systems there is no call, and every trunking recorder is new.\<close>

definition initial :: "World \<Rightarrow> bool" where
  "initial w \<longleftrightarrow> w_calls w = [] \<and> sources_ok (w_sources w) (fst (w_recorders w))
     \<and> (\<forall>i \<in> trunk (w_sources w). rec_inv (w_recs w i) \<and> rec_get_state (w_recs w i) = AVAILABLE)"

definition setup_inv :: "World \<Rightarrow> bool" where
  "setup_inv w \<longleftrightarrow> world_inv w \<and> filter trunked (w_calls w) = []"

lemma initial_inv: "initial w \<Longrightarrow> setup_inv w"
  by (auto simp: initial_def setup_inv_def world_inv_def world_ok_def calls_ok_def keys_def numbers_ok_def busy_def)

lemma trunk_update:
  assumes "k < length sources" "so_digital_recorders so = so_digital_recorders (sources ! k)"
    "so_analog_recorders so = so_analog_recorders (sources ! k)"
  shows "trunk (sources[k := so]) = trunk sources"
proof -
  let ?f = "\<lambda>so. set (so_digital_recorders so) \<union> set (so_analog_recorders so)"
  have "map ?f (sources[k := so]) = map ?f sources"
    using assms by (simp add: map_update list_update_same_conv)
  then have "?f ` set (sources[k := so]) = ?f ` set sources" by (metis set_map)
  then show ?thesis by (simp add: trunk_def)
qed

lemma sources_ok_update:
  assumes "sources_ok sources n" "k < length sources"
    and "so_digital_recorders so = so_digital_recorders (sources ! k)"
    "so_analog_recorders so = so_analog_recorders (sources ! k)"
    "so_debug_recorders so = so_debug_recorders (sources ! k)" "so_sigmf_recorders so = so_sigmf_recorders (sources ! k)"
  shows "sources_ok (sources[k := so]) (Suc n)"
proof -
  have "(set (so_debug_recorders s) \<union> set (so_sigmf_recorders s)) \<inter> trunk sources = {}" if "s \<in> set (sources[k := so])" for s
  proof -
    have "s = so \<or> s \<in> set sources" using that set_update_subset_insert by fastforce
    moreover have "(set (so_debug_recorders (sources ! k)) \<union> set (so_sigmf_recorders (sources ! k))) \<inter> trunk sources = {}"
      using assms(1) nth_mem [OF assms(2)] unfolding sources_ok_def by blast
    ultimately show ?thesis using assms(1,5,6) by (auto simp: sources_ok_def)
  qed
  moreover have "trunk sources \<subseteq> {..<Suc n}" using assms(1) by (force simp: sources_ok_def)
  ultimately show ?thesis unfolding sources_ok_def trunk_update [OF assms(2-4)] by blast
qed

text \<open>Adding a conventional call with a new recorder.\<close>

definition channel_added :: "sys_ref \<Rightarrow> World \<Rightarrow> World \<Rightarrow> bool" where
  "channel_added s w w' \<longleftrightarrow> (\<exists>c. w_calls w' = w_calls w @ [c] \<and> cl_conventional c \<and> cl_sys c = s
       \<and> cl_call_num c = w_call_counter w \<and> \<not> cl_debug_recording c \<and> \<not> cl_sigmf_recording c
       \<and> cl_recorder c = Some (fst (w_recorders w)))
     \<and> w_call_counter w' = w_call_counter w + 1
     \<and> fst (w_recorders w') = Suc (fst (w_recorders w))
     \<and> (\<forall>i. i \<noteq> fst (w_recorders w) \<longrightarrow> w_recs w' i = w_recs w i)
     \<and> length (w_sources w') = length (w_sources w) \<and> trunk (w_sources w') = trunk (w_sources w)
     \<and> (\<forall>n. sources_ok (w_sources w) n \<longrightarrow> sources_ok (w_sources w') (Suc n))
     \<and> list_all2 (sys_frame (length (w_sources w))) (w_systems w) (w_systems w')"

lemma channel_added_inv:
  assumes "channel_added s w w'" "setup_inv w" "s < length (w_systems w)"
  shows "setup_inv w'"
proof -
  let ?T = "trunk (w_sources w)" and ?i = "fst (w_recorders w)"
  obtain c where c: "w_calls w' = w_calls w @ [c]" "cl_conventional c" "cl_sys c = s"
    "cl_call_num c = w_call_counter w" "\<not> cl_debug_recording c" "\<not> cl_sigmf_recording c" "cl_recorder c = Some ?i"
    using assms(1) by (auto simp: channel_added_def)
  have ok: "calls_ok ?T (length (w_systems w)) (w_recs w) (w_calls w)" "sources_ok (w_sources w) ?i"
    using assms(2) by (simp_all add: setup_inv_def world_inv_def world_ok_def)
  then have i: "?i \<notin> ?T" by (auto simp: sources_ok_def)
  have same: "w_recs w' j = w_recs w j" if "j \<in> ?T" for j
  proof -
    have "j \<noteq> ?i" using i that by blast
    then show ?thesis using assms(1) unfolding channel_added_def by blast
  qed
  have "calls_ok ?T (length (w_systems w)) (w_recs w') (w_calls w @ [c])"
  proof (rule calls_ok_append [OF ok(1)])
    show "call_ok ?T (length (w_systems w)) c" using c i assms(3) by (simp add: call_ok_def outside_def)
    show "\<forall>i \<in> ?T. rec_inv (w_recs w' i)" using same calls_ok_inv [OF ok(1)] by simp
    have "?T \<inter> busy rec_get_state (w_recs w') = ?T \<inter> busy rec_get_state (w_recs w)" using same by (auto simp: busy_def)
    then show "?T \<inter> busy rec_get_state (w_recs w') = (if records c then insert (the (cl_recorder c)) (?T \<inter> busy rec_get_state (w_recs w))
        else ?T \<inter> busy rec_get_state (w_recs w))" "records c \<Longrightarrow> the (cl_recorder c) \<notin> busy rec_get_state (w_recs w)"
      using c(2) by (simp_all add: records_def)
  qed
  moreover have "length (w_systems w') = length (w_systems w)"
    using assms(1) list_all2_lengthD by (fastforce simp: channel_added_def)
  ultimately have "world_ok w'"
    using assms(1) ok(2) c(1) by (simp add: world_ok_def channel_added_def)
  moreover have f: "filter trunked (w_calls w') = []" using assms(2) c(2) by (simp add: c(1) setup_inv_def trunked_def)
  moreover have "w_call_counter w' = w_call_counter w + 1" using assms(1) by (simp add: channel_added_def)
  then have "numbers_ok w'"
    using assms(2) c(4) unfolding setup_inv_def world_inv_def numbers_ok_def c(1) by (auto simp del: set_map)
  ultimately show ?thesis by (simp add: setup_inv_def world_inv_def keys_def)
qed

lemma new_conventional_call_simps [simp]:
  "cl_conventional (new_conventional_call now num t f s)" "cl_call_num (new_conventional_call now num t f s) = num"
  "cl_sys (new_conventional_call now num t f s) = s" "\<not> cl_debug_recording (new_conventional_call now num t f s)"
  "\<not> cl_sigmf_recording (new_conventional_call now num t f s)" "cl_talkgroup (new_conventional_call now num t f s) = t"
  "cl_curr_freq (new_conventional_call now num t f s) = f"
  by (simp_all add: new_conventional_call_def)

lemma channel_call_facts:
  assumes "channel_call env s sys f n w = Some c"
  shows "cl_conventional c \<and> cl_sys c = s \<and> cl_call_num c = w_call_counter w \<and> \<not> cl_debug_recording c
    \<and> \<not> cl_sigmf_recording c"
  using assms by (auto simp: channel_call_def split: if_splits)

lemma add_channel_added:
  assumes c: "cl_conventional c" "cl_sys c = s" "cl_call_num c = w_call_counter w" "\<not> cl_debug_recording c" "\<not> cl_sigmf_recording c"
    and k: "k < length (w_sources w)"
  shows "channel_added s w (add_channel env fac s k c (w\<lparr>w_call_counter := w_call_counter w + 1\<rparr>))"
proof -
  have fr: "list_all2 (sys_frame n) ss (ss[s := sys])" if "sys_frame n (ss ! s) sys" for n ss sys
  proof -
    have "sys_frame n (ss ! i) (ss[s := sys] ! i)" if "i < length ss" for i
      using that \<open>sys_frame n (ss ! s) sys\<close> by (cases "i = s") simp_all
    then show ?thesis by (simp add: list_all2_conv_all_nth)
  qed
  have s: "sys_frame n sys (sys\<lparr>sy_conventional_recorders := a\<rparr>)" "sys_frame n sys (sys\<lparr>sy_conventionalDMR_recorders := a\<rparr>)"
    "sys_frame n sys (sys\<lparr>sy_conventionalP25_recorders := a\<rparr>)" for n sys a
    by (simp_all add: sys_frame_def has_source_def)
  show ?thesis
    using c k
    by (simp add: channel_added_def add_channel_def Let_def put_recorder_def create_conventional_recorder_def
        create_dmr_conventional_recorder_def create_digital_conventional_recorder_def make_recorder_def
        trunk_update sources_ok_update fr s split_def)
qed

definition setup_frame :: "World \<Rightarrow> World \<Rightarrow> bool" where
  "setup_frame w w' \<longleftrightarrow> length (w_sources w') = length (w_sources w)
     \<and> list_all2 (sys_frame (length (w_sources w))) (w_systems w) (w_systems w')"

lemma setup_frame_refl [simp]: "setup_frame w w"
  by (simp add: setup_frame_def)

lemma setup_frame_trans: "setup_frame a b \<Longrightarrow> setup_frame b c \<Longrightarrow> setup_frame a c"
  unfolding setup_frame_def by (auto intro: list_all2_trans [OF sys_frame_trans])

lemma setup_frame_nth:
  "setup_frame w w' \<Longrightarrow> s < length (w_systems w) \<Longrightarrow>
     sys_frame (length (w_sources w)) (w_systems w ! s) (w_systems w' ! s)"
  by (simp add: setup_frame_def list_all2_conv_all_nth)

lemma setup_frame_length: "setup_frame w w' \<Longrightarrow> length (w_systems w') = length (w_systems w)"
  unfolding setup_frame_def by (metis list_all2_lengthD)

lemma setup_channel_inv:
  assumes "setup_convetional_channel env fac s f n w = Some (b, w')" "setup_inv w" "s < length (w_systems w)"
  shows "setup_inv w' \<and> setup_frame w w'"
proof (cases "first_covering f (w_sources w)")
  case None
  then show ?thesis using assms by (simp add: setup_convetional_channel_def)
next
  case (Some k)
  then have k: "k < length (w_sources w)" using find_in_set [of _ "[0..<length (w_sources w)]" k] by (simp add: first_covering_def)
  show ?thesis
  proof (cases "sy_squelch_db (w_systems w ! s) = -160")
    case True
    then show ?thesis using Some assms by (simp add: setup_convetional_channel_def)
  next
    case False
    then obtain c where c: "channel_call env s (w_systems w ! s) f n w = Some c"
      and w': "w' = add_channel env fac s k c (w\<lparr>w_call_counter := w_call_counter w + 1\<rparr>)"
      using assms(1) Some by (auto simp: setup_convetional_channel_def bind_eq_Some_conv)
    have a: "channel_added s w w'"
      unfolding w' using channel_call_facts [OF c] k by (intro add_channel_added) simp_all
    show ?thesis using channel_added_inv [OF a assms(2,3)] a by (simp add: channel_added_def setup_frame_def)
  qed
qed

lemma setup_channels_inv:
  assumes "setup_channels env fac s chs w = Some (b, w')" "setup_inv w" "s < length (w_systems w)"
  shows "setup_inv w' \<and> setup_frame w w'"
  using assms
proof (induction env fac s chs w arbitrary: b rule: setup_channels.induct)
  case (2 env fac s f n chs w)
  then obtain a w1 r where 1: "setup_convetional_channel env fac s f n w = Some (a, w1)"
    and r: "setup_channels env fac s chs w1 = Some (r, w')"
    by (auto simp: bind_eq_Some_conv)
  note i = setup_channel_inv [OF 1 2(3,4)]
  then have "setup_inv w' \<and> setup_frame w1 w'"
    using 2(1) [OF 1 refl r] 2(4) setup_frame_length by metis
  then show ?case using i setup_frame_trans by blast
qed simp

section \<open>What a run needs to go on\<close>

definition tuned :: "World \<Rightarrow> sys_ref \<Rightarrow> bool" where
  "tuned w s \<longleftrightarrow> is_conventional_type (sy_system_type (w_systems w ! s))
     \<or> has_source (length (w_sources w)) (w_systems w ! s)"

lemma tuned_frame:
  "setup_frame w w' \<Longrightarrow> s < length (w_systems w) \<Longrightarrow> tuned w s \<Longrightarrow> tuned w' s"
  using setup_frame_nth [of w w' s] by (auto simp: tuned_def sys_frame_def setup_frame_def)

lemma setup_systems_inv:
  assumes "setup_systems env fac ss w = Some (b, w')" "setup_inv w" "\<forall>s \<in> set ss. s < length (w_systems w)"
  shows "setup_inv w' \<and> setup_frame w w' \<and> (b \<longrightarrow> (\<forall>s \<in> set ss. tuned w' s))"
  using assms
proof (induction env fac ss w arbitrary: b rule: setup_systems.induct)
  case (2 env fac s ss w)
  let ?sys = "w_systems w ! s"
  have step: ?case if i: "setup_inv w1" "setup_frame w w1" "tuned w1 s" and r: "setup_systems env fac ss w1 = Some (b, w')"
    and IH: "setup_inv w' \<and> setup_frame w1 w' \<and> (b \<longrightarrow> (\<forall>s \<in> set ss. tuned w' s))" for w1
    using i IH setup_frame_trans [OF i(2)] tuned_frame [of w1 w' s] 2(5) setup_frame_length [OF i(2)] by simp
  show ?case
  proof (cases "is_conventional_type (sy_system_type ?sys)")
    case True
    then obtain a w1 where 1: "setup_conventional_system env fac s w = Some (a, w1)" and r: "setup_systems env fac ss w1 = Some (b, w')"
      using 2(3) by (auto simp: bind_eq_Some_conv Let_def)
    have i: "setup_inv w1" "setup_frame w w1"
      using setup_channels_inv 1 2(4,5) unfolding setup_conventional_system_def Let_def by (metis list.set_intros(1))+
    have t: "tuned w1 s" using True setup_frame_nth [OF i(2), of s] 2(5) by (simp add: tuned_def sys_frame_def)
    show ?thesis
      by (rule step [OF i t r]) (use 2(1) [OF refl True 1 refl r i(1)] 2(5) setup_frame_length [OF i(2)] in simp)
  next
    case False
    obtain f where f: "get_current_control_channel ?sys = Some f" using 2(3) False by (auto simp: bind_eq_Some_conv Let_def)
    show ?thesis
    proof (cases "first_covering f (w_sources w)")
      case None
      then show ?thesis using 2(3,4) False f by (auto simp: Let_def)
    next
      case (Some k)
      then have k: "k < length (w_sources w)" using find_in_set [of _ "[0..<length (w_sources w)]" k] by (simp add: first_covering_def)
      define w1 where "w1 = set_sys s (?sys\<lparr>sy_source := Some k\<rparr>) w"
      have fr: "w_frame w w1" unfolding w1_def by (rule set_sys_frame) (use k in \<open>simp add: sys_frame_def has_source_def\<close>)
      have r: "setup_systems env fac ss w1 = Some (b, w')" using 2(3) False f Some by (simp add: w1_def Let_def)
      have i: "setup_inv w1" "setup_frame w w1"
        using frame_inv [OF fr] 2(4) fr by (simp_all add: setup_inv_def w1_def setup_frame_def w_frame_def)
      have t: "tuned w1 s" using k 2(5) by (simp add: tuned_def w1_def has_source_def)
      show ?thesis
        by (rule step [OF i t r])
          (use 2(2) [OF refl False f Some] r i(1) 2(5) setup_frame_length [OF i(2)] in \<open>simp add: w1_def\<close>)
    qed
  qed
qed simp

section \<open>Progress\<close>

text \<open>
  With no archive of single transmissions, concluding a call cannot fail: the only exception of
  the concluder is the one for a transmission file that is already there.
\<close>

lemma remove_call_files_total: "\<not> cd_transmission_archive ci \<Longrightarrow> \<exists>fs'. remove_call_files ci fs = Some fs'"
  by (simp add: remove_call_files_def)

lemma scan_archive:
  "cd_transmission_archive (fst (scan_transmissions m tag kept ts sofar ci fs)) = cd_transmission_archive ci"
  by (induction m tag kept ts sofar ci fs rule: scan_transmissions.induct) (simp_all add: Let_def)

lemma create_call_data_archive:
  assumes "create_call_data env cfg junk sys c fs = (ci, c', fs')"
  shows "cd_transmission_archive ci = sy_transmission_archive sys"
proof -
  have "cd_transmission_archive (fst (create_call_data env cfg junk sys c fs)) = sy_transmission_archive sys"
    unfolding create_call_data_def Let_def split_def fst_conv scan_archive by (simp split: option.split)
  then show ?thesis using assms by simp
qed

lemma concluder_total:
  assumes "\<not> sy_transmission_archive sys"
  shows "\<exists>r. concluder_conclude_call env cfg junk sys c co = Some r"
proof -
  obtain ci c1 fs where d: "create_call_data env cfg junk sys c (co_files co) = (ci, c1, fs)" by (rule prod_cases3)
  have "\<not> cd_transmission_archive ci" using create_call_data_archive [OF d] assms by simp
  from remove_call_files_total [OF this, of fs] show ?thesis
    by (auto simp: concluder_conclude_call_def d Let_def)
qed

lemma stop_if_total: "outside T b ref \<Longrightarrow> \<exists>w'. stop_if b ref w = Some w'"
  by (auto simp: stop_if_def outside_def)

definition can_conclude :: "System_impl \<Rightarrow> Call \<Rightarrow> bool" where
  "can_conclude sys c \<longleftrightarrow> \<not> sy_transmission_archive sys \<and> (concludes c \<longrightarrow> cl_recorder c \<noteq> None)"

lemma call_conclude_total:
  assumes "can_conclude sys c" "outside T (cl_debug_recording c) (cl_debug_recorder c)"
    "outside T (cl_sigmf_recording c) (cl_sigmf_recorder c)"
  shows "\<exists>c' w'. call_conclude env sys c w = Some (c', w')"
proof (cases "concludes c")
  case False
  then show ?thesis by (auto simp: call_conclude_def concludes_def Let_def)
next
  case True
  then obtain i where i: "cl_recorder c = Some i" using assms(1) by (auto simp: can_conclude_def)
  obtain w1 where w1: "stop_if (cl_sigmf_recording c) (cl_sigmf_recorder c) (set_rec i (rec_stop (w_recs w i)) w) = Some w1"
    using stop_if_total [OF assms(3)] by blast
  obtain w2 where w2: "stop_if (cl_debug_recording c) (cl_debug_recorder c) w1 = Some w2"
    using stop_if_total [OF assms(2)] by blast
  have "\<forall>d. \<exists>r. concluder_conclude_call (me_concluder env) (me_config env) (me_junk env) sys d (w_concluder w2) = Some r"
    using concluder_total assms(1) by (simp add: can_conclude_def)
  then obtain f where f: "\<And>d. concluder_conclude_call (me_concluder env) (me_config env) (me_junk env) sys d (w_concluder w2) = Some (f d)"
    by metis
  show ?thesis
    using True by (auto simp: call_conclude_def concludes_def Let_def i w1 w2 f split_def)
qed

lemma call_ok_concludes:
  assumes "call_ok T n c" "\<not> sy_transmission_archive sys" "cl_state c = RECORDING"
  shows "can_conclude sys c"
  using assms by (auto simp: can_conclude_def call_ok_def outside_def split: if_splits)

definition no_archive :: "World \<Rightarrow> bool" where
  "no_archive w \<longleftrightarrow> (\<forall>sys \<in> set (w_systems w). \<not> sy_transmission_archive sys)"

lemma no_archive_of:
  "no_archive w \<Longrightarrow> call_ok T (length (w_systems w)) c \<Longrightarrow> \<not> sy_transmission_archive (sys_of w c)"
  by (auto simp: no_archive_def sys_of_def call_ok_def)

lemma no_archive_frame: "list_all2 (sys_frame n) ss ss' \<Longrightarrow>
    (\<forall>sys \<in> set ss. \<not> sy_transmission_archive sys) \<Longrightarrow> (\<forall>sys \<in> set ss'. \<not> sy_transmission_archive sys)"
  by (induction rule: list_all2_induct) (simp_all add: sys_frame_def)

lemma call_conclude_ok_total:
  assumes "call_ok T (length (w_systems w)) c" "no_archive w" "cl_state c = RECORDING"
  shows "\<exists>c' w'. call_conclude env (sys_of w c) c w = Some (c', w')"
  by (rule call_conclude_total [OF call_ok_concludes [OF assms(1) no_archive_of [OF assms(2,1)] assms(3)] call_ok_parts(1,2) [OF assms(1)]])

subsection \<open>Management\<close>

lemma conclude_and_restart_total:
  assumes "call_ok T (length (w_systems w)) c" "no_archive w" "cl_conventional c" "\<forall>i \<in> T. rec_inv (w_recs w i)"
  shows "\<exists>c' w'. conclude_and_restart env i c w = Some (c', w')"
proof -
  have rec: "\<exists>j. cl_recorder c = Some j" using call_ok_parts(5) [OF assms(1,3)] by (auto simp: outside_def)
  then have "can_conclude (sys_of w c) c" using no_archive_of [OF assms(2,1)] by (auto simp: can_conclude_def)
  from call_conclude_total [OF this call_ok_parts(1,2) [OF assms(1)]]
  obtain c1 w1 where 1: "call_conclude env (sys_of w c) c w = Some (c1, w1)" by blast
  have "\<exists>j. cl_recorder c1 = Some j" using conclude_conv [OF 1 assms(1,3,4)] assms(1) call_ok_parts(5)
    by (fastforce simp: conv_ok_def outside_def)
  then have "\<exists>c2 w2. restart_call env (sys_of w1 c1) c1 w1 = Some (c2, w2)"
    by (auto simp: restart_call_def Let_def update_talkgroup_display_def)
  then show ?thesis using 1 by (auto simp: conclude_and_restart_def)
qed

lemma manage_call_total:
  assumes "calls_ok T (length (w_systems w)) (w_recs w) (ds @ c # cs)" "no_archive w"
  shows "\<exists>r w'. manage_call env c w = Some (r, w')"
proof -
  have ok: "call_ok T (length (w_systems w)) c" by (rule calls_ok_call [OF assms(1)]) simp
  note inv = calls_ok_inv [OF assms(1)]
  show ?thesis
  proof (cases "cl_conventional c")
    case True
    obtain j where j: "cl_recorder c = Some j" using call_ok_parts(5) [OF ok True] by (auto simp: outside_def)
    have "\<exists>c' w'. conclude_and_restart env j (c\<lparr>cl_idle_count := k\<rparr>) w = Some (c', w')" for k
      by (rule conclude_and_restart_total) (use ok assms(2) True inv in simp_all)
    from this [of "cl_idle_count c + 1"] this [of 0] this [of "cl_idle_count c"]
    have "\<exists>c' w'. manage_conventional_call env c w = Some (c', w')"
      by (auto simp: manage_conventional_call_def j Let_def increase_idle_count_def reset_idle_count_def)
    then show ?thesis by (auto simp: manage_call_conv [OF True])
  next
    case False
    have st: "cl_state c = RECORDING \<and> cl_recorder c \<noteq> None \<or> cl_state c = MONITORING"
      using ok False by (simp add: call_ok_def)
    then show ?thesis
      using call_conclude_ok_total [OF ok assms(2), of env] unfolding manage_call_trunked [OF False st] by auto
  qed
qed

lemma manage_call_list_total:
  assumes "calls_ok T (length (w_systems w)) (w_recs w) (ds @ cs)" "no_archive w"
  shows "\<exists>cs' w'. manage_call_list env cs w = Some (cs', w')"
  using assms
proof (induction cs arbitrary: ds w)
  case (Cons c cs)
  obtain r w1 where m: "manage_call env c w = Some (r, w1)" using manage_call_total [OF Cons.prems] by blast
  note s = manage_call_spec [OF m Cons.prems(1)]
  have t: "w_systems w1 = w_systems w" using s by (simp add: touches_def)
  have "\<exists>ds'. calls_ok T (length (w_systems w1)) (w_recs w1) (ds' @ cs)"
  proof (cases r)
    case None
    then show ?thesis using s t by auto
  next
    case (Some c')
    then have "calls_ok T (length (w_systems w1)) (w_recs w1) ((ds @ [c']) @ cs)" using s t by simp
    then show ?thesis by blast
  qed
  moreover have "no_archive w1" using Cons.prems(2) t by (simp add: no_archive_def)
  ultimately obtain cs' w' where "manage_call_list env cs w1 = Some (cs', w')" using Cons.IH by blast
  then show ?case by (auto simp: m)
qed simp

lemma manage_calls_total: "world_ok w \<Longrightarrow> no_archive w \<Longrightarrow> \<exists>w'. manage_calls env w = Some w'"
  using manage_call_list_total [of "trunk (w_sources w)" w "[]" "w_calls w" env]
  by (auto simp: world_ok_def manage_calls_def)

subsection \<open>The timer\<close>

lemma retune_total:
  assumes "has_source n (w_systems w ! s)" "control_channel_count (w_systems w ! s) > 0"
  shows "\<exists>r w'. retune_system s w = Some (r, w')"
proof -
  have "\<exists>f sys. get_next_control_channel (w_systems w ! s) = Some (f, sys) \<and> sy_source sys = sy_source (w_systems w ! s)"
    using assms(2) by (auto simp: get_next_control_channel_def vector_at_def control_channel_count_def Let_def)
  then show ?thesis using assms(1) by (auto simp: retune_system_def has_source_def Let_def split: option.split)
qed

lemma check_system_total:
  assumes "tuned w s" "s < length (w_systems w)"
  shows "\<exists>r. check_system env seconds s w = Some r"
proof (cases "is_conventional_type (sy_system_type (w_systems w ! s))")
  case True
  then show ?thesis by (simp add: check_system_def)
next
  case False
  have "\<exists>r w'. retune_system s (set_sys s sys w) = Some (r, w')"
    if "sy_source sys = sy_source (w_systems w ! s)" "control_channel_count sys > 1" for sys
    by (rule retune_total [of "length (w_sources w)"]) (use assms False that in \<open>auto simp: tuned_def has_source_def\<close>)
  then show ?thesis using False by (auto simp: check_system_def Let_def control_channel_count_def)
qed

lemma control_only_tuned: "control_only w w' \<Longrightarrow> s < length (w_systems w) \<Longrightarrow> tuned w s \<Longrightarrow> tuned w' s"
  by (rule tuned_frame) (simp_all add: control_only_def w_frame_def setup_frame_def)

lemma check_systems_total:
  assumes "\<forall>s \<in> set ss. s < length (w_systems w) \<and> tuned w s"
  shows "\<exists>w'. check_systems env seconds ss w = Some w'"
  using assms
proof (induction ss arbitrary: w)
  case (Cons s ss)
  then obtain r where r: "check_system env seconds s w = Some r" using check_system_total by fastforce
  have c: "control_only w (check_world r)" by (rule check_system_control_only [OF r])
  then have "length (w_systems (check_world r)) = length (w_systems w)" using w_frame_length by (auto simp: control_only_def)
  then have "\<exists>w'. check_systems env seconds ss (check_world r) = Some w'"
    using Cons.prems control_only_tuned [OF c] by (intro Cons.IH) simp
  then show ?case by (cases r) (auto simp: r)
qed simp

definition ready :: "World \<Rightarrow> bool" where
  "ready w \<longleftrightarrow> no_archive w \<and> (\<forall>s < length (w_systems w). tuned w s)"

lemma ready_frame: "w_frame w w' \<Longrightarrow> ready w \<Longrightarrow> ready w'"
  using no_archive_frame [of "length (w_sources w)" "w_systems w" "w_systems w'"] w_frame_length [of w w'] tuned_frame [of w w']
  by (auto simp: ready_def no_archive_def w_frame_def setup_frame_def)

lemma timed_work_total:
  assumes "world_ok w" "ready w"
  shows "\<exists>lt' w'. timed_work env jitter lt w = Some (lt', w')"
proof -
  have check: "\<exists>v'. check_message_count env q v = Some v'" if "ready v" for v q
  proof -
    have "tuned (emit es v) s = tuned v s" for es s by (simp add: tuned_def)
    then show ?thesis using that check_systems_total [of "[0..<length (w_systems v)]" "emit [Setup_Config, System_Rates] v" env q]
      by (auto simp: check_message_count_def ready_def)
  qed
  obtain v where v: "manage_calls env w = Some v" using manage_calls_total [OF assms(1), of env] assms(2) by (auto simp: ready_def)
  have "w_frame w v" using manage_calls_spec [OF v assms(1)] outcome_frame by blast
  then have rv: "ready (v\<lparr>w_concluder := co\<rparr>)" for co
    using ready_frame [of w "v\<lparr>w_concluder := co\<rparr>"] assms(2) by (simp add: w_frame_def)
  let ?q = "of_int (me_now env - lt_decode_rate lt)"
  obtain a where a: "check_message_count env ?q (v\<lparr>w_concluder := manage_call_data_workers (me_now env) jitter (w_concluder v)\<rparr>) = Some a"
    using check [OF rv] by blast
  obtain b where b: "check_message_count env ?q w = Some b" using check [OF assms(2)] by blast
  show ?thesis using a b by (auto simp: timed_work_def v Let_def)
qed

subsection \<open>Messages and the exit\<close>

lemma supersede_total:
  assumes "j < length (w_calls w)" "cl_state (w_calls w ! j) = RECORDING"
    and "calls_ok T (length (w_systems w)) (w_recs w) (w_calls w @ new)" "no_archive w"
  shows "\<exists>w'. supersede env (Some j) w = Some w'"
proof -
  let ?c = "w_calls w ! j" and ?n = "length (w_systems w)"
  define c1 where "c1 = ?c\<lparr>cl_state := MONITORING, cl_monitoringState := SUPERSEDED\<rparr>"
  have ok: "call_ok T ?n ?c" by (rule calls_ok_call [OF assms(3)]) (use assms(1) in simp)
  have "can_conclude (sys_of w c1) c1"
    using call_ok_concludes [OF ok no_archive_of [OF assms(4) ok] assms(2)] assms(2)
    by (simp add: c1_def can_conclude_def sys_of_def concludes_def)
  moreover have "outside T (cl_debug_recording c1) (cl_debug_recorder c1)" "outside T (cl_sigmf_recording c1) (cl_sigmf_recorder c1)"
    using call_ok_parts(1,2) [OF ok] by (simp_all add: c1_def)
  ultimately show ?thesis
    using call_conclude_total [of "sys_of w c1" c1 T env w] by (auto simp: supersede_def c1_def [symmetric] Let_def)
qed

lemma start_grant_total:
  assumes "calls_ok T n (w_recs w) (w_calls w)" "sources_ok (w_sources w) (fst (w_recorders w))" "T = trunk (w_sources w)"
    and "fresh_call c" "cl_sys c < n" "\<not> cl_conventional c" "n = length (w_systems w)" "no_archive w"
    and orig: "\<And>j. gr_original g = Some j \<Longrightarrow> j < length (w_calls w) \<and> cl_state (w_calls w ! j) = RECORDING"
    and super: "gr_superseding g \<Longrightarrow> gr_original g \<noteq> None"
  shows "\<exists>r. start_grant env sys g c w = Some r"
proof -
  obtain ok c3 w3 where st: "start_recorder env sys c w = (ok, c3, w3)" by (rule prod_cases3)
  have started: "started_call T c w ok c3 w3"
    using start_recorder_started [OF assms(4,2) _ st] calls_ok_inv [OF assms(1)] assms(3) by simp
  note calls3 = calls_ok_started [OF assms(1) started assms(5,6)]
  have o3: "w_systems w3 = w_systems w" "w_calls w3 = w_calls w"
    using started by (simp_all add: started_call_def touches_def)
  have "\<exists>w'. supersede env (gr_original g) w3 = Some w'" if "gr_superseding g"
  proof -
    have "gr_original g \<noteq> None" by (rule super [OF that])
    then obtain j where j: "gr_original g = Some j" by blast
    show ?thesis unfolding j
      by (rule supersede_total [where T = T and new = "[c3]"])
        (use orig [OF j] o3 calls3 assms(7,8) in \<open>simp_all add: no_archive_def\<close>)
  qed
  then show ?thesis by (cases "gr_superseding g") (auto simp: start_grant_def st)
qed

lemma handle_call_grant_total:
  assumes "world_ok w" "no_archive w" "s < length (w_systems w)"
  shows "\<exists>w'. handle_call_grant env m s w = Some w'"
proof -
  obtain g w1 where scan: "grant_scan env (w_systems w ! s) m w = (g, w1)" by fastforce
  obtain c w2 where mk: "make_grant_call env m s w1 = (c, w2)" by fastforce
  note sp = grant_scan_spec [OF scan] and c = make_grant_call_spec [OF mk]
  note o1 = world_same_outcome [OF sp(1)]
  have ok1: "world_ok w1" by (rule world_ok_same [OF assms(1) sp(1)])
  have orig: "j < length (w_calls w2) \<and> cl_state (w_calls w2 ! j) = RECORDING" if "gr_original g = Some j" for j
    using grant_original(1) [OF scan that] c(5) world_same_length [OF sp(1)] world_same_nth [OF sp(1), of j]
    by (simp add: same_call_simps)
  have pre: "calls_ok (trunk (w_sources w)) (length (w_systems w)) (w_recs w2) (w_calls w2)"
    "sources_ok (w_sources w2) (fst (w_recorders w2))" "trunk (w_sources w) = trunk (w_sources w2)"
    "cl_sys c < length (w_systems w)" "length (w_systems w) = length (w_systems w2)" "no_archive w2"
    using ok1 o1 c assms(2,3) by (simp_all add: world_ok_def outcome_def no_archive_def)
  have sys: "w_systems w2 = w_systems w" using o1 c(7) by (simp add: outcome_def)
  from start_grant_total [OF pre(1-3) c(2) pre(4) c(4) pre(5,6) orig grant_original(2) [OF scan]]
  obtain r where "start_grant env (w_systems w ! s) g c w2 = Some r" by blast
  then show ?thesis by (cases r) (simp add: handle_call_grant_def scan mk sys)
qed

lemma handle_one_total:
  assumes "world_ok w" "no_archive w" "s < length (w_systems w)"
  shows "\<exists>w'. handle_one env k m s w = Some w'"
  using handle_call_grant_total [OF assms] by (cases k) simp_all

lemma handle_message_total:
  assumes "world_inv w" "ready w" "s < length (w_systems w)" "\<forall>m \<in> set ms. tm_sys_num m = sys_num w s"
  shows "\<exists>w'. handle_message env ms s w = Some w'"
  using assms
proof (induction ms arbitrary: w)
  case (Cons m ms)
  obtain w1 where 1: "handle_one env (tm_message_type m) m s w = Some w1"
    using handle_one_total Cons.prems(1-3) by (fastforce simp: world_inv_def ready_def)
  have i: "world_inv w1" "w_frame w w1" using handle_one_inv [OF 1 Cons.prems(1,3)] Cons.prems(4) by simp_all
  have "\<exists>w'. handle_message env ms s w1 = Some w'"
    using i Cons.prems ready_frame [OF i(2)] w_frame_length [OF i(2)] frame_num [OF i(2) Cons.prems(3)]
    by (intro Cons.IH) simp_all
  then show ?case by (simp add: 1)
qed simp

lemma conclude_all_total:
  assumes "calls_ok T (length (w_systems w)) (w_recs w) cs" "no_archive w"
  shows "\<exists>w'. conclude_all env cs w = Some w'"
  using assms
proof (induction cs arbitrary: w)
  case (Cons c cs)
  have ok: "calls_ok T (length (w_systems w)) (w_recs w) ([] @ c # cs)" using Cons.prems(1) by simp
  have c: "call_ok T (length (w_systems w)) c" by (rule calls_ok_call [OF ok]) simp
  have rest: "calls_ok T (length (w_systems w)) (w_recs w) cs" if "\<not> records c"
    using calls_ok_release [OF ok calls_ok_inv [OF ok], of "[]"] that by simp
  show ?case
  proof (cases "cl_state c = RECORDING")
    case True
    obtain c1 w1 where cc: "call_conclude env (sys_of w c) c w = Some (c1, w1)"
      using call_conclude_ok_total [OF c Cons.prems(2) True] by blast
    note h = conclude_held [OF cc ok True]
    have "w_systems w1 = w_systems w" using h by (simp add: touches_def)
    then have "\<exists>w'. conclude_all env cs w1 = Some w'"
      using h Cons.prems(2) by (intro Cons.IH) (simp_all add: no_archive_def)
    then show ?thesis by (simp add: True cc)
  next
    case False
    then have nr: "\<not> records c" by (simp add: records_def)
    from Cons.IH [OF rest [OF nr] Cons.prems(2)] obtain w' where w': "conclude_all env cs w = Some w'" by blast
    have "call_conclude env (sys_of w c) c w = Some (c\<lparr>cl_stop_time := me_now env\<rparr>, w)" if "cl_state c \<noteq> MONITORING"
      using that False by (simp add: call_conclude_def Let_def)
    then show ?thesis using w' by simp
  qed
qed simp

lemma exit_loop_total: "world_ok w \<Longrightarrow> no_archive w \<Longrightarrow> \<exists>w'. exit_loop env w = Some w'"
  using conclude_all_total by (auto simp: exit_loop_def world_ok_def)

end
