(* ===== verification/Main_Properties.thy ===== *)
theory Main_Properties
  imports World_Progress
begin

text \<open>
  The properties of the main loop: who holds the recorders, which calls are in the vector, that the
  loop always goes on, and what grants, updates, superseding and the periodic management do.
\<close>

section \<open>Example\<close>

definition example_config :: Config where
  "example_config =
     \<lparr>cfg_capture_dir = ''/cap'', cfg_temp_dir = ''/tmp'', cfg_default_mode = ''digital'', cfg_new_call_from_update = True,
      cfg_call_timeout = 3, cfg_control_message_warn_rate = 10, cfg_control_retune_limit = 2,
      cfg_record_uu_v_calls = True, cfg_frequency_format = 0\<rparr>"

definition example_menv :: "int \<Rightarrow> menv" where
  "example_menv t = \<lparr>me_sink = example_env t, me_concluder = example_concluder_env, me_junk = example_call_data,
     me_unmuted = (\<lambda>_. False), me_config = example_config\<rparr>"

definition example_source :: Source where
  "example_source =
     \<lparr>so_src_num = 0, so_center = 852000000, so_rate = 8000000, so_error = 0, so_min_hz = 848000000, so_max_hz = 856000000,
      so_driver = ''osmosdr'', so_device = [], so_antenna = [], so_ppm = 0, so_gain_mode = False, so_gain = 0,
      so_gain_stages = [], so_silence_frames = 0, so_debug_recorder_port = 0, so_max_digital_recorders = 2,
      so_max_analog_recorders = 0, so_max_debug_recorders = 0, so_max_sigmf_recorders = 0,
      so_digital_recorders = [0, 1], so_digital_conv_recorders = [], so_dmr_conv_recorders = [], so_analog_recorders = [],
      so_analog_conv_recorders = [], so_debug_recorders = [], so_sigmf_recorders = []\<rparr>"

definition example_recorder :: Recorder where
  "example_recorder = P25_Rec (new_p25_recorder example_p25 example_sink example_sink 852000000)"

definition example_world :: World where
  "example_world =
     \<lparr>w_calls = [], w_systems = [example_system], w_sources = [example_source], w_recorders = (2, \<lambda>_. example_recorder),
      w_call_counter = 0, w_concluder = \<lparr>co_workers = [], co_retry = [], co_files = {}\<rparr>, w_events = [], w_exit_flag = False\<rparr>"

definition example_factory :: factory where
  "example_factory = \<lparr>fac_analog = (\<lambda>_. example_recorder), fac_p25 = (\<lambda>_. example_recorder), fac_dmr = (\<lambda>_. example_recorder)\<rparr>"

definition example_running :: World where
  "example_running = set_sys 0 (example_system\<lparr>sy_source := Some 0\<rparr>) example_world"

definition example_grant :: "int \<Rightarrow> double \<Rightarrow> TrunkMessage" where
  "example_grant tg f =
     \<lparr>tm_message_type = GRANT, tm_freq = f, tm_talkgroup = tg, tm_encrypted = False, tm_emergency = False,
      tm_duplex = False, tm_mode = False, tm_priority = 0, tm_tdma_slot = 0, tm_phase2_tdma = False, tm_source = 77,
      tm_sys_num = 0, tm_sys_id = 0, tm_sys_rfss = 0, tm_sys_site_id = 0, tm_nac = 0, tm_wacn = 0,
      tm_patch_data = \<lparr>pd_sg = 0, pd_ga1 = 0, pd_ga2 = 0, pd_ga3 = 0\<rparr>, tm_opcode = 0\<rparr>"

lemma example_recorder_free: "rec_inv example_recorder" "rec_get_state example_recorder = AVAILABLE"
  using new_p25_inv [OF example_sink_new example_sink_new]
  by (simp_all add: example_recorder_def new_p25_recorder_def p25_get_state_def p25_sink_def example_sink_def)

lemma example_initial: "initial example_world"
  using example_recorder_free
  by (auto simp: initial_def example_world_def sources_ok_def trunk_def example_source_def)

lemma example_setup: "setup_systems env example_factory [0] example_world = Some (True, example_running)"
  by (simp add: example_world_def example_system_def is_conventional_type_def get_current_control_channel_def
      vector_at_def first_covering_def covers_def example_source_def example_running_def Let_def)

lemma example_ready: "ready example_running" "no_archive example_running"
  by (simp_all add: ready_def no_archive_def tuned_def has_source_def example_running_def example_world_def example_system_def set_sys_def)

text \<open>The first grant starts the first recorder.\<close>

lemma example_first_grant:
  "\<exists>w. handle_message (example_menv t) [example_grant tg 851000000] 0 example_running = Some w
     \<and> (\<exists>c. w_calls w = [c] \<and> records c \<and> cl_recorder c = Some 0 \<and> cl_talkgroup c = tg)"
  by (simp add: example_grant_def example_running_def example_world_def example_system_def example_source_def
      example_menv_def example_config_def example_recorder_def example_sink_def set_sys_def handle_call_grant_def
      grant_scan_def make_grant_call_def new_call_def start_grant_def start_recorder_def find_talkgroup_def find_tg_def
      covers_def choose_recorder_def get_recorder_defs p25_get_state_def p25_sink_def new_p25_recorder_def
      p25_start_def start_debug_def start_sigmf_def push_call_def set_rec_def records_def encrypted_mode_def Let_def)

section \<open>Recorders and calls\<close>

lemma run_inv:
  assumes "initial w0" "setup_systems env fac ss w0 = Some (b, w1)" "\<forall>s \<in> set ss. s < length (w_systems w0)" "loop_steps w1 w"
  shows "world_inv w \<and> w_frame w1 w"
proof -
  have "setup_inv w1" using setup_systems_inv [OF assms(2) initial_inv [OF assms(1)] assms(3)] by blast
  then show ?thesis using loop_steps_inv [OF assms(4)] by (simp add: setup_inv_def)
qed

text \<open>The position of the call that holds a recorder.\<close>

lemma held_unique:
  assumes "distinct (held cs)" "i \<in> set (held cs)"
  shows "\<exists>!k. k < length cs \<and> records (cs ! k) \<and> the (cl_recorder (cs ! k)) = i"
  using assms
proof (induction cs)
  case (Cons c cs)
  let ?P = "\<lambda>cs k. k < length cs \<and> records (cs ! k) \<and> the (cl_recorder (cs ! k)) = i"
  have ex: "i \<in> set (held cs)" if "?P cs k" for k
    using that by (auto simp: held_def intro!: rev_image_eqI [of "cs ! k"])
  have shift: "?P (c # cs) (Suc k) = ?P cs k" and zero: "?P (c # cs) 0 = (records c \<and> the (cl_recorder c) = i)" for k
    by simp_all
  show ?case
  proof (cases "records c \<and> the (cl_recorder c) = i")
    case True
    then have "i \<notin> set (held cs)" using Cons.prems by simp
    then have "\<not> ?P (c # cs) (Suc k)" for k unfolding shift using ex by blast
    then have "?P (c # cs) k \<Longrightarrow> k = 0" for k by (cases k) blast+
    with True zero show ?thesis by blast
  next
    case False
    then have "i \<in> set (held cs)" "distinct (held cs)" using Cons.prems by (auto split: if_splits)
    from Cons.IH [OF this(2,1)] obtain k where k: "?P cs k" "\<And>j. ?P cs j \<Longrightarrow> j = k" by blast
    have "j = Suc k" if "?P (c # cs) j" for j
      using that k(2) False zero shift by (cases j) blast+
    moreover have "?P (c # cs) (Suc k)" unfolding shift by (rule k(1))
    ultimately show ?thesis by blast
  qed
qed simp

text \<open>
  C1. A recorder is lent to one call at a time, and never lost. After the set-up of any systems and
  any run of the program (messages on any control channel, timer events, audio in the flow graph
  and worker threads in any order), a recorder of the trunking pool is taken exactly when one call
  in the vector is recording with it, and that is one call only; and every recording of a trunked
  call uses a recorder of the pool. A call that leaves the vector, is superseded, or cannot be
  started leaves no recorder behind.
\<close>

theorem recorder_ownership:
  assumes "initial w0" and "\<forall>s \<in> set ss. s < length (w_systems w0)"
    and "setup_systems env fac ss w0 = Some (b, w1)" and "loop_steps w1 w"
  shows "(\<forall>i \<in> trunk (w_sources w). rec_get_state (w_recs w i) \<noteq> AVAILABLE \<longleftrightarrow>
       (\<exists>!k. k < length (w_calls w) \<and> records (w_calls w ! k) \<and> cl_recorder (w_calls w ! k) = Some i))
    \<and> (\<forall>c \<in> set (w_calls w). records c \<longrightarrow> (\<exists>i \<in> trunk (w_sources w). cl_recorder c = Some i))"
proof -
  have ok: "calls_ok (trunk (w_sources w)) (length (w_systems w)) (w_recs w) (w_calls w)"
    using run_inv [OF assms(1,3,2,4)] by (simp add: world_inv_def world_ok_def)
  then have d: "distinct (held (w_calls w))"
    and h: "set (held (w_calls w)) = trunk (w_sources w) \<inter> busy rec_get_state (w_recs w)" by (simp_all add: calls_ok_def)
  have some: "\<exists>i. cl_recorder c = Some i" if "c \<in> set (w_calls w)" "records c" for c
    using call_ok_parts(4) [OF calls_ok_call [OF ok that(1)] that(2)] .
  have pos: "k < length (w_calls w) \<and> records (w_calls w ! k) \<and> cl_recorder (w_calls w ! k) = Some i
      \<longleftrightarrow> k < length (w_calls w) \<and> records (w_calls w ! k) \<and> the (cl_recorder (w_calls w ! k)) = i" for k i
    using some [of "w_calls w ! k"] by auto
  have mem: "i \<in> set (held (w_calls w))" if "k < length (w_calls w)" "records (w_calls w ! k)" "the (cl_recorder (w_calls w ! k)) = i" for i k
    using that by (auto simp: held_def intro!: rev_image_eqI [of "w_calls w ! k"])
  show ?thesis
  proof (intro conjI ballI)
    fix i assume "i \<in> trunk (w_sources w)"
    then have "rec_get_state (w_recs w i) \<noteq> AVAILABLE \<longleftrightarrow> i \<in> set (held (w_calls w))" by (simp add: h busy_def)
    then show "rec_get_state (w_recs w i) \<noteq> AVAILABLE \<longleftrightarrow>
       (\<exists>!k. k < length (w_calls w) \<and> records (w_calls w ! k) \<and> cl_recorder (w_calls w ! k) = Some i)"
      unfolding pos using held_unique [OF d, of i] mem by blast
  next
    fix c assume "c \<in> set (w_calls w)"
    moreover have "i \<in> trunk (w_sources w)" if "c \<in> set (w_calls w)" "records c" "cl_recorder c = Some i" for i
    proof -
      have "i \<in> set (held (w_calls w))" using that by (auto simp: held_def intro!: rev_image_eqI [of c])
      then show ?thesis by (simp add: h)
    qed
    ultimately show "records c \<longrightarrow> (\<exists>i \<in> trunk (w_sources w). cl_recorder c = Some i)" using some by blast
  qed
qed

theorem recorder_ownership_witness:
  "\<exists>w. loop_steps example_running w \<and> rec_get_state (w_recs w 0) \<noteq> AVAILABLE"
proof -
  obtain w c where w: "handle_message (example_menv 5) [example_grant 10 851000000] 0 example_running = Some w"
    "w_calls w = [c]" "records c" "cl_recorder c = Some 0"
    using example_first_grant by blast
  have "loop_step example_running w"
    by (rule loop_step.messages [OF _ _ w(1)])
      (simp_all add: example_running_def example_world_def example_system_def example_grant_def set_sys_def)
  then have st: "loop_steps example_running w" by blast
  have ss: "\<forall>s \<in> set [0]. s < length (w_systems example_world)" by (simp add: example_world_def)
  have "w_sources w = [example_source]"
    using run_inv [OF example_initial example_setup ss st] by (simp add: w_frame_def example_running_def example_world_def set_sys_def)
  then have "0 \<in> trunk (w_sources w)" by (simp add: trunk_def example_source_def)
  moreover have "\<exists>!k. k < length (w_calls w) \<and> records (w_calls w ! k) \<and> cl_recorder (w_calls w ! k) = Some 0"
    using w by (intro ex1I [of _ 0]) simp_all
  ultimately have "rec_get_state (w_recs w 0) \<noteq> AVAILABLE"
    using recorder_ownership [OF example_initial ss example_setup st] by blast
  then show ?thesis using st by blast
qed

text \<open>
  C4. A transmission on the air is one call. In every run no two trunked calls in the vector have
  the same talkgroup, system, frequency, slot and TDMA flag, so a message never refers to two of
  them; and no two calls, trunked or conventional, have the same call number, from which the names
  of their files are made.
\<close>

theorem calls_unique:
  assumes "initial w0" and "\<forall>s \<in> set ss. s < length (w_systems w0)"
    and "setup_systems env fac ss w0 = Some (b, w1)" and "loop_steps w1 w"
    and "j < k" and "k < length (w_calls w)"
  shows "cl_call_num (w_calls w ! j) \<noteq> cl_call_num (w_calls w ! k)
    \<and> (\<not> cl_conventional (w_calls w ! j) \<and> \<not> cl_conventional (w_calls w ! k) \<longrightarrow>
         \<not> (matches_message w m (w_calls w ! j) \<and> matches_message w m (w_calls w ! k)))"
proof -
  have inv: "world_inv w" using run_inv [OF assms(1,3,2,4)] by blast
  have "distinct (map cl_call_num (w_calls w))" using inv unfolding world_inv_def numbers_ok_def by blast
  then have "cl_call_num (w_calls w ! j) \<noteq> cl_call_num (w_calls w ! k)"
    using assms(5,6) by (simp add: distinct_conv_nth)
  moreover have False if t: "trunked (w_calls w ! j)" "trunked (w_calls w ! k)"
    and m: "matches_message w m (w_calls w ! j)" "matches_message w m (w_calls w ! k)"
  proof -
    have split: "w_calls w = take k (w_calls w) @ w_calls w ! k # drop (Suc k) (w_calls w)"
      using assms(6) by (rule id_take_nth_drop)
    have "distinct (keys w)" using inv by (simp add: world_inv_def)
    then have "call_key (sys_num w) (w_calls w ! k) \<notin> call_key (sys_num w) ` set (filter trunked (take k (w_calls w)))"
      unfolding keys_def using t(2) by (subst (asm) split) simp
    moreover have "w_calls w ! j \<in> set (filter trunked (take k (w_calls w)))"
      using assms(5,6) t(1) by (auto simp: in_set_conv_nth)
    ultimately have "call_key (sys_num w) (w_calls w ! k) \<noteq> call_key (sys_num w) (w_calls w ! j)" by blast
    then show False using t m by (simp add: matches_key)
  qed
  ultimately show ?thesis by (auto simp: trunked_def)
qed

lemma example_two_calls:
  "\<exists>w. loop_steps example_running w \<and> length (w_calls w) = 2"
proof -
  let ?m = "example_grant 10 851000000" and ?m' = "example_grant 11 852000000"
  have inv: "world_inv example_running"
    using run_inv [OF example_initial example_setup _ rtranclp.rtrancl_refl] by (simp add: example_world_def)
  have s: "0 < length (w_systems example_running)" and num: "sys_num example_running 0 = 0"
    by (simp_all add: example_running_def example_world_def example_system_def set_sys_def)
  have ok: "\<forall>m \<in> set [?m, ?m']. tm_sys_num m = sys_num example_running 0" by (simp add: num example_grant_def)
  obtain w where w: "handle_message (example_menv 5) [?m, ?m'] 0 example_running = Some w"
    using handle_message_total [OF inv example_ready(1) s ok] by blast
  have grant: "tm_message_type (example_grant t f) = GRANT" for t f by (simp add: example_grant_def)
  obtain w1 where w1: "handle_call_grant (example_menv 5) ?m 0 example_running = Some w1"
    "handle_call_grant (example_menv 5) ?m' 0 w1 = Some w"
    using w by (auto simp: grant bind_eq_Some_conv)
  have "world_ok example_running" using inv by (simp add: world_inv_def)
  note g1 = handle_call_grant_ok [OF w1(1) this s]
  have "s1 < length (w_systems w1) \<longleftrightarrow> s1 < length (w_systems example_running)" for s1 using g1 by (simp add: outcome_def)
  then have "world_ok w1" "0 < length (w_systems w1)" using g1 s by simp_all
  note g2 = handle_call_grant_ok [OF w1(2) this]
  have "w_calls example_running = []" by (simp add: example_running_def example_world_def)
  then have i1: "map ident (w_calls w1) = [grant_ident example_running ?m 0]" using g1 by (simp add: grant_result_def)
  then obtain c where c: "w_calls w1 = [c]" "ident c = grant_ident example_running ?m 0" by (cases "w_calls w1") auto
  then have "\<not> matches_message w1 ?m' c"
    by (simp add: matches_message_def ident_def grant_ident_def example_grant_def)
  then have "length (map ident (w_calls w)) = 2" using g2 c(1) by (simp add: grant_result_def)
  then show ?thesis using loop_step.messages [OF s ok w] by (metis length_map r_into_rtranclp)
qed

theorem calls_unique_witness:
  "\<exists>w. loop_steps example_running w \<and> cl_call_num (w_calls w ! 0) \<noteq> cl_call_num (w_calls w ! 1)"
proof -
  obtain w where w: "loop_steps example_running w" "length (w_calls w) = 2" using example_two_calls by blast
  show ?thesis
    using calls_unique [OF example_initial _ example_setup w(1), of 0 1 "example_grant 10 851000000"] w
    by (auto simp: example_world_def)
qed

text \<open>
  C3. The loop never follows a null pointer and never ends with an exception. After a set-up that
  succeeded and any run, if no system archives single transmissions, every list of messages of a
  system, every timer event and the exit are carried through; a call without a recorder, a
  superseded call without an original, a debug recorder that was never assigned or a control channel
  without a source are never met. After the exit the vector is empty and all trunking recorders are
  free.
\<close>

theorem loop_never_stuck:
  assumes "initial w0" and "\<forall>sys \<in> set (w_systems w0). \<not> sy_transmission_archive sys"
    and "setup_systems env fac [0..<length (w_systems w0)] w0 = Some (True, w1)" and "loop_steps w1 w"
  shows "(\<forall>env s ms. s < length (w_systems w) \<and> (\<forall>m \<in> set ms. tm_sys_num m = sys_num w s)
        \<longrightarrow> handle_message env ms s w \<noteq> None)
    \<and> (\<forall>env jitter lt. timed_work env jitter lt w \<noteq> None)
    \<and> (\<forall>env. \<exists>w'. exit_loop env w = Some w' \<and> w_calls w' = []
          \<and> (\<forall>i \<in> trunk (w_sources w'). rec_get_state (w_recs w' i) = AVAILABLE))"
proof -
  have ss: "\<forall>s \<in> set [0..<length (w_systems w0)]. s < length (w_systems w0)" by simp
  note su = setup_systems_inv [OF assms(3) initial_inv [OF assms(1)] ss]
  have "no_archive w1" using su assms(2) no_archive_frame by (auto simp: no_archive_def setup_frame_def)
  moreover have "length (w_systems w1) = length (w_systems w0)" using su setup_frame_length by blast
  ultimately have "ready w1" using su by (simp add: ready_def)
  moreover note i = run_inv [OF assms(1,3) ss assms(4)]
  ultimately have r: "ready w" using ready_frame by blast
  have ok: "world_ok w" "no_archive w" using i r by (simp_all add: world_inv_def ready_def)
  show ?thesis
  proof (intro conjI allI impI)
    show "handle_message env ms s w \<noteq> None"
      if "s < length (w_systems w) \<and> (\<forall>m \<in> set ms. tm_sys_num m = sys_num w s)" for env s ms
      using handle_message_total [of w s ms env] i r that by auto
    show "timed_work env jitter lt w \<noteq> None" for env jitter lt
      using timed_work_total [OF ok(1) r, of env jitter lt] by auto
    show "\<exists>w'. exit_loop env w = Some w' \<and> w_calls w' = [] \<and> (\<forall>i \<in> trunk (w_sources w'). rec_get_state (w_recs w' i) = AVAILABLE)" for env
    proof -
      obtain w' where w': "exit_loop env w = Some w'" using exit_loop_total [OF ok] by blast
      from exit_loop_spec [OF w' ok(1)] show ?thesis using w' by (auto simp: busy_def)
    qed
  qed
qed

theorem loop_never_stuck_witness:
  "\<exists>w. loop_steps example_running w \<and> length (w_calls w) = 2 \<and> (\<forall>env. \<exists>w'. exit_loop env w = Some w' \<and> w_calls w' = [])"
proof -
  obtain w where w: "loop_steps example_running w" "length (w_calls w) = 2" using example_two_calls by blast
  have "[0..<length (w_systems example_world)] = [0]" "\<forall>sys \<in> set (w_systems example_world). \<not> sy_transmission_archive sys"
    by (simp_all add: example_world_def example_system_def)
  then show ?thesis
    using loop_never_stuck [OF example_initial _ _ w(1)] example_setup w by (metis (no_types, lifting))
qed

section \<open>The calls that end\<close>


text \<open>A grant on a frequency no source covers is only monitored.\<close>

lemma example_monitored_grant:
  "\<exists>w. handle_message (example_menv t) [example_grant tg 900000000] 0 example_running = Some w
     \<and> (\<exists>c. w_calls w = [c] \<and> cl_state c = MONITORING \<and> \<not> cl_conventional c \<and> cl_last_update c = t)"
  by (simp add: example_grant_def example_running_def example_world_def example_system_def example_source_def
      example_menv_def example_config_def set_sys_def handle_call_grant_def grant_scan_def make_grant_call_def
      new_call_def start_grant_def start_recorder_def find_talkgroup_def find_tg_def covers_def push_call_def
      encrypted_mode_def example_env_def Let_def)

lemma example_inv: "world_inv example_running"
  using run_inv [OF example_initial example_setup _ rtranclp.rtrancl_refl] by (simp add: example_world_def)

lemma example_step:
  assumes "handle_message env [example_grant t f] 0 example_running = Some w"
  shows "world_inv w" "ready w"
proof -
  have s: "0 < length (w_systems example_running)" and num: "sys_num example_running 0 = 0"
    by (simp_all add: example_running_def example_world_def example_system_def set_sys_def)
  have ok: "\<forall>m \<in> set [example_grant t f]. tm_sys_num m = sys_num example_running 0" by (simp add: num example_grant_def)
  note i = handle_message_inv [OF assms example_inv s ok]
  then show "world_inv w" "ready w" using ready_frame example_ready(1) by blast+
qed


section \<open>Grants that are repeated\<close>

definition refreshed :: "menv \<Rightarrow> TrunkMessage \<Rightarrow> Call \<Rightarrow> Call" where
  "refreshed env m c =
     c\<lparr>cl_last_update := me_now env,
       cl_curr_src_id := (if tm_source m = -1 then cl_curr_src_id c else tm_source m)\<rparr>"

lemma update_call_at_refreshed:
  assumes "matches_message w m (w_calls w ! i)"
  shows "w_calls (update_call_at env m i w) = (w_calls w)[i := refreshed env m (w_calls w ! i)]
    \<and> w_systems (update_call_at env m i w) = w_systems w"
  using assms
  by (auto simp: update_call_at_def call_update_def add_source_def matches_message_def refreshed_def Let_def
      split: option.split)

lemma update_fold:
  assumes "k \<le> length (w_calls w)"
  shows "let w' = fold (\<lambda>i w. if matches_message w m (w_calls w ! i) then update_call_at env m i w else w) [0..<k] w
     in w_calls w' = map (\<lambda>c. if matches_message w m c then refreshed env m c else c) (take k (w_calls w)) @ drop k (w_calls w)
        \<and> w_systems w' = w_systems w"
  using assms
proof (induction k)
  case (Suc k)
  let ?f = "\<lambda>c. if matches_message w m c then refreshed env m c else c"
  define v where "v = fold (\<lambda>i w. if matches_message w m (w_calls w ! i) then update_call_at env m i w else w) [0..<k] w"
  have v: "w_calls v = map ?f (take k (w_calls w)) @ drop k (w_calls w)" "w_systems v = w_systems w"
    using Suc by (simp_all add: v_def Let_def)
  have d: "drop k (w_calls w) = w_calls w ! k # drop (Suc k) (w_calls w)" and len: "length (take k (w_calls w)) = k"
    using Suc.prems by (simp_all add: Cons_nth_drop_Suc)
  have k: "w_calls v ! k = w_calls w ! k" using len by (simp add: v(1) d nth_append)
  have m: "matches_message v m c = matches_message w m c" for c
    by (simp add: matches_message_def sys_of_def v(2))
  have tk: "take (Suc k) (w_calls w) = take k (w_calls w) @ [w_calls w ! k]"
    using Suc.prems by (simp add: take_Suc_conv_app_nth)
  have upd: "(map ?f (take k (w_calls w)) @ w_calls w ! k # xs)[k := y] = map ?f (take k (w_calls w)) @ y # xs" for xs y
    using len by (simp add: list_update_append)
  have step: "fold (\<lambda>i w. if matches_message w m (w_calls w ! i) then update_call_at env m i w else w) [0..<Suc k] w
      = (if matches_message w m (w_calls w ! k) then update_call_at env m k v else v)"
    by (simp add: v_def [symmetric] k m)
  show ?case
  proof (cases "matches_message w m (w_calls w ! k)")
    case True
    then have "w_calls (update_call_at env m k v) = (w_calls v)[k := refreshed env m (w_calls w ! k)]
        \<and> w_systems (update_call_at env m k v) = w_systems v"
      using update_call_at_refreshed [of v m k env] by (simp add: k m)
    then show ?thesis unfolding step Let_def using True by (simp add: v d tk upd)
  next
    case False
    then show ?thesis unfolding step Let_def by (simp add: v d tk)
  qed
qed simp

lemma handle_call_update_calls:
  "w_calls (handle_call_update env m w) =
     map (\<lambda>c. if matches_message w m c then refreshed env m c else c) (w_calls w)"
  using update_fold [of "length (w_calls w)" w m env] by (simp add: handle_call_update_def Let_def)

lemma grant_scan_update: "snd (grant_scan env sys m w) = handle_call_update env m w"
proof -
  have "snd (fold (grant_call env sys m) is (g, w)) =
      fold (\<lambda>i w. if matches_message w m (w_calls w ! i) then update_call_at env m i w else w) is w" for "is" g w
    by (induction "is" arbitrary: g w) (simp_all add: grant_call_def split_def Let_def)
  then show ?thesis by (simp add: grant_scan_def handle_call_update_def)
qed



section \<open>Several sites\<close>

lemma call_conclude_monitoring:
  assumes "call_conclude env sys c w = Some (c', w')"
  shows "cl_monitoringState c' = cl_monitoringState c"
proof -
  have "cl_monitoringState d' = cl_monitoringState d" if "concluder_conclude_call a b j sys d co = Some (d', co')" for a b j d d' co co'
  proof -
    obtain ci c1 fs where d: "create_call_data a b j sys d (co_files co) = (ci, c1, fs)" by (rule prod_cases3)
    have "c1 = snd (get_start_time d)" using create_call_data_call [of a b j sys d "co_files co"] by (simp add: d)
    moreover have "d' = c1" using that by (auto simp: concluder_conclude_call_def d Let_def split: if_splits)
    ultimately show ?thesis by (simp add: get_start_time_def Let_def)
  qed
  then show ?thesis
    using assms by (fastforce simp: call_conclude_def bind_eq_Some_conv Let_def split: if_splits)
qed

lemma supersede_effect:
  assumes "supersede env (Some j) w = Some w'" "j < length (w_calls w)" "cl_state (w_calls w ! j) = RECORDING"
    and "calls_ok T n (w_recs w) (w_calls w @ new)"
  shows "\<exists>old i. w_calls w' = (w_calls w)[j := old] \<and> cl_state old = MONITORING \<and> cl_monitoringState old = SUPERSEDED
    \<and> cl_recorder (w_calls w ! j) = Some i
    \<and> T \<inter> busy rec_get_state (w_recs w') = T \<inter> busy rec_get_state (w_recs w) - {i}"
proof -
  let ?c = "w_calls w ! j"
  define c1 where "c1 = ?c\<lparr>cl_state := MONITORING, cl_monitoringState := SUPERSEDED\<rparr>"
  obtain c2 w2 where cc: "call_conclude env (sys_of w c1) c1 w = Some (c2, w2)"
    and w': "w' = w2\<lparr>w_calls := (w_calls w2)[j := c2]\<rparr>"
    using assms(1) by (auto simp: supersede_def c1_def [symmetric] bind_eq_Some_conv Let_def)
  have ok: "call_ok T n ?c" by (rule calls_ok_call [OF assms(4)]) (use assms(2) in simp)
  have out: "outside T (cl_debug_recording c1) (cl_debug_recorder c1)" "outside T (cl_sigmf_recording c1) (cl_sigmf_recorder c1)"
    using call_ok_parts(1,2) [OF ok] by (simp_all add: c1_def)
  have "concludes c1" "cl_recorder c1 = cl_recorder ?c" "cl_state c1 = MONITORING" "cl_monitoringState c1 = SUPERSEDED"
    by (simp_all add: c1_def concludes_def)
  moreover note call_conclude_spec [OF cc out calls_ok_inv [OF assms(4)]] call_conclude_monitoring [OF cc]
  ultimately show ?thesis by (auto simp: w' touches_def same_call_simps)
qed

lemma grant_scan_idle:
  assumes "\<forall>c \<in> set (w_calls w). \<not> matches_message w m c"
  shows "snd (grant_scan env sys m w) = w"
proof -
  let ?f = "\<lambda>i w. if matches_message w m (w_calls w ! i) then update_call_at env m i w else w"
  have "set is \<subseteq> {..<length (w_calls w)} \<Longrightarrow> fold ?f is w = w" for "is"
    using assms by (induction "is") auto
  moreover have "set [0..<length (w_calls w)] \<subseteq> {..<length (w_calls w)}" by auto
  ultimately show ?thesis by (simp only: grant_scan_update handle_call_update_def)
qed

lemma filter_upt_last:
  assumes "j < n" "P j" "\<forall>k. j < k \<and> k < n \<longrightarrow> \<not> P k"
  shows "filter P [0..<n] \<noteq> [] \<and> last (filter P [0..<n]) = j"
proof -
  have "[0..<n] = [0..<j] @ j # [Suc j..<n]" using assms(1) by (metis append_Cons append_self_conv2 less_imp_add_positive upt_add_eq_append upt_conv_Cons zero_le less_imp_le)
  moreover have "filter P [Suc j..<n] = []" using assms(3) by (auto simp: filter_empty_conv)
  ultimately show ?thesis using assms(2) by simp
qed


definition example_talkgroup :: "int \<Rightarrow> int \<Rightarrow> ulong \<Rightarrow> Talkgroup" where
  "example_talkgroup tg priority nac =
     \<lparr>tg_number = tg, tg_mode = ''D'', tg_alpha_tag = ''A'', tg_description = [], tg_tag = [], tg_group = [],
      tg_priority = priority, tg_sys_num = 1, tg_freq = 0, tg_tone = 0, tg_preferredNAC = nac, tg_active = False\<rparr>"

definition example_sites :: World where
  "example_sites = example_world\<lparr>w_systems :=
     [example_system\<lparr>sy_multiSite := True, sy_nac := 10, sy_sys_rfss := 1, sy_sys_site_id := 1\<rparr>,
      example_system\<lparr>sy_sys_num := 1, sy_multiSite := True, sy_nac := 20, sy_sys_rfss := 1, sy_sys_site_id := 2,
        sy_talkgroups := [example_talkgroup 10 1 20]\<rparr>]\<rparr>"

lemma example_sites_inv: "world_inv example_sites"
  using initial_inv [of example_sites] example_initial
  by (simp add: initial_def setup_inv_def example_sites_def)

lemma example_site_grant:
  "\<exists>w. handle_call_grant (example_menv t) (example_grant 10 851000000) 0 example_sites = Some w
     \<and> w_systems w = w_systems example_sites
     \<and> (\<exists>c. w_calls w = [c] \<and> cl_state c = RECORDING \<and> \<not> cl_conventional c \<and> cl_talkgroup c = 10 \<and> cl_sys c = 0)"
  by (simp add: example_grant_def example_sites_def example_world_def example_system_def example_source_def
      example_menv_def example_config_def example_recorder_def example_sink_def set_sys_def handle_call_grant_def
      grant_scan_def make_grant_call_def new_call_def start_grant_def start_recorder_def find_talkgroup_def find_tg_def
      covers_def choose_recorder_def get_recorder_defs p25_get_state_def p25_sink_def new_p25_recorder_def
      p25_start_def start_debug_def start_sigmf_def push_call_def set_rec_def encrypted_mode_def Let_def)


section \<open>Talkgroups that are patched, and sources that are busy\<close>

lemma Min_insert_pick:
  fixes a b :: int
  assumes "finite S"
  shows "Min (insert (if a < b then a else b) S) = Min (insert b (insert a S))"
proof (cases "S = {}")
  case False
  with assms show ?thesis by (simp add: Min_insert min.assoc [symmetric])
qed (simp add: min_def)

lemma fold_min_le:
  fixes p :: int
  shows "fold (\<lambda>x p. case f x of None \<Rightarrow> p | Some tg \<Rightarrow> if g tg < p then g tg else p) xs p
    = Min (insert p {g tg |x tg. x \<in> set xs \<and> f x = Some tg})"
proof (induction xs arbitrary: p)
  case (Cons x xs)
  let ?S = "{g tg |x tg. x \<in> set xs \<and> f x = Some tg}"
  have fin: "finite ?S"
  proof -
    have "?S \<subseteq> (\<lambda>x. g (the (f x))) ` set xs" by force
    then show ?thesis by (rule finite_subset) simp
  qed
  have S: "{g tg |y tg. y \<in> set (x # xs) \<and> f y = Some tg} = (case f x of None \<Rightarrow> ?S | Some tg \<Rightarrow> insert (g tg) ?S)"
    by (auto split: option.split)
  show ?case unfolding S using Cons Min_insert_pick [OF fin] by (cases "f x") simp_all
qed simp

lemma patched_priority_min:
  "patched_priority sys tg c = Min (insert (tg_priority tg)
     {tg_priority other |t other. t \<in> set (get_talkgroup_patch sys (word_of_int (cl_talkgroup c)))
        \<and> find_talkgroup sys (sint t) = Some other})"
  unfolding patched_priority_def by (rule fold_min_le)

lemma try_sources_skip:
  "\<forall>so \<in> set xs. \<not> covers so (cl_curr_freq c) \<Longrightarrow> try_sources env sys tg (xs @ ys) c w = try_sources env sys tg ys c w"
  by (induction xs) simp_all

definition plain_talkgroup :: "System_impl \<Rightarrow> Call \<Rightarrow> Talkgroup \<Rightarrow> bool" where
  "plain_talkgroup sys c tg \<longleftrightarrow> find_talkgroup sys (cl_talkgroup c) = Some tg \<and> \<not> cl_encrypted c
     \<and> \<not> encrypted_mode (Some tg) \<and> tg_mode tg \<noteq> ''A''"

lemma cl_tag_freq [simp]: "cl_curr_freq (set_talkgroup_tag t c) = cl_curr_freq c"
  by simp

text \<open>
  A patch can silence a talkgroup. A talkgroup takes the smallest priority among its own and those
  of the talkgroups it is patched with. Since -1 stands for a talkgroup that is never to be
  recorded, a talkgroup that is recorded on its own is ignored, however many recorders are free, as
  soon as it is patched with one that is not, while the log says that its priority was increased.
\<close>

theorem patched_talkgroup_ignored:
  assumes "plain_talkgroup sys c tg" and "t \<in> set (get_talkgroup_patch sys (word_of_int (cl_talkgroup c)))"
    and "find_talkgroup sys (sint t) = Some other" and "tg_priority other = -1"
    and "\<forall>tg \<in> set (sy_talkgroups sys). -1 \<le> tg_priority tg"
    and "w_sources w = xs @ so # ys" and "\<forall>so \<in> set xs. \<not> covers so (cl_curr_freq c)" and "covers so (cl_curr_freq c)"
  shows "\<exists>c'. start_recorder env sys c w = (False, c', w) \<and> cl_state c' = MONITORING \<and> cl_monitoringState c' = IGNORED_TG"
proof -
  have in_file: "-1 \<le> tg_priority x" if "find_talkgroup sys n = Some x" for n x
    using that assms(5) find_in_set [of _ "sy_talkgroups sys" x] by (auto simp: find_talkgroup_def find_tg_def)
  let ?S = "{tg_priority other |t other. t \<in> set (get_talkgroup_patch sys (word_of_int (cl_talkgroup c)))
        \<and> find_talkgroup sys (sint t) = Some other}"
  have "finite ?S"
  proof -
    have "?S \<subseteq> (\<lambda>t. tg_priority (the (find_talkgroup sys (sint t)))) ` set (get_talkgroup_patch sys (word_of_int (cl_talkgroup c)))"
      by force
    then show ?thesis by (rule finite_subset) simp
  qed
  moreover have "-1 \<in> ?S" using assms(2-4) by force
  moreover have "\<forall>p \<in> insert (tg_priority tg) ?S. -1 \<le> p"
    using in_file assms(1) by (auto simp: plain_talkgroup_def)
  ultimately have "Min (insert (tg_priority tg) ?S) = -1"
    by (intro Min_eqI) auto
  then have p: "patched_priority sys tg d = -1" if "cl_talkgroup d = cl_talkgroup c" for d
    by (simp add: patched_priority_min that)
  have "start_recorder env sys c w =
      try_sources env sys (Some tg) (so # ys) (set_talkgroup_tag (tag_of (Some tg)) c) w"
    using assms(1,6,7) try_sources_skip [of xs "set_talkgroup_tag (tag_of (Some tg)) c"]
    by (simp add: start_recorder_def plain_talkgroup_def Let_def)
  then show ?thesis
    using assms(1,8) p by (simp add: choose_recorder_def plain_talkgroup_def get_digital_recorder_tg_def)
qed

definition example_patched :: System_impl where
  "example_patched = update_active_talkgroup_patches 0 \<lparr>pd_sg = 10, pd_ga1 = 11, pd_ga2 = 0, pd_ga3 = 0\<rparr>
     (example_system\<lparr>sy_sys_num := 1, sy_talkgroups := [example_talkgroup 10 1 0, example_talkgroup 11 (-1) 0]\<rparr>)"

theorem patched_talkgroup_ignored_witness:
  "\<exists>c'. start_recorder (example_menv 5) example_patched (fst (new_call 5 0 (example_grant 10 851000000) 0)) example_world
     = (False, c', example_world) \<and> cl_monitoringState c' = IGNORED_TG"
proof -
  let ?c = "fst (new_call 5 0 (example_grant 10 851000000) 0)"
  have "plain_talkgroup example_patched ?c (example_talkgroup 10 1 0)"
    by (simp add: plain_talkgroup_def example_patched_def update_active_talkgroup_patches_def find_talkgroup_def
        find_tg_def example_talkgroup_def example_grant_def encrypted_mode_def)
  moreover have "11 \<in> set (get_talkgroup_patch example_patched (word_of_int (cl_talkgroup ?c)))"
    by (simp add: example_patched_def example_grant_def update_active_talkgroup_patches_def) code_simp
  moreover have "find_talkgroup example_patched (sint (11 :: ulong)) = Some (example_talkgroup 11 (-1) 0)"
    by (simp add: example_patched_def update_active_talkgroup_patches_def find_talkgroup_def find_tg_def
        example_talkgroup_def) 
  ultimately show ?thesis
    using patched_talkgroup_ignored [of example_patched ?c _ 11 "example_talkgroup 11 (-1) 0" example_world "[]" example_source "[]" "example_menv 5"]
    by (auto simp: example_patched_def update_active_talkgroup_patches_def example_talkgroup_def example_world_def
        example_source_def covers_def example_grant_def)
qed

text \<open>
  The first source that covers a frequency decides. When none of its recorders is free, the
  call is not recorded and nothing changes, whatever other sources that cover the frequency could
  still offer.
\<close>

theorem busy_source_ends_search:
  assumes "w_sources w = xs @ so # ys" and "\<forall>so \<in> set xs. \<not> covers so (cl_curr_freq c)" and "covers so (cl_curr_freq c)"
    and "\<forall>i \<in> set (so_digital_recorders so) \<union> set (so_analog_recorders so). rec_get_state (w_recs w i) \<noteq> AVAILABLE"
    and "cl_state c = MONITORING"
  shows "\<exists>c'. start_recorder env sys c w = (False, c', w) \<and> cl_state c' = MONITORING \<and> ident c' = ident c"
proof -
  let ?tg = "find_talkgroup sys (cl_talkgroup c)" and ?d = "set_talkgroup_tag (tag_of (find_talkgroup sys (cl_talkgroup c))) c"
  obtain r c' where ch: "choose_recorder (me_config env) sys (w_recs w) so ?tg ?d = (r, c')" by fastforce
  note spec = choose_recorder_spec [OF ch]
  have "r = None" using spec assms(4,5) by (cases r) auto
  then have "try_sources env sys ?tg (w_sources w) ?d w = (False, c', w)"
    using assms(1-3) try_sources_skip [of xs ?d] ch by simp
  moreover have "ident (c\<lparr>cl_state := a, cl_monitoringState := b\<rparr>) = ident c" for c a b by (simp add: ident_def)
  ultimately show ?thesis
    using spec assms(5) by (auto simp: start_recorder_def Let_def)
qed

theorem busy_source_ends_search_witness:
  "\<exists>w c'. length (w_sources w) = 2 \<and> (\<exists>i \<in> trunk (w_sources w). rec_get_state (w_recs w i) = AVAILABLE)
     \<and> start_recorder (example_menv 5) example_system (fst (new_call 5 0 (example_grant 10 851000000) 0)) w = (False, c', w)"
proof -
  let ?busy = "P25_Rec (example_p25\<lparr>p_qpsk_sink := example_sink\<lparr>sk_state := RECORDING\<rparr>\<rparr>)"
  let ?w = "example_world\<lparr>w_sources := [example_source, example_source\<lparr>so_digital_recorders := [2]\<rparr>],
      w_recorders := (3, (\<lambda>_. example_recorder)(0 := ?busy, 1 := ?busy))\<rparr>"
  let ?c = "fst (new_call 5 0 (example_grant 10 851000000) 0)"
  have "\<exists>c'. start_recorder (example_menv 5) example_system ?c ?w = (False, c', ?w) \<and> cl_state c' = MONITORING \<and> ident c' = ident ?c"
    by (rule busy_source_ends_search [of ?w "[]" example_source])
      (simp_all add: example_source_def covers_def example_grant_def p25_get_state_def p25_sink_def example_p25_def)
  then obtain c' where "start_recorder (example_menv 5) example_system ?c ?w = (False, c', ?w)" by blast
  moreover have "length (w_sources ?w) = 2" by simp
  moreover have "2 \<in> trunk (w_sources ?w)" "rec_get_state (w_recs ?w 2) = AVAILABLE"
    using example_recorder_free by (simp_all add: trunk_def example_world_def example_source_def)
  ultimately show ?thesis by blast
qed

section \<open>Messages that are not about voice\<close>

lemma set_sys_other: "t \<noteq> s \<Longrightarrow> w_systems (set_sys s sys w) ! t = w_systems w ! t"
  by (simp add: set_sys_def)

lemma handle_one_other:
  assumes "\<not> is_call_message k" "handle_one env k m s w = Some w'" "t \<noteq> s"
  shows "w_systems w' ! t = w_systems w ! t"
  using assms
  by (cases k) (auto simp: set_sys_other current_system_status_def current_system_sysid_def split_def Let_def emit_def)

text \<open>
  C21. A message that is not about voice never fails and never touches a call. Status, site, patch,
  registration, affiliation and the other messages leave the calls, all recorders, the sources, the
  concluder and every other system as they were, in any number and order.
\<close>

theorem control_messages_frame:
  assumes "\<forall>m \<in> set ms. \<not> is_call_message (tm_message_type m)"
  shows "\<exists>w'. handle_message env ms s w = Some w' \<and> w_calls w' = w_calls w \<and> w_recorders w' = w_recorders w
    \<and> w_sources w' = w_sources w \<and> w_call_counter w' = w_call_counter w \<and> w_concluder w' = w_concluder w
    \<and> (\<forall>t. t \<noteq> s \<longrightarrow> w_systems w' ! t = w_systems w ! t)"
  using assms
proof (induction ms arbitrary: w)
  case (Cons m ms)
  obtain w1 where 1: "handle_one env (tm_message_type m) m s w = Some w1" "w_frame w w1" "w_calls w1 = w_calls w"
    "w_recorders w1 = w_recorders w" "w_call_counter w1 = w_call_counter w" "w_concluder w1 = w_concluder w"
    using handle_one_control [of "tm_message_type m" env m s w] Cons.prems by auto
  have "w_sources w1 = w_sources w" "\<forall>t. t \<noteq> s \<longrightarrow> w_systems w1 ! t = w_systems w ! t"
    using 1(2) handle_one_other [OF _ 1(1)] Cons.prems by (simp_all add: w_frame_def)
  with 1 Cons.IH [of w1] Cons.prems show ?case by auto
qed simp

theorem control_messages_frame_witness:
  "\<exists>w'. handle_message (example_menv 5) [(example_grant 10 851000000)\<lparr>tm_message_type := STATUS\<rparr>] 0 example_world = Some w'
     \<and> w_calls w' = []"
  using control_messages_frame [of "[(example_grant 10 851000000)\<lparr>tm_message_type := STATUS\<rparr>]" "example_menv 5" 0 example_world]
  by (auto simp: example_world_def)

section \<open>Arithmetic\<close>

text \<open>
  \<open>GCD\<close> on 32-bit numbers is the greatest common divisor, and ends for all arguments.
\<close>

theorem main_GCD_correct: "unat (main_GCD u v) = gcd (unat u) (unat v)"
proof (induction u v rule: main_GCD.induct)
  case (1 u v)
  show ?case
  proof (cases "v = 0")
    case False
    then have "unat (main_GCD u v) = gcd (unat v) (unat (u mod v))" using 1 by (subst main_GCD.simps) simp
    then show ?thesis by (simp add: unat_mod gcd_red_nat [of "unat u" "unat v"])
  qed (subst main_GCD.simps, simp)
qed

section \<open>A control channel that is silent\<close>

text \<open>Checks of the message counts with no message in between.\<close>

fun silent_checks :: "menv \<Rightarrow> rat \<Rightarrow> nat \<Rightarrow> World \<Rightarrow> World option" where
  "silent_checks env seconds 0 w = Some w"
| "silent_checks env seconds (Suc n) w = silent_checks env seconds n w \<bind> check_message_count env seconds"

text \<open>The state of a program with one trunked system after \<open>n\<close> silent checks.\<close>

definition silent :: "nat \<Rightarrow> World \<Rightarrow> bool" where
  "silent n w \<longleftrightarrow> (\<exists>sys. w_systems w = [sys] \<and> \<not> is_conventional_type (sy_system_type sys) \<and> sy_message_count sys = 0
     \<and> sy_retune_attempts sys = int n \<and> has_source (length (w_sources w)) sys)"

lemma retune_silent:
  assumes "retune_system 0 w = Some (r, w')" "w_systems w = [sys]"
  shows "\<exists>sys'. w_systems w' = [sys'] \<and> sy_retune_attempts sys' = sy_retune_attempts sys
    \<and> sy_message_count sys' = sy_message_count sys \<and> w_exit_flag w' = w_exit_flag w"
  using assms
  by (auto simp: retune_system_def get_next_control_channel_def set_sys_def Let_def bind_eq_Some_conv
      split: if_splits option.splits)

lemma silent_check:
  assumes "silent n w" "\<not> w_exit_flag w" "0 < cfg_control_retune_limit (me_config env)"
  shows "\<exists>w'. check_message_count env seconds w = Some w'
    \<and> (if cfg_control_retune_limit (me_config env) < int (Suc n) then w_exit_flag w' else \<not> w_exit_flag w' \<and> silent (Suc n) w')"
proof -
  let ?limit = "cfg_control_retune_limit (me_config env)"
  define v where "v = emit [Setup_Config, System_Rates] w"
  obtain sys where sys: "w_systems v = [sys]" "\<not> is_conventional_type (sy_system_type sys)" "sy_message_count sys = 0"
    "sy_retune_attempts sys = int n" "has_source (length (w_sources v)) sys"
    using assms(1) by (auto simp: silent_def v_def)
  define sys1 where "sys1 = sys\<lparr>sy_decode_rate := 0, sy_retune_attempts := int (Suc n)\<rparr>"
  have check: "check_system env seconds 0 v = (if ?limit < int (Suc n) then Some (Terminate_Program ((set_sys 0 sys1 v)\<lparr>w_exit_flag := True\<rparr>))
      else if control_channel_count sys1 > 1
      then map_option (\<lambda>(_, w). Go_On (reset_message_count 0 w)) (retune_system 0 (set_sys 0 sys1 v))
      else Some (Go_On (reset_message_count 0 (set_sys 0 sys1 v))))"
    using assms(3) sys by (simp add: check_system_def Let_def sys1_def algebra_simps)
  have cm: "check_message_count env seconds w = check_systems env seconds [0] v"
    using sys(1) by (simp add: check_message_count_def v_def)
  show ?thesis
  proof (cases "?limit < int (Suc n)")
    case True
    then show ?thesis by (simp add: cm check)
  next
    case False
    have "tuned v 0" "0 < length (w_systems v)" using sys by (simp_all add: tuned_def)
    from check_system_total [OF this, of env seconds] obtain w' where w': "check_system env seconds 0 v = Some (Go_On w')"
      using False check by (auto split: if_splits)
    have co: "control_only v w'" using check_system_control_only [OF w'] by simp
    have "\<exists>sys'. w_systems w' = [sys'] \<and> sy_retune_attempts sys' = int (Suc n) \<and> sy_message_count sys' = 0
        \<and> w_exit_flag w' = w_exit_flag v"
    proof (cases "control_channel_count sys1 > 1")
      case False
      then show ?thesis
        using w' check \<open>\<not> ?limit < int (Suc n)\<close> sys(1)
        by (auto simp: reset_message_count_def set_sys_def sys1_def)
    next
      case True
      then obtain r u where u: "retune_system 0 (set_sys 0 sys1 v) = Some (r, u)" "w' = reset_message_count 0 u"
        using w' check \<open>\<not> ?limit < int (Suc n)\<close> by auto
      from retune_silent [OF u(1), of sys1] show ?thesis
        using sys(1) by (auto simp: u(2) reset_message_count_def set_sys_def sys1_def)
    qed
    moreover have "sys_frame (length (w_sources v)) (w_systems v ! 0) (w_systems w' ! 0)" "w_sources w' = w_sources v"
      using co w_frame_nth [of v w' 0] sys(1) by (simp_all add: control_only_def w_frame_def)
    ultimately have "silent (Suc n) w'" "\<not> w_exit_flag w'"
      using sys assms(2) by (auto simp: silent_def sys_frame_def v_def emit_def)
    then show ?thesis using False by (simp add: cm w')
  qed
qed



end
