(* ===== verification/Smartnet_Decode.thy ===== *)
theory Smartnet_Decode
  imports Decimal
begin

text \<open>
  The frames of a SmartNet control channel (\<open>trunk-recorder/systems/smartnet_decode.cc\<close>; the same
  functions are repeated in \<open>smartnet_crc.cc\<close>): deinterleaving, error correction, the checksum, and
  the text a frame is put into the message queue as.

  Bits arrive as one \<open>char\<close> each. An array is a list; indices are within bounds by construction.
\<close>

section \<open>Error correction\<close>

text \<open>
  Information bits and parity bits alternate; a parity bit is the exclusive or of its information
  bit and the one before. The last of the 38 output bits is never written.
\<close>

definition ecc_expected :: "octet list \<Rightarrow> octet list" where
  "ecc_expected inp =
     [inp ! 0 AND 1, inp ! 0 AND 1] @
     concat (map (\<lambda>j. [inp ! (2 * j) AND 1, (inp ! (2 * j) AND 1) XOR (inp ! (2 * j - 2) AND 1)]) [1..<38])"

definition ecc_syndrome :: "octet list \<Rightarrow> octet list" where
  "ecc_syndrome inp = map (\<lambda>k. ecc_expected inp ! k XOR (inp ! k AND 1)) [0..<76]"

definition smartnet_ecc :: "octet list \<Rightarrow> octet list" where
  "smartnet_ecc inp =
     (let syndrome = ecc_syndrome inp
      in map (\<lambda>k. if syndrome ! (2 * k + 1) \<noteq> 0 \<and> syndrome ! (2 * k + 3) \<noteq> 0
                  then (if inp ! (2 * k) AND 1 \<noteq> 0 then 0 else 1) else inp ! (2 * k)) [0..<37])"

section \<open>Checksum\<close>

text \<open>The state of the loop is the operand and the accumulator, both \<open>unsigned int\<close>.\<close>

definition crc_next :: "32 word \<Rightarrow> 32 word" where
  "crc_next crcop = (if crcop AND 1 \<noteq> 0 then drop_bit 1 crcop XOR 0x0225 else drop_bit 1 crcop)"

definition crc_step :: "octet \<Rightarrow> 32 word \<times> 32 word \<Rightarrow> 32 word \<times> 32 word" where
  "crc_step b st =
     (let (crcop, crcaccum) = st; crcop = crc_next crcop
      in (crcop, if b AND 1 \<noteq> 0 then crcaccum XOR crcop else crcaccum))"

definition crc_expected :: "octet list \<Rightarrow> 32 word" where
  "crc_expected inp = snd (fold crc_step (take 27 inp) (0x036E, 0x0393))"

definition crc_given :: "octet list \<Rightarrow> 32 word" where
  "crc_given inp = fold (\<lambda>b given. push_bit 1 given + of_bool (b AND 1 = 0)) (take 10 (drop 27 inp)) 0"

definition smartnet_crc :: "octet list \<Rightarrow> bool" where
  "smartnet_crc inp \<longleftrightarrow> crc_given inp = crc_expected inp"

section \<open>Fields\<close>

record smartnet_packet =
  pk_address :: "32 word"
  pk_groupflag :: bool
  pk_command :: "32 word"
  pk_crc :: "32 word"

text \<open>\<open>n\<close> inverted bits, most significant first, summed up from the position \<open>i\<close> on.\<close>

definition inverted_bits :: "nat \<Rightarrow> nat \<Rightarrow> octet list \<Rightarrow> 32 word" where
  "inverted_bits n i inp =
     foldl (\<lambda>v j. v + push_bit (n - 1 - j) (of_bool (inp ! (i + j) AND 1 = 0))) 0 [0..<n]"

definition smartnet_parse :: "octet list \<Rightarrow> smartnet_packet" where
  "smartnet_parse inp =
     \<lparr>pk_address = inverted_bits 16 0 inp XOR 0x33C7, pk_groupflag = (inp ! 16 = 0),
      pk_command = inverted_bits 10 17 inp XOR 0x032A, pk_crc = inverted_bits 10 27 inp\<rparr>"

section \<open>Frames\<close>

text \<open>Four groups of 19 bits are interleaved.\<close>

definition deinterleave :: "octet list \<Rightarrow> nat \<Rightarrow> octet list" where
  "deinterleave inp mark = map (\<lambda>j. inp ! (mark + j div 4 + (j mod 4) * 19)) [0..<76]"

definition packet_text :: "smartnet_packet \<Rightarrow> string" where
  "packet_text pkt = digits (unat (pk_address pkt)) @ '','' @ (if pk_groupflag pkt then ''1'' else ''0'')
     @ '','' @ digits (unat (pk_command pkt))"

definition decode_frame :: "octet list \<Rightarrow> nat \<Rightarrow> string option" where
  "decode_frame inp mark =
     (let databits = smartnet_ecc (deinterleave inp mark)
      in if smartnet_crc databits then Some (packet_text (smartnet_parse databits)) else None)"

text \<open>
  \<open>work\<close>: \<open>tags\<close> are the offsets of the preambles from the first input item; the block looks for
  those in the first \<open>noutput_items - 84\<close> items. The result is the number of items it consumes and the
  texts it queues.
\<close>

definition smartnet_work :: "nat \<Rightarrow> nat list \<Rightarrow> octet list \<Rightarrow> nat \<times> string list" where
  "smartnet_work noutput_items tags inp =
     (if noutput_items < 84 then (0, [])
      else let size = noutput_items - 84; marks = filter (\<lambda>t. t < size) tags
           in if marks = [] then (size, [])
              else (noutput_items, List.map_filter (decode_frame inp) marks))"

end
