(* ===== verification/Checksums.thy ===== *)
theory Checksums
  imports TR_Prelude
begin

text \<open>
  Linear checksums as sums of columns: what the checks of several decoders share. A checksum whose
  columns are different, not zero, and of which no two add up to a third tells words apart that differ in
  at most three bits; this is proved once, for any columns, and used for the codes of SmartNet and P25.
\<close>

unbundle bit_operations_syntax

text \<open>\<open>xor_sum cs bs\<close>: the exclusive or of the columns \<open>cs\<close> whose bit is set.\<close>

fun xor_sum :: "32 word list \<Rightarrow> bool list \<Rightarrow> 32 word" where
  "xor_sum (c # cs) (b # bs) = (if b then c else 0) XOR xor_sum cs bs"
| "xor_sum _ _ = 0"

lemma xor_sum_append:
  "length cs = length bs \<Longrightarrow> xor_sum (cs @ cs') (bs @ bs') = xor_sum cs bs XOR xor_sum cs' bs'"
  by (induction cs bs rule: list_induct2) (simp_all add: xor.assoc)

lemma xor_sum_diff:
  "length cs = length as \<Longrightarrow> length as = length bs \<Longrightarrow>
    xor_sum cs as XOR xor_sum cs bs = xor_sum cs (map2 (\<noteq>) as bs)"
proof (induction cs as bs rule: list_induct3)
  case (Cons c cs a as b bs)
  then show ?case by (auto simp: xor.assoc xor.left_commute simp flip: Cons.IH)
qed simp

lemma xor_sum_filter: "length cs = length bs \<Longrightarrow>
    xor_sum cs bs = foldr (XOR) (map fst (filter snd (zip cs bs))) 0"
  by (induction cs bs rule: list_induct2) simp_all

lemma xor_zero_iff: "a XOR b = 0 \<longleftrightarrow> a = b" for a b :: "32 word"
proof
  assume "a XOR b = 0"
  then have "(a XOR b) XOR b = b" by simp
  then show "a = b" by (simp add: xor.assoc)
qed simp

section \<open>Distance\<close>

locale distant_columns =
  fixes columns :: "32 word list"
  assumes distinct: "distinct columns"
    and nonzero: "c \<in> set columns \<Longrightarrow> c \<noteq> 0"
    and triple: "c \<in> set columns \<Longrightarrow> d \<in> set columns \<Longrightarrow> c \<noteq> d \<Longrightarrow> c XOR d \<notin> set columns"
begin

text \<open>At most three different columns never cancel out.\<close>

lemma few_columns:
  assumes "distinct xs" "set xs \<subseteq> set columns" "length xs \<le> 3" "foldr (XOR) xs 0 = 0"
  shows "xs = []"
proof (cases xs rule: remdups_adj.cases)
  case (3 a b ys)
  have ab: "a \<in> set columns" "b \<in> set columns" "a \<noteq> b" using assms 3 by simp_all
  show ?thesis
  proof (cases ys)
    case Nil
    then have "a XOR b = 0" using assms(4) 3 by simp
    then show ?thesis using ab by (simp add: xor_zero_iff)
  next
    case (Cons c zs)
    then have "zs = []" "c \<in> set columns" using assms 3 by simp_all
    moreover from this have "a XOR b = c"
      using assms(4) 3 Cons by (simp add: xor_zero_iff flip: xor.assoc)
    ultimately show ?thesis using triple [OF ab] by simp
  qed
qed (use assms nonzero in auto)

lemma three_errors:
  assumes len: "length as = length columns" "length bs = length columns"
    and same: "xor_sum columns as = xor_sum columns bs"
    and few: "card {i. i < length columns \<and> as ! i \<noteq> bs ! i} \<le> 3"
  shows "as = bs"
proof (rule nth_equalityI)
  let ?d = "map2 (\<noteq>) as bs"
  let ?f = "map fst (filter snd (zip columns ?d))"
  have l: "length ?d = length columns" using len by simp
  have sum: "foldr (XOR) ?f 0 = 0"
    using xor_sum_diff [of columns as bs] xor_sum_filter [of columns ?d] len same by simp
  have n: "length ?f = card {i. i < length columns \<and> as ! i \<noteq> bs ! i}"
  proof -
    have "length ?f = card {i. i < length columns \<and> ?d ! i}"
      using l by (auto simp: length_filter_conv_card intro!: arg_cong [where f = card])
    then show ?thesis using len by (auto intro!: arg_cong [where f = card])
  qed
  have dist: "distinct ?f" using distinct_map_filter [of fst "zip columns ?d"] distinct l by simp
  have sub: "set ?f \<subseteq> set columns" by (auto dest: set_zip_leftD)
  have "?f = []" by (rule few_columns [OF dist sub _ sum]) (use n few in simp)
  then have none: "{i. i < length columns \<and> as ! i \<noteq> bs ! i} = {}" using n by simp
  show "as ! i = bs ! i" if "i < length as" for i using none that len by auto
qed (simp add: len)

end

end
