(* ===== verification/Smartnet_Frames.thy ===== *)
theory Smartnet_Frames
  imports Smartnet_Decode Checksums
begin

text \<open>
  Facts about single SmartNet frames: what the error correction repairs, how far apart the checksum keeps
  two blocks, and what a frame says when it arrives: a transmitter is written down here and the decoder
  inverts it.
\<close>

section \<open>Error correction\<close>

text \<open>The codeword of 38 information bits, and a received word with errors at the positions in \<open>E\<close>.\<close>

definition codeword :: "(nat \<Rightarrow> bool) \<Rightarrow> nat \<Rightarrow> bool" where
  "codeword d k = (if even k then d (k div 2) else d (k div 2) \<noteq> (2 \<le> k \<and> d (k div 2 - 1)))"

definition received :: "(nat \<Rightarrow> bool) \<Rightarrow> nat set \<Rightarrow> octet list" where
  "received d E = map (\<lambda>k. of_bool (codeword d k \<noteq> (k \<in> E))) [0..<76]"

definition sparse :: "nat set \<Rightarrow> bool" where
  "sparse E \<longleftrightarrow> (\<forall>i \<in> E. \<forall>j \<in> E. i < j \<longrightarrow> i + 6 \<le> j)"

definition bits :: "(nat \<Rightarrow> bool) \<Rightarrow> nat \<Rightarrow> octet list" where
  "bits d n = map (\<lambda>k. of_bool (d k)) [0..<n]"

lemma bits_simps [simp]: "length (bits d n) = n" "k < n \<Longrightarrow> bits d n ! k = of_bool (d k)"
  by (simp_all add: bits_def)

lemma of_bool_octet [simp]:
  "(of_bool a :: octet) AND 1 = of_bool a" "(of_bool a :: octet) XOR of_bool b = of_bool (a \<noteq> b)"
  "(of_bool a :: octet) = 0 \<longleftrightarrow> \<not> a"
  by (cases a; cases b; simp)+

lemma concat_pairs:
  "k < n \<Longrightarrow> concat (map (\<lambda>j. [f j, g j]) [m..<m + n]) ! (2 * k) = f (m + k)
    \<and> concat (map (\<lambda>j. [f j, g j]) [m..<m + n]) ! (2 * k + 1) = g (m + k)"
proof (induction n arbitrary: m k)
  case (Suc n)
  have u: "[m..<m + Suc n] = m # [Suc m..<Suc m + n]" by (simp add: upt_conv_Cons)
  show ?case using Suc.IH [of "k - 1" "Suc m"] Suc.prems unfolding u by (cases k) simp_all
qed simp

lemma expected_odd:
  assumes "k < 38"
  shows "ecc_expected inp ! (2 * k + 1) =
    (if k = 0 then inp ! 0 AND 1 else (inp ! (2 * k) AND 1) XOR (inp ! (2 * k - 2) AND 1))"
proof (cases k)
  case (Suc m)
  have "2 * k + 1 = Suc (Suc (2 * m + 1))" using Suc by simp
  then show ?thesis
    using concat_pairs [of m 37 "\<lambda>j. inp ! (2 * j) AND 1" "\<lambda>j. (inp ! (2 * j) AND 1) XOR (inp ! (2 * j - 2) AND 1)" 1]
      assms Suc by (simp add: ecc_expected_def)
qed (simp add: ecc_expected_def)

lemma syndrome_received:
  assumes "k < 38"
  shows "ecc_syndrome (received d E) ! (2 * k + 1) \<noteq> 0 \<longleftrightarrow>
    ((2 * k \<in> E) \<noteq> (2 * k + 1 \<in> E)) \<noteq> (1 \<le> k \<and> 2 * k - 2 \<in> E)"
proof (cases k)
  case 0
  then show ?thesis
    using expected_odd [of 0 "received d E"] by (auto simp: ecc_syndrome_def received_def codeword_def)
next
  case (Suc m)
  have r: "received d E ! j = of_bool (codeword d j \<noteq> (j \<in> E))" if "j < 76" for j
    using that by (simp add: received_def)
  have "ecc_syndrome (received d E) ! (2 * k + 1) =
      of_bool (((codeword d (2 * k) \<noteq> (2 * k \<in> E)) \<noteq> (codeword d (2 * k - 2) \<noteq> (2 * k - 2 \<in> E)))
        \<noteq> (codeword d (2 * k + 1) \<noteq> (2 * k + 1 \<in> E)))"
    using expected_odd [OF assms, of "received d E"] assms Suc r [of "2 * k"] r [of "2 * k - 2"] r [of "2 * k + 1"]
    by (simp add: ecc_syndrome_def)
  moreover have "codeword d (2 * k) = d k" "codeword d (2 * k - 2) = d (k - 1)" "codeword d (2 * k + 1) = (d k \<noteq> d (k - 1))"
    using Suc by (simp_all add: codeword_def)
  ultimately show ?thesis
    using Suc by (simp del: mult_Suc_right) blast
qed

lemma smartnet_ecc_corrects:
  assumes "sparse E"
  shows "smartnet_ecc (received d E) = bits d 37"
proof (rule nth_equalityI)
  show "length (smartnet_ecc (received d E)) = length (bits d 37)" by (simp add: smartnet_ecc_def Let_def)
next
  fix k assume "k < length (smartnet_ecc (received d E))"
  then have k: "k < 37" by (simp add: smartnet_ecc_def Let_def)
  have far: "i \<notin> E \<or> j \<notin> E" if "i < j" "j < i + 6" for i j
    using that assms by (force simp: sparse_def)
  have "ecc_syndrome (received d E) ! (2 * k + 1) \<noteq> 0 \<and> ecc_syndrome (received d E) ! (2 * k + 3) \<noteq> 0 \<longleftrightarrow> 2 * k \<in> E"
  proof -
    have "ecc_syndrome (received d E) ! (2 * k + 3) \<noteq> 0 \<longleftrightarrow> ((2 * k + 2 \<in> E) \<noteq> (2 * k + 3 \<in> E)) \<noteq> (2 * k \<in> E)"
      using syndrome_received [of "Suc k" d E] k by (simp add: numeral_eq_Suc)
    moreover note syndrome_received [of k d E]
    moreover have "1 \<le> k \<Longrightarrow> 2 * k - 2 \<notin> E \<or> j \<notin> E" if "2 * k \<le> j" "j < 2 * k + 4" for j
      using far [of "2 * k - 2" j] that by auto
    ultimately show ?thesis
      using k far [of "2 * k" "2 * k + 1"] far [of "2 * k" "2 * k + 2"] far [of "2 * k" "2 * k + 3"]
        far [of "2 * k + 1" "2 * k + 2"] far [of "2 * k + 1" "2 * k + 3"] far [of "2 * k + 2" "2 * k + 3"] by auto
  qed
  moreover have "received d E ! (2 * k) = of_bool (d k \<noteq> (2 * k \<in> E))"
    using k by (simp add: received_def codeword_def)
  ultimately show "smartnet_ecc (received d E) ! k = bits d 37 ! k"
    using k by (simp add: smartnet_ecc_def Let_def)
qed
section \<open>Checksum\<close>

fun crc_columns :: "nat \<Rightarrow> 32 word \<Rightarrow> 32 word list" where
  "crc_columns 0 op = []"
| "crc_columns (Suc n) op = crc_next op # crc_columns n (crc_next op)"

fun shift_columns :: "nat \<Rightarrow> 32 word list" where
  "shift_columns 0 = []"
| "shift_columns (Suc n) = push_bit n 1 # shift_columns n"

lemma length_columns [simp]: "length (crc_columns n op) = n" "length (shift_columns n) = n"
  by (induction n arbitrary: op) simp_all

lemma crc_expected_sum:
  "snd (fold crc_step bs (op, acc)) = acc XOR xor_sum (crc_columns (length bs) op) (map (\<lambda>b. b AND 1 \<noteq> 0) bs)"
  by (induction bs arbitrary: op acc) (simp_all add: crc_step_def Let_def xor.assoc)

lemma push_bit_add_bit: "push_bit 1 (g :: 32 word) + of_bool b = push_bit 1 g XOR of_bool b"
  by (cases b) (simp_all add: xor_one_eq)

lemma push_bit_xor_bit:
  "push_bit n (push_bit 1 g XOR of_bool c) = push_bit (Suc n) g XOR (if c then push_bit n 1 else (0 :: 32 word))"
  unfolding push_bit_xor push_bit_push_bit by simp

lemma crc_given_sum:
  "fold (\<lambda>b given. push_bit 1 given + of_bool (b AND 1 = 0)) bs g =
    push_bit (length bs) g XOR xor_sum (shift_columns (length bs)) (map (\<lambda>b. b AND 1 = 0) (bs :: octet list))"
proof (induction bs arbitrary: g)
  case (Cons b bs)
  show ?case
    unfolding fold_Cons comp_apply Cons unfolding push_bit_add_bit push_bit_xor_bit length_Cons list.map shift_columns.simps
      xor_sum.simps xor.assoc ..
qed simp

lemma xor_sum_bits: "xor_sum (shift_columns n) (map (\<lambda>j. bit w (n - 1 - j)) [0..<n]) = take_bit n w"
proof (induction n)
  case (Suc n)
  have "map (\<lambda>j. bit w (Suc n - 1 - j)) [0..<Suc n] = bit w n # map (\<lambda>j. bit w (n - 1 - j)) [0..<n]"
    by (simp add: upt_conv_Cons map_Suc_upt [symmetric] del: upt_Suc)
  then have "xor_sum (shift_columns (Suc n)) (map (\<lambda>j. bit w (Suc n - 1 - j)) [0..<Suc n]) =
      (if bit w n then push_bit n 1 else 0) XOR take_bit n w"
    using Suc by simp
  also have "\<dots> = take_bit (Suc n) w"
    by (rule bit_eqI) (auto simp: bit_simps less_Suc_eq)
  finally show ?case .
qed simp

subsection \<open>Distance\<close>

definition columns :: "32 word list" where
  "columns = crc_columns 27 0x036E @ shift_columns 10"

lemma columns_values: "map uint columns =
    [439,766,383,666,333,643,868,434,217,585,769,933,1015,990,495,722,361,657,877,
     915,1004,502,251,600,300,150,75,512,256,128,64,32,16,8,4,2,1]"
  by code_simp

lemma columns_values_facts:
  "let cs = [439,766,383,666,333,643,868,434,217,585,769,933,1015,990,495,722,361,657,877,
     915,1004,502,251,600,300,150,75,512,256,128,64,32,16,8,4,2,1]
   in distinct cs \<and> (\<forall>c \<in> set cs. c \<noteq> (0 :: int) \<and> (\<forall>d \<in> set cs. c = d \<or> c XOR d \<notin> set cs))"
  by code_simp

lemma columns_facts:
  shows columns_distinct: "distinct columns"
    and columns_nonzero: "c \<in> set columns \<Longrightarrow> c \<noteq> 0"
    and columns_triple: "c \<in> set columns \<Longrightarrow> d \<in> set columns \<Longrightarrow> c \<noteq> d \<Longrightarrow> c XOR d \<notin> set columns"
proof -
  note f = columns_values_facts [unfolded Let_def, folded columns_values]
  show "distinct columns" using f by (simp add: distinct_map)
  show "c \<noteq> 0" if "c \<in> set columns" using f that by auto
  show "c XOR d \<notin> set columns" if "c \<in> set columns" "d \<in> set columns" "c \<noteq> d"
  proof
    assume "c XOR d \<in> set columns"
    then have "uint c XOR uint d \<in> set (map uint columns)" by (metis imageI list.set_map uint_xor)
    moreover have "uint c \<in> set (map uint columns)" "uint d \<in> set (map uint columns)" "uint c \<noteq> uint d"
      using that by (auto simp: word_uint_eq_iff)
    ultimately show False using f by blast
  qed
qed

interpretation smartnet_columns: distant_columns columns
  by unfold_locales (rule columns_distinct, erule columns_nonzero, rule columns_triple)

definition set_bits :: "octet list \<Rightarrow> bool list" where
  "set_bits inp = map (\<lambda>b. b AND 1 \<noteq> 0) inp"

lemma crc_linear:
  assumes "37 \<le> length inp"
  shows "crc_given inp XOR crc_expected inp = xor_sum columns (set_bits (take 37 inp)) XOR (0x3FF XOR 0x0393)"
proof -
  let ?d = "take 27 inp" and ?c = "take 10 (drop 27 inp)"
  have l: "length ?d = 27" "length ?c = 10" using assms by auto
  have "take 37 inp = ?d @ ?c" using take_add [of 27 10 inp] by simp
  then have s: "xor_sum columns (set_bits (take 37 inp)) =
      xor_sum (crc_columns 27 0x036E) (set_bits ?d) XOR xor_sum (shift_columns 10) (set_bits ?c)"
    unfolding columns_def set_bits_def using xor_sum_append [of "crc_columns 27 0x036E" "set_bits ?d"] l
    by (simp add: set_bits_def)
  have n: "xor_sum cs (map Not bs) = xor_sum cs (replicate (length bs) True) XOR xor_sum cs bs"
    if "length cs = length bs" for cs bs
    using that by (induction cs bs rule: list_induct2) (simp_all add: xor.assoc xor.left_commute)
  have all: "xor_sum (shift_columns 10) (replicate 10 True) = 0x3FF" by code_simp
  have "map (\<lambda>b. b AND 1 = 0) ?c = map Not (set_bits ?c)" by (simp add: set_bits_def comp_def)
  then have "crc_given inp = 0x3FF XOR xor_sum (shift_columns 10) (set_bits ?c)"
    unfolding crc_given_def crc_given_sum using n [of "shift_columns 10" "set_bits ?c"] l all by (simp add: set_bits_def comp_def)
  moreover have "crc_expected inp = 0x0393 XOR xor_sum (crc_columns 27 0x036E) (set_bits ?d)"
    unfolding crc_expected_def crc_expected_sum set_bits_def l ..
  ultimately show ?thesis unfolding s by (simp only: ac_simps)
qed

section \<open>A transmitter\<close>

text \<open>
  The information bits of a word with address \<open>a\<close>, group flag \<open>g\<close> and command \<open>c\<close>: both fields masked and
  inverted, most significant bit first, the inverted checksum, and a guard bit.
\<close>

definition word_bits :: "32 word \<Rightarrow> bool \<Rightarrow> 32 word \<Rightarrow> nat \<Rightarrow> bool" where
  "word_bits a g c k =
     (if k < 16 then \<not> bit (a XOR 0x33C7) (15 - k) else if k = 16 then \<not> g else \<not> bit (c XOR 0x032A) (26 - k))"

definition frame_bits :: "32 word \<Rightarrow> bool \<Rightarrow> 32 word \<Rightarrow> nat \<Rightarrow> bool" where
  "frame_bits a g c k =
     (if k < 27 then word_bits a g c k else k < 37 \<and> \<not> bit (crc_expected (bits (word_bits a g c) 27)) (36 - k))"

definition transmit :: "octet list \<Rightarrow> octet list" where
  "transmit w = map (\<lambda>i. w ! (4 * (i mod 19) + i div 19)) [0..<76]"

lemma deinterleave_transmit:
  assumes "length w = 76"
  shows "deinterleave (pre @ transmit w @ post) (length pre) = w"
proof (rule nth_equalityI)
  fix j assume "j < length (deinterleave (pre @ transmit w @ post) (length pre))"
  then have j: "j < 76" by (simp add: deinterleave_def)
  then have q: "j div 4 < 19" by simp
  have i: "j div 4 + (j mod 4) * 19 < 76" using q mod_less_divisor [of 4 j] by linarith
  have "(j div 4 + (j mod 4) * 19) mod 19 = j div 4" "(j div 4 + (j mod 4) * 19) div 19 = j mod 4" using q by simp_all
  then show "deinterleave (pre @ transmit w @ post) (length pre) ! j = w ! j"
    using j i by (simp add: deinterleave_def nth_append transmit_def add.assoc)
qed (simp add: deinterleave_def assms)

lemma length_received [simp]: "length (received d E) = 76"
  by (simp add: received_def)

lemma inverted_bits_word:
  assumes "\<And>j. j < n \<Longrightarrow> (inp ! (i + j) AND 1 = 0) = bit w (n - 1 - j)"
  shows "inverted_bits n i inp = take_bit n w"
proof -
  have "foldl (\<lambda>v j. v + push_bit (n - 1 - j) (of_bool (inp ! (i + j) AND 1 = 0))) 0 [0..<m]
      = push_bit (n - m) (drop_bit (n - m) (take_bit n w))" if "m \<le> n" for m
    using that
  proof (induction m)
    case (Suc m)
    let ?v = "push_bit (n - m) (drop_bit (n - m) (take_bit n w))" and ?b = "push_bit (n - 1 - m) (of_bool (bit w (n - 1 - m)))"
    have "?v AND ?b = 0" using Suc.prems by (intro bit_eqI) (auto simp: bit_simps)
    then have "?v + ?b = ?v OR ?b" by (rule disjunctive_add_eq_or)
    also have "\<dots> = push_bit (n - Suc m) (drop_bit (n - Suc m) (take_bit n w))"
    proof (rule bit_eqI)
      fix k
      have "k = n - Suc m \<or> k < n - Suc m \<or> (n - m \<le> k \<and> n + (k + m - n) - m = k)" using Suc.prems by linarith
      then show "bit (?v OR ?b) k = bit (push_bit (n - Suc m) (drop_bit (n - Suc m) (take_bit n w))) k"
        using Suc.prems by (auto simp: bit_simps)
    qed
    finally show ?case using Suc assms [of m] by simp
  qed (auto intro!: bit_eqI simp: bit_simps)
  from this [of n] show ?thesis by (simp add: inverted_bits_def)
qed

lemma crc_expected_range: "length inp = 27 \<Longrightarrow> take_bit 10 (crc_expected inp) = crc_expected inp"
proof -
  assume l: "length inp = 27"
  have c: "\<forall>c \<in> set (crc_columns 27 0x036E). take_bit 10 c = c" by code_simp
  have "take_bit 10 (xor_sum cs bs) = xor_sum cs bs" if "\<forall>c \<in> set cs. take_bit 10 c = c" for cs bs
    using that by (induction cs bs rule: xor_sum.induct) (simp_all add: take_bit_xor)
  from this [OF c] show ?thesis using l by (simp add: crc_expected_def crc_expected_sum take_bit_xor)
qed

lemma crc_bits: "length inp = 37 \<Longrightarrow> (\<And>j. j < 10 \<Longrightarrow> (inp ! (27 + j) AND 1 = 0) = bit w (9 - j)) \<Longrightarrow> crc_given inp = take_bit 10 w"
proof -
  assume l: "length inp = 37" and b: "\<And>j. j < 10 \<Longrightarrow> (inp ! (27 + j) AND 1 = 0) = bit w (9 - j)"
  have "map (\<lambda>b. b AND 1 = 0) (take 10 (drop 27 inp)) = map (\<lambda>j. bit w (10 - 1 - j)) [0..<10]"
    using l b by (intro nth_equalityI) simp_all
  then show ?thesis using l xor_sum_bits [of 10 w] unfolding crc_given_def crc_given_sum by simp
qed

lemma crc_expected_take: "crc_expected (take 27 inp) = crc_expected inp"
  by (simp add: crc_expected_def)

lemma take_bits: "take n (bits d m) = bits d (min n m)"
  by (simp add: bits_def take_map min_def)

lemma frame_accepted: "smartnet_crc (bits (frame_bits a g c) 37)"
proof -
  let ?inp = "bits (frame_bits a g c) 37" and ?w = "crc_expected (bits (word_bits a g c) 27)"
  have "bits (frame_bits a g c) 27 = bits (word_bits a g c) 27" by (simp add: bits_def frame_bits_def)
  then have "crc_expected ?inp = ?w" using crc_expected_take [of ?inp] by (simp add: take_bits)
  moreover have "crc_given ?inp = take_bit 10 ?w" by (rule crc_bits) (simp_all add: frame_bits_def)
  ultimately show ?thesis by (simp add: smartnet_crc_def crc_expected_range)
qed

lemma frame_parsed:
  assumes "take_bit 16 a = a" "take_bit 10 c = c"
  shows "pk_address (smartnet_parse (bits (frame_bits a g c) 37)) = a"
    "pk_groupflag (smartnet_parse (bits (frame_bits a g c) 37)) = g"
    "pk_command (smartnet_parse (bits (frame_bits a g c) 37)) = c"
proof -
  let ?inp = "bits (frame_bits a g c) 37"
  have "inverted_bits 16 0 ?inp = take_bit 16 (a XOR 0x33C7)"
    by (rule inverted_bits_word) (simp add: frame_bits_def word_bits_def)
  moreover have "inverted_bits 10 17 ?inp = take_bit 10 (c XOR 0x032A)"
    by (rule inverted_bits_word) (simp add: frame_bits_def word_bits_def)
  ultimately show "pk_address (smartnet_parse ?inp) = a" "pk_command (smartnet_parse ?inp) = c"
    using assms by (simp_all add: smartnet_parse_def take_bit_xor xor.assoc)
  show "pk_groupflag (smartnet_parse ?inp) = g" by (simp add: smartnet_parse_def frame_bits_def word_bits_def)
qed

lemma frame_decoded:
  assumes "take_bit 16 a = a" "take_bit 10 c = c" "sparse E"
  shows "decode_frame (pre @ transmit (received (frame_bits a g c) E) @ post) (length pre) =
    Some (digits (unat a) @ '','' @ (if g then ''1'' else ''0'') @ '','' @ digits (unat c))"
  using frame_accepted [of a g c] frame_parsed [OF assms(1,2), of g] assms(3)
  by (simp add: decode_frame_def deinterleave_transmit smartnet_ecc_corrects packet_text_def)


section \<open>Distance of accepted blocks\<close>

text \<open>
  C23. The checksum keeps accepted words apart: two different blocks of 37 bits that both pass the test
  differ in four bits at least, so up to three errors left by the correction never go unnoticed.
\<close>
theorem smartnet_crc_distance:
  assumes "length xs = 37" "length ys = 37" "smartnet_crc xs" "smartnet_crc ys"
    and "card {i. i < 37 \<and> (xs ! i AND 1 \<noteq> 0) \<noteq> (ys ! i AND 1 \<noteq> 0)} \<le> 3"
  shows "map (\<lambda>b. b AND 1 \<noteq> 0) xs = map (\<lambda>b. b AND 1 \<noteq> 0) ys"
proof -
  have accepted: "xor_sum columns (set_bits zs) = 0x3FF XOR 0x0393" if "length zs = 37" "smartnet_crc zs" for zs
  proof -
    have t: "take 37 zs = zs" and n: "37 \<le> length zs" using that by simp_all
    have "xor_sum columns (set_bits zs) XOR (0x3FF XOR 0x0393) = crc_given zs XOR crc_expected zs"
      by (rule crc_linear [OF n, symmetric, unfolded t])
    also have "\<dots> = 0" using that(2) by (simp add: smartnet_crc_def xor_zero_iff)
    finally show ?thesis by (simp only: xor_zero_iff)
  qed
  have l: "length columns = 37" by (simp add: columns_def)
  have d: "{i. i < 37 \<and> set_bits xs ! i \<noteq> set_bits ys ! i} = {i. i < 37 \<and> (xs ! i AND 1 \<noteq> 0) \<noteq> (ys ! i AND 1 \<noteq> 0)}"
    using assms by (auto simp: set_bits_def)
  have "set_bits xs = set_bits ys"
  proof (rule smartnet_columns.three_errors)
    show "card {i. i < length columns \<and> set_bits xs ! i \<noteq> set_bits ys ! i} \<le> 3"
      using assms(5) unfolding l d .
    show "xor_sum columns (set_bits xs) = xor_sum columns (set_bits ys)"
      unfolding accepted [OF assms(1,3)] accepted [OF assms(2,4)] ..
    show "length (set_bits xs) = length columns" "length (set_bits ys) = length columns"
      unfolding l set_bits_def length_map using assms(1,2) .
  qed
  then show ?thesis by (simp add: set_bits_def)
qed

definition example_block :: "octet list" where
  "example_block = [1, 1, 0, 1, 1, 1, 1, 0, 0, 0, 0, 0, 1, 1, 0, 0, 0, 1, 1, 1, 1, 0, 1, 1, 1, 0, 1, 1, 1, 0, 1, 1, 1, 1, 0, 1, 1]"

theorem smartnet_crc_distance_witness:
  "map (\<lambda>b. b AND 1 \<noteq> 0) example_block = map (\<lambda>b. b AND 1 \<noteq> 0) (map (\<lambda>b. b OR 2) example_block)"
proof (rule smartnet_crc_distance)
  show "card {i. i < 37 \<and> (example_block ! i AND 1 \<noteq> 0) \<noteq> (map (\<lambda>b. b OR 2) example_block ! i AND 1 \<noteq> 0)} \<le> 3"
  proof -
    have "\<forall>i \<in> set [0..<37]. (example_block ! i AND 1 \<noteq> 0) = (map (\<lambda>b. b OR 2) example_block ! i AND 1 \<noteq> 0)" by code_simp
    then have "{i. i < 37 \<and> (example_block ! i AND 1 \<noteq> 0) \<noteq> (map (\<lambda>b. b OR 2) example_block ! i AND 1 \<noteq> 0)} = {}" by auto
    then show ?thesis by (simp only: card.empty)
  qed
qed code_simp+

section \<open>The stream of frames\<close>

text \<open>
  The scheduler calls \<open>work\<close> with blocks of \<open>ns\<close> items; \<open>tags\<close> are the preambles, counted from the first
  item that is left.
\<close>

fun work_run :: "nat list \<Rightarrow> nat list \<Rightarrow> octet list \<Rightarrow> string list" where
  "work_run [] tags inp = []"
| "work_run (n # ns) tags inp =
     (case smartnet_work n tags inp of (c, out) \<Rightarrow>
        out @ work_run ns (map (\<lambda>t. t - c) (filter (\<lambda>t. c \<le> t) tags)) (drop c inp))"

lemma map_filter_eq:
  "(\<And>x. x \<in> set xs \<Longrightarrow> f x = g (h x)) \<Longrightarrow> List.map_filter f xs = List.map_filter g (map h xs)"
  by (induction xs) (simp_all add: List.map_filter_simps split: option.split)

lemma decode_frame_drop:
  "n + t + 76 \<le> length inp \<Longrightarrow> decode_frame (drop n inp) t = decode_frame inp (n + t)"
proof -
  assume n: "n + t + 76 \<le> length inp"
  have "deinterleave (drop n inp) t = deinterleave inp (n + t)"
    unfolding deinterleave_def using n by (intro map_cong refl) (simp add: add.assoc)
  then show ?thesis by (simp add: decode_frame_def)
qed

text \<open>One frame every 84 items, the first preamble ending at \<open>r\<close>.\<close>

definition preambles :: "nat \<Rightarrow> nat \<Rightarrow> nat list" where
  "preambles r n = map (\<lambda>i. r + 84 * i) [0..<n]"

lemma preambles_split:
  assumes "r < 84" "0 < k" "0 < c"
  shows "filter (\<lambda>t. t < 504 * k - 84) (preambles r (6 * k * c)) = preambles r (6 * k - 1)"
    and "map (\<lambda>t. t - 504 * k) (filter (\<lambda>t. 504 * k \<le> t) (preambles r (6 * k * c))) = preambles r (6 * k * (c - 1))"
proof -
  have le: "6 * k - 1 \<le> 6 * k * c" using assms by (cases c) auto
  have s: "[0..<6 * k * c] = [0..<6 * k - 1] @ [6 * k - 1..<6 * k * c]"
    using upt_add_eq_append [of 0 "6 * k - 1" "6 * k * c - (6 * k - 1)"] le by simp
  show "filter (\<lambda>t. t < 504 * k - 84) (preambles r (6 * k * c)) = preambles r (6 * k - 1)"
  proof -
    have "filter (\<lambda>t. t < 504 * k - 84) (map (\<lambda>i. r + 84 * i) [0..<6 * k - 1]) = map (\<lambda>i. r + 84 * i) [0..<6 * k - 1]"
      using assms by (auto simp: filter_id_conv)
    moreover have "filter (\<lambda>t. t < 504 * k - 84) (map (\<lambda>i. r + 84 * i) [6 * k - 1..<6 * k * c]) = []"
      by (auto simp: filter_empty_conv)
    ultimately show ?thesis unfolding preambles_def s map_append filter_append by simp
  qed
  have "[0..<6 * k * c] = [0..<6 * k] @ [6 * k..<6 * k * c]"
    using upt_add_eq_append [of 0 "6 * k" "6 * k * c - 6 * k"] assms by (cases c) auto
  then have "filter (\<lambda>t. 504 * k \<le> t) (preambles r (6 * k * c)) = map (\<lambda>i. r + 84 * i) [6 * k..<6 * k * c]"
    using assms by (auto simp: preambles_def filter_empty_conv filter_id_conv)
  moreover have "[6 * k..<6 * k * c] = map (\<lambda>i. i + 6 * k) [0..<6 * k * (c - 1)]"
    using assms by (cases c) (auto simp: map_add_upt add.commute)
  ultimately show "map (\<lambda>t. t - 504 * k) (filter (\<lambda>t. 504 * k \<le> t) (preambles r (6 * k * c))) = preambles r (6 * k * (c - 1))"
    by (simp add: preambles_def)
qed

text \<open>
  The last frame of every block is lost: the block is consumed, but its last 84 items are not searched.
\<close>
theorem smartnet_last_frame_lost:
  assumes "r < 84" "0 < k" "504 * k * c \<le> length inp"
  shows "work_run (replicate c (504 * k)) (preambles r (6 * k * c)) inp =
    List.map_filter (\<lambda>i. if i mod (6 * k) = 6 * k - 1 then None else decode_frame inp (r + 84 * i)) [0..<6 * k * c]"
  using assms(3)
proof (induction c arbitrary: inp)
  case (Suc c)
  let ?n = "504 * k" and ?f = "\<lambda>inp i. if i mod (6 * k) = 6 * k - 1 then None else decode_frame inp (r + 84 * i)"
  have ne: "preambles r (6 * k - 1) \<noteq> []" using assms(2) by (simp add: preambles_def)
  have sz: "\<not> ?n < 84" using assms(2) by simp
  have "List.map_filter (decode_frame inp) (preambles r (6 * k - 1)) = List.map_filter (?f inp) [0..<6 * k - 1]"
    by (auto simp: preambles_def List.map_filter_def filter_map comp_def intro!: map_cong filter_cong)
  also have "\<dots> = List.map_filter (?f inp) [0..<6 * k]"
  proof -
    have "Suc (6 * k - 1) = 6 * k" using assms(2) by simp
    then have "[0..<6 * k] = [0..<6 * k - 1] @ [6 * k - 1]" using upt_Suc_append [of 0 "6 * k - 1"] by simp
    moreover have "(6 * k - 1) mod (6 * k) = 6 * k - 1" using assms(2) by simp
    ultimately show ?thesis by (simp add: List.map_filter_def)
  qed
  finally have one: "smartnet_work ?n (preambles r (6 * k * Suc c)) inp = (?n, List.map_filter (?f inp) [0..<6 * k])"
    using preambles_split(1) [of r k "Suc c"] assms ne sz by (simp add: smartnet_work_def Let_def)
  have "List.map_filter (?f (drop ?n inp)) [0..<6 * k * c] = List.map_filter (?f inp) (map (\<lambda>i. i + 6 * k) [0..<6 * k * c])"
  proof -
    have "?f (drop ?n inp) i = ?f inp (i + 6 * k)" if "i < 6 * k * c" for i
    proof (cases "i mod (6 * k) = 6 * k - 1")
      case False
      have "i \<noteq> 6 * k * c - 1"
      proof
        assume i: "i = 6 * k * c - 1"
        have "0 < c" using that by (cases c) auto
        then have "i = 6 * k - 1 + 6 * k * (c - 1)" using i assms(2) by (cases c) auto
        with False assms(2) show False by (metis mod_less mod_mult_self2 diff_less less_numeral_extra(1) nat_0_less_mult_iff zero_less_numeral)
      qed
      then have "i + 2 \<le> 6 * k * c" using that by simp
      then have "84 * i + 168 \<le> 504 * (k * c)" by simp
      then have "?n + (r + 84 * i) + 76 \<le> length inp" using Suc.prems assms(1) by (simp add: algebra_simps)
      from decode_frame_drop [OF this] False show ?thesis by (simp add: algebra_simps)
    qed simp
    then show ?thesis by (intro map_filter_eq) simp
  qed
  moreover have "[0..<6 * k * Suc c] = [0..<6 * k] @ map (\<lambda>i. i + 6 * k) [0..<6 * k * c]"
    using upt_add_eq_append [of 0 "6 * k" "6 * k * c"] by (simp add: map_add_upt add.commute)
  moreover have "map (\<lambda>t. t - ?n) (filter (\<lambda>t. ?n \<le> t) (preambles r (6 * k * Suc c))) = preambles r (6 * k * c)"
    using preambles_split(2) [of r k "Suc c"] assms by simp
  ultimately show ?case
    using Suc one by (simp add: List.map_filter_def)
qed (simp add: List.map_filter_def)

theorem smartnet_last_frame_lost_witness:
  "work_run [504, 504] (preambles 3 12) (replicate 1008 0) =
    List.map_filter (\<lambda>i. if i mod 6 = 5 then None else decode_frame (replicate 1008 0) (3 + 84 * i)) [0..<12]"
  using smartnet_last_frame_lost [of 3 1 2 "replicate 1008 0"] by (simp add: numeral_2_eq_2)

end
