(* ===== verification/Smartnet_Parser.thy ===== *)
theory Smartnet_Parser
  imports System_Impl Decimal
begin

text \<open>
  The SmartNet parser (\<open>trunk-recorder/systems/smartnet_parser.cc\<close>). A text is one outbound signalling
  word (OSW). The parser keeps the five newest in a stack and looks at the three below the newest:
  words make messages of one, two or three OSWs, and a message that uses more than one makes the parser
  skip the others.

  Commands are compared as \<open>unsigned short\<close>; \<open>int\<close> and \<open>long\<close> values are unbounded here and come from
  \<open>atoi\<close>, which keeps them within 32 bits. The fields \<open>lastcmd\<close> and \<open>lastaddress\<close> are never read.
\<close>

section \<open>Data\<close>

record osw_stru =
  os_cmd :: int
  os_id :: int
  os_status :: int
  os_full_address :: int
  os_address :: int
  os_grp :: int

record SmartnetParser =
  sp_stack :: "osw_stru list"
  sp_numStacked :: nat
  sp_numConsumed :: nat

text \<open>The stack is an array of five that the constructor does not initialise: \<open>junk\<close>.\<close>

definition new_SmartnetParser :: "osw_stru list \<Rightarrow> SmartnetParser" where
  "new_SmartnetParser junk = \<lparr>sp_stack = take 5 junk, sp_numStacked = 0, sp_numConsumed = 3\<rparr>"

section \<open>Channels\<close>

text \<open>In MHz; the literals and every operation are rounded to \<open>double\<close>.\<close>

definition getfreq_800 :: "string \<Rightarrow> int \<Rightarrow> double" where
  "getfreq_800 band cmd =
     (if cmd < 0 \<or> cmd > 0x3FE then 0
      else if cmd \<le> 0x2CF then
        (if band = ''800_reband'' \<and> cmd \<ge> 0x1B8 \<and> cmd \<le> 0x22F
         then fl (fl (851025 / 1000) + fl (fl (25 / 1000) * of_int (cmd - 0x1B8)))
         else if band = ''800_splinter'' \<and> cmd \<le> 0x257
         then fl (851 + fl (fl (25 / 1000) * of_int cmd))
         else fl (fl (8510125 / 10000) + fl (fl (25 / 1000) * of_int cmd)))
      else if cmd \<le> 0x2F7 then fl (866 + fl (fl (25 / 1000) * of_int (cmd - 0x2D0)))
      else if cmd \<ge> 0x32F \<and> cmd \<le> 0x33F then fl (867 + fl (fl (25 / 1000) * of_int (cmd - 0x32F)))
      else if cmd = 0x3BE then fl (868975 / 1000)
      else if cmd \<ge> 0x3C1 \<and> cmd \<le> 0x3FE then fl (fl (867425 / 1000) + fl (fl (25 / 1000) * of_int (cmd - 0x3C1)))
      else 0)"

text \<open>
  The upper end of a 400 MHz band. Dividing by a spacing of zero gives plus or minus infinity or NaN,
  and a channel is below it exactly if the band is not empty.
\<close>

definition below_high_cmd :: "int \<Rightarrow> System_impl \<Rightarrow> bool" where
  "below_high_cmd cmd sys =
     (let width = fl (get_bandplan_high sys - get_bandplan_base sys) in
      if sy_bandplan_spacing sys = 0 then 0 < width
      else of_int cmd < fl (of_int (sy_bandplan_offset sys) + fl (width / sy_bandplan_spacing sys)))"

definition getfreq_400 :: "int \<Rightarrow> System_impl \<Rightarrow> double" where
  "getfreq_400 cmd sys =
     (if cmd \<ge> sy_bandplan_offset sys \<and> below_high_cmd cmd sys
      then fl (get_bandplan_base sys + fl (sy_bandplan_spacing sys * of_int (cmd - sy_bandplan_offset sys)))
      else 0)"

definition getfreq :: "int \<Rightarrow> System_impl \<Rightarrow> double" where
  "getfreq cmd sys =
     (let freq = if sy_bandfreq sys = 800 then getfreq_800 (sy_bandplan sys) cmd
                 else if sy_bandfreq sys = 400 then getfreq_400 cmd sys else 0
      in fl (freq * 1000000))"

definition is_chan_outbound :: "int \<Rightarrow> System_impl \<Rightarrow> bool" where
  "is_chan_outbound cmd sys =
     (if sy_bandfreq sys = 800
      then (cmd \<ge> 0x000 \<and> cmd \<le> 0x2F7) \<or> (cmd \<ge> 0x32F \<and> cmd \<le> 0x33F) \<or> cmd = 0x3BE \<or> (cmd \<ge> 0x3C1 \<and> cmd \<le> 0x3FE)
      else if sy_bandfreq sys = 400
      then cmd \<ge> sy_bandplan_offset sys \<and> cmd < sy_bandplan_offset sys + 380
      else False)"

definition is_chan_inbound_obt :: "int \<Rightarrow> System_impl \<Rightarrow> bool" where
  "is_chan_inbound_obt cmd sys \<longleftrightarrow> cmd < sy_bandplan_offset sys"

definition is_first_normal :: "int \<Rightarrow> System_impl \<Rightarrow> bool" where
  "is_first_normal cmd sys =
     (if sy_bandfreq sys = 800 then cmd = 0x308 \<or> cmd = 0x321
      else is_chan_inbound_obt cmd sys \<or> cmd = 0x308 \<or> cmd = 0x321)"

section \<open>Reading a text\<close>

lemma length_dropWhile_Cons: "dropWhile P s = c # r \<Longrightarrow> length (dropWhile Q r) < length s"
  using length_dropWhile_le [of P s] length_dropWhile_le [of Q r] by simp

text \<open>\<open>boost::split\<close> on commas, adjacent ones compressed into one.\<close>

function split_commas :: "string \<Rightarrow> string list" where
  "split_commas s =
     takeWhile (\<lambda>c. c \<noteq> CHR '','') s #
       (case dropWhile (\<lambda>c. c \<noteq> CHR '','') s of [] \<Rightarrow> []
        | c # rest \<Rightarrow> split_commas (dropWhile (\<lambda>c. c = CHR '','') rest))"
  by pat_completeness auto

termination
  by (relation "measure length") (simp_all add: length_dropWhile_Cons)

declare split_commas.simps [simp del]

definition osw_of_fields :: "int \<Rightarrow> int \<Rightarrow> int \<Rightarrow> osw_stru" where
  "osw_of_fields full_address groupflag command =
     (let address = full_address AND 0xFFF0 in
      \<lparr>os_cmd = command mod 65536, os_id = address mod 65536, os_status = full_address AND 0x000F,
       os_full_address = full_address, os_address = address, os_grp = groupflag\<rparr>)"

text \<open>Fewer than three fields: an error is logged and nothing happens (the inner \<open>None\<close>).\<close>

definition read_osw :: "string \<Rightarrow> osw_stru option option" where
  "read_osw s =
     (case split_commas s of
        x0 # x1 # x2 # xs \<Rightarrow>
          do { full_address \<leftarrow> atoi x0; groupflag \<leftarrow> atoi x1; command \<leftarrow> atoi x2;
               Some (Some (osw_of_fields full_address groupflag command)) }
      | _ \<Rightarrow> Some None)"

section \<open>Messages\<close>

definition smartnet_message :: "TrunkMessage \<Rightarrow> System_impl \<Rightarrow> TrunkMessage" where
  "smartnet_message junk sys =
     junk\<lparr>tm_message_type := UNKNOWN, tm_encrypted := False, tm_phase2_tdma := False, tm_tdma_slot := 0,
       tm_source := -1, tm_sys_id := 0, tm_sys_num := sy_sys_num sys, tm_emergency := False, tm_opcode := 0\<rparr>"

definition call_options :: "int \<Rightarrow> TrunkMessage \<Rightarrow> TrunkMessage" where
  "call_options status m =
     (let m = if status \<ge> 8
              then (let m = m\<lparr>tm_encrypted := True\<rparr>
                    in if status = 10 \<or> status = 12 \<or> status = 13 then m\<lparr>tm_emergency := True\<rparr> else m)
              else m
      in if status = 2 \<or> status = 4 \<or> status = 5 then m\<lparr>tm_emergency := True\<rparr> else m)"

text \<open>A call, on the channel of the word \<open>w\<close>.\<close>

definition call_message :: "MessageType \<Rightarrow> System_impl \<Rightarrow> osw_stru \<Rightarrow> TrunkMessage \<Rightarrow> TrunkMessage" where
  "call_message t sys w m =
     call_options (os_status w)
       (m\<lparr>tm_message_type := t, tm_freq := getfreq (os_cmd w) sys, tm_talkgroup := os_address w\<rparr>)"

text \<open>
  Two words with an extended function: \<open>w3\<close> is the first on the air, \<open>w2\<close> the second. Functions that
  are not listed leave the message unfinished.
\<close>

definition extended_function :: "System_impl \<Rightarrow> osw_stru \<Rightarrow> osw_stru \<Rightarrow> TrunkMessage \<Rightarrow> TrunkMessage option" where
  "extended_function sys w2 w3 m =
     (let f = os_full_address w2 in
      if f = 0x2021 then Some (m\<lparr>tm_message_type := UNKNOWN, tm_talkgroup := os_address w3\<rparr>)
      else if f = 0x261B then Some (m\<lparr>tm_message_type := REGISTRATION, tm_source := os_full_address w3\<rparr>)
      else if f = 0x261C then Some (m\<lparr>tm_message_type := DEREGISTRATION, tm_source := os_full_address w3\<rparr>)
      else if f = 0x2C47 \<or> f = 0x2C65 then Some (m\<lparr>tm_message_type := UNKNOWN, tm_source := os_full_address w3\<rparr>)
      else if 0 \<le> f - 0x2800 \<and> f - 0x2800 < 0x2F7
      then Some (m\<lparr>tm_message_type := SYSID, tm_freq := getfreq (f - 0x2800) sys,
                   tm_sys_id := word_of_int (os_full_address w3)\<rparr>)
      else None)"

text \<open>
  The messages that begin with a first normal word. The result is the message and the number of
  further words it has consumed.
\<close>

definition first_normal ::
  "System_impl \<Rightarrow> osw_stru \<Rightarrow> osw_stru \<Rightarrow> osw_stru \<Rightarrow> TrunkMessage \<Rightarrow> TrunkMessage \<times> nat" where
  "first_normal sys w1 w2 w3 m =
     (if is_chan_outbound (os_cmd w2) sys
      then (if os_grp w2 \<noteq> 0
            then ((call_message GRANT sys w2 m)\<lparr>tm_source := os_full_address w3\<rparr>, 1)
            else (m\<lparr>tm_message_type := UNKNOWN\<rparr>, 1))
      else if os_cmd w2 = 0x320
      then (m\<lparr>tm_message_type := UNKNOWN\<rparr>, if os_cmd w1 = 0x30B then 2 else 1)
      else if os_cmd w2 = 0x30B
      then (case extended_function sys w2 w3 m of
              Some m' \<Rightarrow> (m', 1) | None \<Rightarrow> (m\<lparr>tm_message_type := UNKNOWN\<rparr>, 1))
      else if os_cmd w2 = 0x340 then (m\<lparr>tm_message_type := UNKNOWN\<rparr>, 1)
      else if os_cmd w2 = 0x310
      then (m\<lparr>tm_message_type := AFFILIATION, tm_talkgroup := os_address w2, tm_source := os_full_address w3\<rparr>, 1)
      else (m\<lparr>tm_message_type := UNKNOWN\<rparr>, 0))"

definition system_status :: "osw_stru \<Rightarrow> osw_stru \<Rightarrow> TrunkMessage \<Rightarrow> TrunkMessage \<times> nat" where
  "system_status w1 w2 m =
     (m\<lparr>tm_message_type := UNKNOWN\<rparr>,
      if os_cmd w2 = 0x320 then (if os_cmd w1 = 0x30B then 2 else 1)
      else if os_cmd w2 = 0x30B then 1 else 0)"

text \<open>The word \<open>w3\<close> is the oldest of the three, \<open>w1\<close> the newest.\<close>

definition classify ::
  "System_impl \<Rightarrow> osw_stru \<Rightarrow> osw_stru \<Rightarrow> osw_stru \<Rightarrow> TrunkMessage \<Rightarrow> TrunkMessage \<times> nat" where
  "classify sys w1 w2 w3 m =
     (if is_chan_outbound (os_cmd w3) sys
      then (if os_grp w3 \<noteq> 0 then (call_message UPDATE sys w3 m, 0) else (m\<lparr>tm_message_type := UNKNOWN\<rparr>, 0))
      else if os_cmd w3 = 0x2F8 then (m\<lparr>tm_message_type := UNKNOWN\<rparr>, 0)
      else if os_cmd w3 = 0x32A then (m\<lparr>tm_message_type := UNKNOWN\<rparr>, 0)
      else if 0x360 \<le> os_cmd w3 \<and> os_cmd w3 \<le> 0x39F then (m\<lparr>tm_message_type := UNKNOWN\<rparr>, 0)
      else if os_cmd w3 = 0x3BF \<or> os_cmd w3 = 0x3C0 then system_status w1 w2 m
      else if is_first_normal (os_cmd w3) sys then first_normal sys w1 w2 w3 m
      else (m\<lparr>tm_message_type := UNKNOWN\<rparr>, 0))"

section \<open>The stack\<close>

text \<open>The fall-through of the \<open>switch\<close>: \<open>numStacked\<close> entries move up by one, the fifth falls out.\<close>

definition push_osw :: "osw_stru \<Rightarrow> nat \<Rightarrow> osw_stru list \<Rightarrow> osw_stru list" where
  "push_osw w numStacked stack =
     (let n = min numStacked 4 in w # take n stack @ drop (n + 1) stack)"

definition stack_osw :: "osw_stru \<Rightarrow> SmartnetParser \<Rightarrow> SmartnetParser" where
  "stack_osw w p =
     p\<lparr>sp_stack := (if sp_numStacked p \<le> 5 then push_osw w (sp_numStacked p) (sp_stack p) else sp_stack p),
       sp_numStacked := (if sp_numStacked p < 5 then sp_numStacked p + 1 else sp_numStacked p)\<rparr>"

definition consume_osw ::
  "System_impl \<Rightarrow> TrunkMessage \<Rightarrow> SmartnetParser \<Rightarrow> SmartnetParser \<times> TrunkMessage list" where
  "consume_osw sys m p =
     (if sp_numConsumed p > 0 then (p\<lparr>sp_numConsumed := sp_numConsumed p - 1\<rparr>, [m])
      else let stack = sp_stack p; (m', k) = classify sys (stack ! 1) (stack ! 2) (stack ! 3) m
           in (p\<lparr>sp_numConsumed := sp_numConsumed p + k\<rparr>, [m']))"

definition smartnet_parse_message ::
  "TrunkMessage \<Rightarrow> SmartnetParser \<Rightarrow> string \<Rightarrow> System_impl \<Rightarrow> (SmartnetParser \<times> TrunkMessage list) option" where
  "smartnet_parse_message junk p s sys =
     do { w \<leftarrow> read_osw s;
          (case w of None \<Rightarrow> Some (p, [])
           | Some w \<Rightarrow> Some (consume_osw sys (smartnet_message junk sys) (stack_osw w p))) }"

end
