(* ===== verification/Smartnet_Properties.thy ===== *)
theory Smartnet_Properties
  imports Smartnet_Frames Smartnet_Parser System_Properties
begin

text \<open>
  Properties of the SmartNet parser: the texts of the decoder are read back, the stack with its counters
  refines the cutting of a list of words into messages, channel words and frequencies correspond, a grant
  on the air becomes the grant it says, and what happens when two systems share the one parser.
\<close>

section \<open>Channels and frequencies\<close>

text \<open>The frequency of an 800 MHz channel in units of 12.5 kHz.\<close>

definition channel_units :: "string \<Rightarrow> int \<Rightarrow> int" where
  "channel_units band cmd =
     (if cmd \<le> 0x2CF then
        (if band = ''800_reband'' \<and> 0x1B8 \<le> cmd \<and> cmd \<le> 0x22F then 68082 + 2 * (cmd - 0x1B8)
         else if band = ''800_splinter'' \<and> cmd \<le> 0x257 then 68080 + 2 * cmd else 68081 + 2 * cmd)
      else if cmd \<le> 0x2F7 then 69280 + 2 * (cmd - 0x2D0)
      else if cmd \<le> 0x33F then 69360 + 2 * (cmd - 0x32F)
      else if cmd = 0x3BE then 69518 else 69394 + 2 * (cmd - 0x3C1))"

lemma fl_near:
  assumes "\<bar>x - y\<bar> \<le> e" "\<bar>y\<bar> + e \<le> B"
  shows "\<bar>fl x - y\<bar> \<le> e + B / 2 ^ 53"
proof -
  have "\<bar>x\<bar> \<le> B" using assms by linarith
  then have "\<bar>x\<bar> / 2 ^ 53 \<le> B / 2 ^ 53" by (simp add: divide_right_mono)
  then show ?thesis using fl_err [of x] assms(1) by linarith
qed

lemma abs_diff_add: "\<bar>u - v\<bar> \<le> e \<Longrightarrow> \<bar>b' - b\<bar> \<le> e' \<Longrightarrow> e + e' \<le> B \<Longrightarrow> \<bar>(b' + u) - (b + v)\<bar> \<le> B" for u :: rat
  by linarith

lemma abs_diff_scale: "\<bar>u - v\<bar> \<le> e \<Longrightarrow> \<bar>u * 1000000 - v * 1000000\<bar> \<le> e * 1000000" for u :: rat
  by linarith

lemma step_sum:
  assumes "\<bar>b' - b\<bar> \<le> 1 / 10 ^ 12" "800 \<le> b" "b \<le> 880" "0 \<le> n" "n \<le> 760"
  shows "\<bar>fl (fl (b' + fl (fl (25 / 1000) * of_int n)) * 1000000) - (b + of_int n / 40) * 1000000\<bar> < 1 / 1000"
proof -
  have n: "0 \<le> (of_int n :: rat)" "(of_int n :: rat) \<le> 760" using assms by simp_all
  have "\<bar>fl (25 / 1000) - 1 / 40\<bar> \<le> (1 / 40) / 2 ^ 53" using fl_err [of "25 / 1000"] by simp
  then have "\<bar>of_int n * (fl (25 / 1000) - 1 / 40)\<bar> \<le> 760 * ((1 / 40) / 2 ^ 53)"
    unfolding abs_mult using n by (intro mult_mono) auto
  then have "\<bar>fl (25 / 1000) * of_int n - of_int n / 40\<bar> \<le> 1 / 10 ^ 12"
    by (simp add: algebra_simps)
  then have "\<bar>fl (fl (25 / 1000) * of_int n) - of_int n / 40\<bar> \<le> 1 / 10 ^ 12 + 20 / 2 ^ 53"
    by (rule fl_near) (use n in simp)
  then have "\<bar>(b' + fl (fl (25 / 1000) * of_int n)) - (b + of_int n / 40)\<bar> \<le> 1 / 10 ^ 11"
    using assms(1) by (rule abs_diff_add) simp
  then have "\<bar>fl (b' + fl (fl (25 / 1000) * of_int n)) - (b + of_int n / 40)\<bar> \<le> 1 / 10 ^ 11 + 1000 / 2 ^ 53"
    by (rule fl_near) (use n assms in simp)
  then have "\<bar>fl (b' + fl (fl (25 / 1000) * of_int n)) * 1000000 - (b + of_int n / 40) * 1000000\<bar> \<le> (1 / 10 ^ 11 + 1000 / 2 ^ 53) * 1000000"
    by (rule abs_diff_scale)
  then have "\<bar>fl (fl (b' + fl (fl (25 / 1000) * of_int n)) * 1000000) - (b + of_int n / 40) * 1000000\<bar> \<le> (1 / 10 ^ 11 + 1000 / 2 ^ 53) * 1000000 + 10 ^ 9 / 2 ^ 53"
    by (rule fl_near) (use n assms in simp)
  then show ?thesis by simp
qed

lemma fl_literal: "0 \<le> b \<Longrightarrow> b \<le> 1000 \<Longrightarrow> \<bar>fl b - b\<bar> \<le> 1 / 10 ^ 12"
  using fl_err [of b] by simp

lemma channel_near:
  assumes "sy_bandfreq sys = 800" "is_chan_outbound cmd sys"
  shows "\<bar>getfreq cmd sys - 12500 * of_int (channel_units (sy_bandplan sys) cmd)\<bar> < 1 / 1000"
proof -
  have c: "0 \<le> cmd" "cmd \<le> 0x3FE" "cmd \<le> 0x2F7 \<or> 0x32F \<le> cmd \<and> cmd \<le> 0x33F \<or> cmd = 0x3BE \<or> 0x3C1 \<le> cmd"
    using assms by (auto simp: is_chan_outbound_def)
  have g: "getfreq cmd sys = fl (getfreq_800 (sy_bandplan sys) cmd * 1000000)" using assms(1) by (simp add: getfreq_def Let_def)
  have lone: "\<bar>fl (fl (868975 / 1000) * 1000000) - 868975000\<bar> < 1 / 1000" by code_simp
  have near: ?thesis if "getfreq_800 (sy_bandplan sys) cmd = fl (b' + fl (fl (25 / 1000) * of_int n))"
    "12500 * of_int (channel_units (sy_bandplan sys) cmd) = (b + of_int n / 40) * 1000000"
    "\<bar>b' - b\<bar> \<le> 1 / 10 ^ 12" "800 \<le> b" "b \<le> 880" "0 \<le> n" "n \<le> 760" for b' b n
    unfolding g that(1,2) by (rule step_sum [OF that(3-7)])
  show ?thesis
  proof (cases "cmd \<le> 0x2CF")
    case True
    show ?thesis
    proof (cases "sy_bandplan sys = ''800_reband'' \<and> 0x1B8 \<le> cmd \<and> cmd \<le> 0x22F")
      case t: True
      show ?thesis
        by (rule near [where b = "851025 / 1000" and n = "cmd - 0x1B8", OF _ _ fl_literal])
          (use True t in \<open>simp_all add: getfreq_800_def channel_units_def field_simps\<close>)
    next
      case nr: False
      show ?thesis
      proof (cases "sy_bandplan sys = ''800_splinter'' \<and> cmd \<le> 0x257")
        case t: True
        show ?thesis
          by (rule near [where b = 851 and b' = 851 and n = cmd])
            (use c t in \<open>simp_all add: getfreq_800_def channel_units_def field_simps\<close>)
      next
        case False
        then show ?thesis
          by (intro near [where b = "8510125 / 10000" and n = cmd, OF _ _ fl_literal])
            (use c True nr in \<open>auto simp: getfreq_800_def channel_units_def field_simps\<close>)
      qed
    qed
  next
    case False
    with c consider "cmd \<le> 0x2F7" | "0x32F \<le> cmd" "cmd \<le> 0x33F" | "cmd = 0x3BE" | "0x3C1 \<le> cmd" by linarith
    then show ?thesis
    proof cases
      case 1
      then show ?thesis
        by (intro near [where b = 866 and b' = 866 and n = "cmd - 0x2D0"])
          (use False in \<open>simp_all add: getfreq_800_def channel_units_def field_simps\<close>)
    next
      case 2
      then show ?thesis
        by (intro near [where b = 867 and b' = 867 and n = "cmd - 0x32F"])
          (simp_all add: getfreq_800_def channel_units_def field_simps)
    next
      case 3
      then have "getfreq_800 (sy_bandplan sys) cmd = fl (868975 / 1000)"
        "12500 * of_int (channel_units (sy_bandplan sys) cmd) = (868975000 :: rat)"
        by (simp_all add: getfreq_800_def channel_units_def)
      then show ?thesis using lone unfolding g by (simp only:)
    next
      case 4
      then show ?thesis
        by (intro near [where b = "867425 / 1000" and n = "cmd - 0x3C1", OF _ _ fl_literal])
          (use c in \<open>simp_all add: getfreq_800_def channel_units_def field_simps\<close>)
    qed
  qed
qed

text \<open>The seven ranges of channel words, \<open>r\<close> and \<open>s\<close> for the rebanded and the splinter plan.\<close>

definition channel_range :: "bool \<Rightarrow> bool \<Rightarrow> int \<Rightarrow> int \<Rightarrow> bool" where
  "channel_range r s c u \<longleftrightarrow>
     r \<and> 440 \<le> c \<and> c \<le> 559 \<and> u = 67202 + 2 * c \<or> s \<and> c \<le> 599 \<and> u = 68080 + 2 * c \<or> c \<le> 719 \<and> u = 68081 + 2 * c \<or>
     720 \<le> c \<and> c \<le> 759 \<and> u = 67840 + 2 * c \<or> 815 \<le> c \<and> c \<le> 831 \<and> u = 67730 + 2 * c \<or>
     c = 958 \<and> u = 69518 \<or> 961 \<le> c \<and> c \<le> 1022 \<and> u = 67472 + 2 * c"

lemma channel_range_inj: "channel_range r s c u \<Longrightarrow> channel_range r s d u \<Longrightarrow> \<not> (r \<and> s) \<Longrightarrow> c = d"
  unfolding channel_range_def by (elim disjE conjE; presburger)

lemma channel_range_units:
  assumes "sy_bandfreq sys = 800" "is_chan_outbound c sys"
  shows "channel_range (band = ''800_reband'') (band = ''800_splinter'') c (channel_units band c)"
  using assms by (auto simp: is_chan_outbound_def channel_units_def channel_range_def)

text \<open>
  C35. Every 800 MHz channel word has a frequency within a millihertz of its place in the band plan, and
  no two channel words have the same.
\<close>
theorem smartnet_channel_frequency:
  assumes "sy_bandfreq sys = 800" "is_chan_outbound cmd sys"
  shows "\<bar>getfreq cmd sys - 12500 * of_int (channel_units (sy_bandplan sys) cmd)\<bar> < 1 / 1000 \<and>
    (\<forall>d. is_chan_outbound d sys \<and> getfreq d sys = getfreq cmd sys \<longrightarrow> d = cmd)"
proof (intro conjI allI impI; (elim conjE)?)
  show "\<bar>getfreq cmd sys - 12500 * of_int (channel_units (sy_bandplan sys) cmd)\<bar> < 1 / 1000"
    using channel_near [OF assms] .
next
  fix d assume d: "is_chan_outbound d sys" "getfreq d sys = getfreq cmd sys"
  let ?u = "channel_units (sy_bandplan sys)"
  have "\<bar>12500 * of_int (?u d) - 12500 * of_int (?u cmd) :: rat\<bar> < 1"
    using channel_near [OF assms] channel_near [OF assms(1) d(1)] unfolding d(2) by linarith
  then have "\<bar>12500 * (of_int (?u d - ?u cmd) :: rat)\<bar> < 1" by (simp add: right_diff_distrib)
  then have "\<bar>of_int (?u d - ?u cmd) :: rat\<bar> < 1" by (simp add: abs_mult)
  then have eq: "?u d = ?u cmd" by linarith
  show "d = cmd"
    by (rule channel_range_inj [OF channel_range_units [OF assms(1) d(1)] channel_range_units [OF assms, of "sy_bandplan sys", folded eq]]) simp
qed

section \<open>Texts\<close>

lemma split_commas_simps:
  "split_commas (x @ CHR '','' # y) = x # split_commas (dropWhile (\<lambda>c. c = CHR '','') y)" if "CHR '','' \<notin> set x"
proof -
  have "takeWhile (\<lambda>c. c \<noteq> CHR '','') (x @ CHR '','' # y) = x" using that by (induction x) auto
  moreover have "dropWhile (\<lambda>c. c \<noteq> CHR '','') (x @ CHR '','' # y) = CHR '','' # y" using that by (induction x) auto
  ultimately show ?thesis by (subst split_commas.simps) simp
qed

lemma split_commas_last: "CHR '','' \<notin> set x \<Longrightarrow> split_commas x = [x]"
proof -
  assume x: "CHR '','' \<notin> set x"
  have "takeWhile (\<lambda>c. c \<noteq> CHR '','') x = x" and d: "dropWhile (\<lambda>c. c \<noteq> CHR '','') x = []" using x by (induction x) auto
  then show ?thesis by (subst split_commas.simps) (simp only: d list.case)
qed

lemma digits_not_Nil: "digits n \<noteq> []"
  by (subst digits.simps) simp

lemma comma_digits: "CHR '','' \<notin> set (digits n)"
  using digits_digit [of "CHR '',''" n] by (auto simp: is_digit_def)

lemma digits_head: obtains c cs where "digits n = c # cs" "is_digit c"
  using digits_not_Nil [of n] digits_digit [of "hd (digits n)" n] by (cases "digits n") auto

lemma atoi_digits: "n < 2 ^ 31 \<Longrightarrow> atoi (digits n) = Some (int n)"
proof -
  assume n: "n < 2 ^ 31"
  obtain c cs where c: "digits n = c # cs" "is_digit c" by (rule digits_head)
  then have s: "dropWhile is_space (digits n) = digits n" "hd (digits n) \<noteq> CHR ''-''" "hd (digits n) \<noteq> CHR ''+''"
    by (auto simp: is_digit_def is_space_def)
  have "takeWhile is_digit (digits n) = digits n" using digits_digit by (simp add: takeWhile_eq_all_conv)
  then show ?thesis using n s digits_value [of n] by (simp add: atoi_def Let_def del: digits_value.simps takeWhile_eq_all_conv)
qed

lemma read_osw_text:
  assumes "a < 2 ^ 31" "c < 2 ^ 31"
  shows "read_osw (digits a @ '','' @ (if g then ''1'' else ''0'') @ '','' @ digits c) =
    Some (Some (osw_of_fields (int a) (of_bool g) (int c)))"
proof -
  have g: "(if g then ''1'' else ''0'') = digits (of_bool g)"
  proof -
    have "digits 1 = ''1''" "digits 0 = ''0''" by code_simp+
    then show ?thesis by (cases g) (simp_all only: of_bool_eq if_True if_False)
  qed
  have d: "dropWhile (\<lambda>c. c = CHR '','') (digits n @ s) = digits n @ s" for n s
    by (rule digits_head [of n]) (auto simp: is_digit_def)
  show ?thesis
    unfolding g using assms d [of _ "[]"]
    by (simp add: read_osw_def split_commas_simps split_commas_last comma_digits d atoi_digits)
qed

section \<open>The stack against the list of words\<close>

text \<open>The parser on a sequence of texts, each with the system it came from.\<close>

fun parse_run :: "TrunkMessage \<Rightarrow> SmartnetParser \<Rightarrow> (string \<times> System_impl) list \<Rightarrow> (SmartnetParser \<times> TrunkMessage list) option" where
  "parse_run junk p [] = Some (p, [])"
| "parse_run junk p ((s, sys) # ss) =
     do { (p, ms) \<leftarrow> smartnet_parse_message junk p s sys; (p, ms') \<leftarrow> parse_run junk p ss; Some (p, ms @ ms') }"

text \<open>
  What it should do: cut the words into messages. At least four words have to be there, for the parser
  looks one word past the longest message. A message of \<open>k + 1\<close> words is followed by \<open>k\<close> empty ones.
\<close>

fun tokens :: "System_impl \<Rightarrow> TrunkMessage \<Rightarrow> osw_stru list \<Rightarrow> TrunkMessage list" where
  "tokens sys m (w3 # w2 # w1 # w0 # ws) =
     (case classify sys w1 w2 w3 m of (t, k) \<Rightarrow> t # replicate k m @ tokens sys m (drop k (w2 # w1 # w0 # ws)))"
| "tokens sys m _ = []"

fun outs :: "System_impl \<Rightarrow> TrunkMessage \<Rightarrow> nat \<Rightarrow> osw_stru list \<Rightarrow> TrunkMessage list" where
  "outs sys m k (w3 # w2 # w1 # w0 # ws) =
     (if 0 < k then m # outs sys m (k - 1) (w2 # w1 # w0 # ws)
      else case classify sys w1 w2 w3 m of (t, k) \<Rightarrow> t # outs sys m k (w2 # w1 # w0 # ws))"
| "outs sys m k _ = []"

lemma outs_tokens: "outs sys m k ws = take (length ws - 3) (replicate k m @ tokens sys m (drop k ws))"
proof (induction sys m k ws rule: outs.induct)
  case (1 sys m k w3 w2 w1 w0 ws)
  show ?case
  proof (cases k)
    case 0
    obtain t j where "classify sys w1 w2 w3 m = (t, j)" by fastforce
    then show ?thesis using 1(2) 0 by simp
  next
    case (Suc j)
    then show ?thesis using 1(1) by simp
  qed
qed simp_all

text \<open>The parser with the words \<open>x, y, z\<close> on its stack, \<open>z\<close> the newest, and \<open>k\<close> words to skip.\<close>

definition holds :: "nat \<Rightarrow> osw_stru \<Rightarrow> osw_stru \<Rightarrow> osw_stru \<Rightarrow> SmartnetParser \<Rightarrow> bool" where
  "holds k x y z p \<longleftrightarrow> sp_numConsumed p = k \<and> sp_numStacked p \<in> {3..5} \<and> take 3 (sp_stack p) = [z, y, x]"

lemma holds_step:
  assumes "holds k x y z p"
  shows "consume_osw sys m (stack_osw w p) =
      (if 0 < k then ((stack_osw w p)\<lparr>sp_numConsumed := k - 1\<rparr>, [m])
       else case classify sys z y x m of (t, j) \<Rightarrow> ((stack_osw w p)\<lparr>sp_numConsumed := j\<rparr>, [t]))"
    and "holds j y z w ((stack_osw w p)\<lparr>sp_numConsumed := j\<rparr>)"
proof -
  obtain r where s: "sp_stack p = z # y # x # r"
    using assms unfolding holds_def by (cases "sp_stack p" rule: remdups_adj.cases; cases "tl (tl (sp_stack p))") auto
  have "\<exists>r'. sp_stack (stack_osw w p) = w # z # y # x # r'"
  proof -
    have "sp_numStacked p = 3 \<or> sp_numStacked p = 4 \<or> sp_numStacked p = 5" using assms by (auto simp: holds_def)
    then show ?thesis using s by (elim disjE) (simp_all add: stack_osw_def push_osw_def Let_def eval_nat_numeral)
  qed
  moreover have "sp_numStacked (stack_osw w p) \<in> {3..5}" "sp_numConsumed (stack_osw w p) = k"
    using assms by (auto simp: holds_def stack_osw_def)
  ultimately show "consume_osw sys m (stack_osw w p) =
      (if 0 < k then ((stack_osw w p)\<lparr>sp_numConsumed := k - 1\<rparr>, [m])
       else case classify sys z y x m of (t, j) \<Rightarrow> ((stack_osw w p)\<lparr>sp_numConsumed := j\<rparr>, [t]))"
    and "holds j y z w ((stack_osw w p)\<lparr>sp_numConsumed := j\<rparr>)"
    by (auto simp: consume_osw_def holds_def eval_nat_numeral split: prod.splits)
qed

definition reads :: "System_impl \<Rightarrow> (string \<times> System_impl) list \<Rightarrow> osw_stru list \<Rightarrow> bool" where
  "reads sys ss ws \<longleftrightarrow> list_all2 (\<lambda>(s, sys') w. sys' = sys \<and> read_osw s = Some (Some w)) ss ws"

lemma run_outs:
  assumes "reads sys ss ws" "holds k x y z p"
  shows "map_option snd (parse_run junk p ss) = Some (outs sys (smartnet_message junk sys) k (x # y # z # ws))"
  using assms unfolding reads_def
proof (induction arbitrary: k x y z p rule: list_all2_induct)
  case (Cons s ss w ws)
  let ?m = "smartnet_message junk sys"
  let ?j = "if 0 < k then k - 1 else snd (classify sys z y x ?m)"
  have c: "consume_osw sys ?m (stack_osw w p) =
      ((stack_osw w p)\<lparr>sp_numConsumed := ?j\<rparr>, [if 0 < k then ?m else fst (classify sys z y x ?m)])"
    unfolding holds_step(1) [OF Cons.prems] by (simp split: prod.split)
  from Cons.IH [OF holds_step(2) [OF Cons.prems, of ?j w]] obtain p' where
    "parse_run junk ((stack_osw w p)\<lparr>sp_numConsumed := ?j\<rparr>) ss = Some (p', outs sys ?m ?j (y # z # w # ws))"
    by auto
  then show ?case
    using Cons.hyps c by (cases s) (auto simp: smartnet_parse_message_def split: prod.splits)
qed simp

text \<open>The first three words only fill the stack; \<open>h\<close> are those read so far, newest first.\<close>

definition started :: "osw_stru list \<Rightarrow> SmartnetParser \<Rightarrow> bool" where
  "started h p \<longleftrightarrow> length h \<le> 3 \<and> sp_numStacked p = length h \<and> sp_numConsumed p = 3 - length h \<and>
     take (length h) (sp_stack p) = h"

lemma started_step:
  assumes "started h p" "length h < 3"
  obtains p' where "consume_osw sys m (stack_osw w p) = (p', [m])" "started (w # h) p'"
proof -
  have "take (length h) (sp_stack p) = h" "length h \<le> 2" "sp_numStacked p = length h" using assms by (auto simp: started_def)
  then have "take (Suc (length h)) (push_osw w (sp_numStacked p) (sp_stack p)) = w # h"
    by (simp add: push_osw_def Let_def min_def)
  then show ?thesis
    using assms that [of "(stack_osw w p)\<lparr>sp_numConsumed := 2 - length h\<rparr>"]
    by (auto simp: started_def consume_osw_def stack_osw_def)
qed

lemma started_run:
  assumes "reads sys ss ws" "started h p"
  shows "map_option snd (parse_run junk p ss) =
    Some (take (length ws) (replicate (3 - length h) (smartnet_message junk sys) @
      tokens sys (smartnet_message junk sys) (rev h @ ws)))"
  using assms unfolding reads_def
proof (induction arbitrary: h p rule: list_all2_induct)
  case (Cons s ss w ws)
  show ?case
  proof (cases "length h = 3")
    case True
    then obtain x y z where h: "h = [z, y, x]" by (auto simp: length_Suc_conv numeral_3_eq_3)
    have "holds 0 x y z p" using Cons.prems h by (auto simp: started_def holds_def numeral_3_eq_3)
    moreover have "reads sys (s # ss) (w # ws)" using Cons.hyps by (simp add: reads_def)
    ultimately show ?thesis
      using run_outs [of sys "s # ss" "w # ws" 0 x y z p junk] h
      by (simp add: outs_tokens del: parse_run.simps tokens.simps outs.simps)
  next
    case False
    then have l: "length h < 3" using Cons.prems by (simp add: started_def)
    then have r: "replicate (3 - length h) m = m # replicate (2 - length h) m" for m :: TrunkMessage
      by (simp add: Suc_diff_le flip: replicate_Suc)
    obtain p' where p': "consume_osw sys (smartnet_message junk sys) (stack_osw w p) = (p', [smartnet_message junk sys])"
      "started (w # h) p'" by (rule started_step [OF Cons.prems l])
    show ?thesis
      using Cons.IH [OF p'(2)] p'(1) Cons.hyps r by (cases s) (auto simp: smartnet_parse_message_def)
  qed
qed simp

lemma started_new: "started [] (new_SmartnetParser junk_stack)"
  by (simp add: started_def new_SmartnetParser_def)

text \<open>
  C15. The parser refines the cutting of the list of words into messages.
\<close>
theorem smartnet_parser_refines:
  assumes "reads sys ss ws"
  shows "map_option snd (parse_run junk (new_SmartnetParser junk_stack) ss) =
    Some (take (length ws) (replicate 3 (smartnet_message junk sys) @ tokens sys (smartnet_message junk sys) ws))"
  using started_run [OF assms started_new] by simp


section \<open>From the air to the message\<close>

text \<open>A word as it is sent: address, group flag, command; and as the parser has it.\<close>

type_synonym air_word = "nat \<times> bool \<times> nat"

definition air_ok :: "air_word \<Rightarrow> bool" where
  "air_ok = (\<lambda>(a, g, c). a < 2 ^ 16 \<and> c < 2 ^ 10)"

definition air_frame :: "air_word \<Rightarrow> nat set \<Rightarrow> octet list" where
  "air_frame = (\<lambda>(a, g, c) E. transmit (received (frame_bits (word_of_nat a) g (word_of_nat c)) E))"

definition air_osw :: "air_word \<Rightarrow> osw_stru" where
  "air_osw = (\<lambda>(a, g, c). osw_of_fields (int a) (of_bool g) (int c))"

lemma smartnet_frame_text:
  assumes "air_ok x" "sparse E"
  shows "\<exists>s. decode_frame (pre @ air_frame x E @ post) (length pre) = Some s \<and> read_osw s = Some (Some (air_osw x))"
proof -
  obtain a g c where x: "x = (a, g, c)" by (cases x)
  have u: "unat (word_of_nat n :: 32 word) = n" "take_bit k (word_of_nat n :: 32 word) = word_of_nat n"
    if "n < 2 ^ k" "k \<le> 16" for n k
  proof -
    have "n < 2 ^ 32" using that power_increasing [of k 32 "2 :: nat"] by simp
    then show "unat (word_of_nat n :: 32 word) = n" by (simp add: unsigned_of_nat take_bit_nat_eq_self)
    have "take_bit k (word_of_nat n :: 32 word) = word_of_nat (take_bit k n)"
      by (rule take_bit_of_nat)
    then show "take_bit k (word_of_nat n :: 32 word) = word_of_nat n" using that by (simp add: take_bit_nat_eq_self)
  qed
  have "a < 2 ^ 16" "c < 2 ^ 10" using assms(1) by (simp_all add: air_ok_def x)
  then show ?thesis
    using frame_decoded [OF u(2) [of a 16] u(2) [of c 10] assms(2), of pre g post] u(1) [of a 16] u(1) [of c 10]
      read_osw_text [of a c g]
    by (simp add: air_frame_def air_osw_def x)
qed

lemma air_osw_simps:
  assumes "air_ok (a, g, c)"
  shows "os_cmd (air_osw (a, g, c)) = int c" "os_full_address (air_osw (a, g, c)) = int a"
    "os_address (air_osw (a, g, c)) = int (a AND 0xFFF0)" "os_status (air_osw (a, g, c)) = int (a mod 16)"
    "os_grp (air_osw (a, g, c)) = of_bool g"
proof -
  have "int a AND 15 = int (a mod 16)"
    using take_bit_eq_mask [of 4 "int a"] take_bit_eq_mod [of 4 "int a"] by (simp add: mask_eq_exp_minus_1 zmod_int)
  then show "os_cmd (air_osw (a, g, c)) = int c" "os_full_address (air_osw (a, g, c)) = int a"
    "os_address (air_osw (a, g, c)) = int (a AND 0xFFF0)" "os_status (air_osw (a, g, c)) = int (a mod 16)"
    "os_grp (air_osw (a, g, c)) = of_bool g"
    using assms by (simp_all add: air_osw_def osw_of_fields_def air_ok_def of_nat_and_eq Let_def)
qed

text \<open>Texts heard of words on the air, each with errors the correction can repair.\<close>

definition heard :: "air_word list \<Rightarrow> string list \<Rightarrow> bool" where
  "heard xs ss \<longleftrightarrow> list_all2 (\<lambda>x s. air_ok x \<and>
     (\<exists>pre post E. sparse E \<and> decode_frame (pre @ air_frame x E @ post) (length pre) = Some s)) xs ss"

lemma heard_reads: "heard xs ss \<Longrightarrow> reads sys (map (\<lambda>s. (s, sys)) ss) (map air_osw xs)"
proof -
  assume "heard xs ss"
  then have "list_all2 (\<lambda>x s. read_osw s = Some (Some (air_osw x))) xs ss"
    unfolding heard_def
  proof (rule list_all2_mono)
    fix x s assume "air_ok x \<and> (\<exists>pre post E. sparse E \<and> decode_frame (pre @ air_frame x E @ post) (length pre) = Some s)"
    then show "read_osw s = Some (Some (air_osw x))" using smartnet_frame_text [of x] by (metis option.inject)
  qed
  then show ?thesis
    by (simp add: reads_def list_all2_map1 list_all2_map2 list_all2_conv_all_nth)
qed

lemma heard_length: "heard xs ss \<Longrightarrow> length ss = length xs"
  by (simp add: heard_def list_all2_lengthD)

lemma heard_ok: "heard xs ss \<Longrightarrow> x \<in> set xs \<Longrightarrow> air_ok x"
  unfolding heard_def by (auto simp: list_all2_conv_all_nth in_set_conv_nth)

lemma call_options_simps [simp]:
  "tm_message_type (call_options n m) = tm_message_type m" "tm_freq (call_options n m) = tm_freq m"
  "tm_talkgroup (call_options n m) = tm_talkgroup m" "tm_source (call_options n m) = tm_source m"
  "tm_sys_num (call_options n m) = tm_sys_num m"
  "tm_encrypted (call_options n m) = (n \<ge> 8 \<or> tm_encrypted m)"
  "tm_emergency (call_options n m) = (n \<in> {2, 4, 5, 10, 12, 13} \<or> tm_emergency m)"
  by (auto simp: call_options_def Let_def)

lemma smartnet_message_simps [simp]:
  "tm_message_type (smartnet_message junk sys) = UNKNOWN" "tm_sys_num (smartnet_message junk sys) = sy_sys_num sys"
  "\<not> tm_encrypted (smartnet_message junk sys)" "\<not> tm_emergency (smartnet_message junk sys)"
  by (simp_all add: smartnet_message_def)


text \<open>
  One parser serves all SmartNet systems: words heard on one are taken for calls of another.
\<close>
theorem smartnet_parser_shared:
  assumes "read_osw s1 = Some (Some w1)" "read_osw s2 = Some (Some w2)" "read_osw s3 = Some (Some w3)"
    "read_osw s4 = Some (Some w4)" "is_chan_outbound (os_cmd w1) B" "os_grp w1 \<noteq> 0"
  shows "map_option snd (parse_run junk (new_SmartnetParser junk_stack) [(s1, A), (s2, A), (s3, A), (s4, B)]) =
    Some [smartnet_message junk A, smartnet_message junk A, smartnet_message junk A,
      call_message UPDATE B w1 (smartnet_message junk B)]"
proof -
  let ?a = "smartnet_message junk A" and ?b = "smartnet_message junk B"
  obtain p1 where p1: "consume_osw A ?a (stack_osw w1 (new_SmartnetParser junk_stack)) = (p1, [?a])" "started [w1] p1"
    by (rule started_step [OF started_new]) auto
  obtain p2 where p2: "consume_osw A ?a (stack_osw w2 p1) = (p2, [?a])" "started [w2, w1] p2"
    by (rule started_step [OF p1(2)]) auto
  obtain p3 where p3: "consume_osw A ?a (stack_osw w3 p2) = (p3, [?a])" "started [w3, w2, w1] p3"
    by (rule started_step [OF p2(2)]) auto
  have "holds 0 w1 w2 w3 p3" using p3(2) by (auto simp: started_def holds_def numeral_3_eq_3)
  moreover have "classify B w3 w2 w1 ?b = (call_message UPDATE B w1 ?b, 0)" using assms(5,6) by (simp add: classify_def)
  ultimately have "snd (consume_osw B ?b (stack_osw w4 p3)) = [call_message UPDATE B w1 ?b]"
    by (simp add: holds_step(1))
  then show ?thesis
    using assms(1-4) p1(1) p2(1) p3(1) by (auto simp: smartnet_parse_message_def split: prod.splits)
qed


section \<open>Examples\<close>

abbreviation example_words :: "air_word list" where
  "example_words \<equiv> [(0x4D2, True, 0x308), (0x12E8, True, 100), (0, False, 0x2F8), (0, False, 0x2F8)]"

lemma example_heard: "\<exists>ss. heard example_words ss"
proof -
  have "sparse {5, 20}" by (auto simp: sparse_def)
  then have "\<exists>s. decode_frame ([1] @ air_frame x {5, 20} @ [0]) (length [1 :: octet]) = Some s" if "air_ok x" for x
    using smartnet_frame_text [OF that] by blast
  then have "\<exists>s. air_ok x \<and> (\<exists>pre post E. sparse E \<and> decode_frame (pre @ air_frame x E @ post) (length pre) = Some s)"
    if "air_ok x" for x
    using that \<open>sparse {5, 20}\<close> by blast
  then obtain f where f: "\<And>x. air_ok x \<Longrightarrow>
      air_ok x \<and> (\<exists>pre post E. sparse E \<and> decode_frame (pre @ air_frame x E @ post) (length pre) = Some (f x))"
    by metis
  have "\<forall>x \<in> set example_words. air_ok x" by (simp add: air_ok_def)
  then have "heard example_words (map f example_words)"
    unfolding heard_def list_all2_map2 list_all2_same using f by blast
  then show ?thesis ..
qed


lemma example_texts:
  "read_osw ''776,1,776'' = Some (Some (osw_of_fields 776 1 776))" "read_osw ''4832,1,100'' = Some (Some (osw_of_fields 4832 1 100))"
  "read_osw ''0,0,760'' = Some (Some (osw_of_fields 0 0 760))"
  by code_simp+

theorem smartnet_parser_refines_witness:
  "\<forall>junk st. map_option snd (parse_run junk (new_SmartnetParser st)
       [(''776,1,776'', example_system), (''4832,1,100'', example_system), (''0,0,760'', example_system), (''0,0,760'', example_system)]) =
     Some (take 4 (replicate 3 (smartnet_message junk example_system) @ tokens example_system (smartnet_message junk example_system)
       [osw_of_fields 776 1 776, osw_of_fields 4832 1 100, osw_of_fields 0 0 760, osw_of_fields 0 0 760]))"
proof (intro allI)
  fix junk st
  let ?ws = "[osw_of_fields 776 1 776, osw_of_fields 4832 1 100, osw_of_fields 0 0 760, osw_of_fields 0 0 760]"
  have "reads example_system [(''776,1,776'', example_system), (''4832,1,100'', example_system),
      (''0,0,760'', example_system), (''0,0,760'', example_system)] ?ws"
    by (simp add: reads_def example_texts)
  moreover have "length ?ws = 4" by simp
  ultimately show "map_option snd (parse_run junk (new_SmartnetParser st)
       [(''776,1,776'', example_system), (''4832,1,100'', example_system), (''0,0,760'', example_system), (''0,0,760'', example_system)]) =
     Some (take 4 (replicate 3 (smartnet_message junk example_system) @ tokens example_system (smartnet_message junk example_system) ?ws))"
    using smartnet_parser_refines [of example_system _ ?ws junk st] by metis
qed

theorem smartnet_parser_shared_witness:
  "\<forall>junk st. map_option snd (parse_run junk (new_SmartnetParser st)
       [(''4832,1,100'', example_system), (''0,0,760'', example_system), (''0,0,760'', example_system),
        (''0,0,760'', example_system\<lparr>sy_sys_num := 1\<rparr>)]) =
     Some [smartnet_message junk example_system, smartnet_message junk example_system, smartnet_message junk example_system,
       call_message UPDATE (example_system\<lparr>sy_sys_num := 1\<rparr>) (osw_of_fields 4832 1 100)
         (smartnet_message junk (example_system\<lparr>sy_sys_num := 1\<rparr>))]"
  by (intro allI, rule smartnet_parser_shared [OF example_texts(2,3,3,3)])
    (simp_all add: is_chan_outbound_def example_system_def osw_of_fields_def Let_def)

theorem smartnet_channel_frequency_witness:
  "\<bar>getfreq 100 example_system - 853512500\<bar> < 1 / 1000 \<and>
    getfreq 101 example_system \<noteq> getfreq 100 example_system"
proof -
  have s: "sy_bandfreq example_system = 800" "is_chan_outbound 100 example_system"
    "12500 * of_int (channel_units (sy_bandplan example_system) 100) = (853512500 :: rat)"
    by (simp_all add: example_system_def is_chan_outbound_def channel_units_def)
  have "is_chan_outbound 101 example_system" by (simp add: example_system_def is_chan_outbound_def)
  moreover note smartnet_channel_frequency [OF s(1,2)]
  ultimately show ?thesis using s(3) by fastforce
qed

end
