(* ===== verification/Decoder_Common.thy ===== *)
theory Decoder_Common
  imports Dbl
begin

text \<open>
  What the decoders of unit IDs in analog audio share (\<open>trunk-recorder/gr_blocks/decoders/\<close>): the count of
  set bits, the table of sines, and the constants of their phase arithmetic.
\<close>

section \<open>Counting bits\<close>

lemma and_minus_one_less: "n \<noteq> 0 \<Longrightarrow> n AND (n - 1) < n" for n :: "32 word"
proof -
  assume "n \<noteq> 0"
  then have "n - 1 < n" using measure_unat by (simp add: word_less_nat_alt)
  moreover have "n AND (n - 1) \<le> n - 1" by (metis and.commute word_and_le1)
  ultimately show ?thesis by simp
qed

function onebits :: "32 word \<Rightarrow> nat" where
  "onebits n = (if n = 0 then 0 else Suc (onebits (n AND (n - 1))))"
  by pat_completeness auto

termination
  by (relation "measure unat") (auto simp: and_minus_one_less simp flip: word_less_nat_alt)

declare onebits.simps [simp del]

text \<open>The loop removes the lowest bit that is set, so it counts the bits.\<close>

lemma bits_double: "{i. bit (2 * n) i} = Suc ` {i. bit n i}" "{i. bit (Suc (2 * n)) i} = insert 0 (Suc ` {i. bit n i})" for n :: nat
proof -
  have "(i \<in> Suc ` {i. bit n i}) = (\<exists>j. i = Suc j \<and> bit n j)" for i by auto
  then show "{i. bit (2 * n) i} = Suc ` {i. bit n i}" "{i. bit (Suc (2 * n)) i} = insert 0 (Suc ` {i. bit n i})"
    by (auto simp: bit_Suc bit_0 set_eq_iff; metis bit_Suc bit_0 even_mult_iff not0_implies_Suc nonzero_mult_div_cancel_left
        even_Suc_div_two even_Suc even_numeral zero_neq_numeral)+
qed


lemma finite_bits: "finite {i. bit (n :: nat) i}"
proof (induction n rule: nat_bit_induct)
  case (even n)
  then show ?case using bits_double(1) [of n] by simp
next
  case (odd n)
  then show ?case using bits_double(2) [of n] by simp
qed simp

lemma and_double: "(2 * a) AND (2 * b + 1) = 2 * (a AND b)" "(2 * a + 1) AND (2 * b) = 2 * (a AND b)" for a b :: nat
proof -
  have "bit (Suc (2 * m)) i = (i = 0 \<or> bit m (i - 1))" "bit (2 * m) i = (0 < i \<and> bit m (i - 1))" for m i :: nat
    by (cases i; simp add: bit_Suc bit_0)+
  then show "(2 * a) AND (2 * b + 1) = 2 * (a AND b)" "(2 * a + 1) AND (2 * b) = 2 * (a AND b)"
    by (auto intro!: bit_eqI simp: bit_and_iff)
qed

lemma clear_lowest: "0 < n \<Longrightarrow> card {i. bit n i} = Suc (card {i. bit (n AND (n - 1)) i})" for n :: nat
proof (induction n rule: nat_bit_induct)
  case (even n)
  then have "2 * n - 1 = 2 * (n - 1) + 1" by simp
  then have "(2 * n) AND (2 * n - 1) = 2 * (n AND (n - 1))" using and_double(1) [of n "n - 1"] by simp
  then show ?case using even bits_double(1) by (simp add: card_image)
next
  case (odd n)
  have "(2 * n + 1) AND (2 * n + 1 - 1) = 2 * n" using and_double(2) [of n n] by simp
  then show ?case using bits_double finite_bits [of n] by (simp add: card_image)
qed simp

lemma onebits_card: "onebits n = card {i. i < 32 \<and> bit n i}"
proof -
  have "onebits n = card {i. bit (unat n) i}"
  proof (induction n rule: onebits.induct)
    case (1 n)
    show ?case
    proof (cases "n = 0")
      case True
      then show ?thesis by (subst onebits.simps) (simp add: bot_fun_def)
    next
      case False
      then have "unat (n AND (n - 1)) = unat n AND (unat n - 1)" by (simp add: unsigned_and_eq unat_minus_one)
      moreover have "0 < unat n" using False by (simp add: unat_gt_0)
      ultimately show ?thesis using 1 False clear_lowest [of "unat n"] by (subst onebits.simps) simp
    qed
  qed
  also have "{i. bit (unat n) i} = {i. i < 32 \<and> bit n i}" by (auto simp: bit_unsigned_iff dest: bit_imp_le_length)
  finally show ?thesis .
qed

section \<open>Phases\<close>

text \<open>\<open>2.0 * 3.1415926535\<close>.\<close>

definition TWOPI :: double where
  "TWOPI = fl (2 * fl (31415926535 / 10 ^ 10))"

text \<open>Rounding to the 24 bits of a \<open>float\<close>.\<close>

definition fl_single :: "rat \<Rightarrow> rat" where
  "fl_single x =
     (if x = 0 then 0
      else let u = pow2 (exponent \<bar>x\<bar> - 23); v = of_int (round_half_even (\<bar>x\<bar> / u)) * u in if x < 0 then - v else v)"

text \<open>The table of sines, in millionths.\<close>

definition sine_units :: "int list" where
  "sine_units =
    [0, 24541, 49068, 73565, 98017, 122411, 146730, 170962, 195090, 219101, 242980, 266713, 290285, 313682, 336890, 359895,
     382683, 405241, 427555, 449611, 471397, 492898, 514103, 534998, 555570, 575808, 595699, 615232, 634393, 653173, 671559, 689541,
     707107, 724247, 740951, 757209, 773010, 788346, 803208, 817585, 831470, 844854, 857729, 870087, 881921, 893224, 903989, 914210,
     923880, 932993, 941544, 949528, 956940, 963776, 970031, 975702, 980785, 985278, 989177, 992480, 995185, 997290, 998795, 999699,
     1000000, 999699, 998795, 997290, 995185, 992480, 989177, 985278, 980785, 975702, 970031, 963776, 956940, 949528, 941544, 932993,
     923880, 914210, 903989, 893224, 881921, 870087, 857729, 844854, 831470, 817585, 803208, 788346, 773010, 757209, 740951, 724247,
     707107, 689541, 671559, 653173, 634393, 615232, 595699, 575808, 555570, 534998, 514103, 492898, 471397, 449611, 427555, 405241,
     382683, 359895, 336890, 313682, 290285, 266713, 242980, 219101, 195090, 170962, 146730, 122411, 98017, 73565, 49068, 24541,
     0, -24541, -49068, -73565, -98017, -122411, -146730, -170962, -195090, -219101, -242980, -266713, -290285, -313682, -336890, -359895,
     -382683, -405241, -427555, -449611, -471397, -492898, -514103, -534998, -555570, -575808, -595699, -615232, -634393, -653173, -671559, -689541,
     -707107, -724247, -740951, -757209, -773010, -788346, -803208, -817585, -831470, -844854, -857729, -870087, -881921, -893224, -903989, -914210,
     -923880, -932993, -941544, -949528, -956940, -963776, -970031, -975702, -980785, -985278, -989177, -992480, -995185, -997290, -998795, -999699,
     -1000000, -999699, -998795, -997290, -995185, -992480, -989177, -985278, -980785, -975702, -970031, -963776, -956940, -949528, -941544, -932993,
     -923880, -914210, -903989, -893224, -881921, -870087, -857729, -844854, -831470, -817585, -803208, -788346, -773010, -757209, -740951, -724247,
     -707107, -689541, -671559, -653173, -634393, -615232, -595699, -575808, -555570, -534998, -514103, -492898, -471397, -449611, -427555, -405241,
     -382683, -359895, -336890, -313682, -290285, -266713, -242980, -219101, -195090, -170962, -146730, -122411, -98017, -73565, -49068, -24541]"

definition fsync_sintable :: "rat list" where
  "fsync_sintable = map (\<lambda>n. fl_single (of_int n / 1000000)) sine_units"

definition star_sintable :: "rat list" where
  "star_sintable = map (\<lambda>n. fl (of_int n / 1000000)) sine_units"

lemma length_sintables [simp]: "length fsync_sintable = 256" "length star_sintable = 256"
proof -
  have "length sine_units = 256" by (simp add: sine_units_def)
  then show "length fsync_sintable = 256" "length star_sintable = 256"
    by (simp_all add: fsync_sintable_def star_sintable_def)
qed

text \<open>An element of an array; reading past the end is not defined. An index comes from a cast to \<open>int\<close>.\<close>

definition elem_at :: "'a list \<Rightarrow> int \<Rightarrow> 'a option" where
  "elem_at xs i = (if 0 \<le> i \<and> i < int (length xs) then Some (xs ! nat i) else None)"

definition int_of_double :: "double \<Rightarrow> int" where
  "int_of_double d = (if d < 0 then - \<lfloor>- d\<rfloor> else \<lfloor>d\<rfloor>)"

section \<open>Words and their bits\<close>

text \<open>A word is sent from its top bit; a shift register takes bits in at the bottom.\<close>

definition msb_bits :: "32 word \<Rightarrow> bool list" where
  "msb_bits w = map (bit w) (rev [0..<32])"

definition push_bits :: "bool list \<Rightarrow> 32 word \<Rightarrow> 32 word" where
  "push_bits bs w = fold (\<lambda>b w. if b then push_bit 1 w OR 1 else push_bit 1 w) bs w"

lemma bit_push_one: "k < 32 \<Longrightarrow> bit (if b then push_bit 1 v OR 1 else push_bit 1 v :: 32 word) k = (if k = 0 then b else bit v (k - 1))"
  by (cases b) (simp_all only: bit_or_iff bit_push_bit_iff bit_1_iff if_True if_False, auto)

lemma bit_push_bits:
  "k < 32 \<Longrightarrow> bit (push_bits bs w) k = (if k < length bs then rev bs ! k else bit w (k - length bs))"
proof (induction bs arbitrary: k rule: rev_induct)
  case (snoc b bs)
  have "push_bits (bs @ [b]) w = (if b then push_bit 1 (push_bits bs w) OR 1 else push_bit 1 (push_bits bs w))"
    by (simp add: push_bits_def)
  then have e: "bit (push_bits (bs @ [b]) w) k = (if k = 0 then b else bit (push_bits bs w) (k - 1))"
    using bit_push_one [OF snoc.prems, of b "push_bits bs w"] by (simp only:)
  show ?case unfolding e using snoc.prems by (cases k) (auto simp: snoc.IH)
qed (simp add: push_bits_def)

lemma push_msb_bits [simp]: "push_bits (msb_bits v) w = v"
  by (rule bit_word_eqI) (auto simp: bit_push_bits msb_bits_def rev_map rev_nth)

lemma push_bits_append: "push_bits (as @ [b]) w = (if b then push_bit 1 (push_bits as w) OR 1 else push_bit 1 (push_bits as w))"
  by (simp add: push_bits_def)

lemma msb_bits_split: "\<exists>as b. msb_bits w = as @ [b] \<and> length as = 31"
  by (intro exI [of _ "butlast (msb_bits w)"] exI [of _ "last (msb_bits w)"]) (simp add: msb_bits_def)

end
