(* ===== verification/Mdc_Decode.thy ===== *)
theory Mdc_Decode
  imports Decoder_Common
begin

text \<open>
  The MDC1200 decoder of unit IDs in analog audio
  (\<open>trunk-recorder/gr_blocks/decoders/mdc_decode.cc\<close>, as configured in \<open>mdc_decode.h\<close>: error correction
  on, four-point detection, five units).

  Five units sample the audio at five phases. Each hunts for the synchronisation pattern, collects 112
  bits, corrects them and tests a checksum. Flags and single bits, kept as \<open>int\<close> in the source, are
  \<open>bool\<close> here. What \<open>malloc\<close> leaves in the fields that \<open>mdc_decoder_new\<close> does not set is the argument
  \<open>junk\<close>. The callback is the list of its calls.
\<close>

section \<open>State\<close>

record mdc_decode_unit =
  du_thu :: "32 word"
  du_xorb :: bool
  du_invert :: bool
  du_nlstep :: nat
  du_nlevel :: "double list"
  du_synclow :: "32 word"
  du_synchigh :: "32 word"
  du_shstate :: int
  du_shcount :: nat
  du_bits :: "bool list"

record mdc_decoder =
  md_du :: "mdc_decode_unit list"
  md_incru :: "32 word"
  md_good :: int
  md_indouble :: bool
  md_op :: octet
  md_arg :: octet
  md_unitID :: "16 word"
  md_extra0 :: octet
  md_extra1 :: octet
  md_extra2 :: octet
  md_extra3 :: octet
  md_callback :: bool

record mdc_call =
  mc_frameCount :: int
  mc_op :: octet
  mc_arg :: octet
  mc_unitID :: "16 word"
  mc_extra :: "octet \<times> octet \<times> octet \<times> octet"

abbreviation (input) MDC_ND :: nat where "MDC_ND \<equiv> 5"
abbreviation (input) MDC_GDTHRESH :: nat where "MDC_GDTHRESH \<equiv> 5"

definition upd_unit :: "nat \<Rightarrow> (mdc_decode_unit \<Rightarrow> mdc_decode_unit) \<Rightarrow> mdc_decoder \<Rightarrow> mdc_decoder" where
  "upd_unit x f d = d\<lparr>md_du := (md_du d)[x := f (md_du d ! x)]\<rparr>"

section \<open>Checksum\<close>

text \<open>The lowest \<open>bitnum\<close> bits in reverse order.\<close>

definition mdc_flip :: "16 word \<Rightarrow> nat \<Rightarrow> 16 word" where
  "mdc_flip crc bitnum =
     fold (\<lambda>k crcout. if bit crc (bitnum - 1 - k) then crcout OR push_bit k 1 else crcout) [0..<bitnum] 0"

definition mdc_crc_bit :: "bool \<Rightarrow> 16 word \<Rightarrow> 16 word" where
  "mdc_crc_bit b crc =
     (let top = bit crc 15; crc = push_bit 1 crc in if top \<noteq> b then crc XOR 0x1021 else crc)"

definition mdc_docrc :: "octet list \<Rightarrow> 16 word" where
  "mdc_docrc p =
     (let crc = fold (\<lambda>b crc. let c = mdc_flip (ucast b) 8
                              in fold (\<lambda>j. mdc_crc_bit (bit c (7 - j))) [0..<8] crc) p 0
      in mdc_flip crc 16 XOR 0xFFFF)"

section \<open>A new decoder\<close>

definition mdc_incru :: "int \<Rightarrow> 32 word option" where
  "mdc_incru sampleRate =
     (if sampleRate = 8000 then Some 644245094
      else if sampleRate = 16000 then Some 322122547
      else if sampleRate = 22050 then Some 233739716
      else if sampleRate = 32000 then Some 161061274
      else if sampleRate = 44100 then Some 116869858
      else if sampleRate = 48000 then Some 107374182
      else let rate = word_of_int sampleRate
           in if rate = 0 then None else Some (1200 * 2 * (0x80000000 div rate)))"

definition mdc_decoder_new :: "mdc_decoder \<Rightarrow> int \<Rightarrow> mdc_decoder option" where
  "mdc_decoder_new junk sampleRate =
     do { incru \<leftarrow> mdc_incru sampleRate;
          Some (junk\<lparr>md_incru := incru, md_good := 0, md_indouble := False,
            md_du := map (\<lambda>i. (md_du junk ! i)\<lparr>du_thu := word_of_nat i * 2 * (0x80000000 div 5), du_xorb := False,
              du_invert := False, du_shstate := -1, du_shcount := 0, du_nlstep := i\<rparr>) [0..<MDC_ND],
            md_callback := False\<rparr>) }"

definition mdc_decoder_set_callback :: "mdc_decoder \<Rightarrow> mdc_decoder" where
  "mdc_decoder_set_callback d = d\<lparr>md_callback := True\<rparr>"

section \<open>Error correction\<close>

text \<open>
  Seven octets of information and seven of parity. A parity bit is the sum of four information bits;
  \<open>csr\<close> holds the last seven information bits, \<open>syn\<close> the parity failures. Three failures out of the four
  that a bit takes part in flip it. The source shifts \<open>syn\<close>, an \<open>int\<close>, past its sign; here it wraps.
\<close>

definition clearbits :: "mdc_decode_unit \<Rightarrow> mdc_decode_unit" where
  "clearbits u = u\<lparr>du_bits := replicate 112 False\<rparr>"

definition gofix_flip :: "nat \<Rightarrow> nat \<Rightarrow> octet list \<Rightarrow> octet list" where
  "gofix_flip i j data =
     (let (fixi, fixj) = (if int j - 7 < 0 then (int i - 1, int j - 7 + 8) else (int i, int j - 7))
      in if 0 \<le> fixi then data[nat fixi := data ! nat fixi XOR push_bit (nat fixj) 1] else data)"

definition gofix_step :: "nat \<times> nat \<Rightarrow> octet list \<times> bool list \<times> 32 word \<Rightarrow> octet list \<times> bool list \<times> 32 word" where
  "gofix_step ij st =
     (let (i, j) = ij; (data, csr, syn) = st;
          csr = bit (data ! i) j # take 6 csr;
          b = (((csr ! 0 \<noteq> csr ! 2) \<noteq> csr ! 5) \<noteq> csr ! 6);
          syn = push_bit 1 syn;
          syn = (if b \<noteq> bit (data ! (i + 7)) j then syn OR 1 else syn);
          ec = of_bool (bit syn 7) + of_bool (bit syn 5) + of_bool (bit syn 2) + of_bool (bit syn 1) :: nat
      in if 3 \<le> ec then (gofix_flip i j data, csr, syn XOR 0xA6) else (data, csr, syn))"

definition gofix :: "octet list \<Rightarrow> octet list" where
  "gofix data =
     fst (fold gofix_step (List.product [0..<7] [0..<8]) (data, replicate 7 False, 0))"

section \<open>A block of 112 bits\<close>

definition mdc_lbits :: "bool list \<Rightarrow> bool list" where
  "mdc_lbits bits = map (\<lambda>(i, j). bits ! (j * 16 + i)) (List.product [0..<16] [0..<7])"

definition mdc_data :: "bool list \<Rightarrow> octet list" where
  "mdc_data lbits =
     map (\<lambda>i. fold (\<lambda>j v. if lbits ! (i * 8 + j) then v OR push_bit j 1 else v) [0..<8] 0) [0..<14]"

definition all_units :: "(mdc_decode_unit \<Rightarrow> mdc_decode_unit) \<Rightarrow> mdc_decoder \<Rightarrow> mdc_decoder" where
  "all_units f d = d\<lparr>md_du := map f (md_du d)\<rparr>"

definition accept_block :: "octet list \<Rightarrow> nat \<Rightarrow> mdc_decoder \<Rightarrow> mdc_decoder" where
  "accept_block data x d =
     (if du_shstate (md_du d ! x) = 2
      then (all_units (\<lambda>u. u\<lparr>du_shstate := -1\<rparr>)
              (d\<lparr>md_extra0 := data ! 0, md_extra1 := data ! 1, md_extra2 := data ! 2, md_extra3 := data ! 3\<rparr>))
             \<lparr>md_good := 2, md_indouble := False\<rparr>
      else if \<not> md_indouble d
      then let d = d\<lparr>md_good := 1, md_op := data ! 0, md_arg := data ! 1,
                     md_unitID := push_bit 8 (ucast (data ! 2)) OR ucast (data ! 3)\<rparr>
           in if data ! 0 = 0x35 \<or> data ! 0 = 0x55
              then upd_unit x (\<lambda>u. clearbits (u\<lparr>du_shstate := 2, du_shcount := 0\<rparr>)) (d\<lparr>md_good := 0, md_indouble := True\<rparr>)
              else all_units (\<lambda>u. u\<lparr>du_shstate := -1\<rparr>) d
      else upd_unit x (\<lambda>u. clearbits (u\<lparr>du_shstate := 2, du_shcount := 0\<rparr>)) d)"

definition report :: "mdc_decoder \<Rightarrow> mdc_decoder \<times> mdc_call list" where
  "report d =
     (if md_good d \<noteq> 0 \<and> md_callback d
      then (d\<lparr>md_good := 0\<rparr>, [\<lparr>mc_frameCount = md_good d, mc_op = md_op d, mc_arg = md_arg d, mc_unitID = md_unitID d,
              mc_extra = (md_extra0 d, md_extra1 d, md_extra2 d, md_extra3 d)\<rparr>])
      else (d, []))"

definition mdc_procbits :: "nat \<Rightarrow> mdc_decoder \<Rightarrow> mdc_decoder \<times> mdc_call list" where
  "mdc_procbits x d =
     (let data = gofix (mdc_data (mdc_lbits (du_bits (md_du d ! x))));
          ccrc = mdc_docrc (take 4 data);
          rcrc = push_bit 8 (ucast (data ! 5)) OR ucast (data ! 4)
      in report (if ccrc = rcrc then accept_block data x d
                 else upd_unit x (\<lambda>u. u\<lparr>du_shstate := -1\<rparr>) d))"

section \<open>Bits\<close>

text \<open>The hunt for the pattern of 40 bits, right or inverted.\<close>

definition mdc_hunt :: "mdc_decode_unit \<Rightarrow> mdc_decode_unit" where
  "mdc_hunt u =
     (let synchigh = push_bit 1 (du_synchigh u);
          synchigh = (if du_synclow u AND 0x80000000 \<noteq> 0 then synchigh OR 1 else synchigh);
          synclow = push_bit 1 (du_synclow u);
          synclow = (if du_xorb u then synclow OR 1 else synclow);
          u = u\<lparr>du_synchigh := synchigh, du_synclow := synclow\<rparr>;
          gcount = onebits (0x000000FF AND (0x00000007 XOR synchigh)) + onebits (0x092A446F XOR synclow)
      in if gcount \<le> MDC_GDTHRESH then clearbits (u\<lparr>du_shstate := 1, du_shcount := 0\<rparr>)
         else if gcount \<ge> 40 - MDC_GDTHRESH
         then clearbits (u\<lparr>du_shstate := 1, du_shcount := 0, du_xorb := \<not> du_xorb u, du_invert := \<not> du_invert u\<rparr>)
         else u)"

definition mdc_shiftin :: "nat \<Rightarrow> mdc_decoder \<Rightarrow> mdc_decoder \<times> mdc_call list" where
  "mdc_shiftin x d =
     (let u = md_du d ! x in
      if du_shstate u = -1
      then (upd_unit x (\<lambda>u. mdc_hunt (u\<lparr>du_synchigh := 0, du_synclow := 0, du_shstate := 0\<rparr>)) d, [])
      else if du_shstate u = 0 then (upd_unit x mdc_hunt d, [])
      else if du_shstate u = 1 \<or> du_shstate u = 2
      then let d = upd_unit x (\<lambda>u. u\<lparr>du_bits := (du_bits u)[du_shcount u := du_xorb u], du_shcount := du_shcount u + 1\<rparr>) d
           in if du_shcount (md_du d ! x) > 111 then mdc_procbits x d else (d, [])
      else (d, []))"

section \<open>Samples\<close>

text \<open>Every fifth of a bit a unit notes the level; twice in ten it decides about a bit.\<close>

definition four_points :: "double \<Rightarrow> double \<Rightarrow> double" where
  "four_points a b = fl (fl (fl (- 60 / 100) * a) + fl (fl (97 / 100) * b))"

definition mdc_nlproc :: "nat \<Rightarrow> mdc_decoder \<Rightarrow> mdc_decoder \<times> mdc_call list" where
  "mdc_nlproc x d =
     (let u = md_du d ! x; l = du_nlevel u;
          decide = (\<lambda>vnow vpast. mdc_shiftin x (upd_unit x (\<lambda>u. u\<lparr>du_xorb := ((vpast < vnow) \<noteq> du_invert u)\<rparr>) d))
      in if du_nlstep u = 3 then decide (four_points (l ! 3) (l ! 1)) (four_points (l ! 7) (l ! 9))
         else if du_nlstep u = 8 then decide (four_points (l ! 8) (l ! 6)) (four_points (l ! 2) (l ! 4))
         else (d, []))"

definition mdc_unit_sample :: "double \<Rightarrow> nat \<Rightarrow> mdc_decoder \<Rightarrow> mdc_decoder \<times> mdc_call list" where
  "mdc_unit_sample value x d =
     (let lthu = du_thu (md_du d ! x);
          d = upd_unit x (\<lambda>u. u\<lparr>du_thu := du_thu u + 5 * md_incru d\<rparr>) d
      in if du_thu (md_du d ! x) < lthu
         then mdc_nlproc x (upd_unit x (\<lambda>u. let s = (if du_nlstep u + 1 > 9 then 0 else du_nlstep u + 1)
                                            in u\<lparr>du_nlstep := s, du_nlevel := (du_nlevel u)[s := value]\<rparr>) d)
         else (d, []))"

fun mdc_units :: "double \<Rightarrow> nat list \<Rightarrow> mdc_decoder \<Rightarrow> mdc_decoder \<times> mdc_call list" where
  "mdc_units value [] d = (d, [])"
| "mdc_units value (x # xs) d =
     (let (d, cs) = mdc_unit_sample value x d; (d, cs') = mdc_units value xs d in (d, cs @ cs'))"

fun mdc_samples :: "double list \<Rightarrow> mdc_decoder \<Rightarrow> mdc_decoder \<times> mdc_call list" where
  "mdc_samples [] d = (d, [])"
| "mdc_samples (v # vs) d =
     (let (d, cs) = mdc_units v [0..<MDC_ND] d; (d, cs') = mdc_samples vs d in (d, cs @ cs'))"

definition mdc_decoder_process_samples :: "double list \<Rightarrow> mdc_decoder \<Rightarrow> int \<times> mdc_decoder \<times> mdc_call list" where
  "mdc_decoder_process_samples vs d = (let (d, cs) = mdc_samples vs d in (md_good d, d, cs))"

section \<open>Reading a packet without a callback\<close>

definition mdc_decoder_get_packet :: "mdc_decoder \<Rightarrow> mdc_decoder \<times> (octet \<times> octet \<times> 16 word) option" where
  "mdc_decoder_get_packet d =
     (if md_good d \<noteq> 1 then (d, None) else (d\<lparr>md_good := 0\<rparr>, Some (md_op d, md_arg d, md_unitID d)))"

definition mdc_decoder_get_double_packet ::
  "mdc_decoder \<Rightarrow> mdc_decoder \<times> (octet \<times> octet \<times> 16 word \<times> octet \<times> octet \<times> octet \<times> octet) option" where
  "mdc_decoder_get_double_packet d =
     (if md_good d \<noteq> 2 then (d, None)
      else (d\<lparr>md_good := 0\<rparr>, Some (md_op d, md_arg d, md_unitID d, md_extra0 d, md_extra1 d, md_extra2 d, md_extra3 d)))"

end
