(* ===== verification/Fsync_Decode.thy ===== *)
theory Fsync_Decode
  imports Decoder_Common
begin

text \<open>
  The FleetSync decoder (\<open>trunk-recorder/gr_blocks/decoders/fsync_decode.cc\<close>, with the correlator: the
  header leaves \<open>ZEROCROSSING\<close> off). Ten units listen at different phases, five at 1200 and five at 2400
  baud; a message is a chain of checked words.

  The arrays over units are a list of records. Shifts of \<open>int\<close> values past the sign wrap here. A write
  past the end of a message buffer, or a read past the table of sines, has no defined result: \<open>None\<close>.
\<close>

section \<open>State\<close>

record fsync_unit =
  fu_th :: double
  fu_thx :: double
  fu_accum0 :: double
  fu_accum1 :: double
  fu_accum0i :: double
  fu_accum1i :: double
  fu_xorb :: bool
  fu_synclow :: "32 word"
  fu_synchigh :: "32 word"
  fu_shstate :: int
  fu_shcount :: int
  fu_fs2state :: int
  fu_fs2w1 :: "32 word"
  fu_fs2w2 :: "32 word"
  fu_is_fs2 :: bool
  fu_word1 :: "32 word"
  fu_word2 :: "32 word"
  fu_message :: "octet list"
  fu_msglen :: nat

record fsync_decoder =
  fs_incr :: double
  fs_units :: "fsync_unit list"
  fs_actives :: int
  fs_callback :: bool

record fsync_call =
  fc_cmd :: int
  fc_subcmd :: int
  fc_from_fleet :: int
  fc_from_unit :: int
  fc_to_fleet :: int
  fc_to_unit :: int
  fc_allflag :: bool
  fc_payload :: "octet list"
  fc_raw_msg :: "octet list"
  fc_is_fsync2 :: bool
  fc_is_2400 :: bool

abbreviation (input) FSYNC_ND :: nat where "FSYNC_ND \<equiv> 10"
abbreviation (input) FSYNC_ND_12 :: nat where "FSYNC_ND_12 \<equiv> 5"

definition set_unit :: "nat \<Rightarrow> fsync_unit \<Rightarrow> fsync_decoder \<Rightarrow> fsync_decoder" where
  "set_unit x u d = d\<lparr>fs_units := (fs_units d)[x := u]\<rparr>"

section \<open>Checks\<close>

text \<open>Bit \<open>k\<close> of the two words, from the top; 48 bits are information, 15 checksum, one parity.\<close>

definition fsync_bit :: "32 word \<Rightarrow> 32 word \<Rightarrow> nat \<Rightarrow> bool" where
  "fsync_bit word1 word2 k = (if k < 32 then bit word1 (31 - k) else bit word2 (31 - (k - 32)))"

definition fsync_crc_step :: "bool \<Rightarrow> 32 word \<Rightarrow> 32 word" where
  "fsync_crc_step cur crcsr =
     (let invert = (cur \<noteq> bit crcsr 15) in push_bit 1 (if invert then crcsr XOR 0x6815 else crcsr))"

definition fsync_crc :: "32 word \<Rightarrow> 32 word \<Rightarrow> 32 word" where
  "fsync_crc word1 word2 =
     (let crcsr = fold (\<lambda>k. fsync_crc_step (fsync_bit word1 word2 k)) [0..<48] 0;
          paritybit = fold (\<lambda>k p. if fsync_bit word1 word2 k then \<not> p else p) [0..<63] False
      in (crcsr XOR 0x0002) + of_bool paritybit AND 0xFFFF)"

definition pcheck :: "nat list" where
  "pcheck = [0x4045, 0x2067, 0x1076, 0x083B, 0x0458, 0x022C, 0x0116, 0x008B]"

definition rpcheck :: "nat list" where
  "rpcheck = [0x01, 0x02, 0x04, 0x08, 0x10, 0x20, 0x40, 0x80, 0x17, 0x2E, 0x5C, 0xB8, 0x67, 0xCE, 0x8B]"

definition ecc_result :: "nat \<Rightarrow> nat" where
  "ecc_result inp =
     (\<Sum>i \<leftarrow> [0..<8]. if odd (\<Sum>j \<leftarrow> [0..<15]. of_bool (bit (pcheck ! i) j) * of_bool (bit inp j) :: nat) then 2 ^ i else 0)"

text \<open>\<open>None\<close> is the value -1.\<close>

definition fsync2_ecc_repair :: "nat \<Rightarrow> nat option" where
  "fsync2_ecc_repair inp =
     (let result = ecc_result inp in
      if result = 0 then Some inp
      else map_option (\<lambda>i. inp XOR 2 ^ (14 - i)) (List.find (\<lambda>i. result = rpcheck ! i) [0..<15]))"

text \<open>\<open>(ec >> 8) & 0xf\<close>; of -1 it is 15.\<close>

definition ec_nibble :: "nat option \<Rightarrow> 32 word" where
  "ec_nibble ec = (case ec of None \<Rightarrow> 0xF | Some e \<Rightarrow> word_of_nat (drop_bit 8 e) AND 0xF)"

section \<open>A message\<close>

definition minus_one :: "int \<Rightarrow> int \<Rightarrow> int" where
  "minus_one base v = (if v = base then -1 else v)"

definition payload_offset :: "nat \<Rightarrow> nat" where
  "payload_offset i = 11 + 6 * (i div 6 + 1) - i mod 6"

definition fsync_payload :: "octet list \<Rightarrow> nat \<Rightarrow> nat \<Rightarrow> octet list option" where
  "fsync_payload msg msglen paylen =
     (if \<exists>i \<in> set [0..<paylen]. payload_offset i \<ge> msglen \<or> i \<ge> 128 then None
      else Some (map (\<lambda>i. msg ! payload_offset i) [0..<paylen]))"

definition fsync_dispatch :: "nat \<Rightarrow> fsync_decoder \<Rightarrow> fsync_call list" where
  "fsync_dispatch x d =
     (let u = fs_units d ! x; msg = fu_message u; msglen = fu_msglen u; oct = (\<lambda>k. uint (msg ! k));
          aflag = bit (msg ! 0) 0; fleetflag = bit (msg ! 1) 0;
          m0 = uint (msg ! 0 AND 0xFE); m1 = uint (msg ! 1 AND 0xFE);
          from_fleet = oct 2 + 99;
          from_unit = oct 3 * 16 + (oct 4 div 16) + 999;
          to_unit = ((oct 4 * 256) AND 0xF00) + oct 5 + 999
      in if fleetflag \<and> msglen < 7 then []
         else let to_fleet = (if fleetflag then oct 6 + 99 else from_fleet);
                  paylen = (if m1 = 0x42 then unat (msg ! 9) * 256 + unat (msg ! 10) else 0)
              in if m1 = 0x42 \<and> msglen < 11 then []
                 else (case fsync_payload msg msglen paylen of
                         None \<Rightarrow> []
                       | Some payload \<Rightarrow>
                           if fs_callback d
                           then [\<lparr>fc_cmd = m1, fc_subcmd = m0, fc_from_fleet = minus_one 99 from_fleet,
                                  fc_from_unit = minus_one 999 from_unit, fc_to_fleet = minus_one 99 to_fleet,
                                  fc_to_unit = minus_one 999 to_unit, fc_allflag = aflag, fc_payload = payload,
                                  fc_raw_msg = take msglen msg, fc_is_fsync2 = fu_is_fs2 u, fc_is_2400 = (\<not> x < FSYNC_ND_12)\<rparr>]
                           else []))"

text \<open>Six octets are appended to the message; the buffer has room for 1536.\<close>

definition append_words :: "32 word \<Rightarrow> 32 word \<Rightarrow> fsync_unit \<Rightarrow> fsync_unit option" where
  "append_words w1 w2 u =
     (let n = fu_msglen u in
      if n + 6 > length (fu_message u) then None
      else Some (u\<lparr>fu_message := (fu_message u)
             [n := ucast (drop_bit 24 w1), n + 1 := ucast (drop_bit 16 w1), n + 2 := ucast (drop_bit 8 w1), n + 3 := ucast w1,
              n + 4 := ucast (drop_bit 24 w2), n + 5 := ucast (drop_bit 16 w2)], fu_msglen := n + 6\<rparr>))"

definition next_word :: "fsync_unit \<Rightarrow> fsync_unit" where
  "next_word u = u\<lparr>fu_shstate := 1, fu_shcount := 32\<rparr>"

text \<open>A unit gives up; the last one to do so hands over its message.\<close>

definition give_up :: "nat \<Rightarrow> fsync_decoder \<Rightarrow> fsync_decoder \<times> fsync_call list" where
  "give_up x d =
     (let d = d\<lparr>fs_actives := fs_actives d - 1\<rparr>;
          calls = (if 0 < fu_msglen (fs_units d ! x) \<and> fs_actives d = 0 then fsync_dispatch x d else [])
      in (set_unit x ((fs_units d ! x)\<lparr>fu_shstate := 0, fu_fs2state := 0\<rparr>) d, calls))"

definition ec_word :: "nat option \<Rightarrow> nat option \<Rightarrow> nat option \<Rightarrow> nat option \<Rightarrow> nat \<Rightarrow> 32 word" where
  "ec_word ec1 ec2 ec3 ec4 sh =
     push_bit (12 + sh) (ec_nibble ec1) + push_bit (8 + sh) (ec_nibble ec2) + push_bit (4 + sh) (ec_nibble ec3) + push_bit sh (ec_nibble ec4)"

definition fsync_procbits :: "nat \<Rightarrow> fsync_decoder \<Rightarrow> (fsync_decoder \<times> fsync_call list) option" where
  "fsync_procbits x d =
     (let u = fs_units d ! x; w1 = fu_word1 u; w2 = fu_word2 u in
      if fsync_crc w1 w2 = w2 AND 0xFFFF
      then do { u \<leftarrow> append_words w1 w2 u; Some (set_unit x (next_word (u\<lparr>fu_is_fs2 := False\<rparr>)) d, []) }
      else let ec1 = fsync2_ecc_repair (unat (w1 AND 0xFFFF)); ec2 = fsync2_ecc_repair (unat (drop_bit 16 w1 AND 0xFFFF));
               ec3 = fsync2_ecc_repair (unat (w2 AND 0xFFFF)); ec4 = fsync2_ecc_repair (unat (drop_bit 16 w2 AND 0xFFFF))
           in if ec1 \<noteq> None \<and> ec2 \<noteq> None \<and> ec3 \<noteq> None
              then (if fu_fs2state u = 0
                    then Some (set_unit x (next_word (u\<lparr>fu_fs2w1 := ec_word ec1 ec2 ec3 ec4 16, fu_fs2state := 1\<rparr>)) d, [])
                    else if fu_fs2state u = 1
                    then Some (set_unit x (next_word (u\<lparr>fu_fs2w1 := fu_fs2w1 u OR ec_word ec1 ec2 ec3 ec4 0, fu_fs2state := 2\<rparr>)) d, [])
                    else if fu_fs2state u = 2
                    then Some (set_unit x (next_word (u\<lparr>fu_fs2w2 := ec_word ec1 ec2 ec3 ec4 16, fu_fs2state := 3\<rparr>)) d, [])
                    else if fu_fs2state u = 3
                    then let u = u\<lparr>fu_fs2w2 := fu_fs2w2 u OR ec_word ec1 ec2 ec3 ec4 0\<rparr>
                         in if fsync_crc (fu_fs2w1 u) (fu_fs2w2 u) = fu_fs2w2 u AND 0xFFFF
                            then do { u \<leftarrow> append_words (fu_fs2w1 u) (fu_fs2w2 u) u;
                                      Some (set_unit x (next_word (u\<lparr>fu_is_fs2 := True, fu_fs2state := 0\<rparr>)) d, []) }
                            else Some (give_up x (set_unit x u d))
                    else Some (set_unit x (u\<lparr>fu_fs2state := 0\<rparr>) d, []))
              else Some (give_up x d))"

section \<open>Bits\<close>

definition shift_sync :: "fsync_unit \<Rightarrow> fsync_unit" where
  "shift_sync u =
     (let synchigh = push_bit 1 (fu_synchigh u);
          synchigh = (if fu_synclow u AND 0x80000000 \<noteq> 0 then synchigh OR 1 else synchigh);
          synclow = push_bit 1 (fu_synclow u);
          synclow = (if fu_xorb u then synclow OR 1 else synclow)
      in u\<lparr>fu_synchigh := synchigh, fu_synclow := synclow\<rparr>)"

definition fsync_shiftin :: "nat \<Rightarrow> fsync_decoder \<Rightarrow> (fsync_decoder \<times> fsync_call list) option" where
  "fsync_shiftin x d =
     (let u = shift_sync (fs_units d ! x) in
      if fu_shstate u = 0
      then (if onebits (fu_synchigh u XOR 0xAAAA23EB) < 4 \<or> onebits (fu_synchigh u XOR 0xAAAA052B) < 4
            then Some (set_unit x (u\<lparr>fu_word1 := fu_synclow u, fu_shstate := 2, fu_shcount := 32, fu_msglen := 0, fu_fs2state := 0\<rparr>)
                         (d\<lparr>fs_actives := fs_actives d + 1\<rparr>), [])
            else Some (set_unit x u d, []))
      else if fu_shstate u = 1
      then let u = u\<lparr>fu_shcount := fu_shcount u - 1\<rparr>
           in Some (set_unit x (if fu_shcount u \<le> 0 then u\<lparr>fu_word1 := fu_synclow u, fu_shcount := 32, fu_shstate := 2\<rparr> else u) d, [])
      else if fu_shstate u = 2
      then let u = u\<lparr>fu_shcount := fu_shcount u - 1\<rparr>
           in if fu_shcount u \<le> 0 then fsync_procbits x (set_unit x (u\<lparr>fu_word2 := fu_synclow u\<rparr>) d)
              else Some (set_unit x u d, [])
      else Some (set_unit x (u\<lparr>fu_shstate := 0, fu_fs2state := 0\<rparr>) d, []))"

fun shift_units :: "nat list \<Rightarrow> fsync_decoder \<Rightarrow> (fsync_decoder \<times> fsync_call list) option" where
  "shift_units [] d = Some (d, [])"
| "shift_units (x # xs) d =
     do { (d, cs) \<leftarrow> fsync_shiftin x d; (d, cs') \<leftarrow> shift_units xs d; Some (d, cs @ cs') }"

text \<open>At the end of a transmission every unit gets 70 more copies of its last bit.\<close>

definition fsync_decoder_end_samples :: "fsync_decoder \<Rightarrow> (fsync_decoder \<times> fsync_call list) option" where
  "fsync_decoder_end_samples d = shift_units (concat (replicate 70 [0..<FSYNC_ND])) d"

section \<open>Samples\<close>

text \<open>\<open>while (thx >= TWOPI) thx -= TWOPI\<close>; it need not end on every \<open>double\<close>.\<close>

partial_function (option) wrap_phase :: "double \<Rightarrow> double option" where
  "wrap_phase t = (if t < TWOPI then Some t else wrap_phase (fl (t - TWOPI)))"

definition table_index :: "double \<Rightarrow> int" where
  "table_index t = int_of_double (fl (fl (256 / TWOPI) * t))"

definition accumulate :: "double \<Rightarrow> bool \<Rightarrow> fsync_unit \<Rightarrow> fsync_unit option" where
  "accumulate value slow u =
     (let th_zero = table_index (if slow then fu_thx u else fu_th u);
          th_one = table_index (if slow then fu_th u else fu_thx u)
      in do { s0 \<leftarrow> elem_at fsync_sintable th_zero; s1 \<leftarrow> elem_at fsync_sintable th_one;
              s0i \<leftarrow> elem_at fsync_sintable ((th_zero + 64) mod 256); s1i \<leftarrow> elem_at fsync_sintable ((th_one + 64) mod 256);
              Some (u\<lparr>fu_accum0 := fl (fu_accum0 u + fl (s0 * value)), fu_accum1 := fl (fu_accum1 u + fl (s1 * value)),
                fu_accum0i := fl (fu_accum0i u + fl (s0i * value)), fu_accum1i := fl (fu_accum1i u + fl (s1i * value))\<rparr>) })"

definition energy :: "double \<Rightarrow> double \<Rightarrow> double" where
  "energy a b = fl (fl (a * a) + fl (b * b))"

definition fsync_unit_sample :: "double \<Rightarrow> nat \<Rightarrow> fsync_decoder \<Rightarrow> (fsync_decoder \<times> fsync_call list) option" where
  "fsync_unit_sample value x d =
     (let slow = x < FSYNC_ND_12; incr = fs_incr d in
      do { u \<leftarrow> accumulate value slow (fs_units d ! x);
           let th = (if slow then fl (fu_th u + incr) else fl (fu_th u + fl (2 * incr)));
           let thx = (if slow then fl (fu_thx u + fl (fl (15 / 10) * incr)) else fl (fu_thx u + incr));
           thx \<leftarrow> wrap_phase thx;
           let u = u\<lparr>fu_th := th, fu_thx := thx\<rparr>;
           if TWOPI \<le> th
           then let u = u\<lparr>fu_xorb := \<not> energy (fu_accum1 u) (fu_accum1i u) < energy (fu_accum0 u) (fu_accum0i u),
                          fu_accum0 := 0, fu_accum1 := 0, fu_accum0i := 0, fu_accum1i := 0\<rparr>
                in do { (d, cs) \<leftarrow> fsync_shiftin x (set_unit x u d);
                        let u = fs_units d ! x;
                        Some (set_unit x (u\<lparr>fu_th := fl (fu_th u - TWOPI)\<rparr>) d, cs) }
           else Some (set_unit x u d, []) })"

fun fsync_all_units :: "double \<Rightarrow> nat list \<Rightarrow> fsync_decoder \<Rightarrow> (fsync_decoder \<times> fsync_call list) option" where
  "fsync_all_units value [] d = Some (d, [])"
| "fsync_all_units value (x # xs) d =
     do { (d, cs) \<leftarrow> fsync_unit_sample value x d; (d, cs') \<leftarrow> fsync_all_units value xs d; Some (d, cs @ cs') }"

fun fsync_decoder_process_samples :: "double list \<Rightarrow> fsync_decoder \<Rightarrow> (fsync_decoder \<times> fsync_call list) option" where
  "fsync_decoder_process_samples [] d = Some (d, [])"
| "fsync_decoder_process_samples (v # vs) d =
     do { (d, cs) \<leftarrow> fsync_all_units v [0..<FSYNC_ND] d; (d, cs') \<leftarrow> fsync_decoder_process_samples vs d; Some (d, cs @ cs') }"

section \<open>A new decoder\<close>

text \<open>The accumulators, the shift registers and the words keep what \<open>malloc\<close> left there: \<open>junk\<close>.\<close>

fun new_units :: "nat list \<Rightarrow> fsync_unit list \<Rightarrow> fsync_unit list option" where
  "new_units (i # is) (u # us) =
     do { th \<leftarrow> wrap_phase (fl (of_nat i * fl (TWOPI / 5)));
          us \<leftarrow> new_units is us;
          Some (u\<lparr>fu_th := th, fu_thx := th, fu_xorb := False, fu_shstate := 0, fu_shcount := 0, fu_fs2state := 0\<rparr> # us) }"
| "new_units _ _ = Some []"

definition fsync_decoder_new :: "fsync_decoder \<Rightarrow> int \<Rightarrow> fsync_decoder option" where
  "fsync_decoder_new junk sampleRate =
     (if sampleRate = 0 then None
      else do { units \<leftarrow> new_units [0..<FSYNC_ND] (fs_units junk);
                Some (junk\<lparr>fs_incr := fl (fl (1200 * TWOPI) / of_int sampleRate), fs_actives := 0, fs_units := units,
                  fs_callback := False\<rparr>) })"

definition fsync_decoder_set_callback :: "fsync_decoder \<Rightarrow> fsync_decoder" where
  "fsync_decoder_set_callback d = d\<lparr>fs_callback := True\<rparr>"

end
