(* ===== verification/Star_Decode.thy ===== *)
theory Star_Decode
  imports Decoder_Common
begin

text \<open>
  The STAR decoder (\<open>trunk-recorder/gr_blocks/decoders/star_decode.cc\<close>). Four units listen at different
  phases; a burst is a preamble, a word, the same word with its unit ID inverted, and a third of no use.

  Numbers that are only 0 or 1 are \<open>bool\<close>. A read past the end of the table of sines has no defined
  result: \<open>None\<close>.
\<close>

section \<open>State\<close>

datatype star_format = star_format_1 | star_format_1_4095 | star_format_1_16383 | star_format_sys | star_format_2 | star_format_3 | star_format_4

record star_unit =
  sr_phsr :: "32 word"
  sr_phstate :: int
  sr_lastbit :: bool
  sr_thisbit :: bool
  sr_rbit :: bool
  sr_theta :: double
  sr_accum :: double
  sr_bitsr :: "32 word"
  sr_bitstate :: int
  sr_bits0 :: "32 word"
  sr_bits1 :: "32 word"
  sr_bits2 :: "32 word"
  sr_bitcount :: int

record star_decoder =
  sd_sampleRate :: double
  sd_units :: "star_unit list"
  sd_lastBits0 :: "32 word"
  sd_valid :: bool
  sd_callback :: bool
  sd_callback_format :: star_format

record star_call =
  sc_unitID :: int
  sc_tag :: int
  sc_status :: int
  sc_message :: int

abbreviation (input) NDEC :: nat where "NDEC \<equiv> 4"

definition set_star :: "nat \<Rightarrow> star_unit \<Rightarrow> star_decoder \<Rightarrow> star_decoder" where
  "set_star num u dec = dec\<lparr>sd_units := (sd_units dec)[num := u]\<rparr>"

section \<open>Bits\<close>

definition star_crc_step :: "32 word \<Rightarrow> nat \<Rightarrow> 32 word \<Rightarrow> 32 word" where
  "star_crc_step inp i crcsr =
     (let cur = bit inp (32 - i); inv = (cur \<noteq> bit crcsr 5); crcsr = push_bit 1 crcsr
      in if inv then crcsr XOR 0x2F else crcsr)"

definition star_crc :: "32 word \<Rightarrow> 32 word" where
  "star_crc inp = fold (star_crc_step inp) [6..<21 + 6] 0x2A AND 0x3F"

definition reset_decoder :: "star_unit \<Rightarrow> star_unit" where
  "reset_decoder u = u\<lparr>sr_phsr := 0, sr_phstate := 0, sr_lastbit := False, sr_rbit := False, sr_accum := 0, sr_bitsr := 0, sr_bitstate := 0\<rparr>"

definition append_bit :: "32 word \<Rightarrow> bool \<Rightarrow> 32 word" where
  "append_bit w b = push_bit 1 w OR of_bool b"

definition star_checks :: "32 word \<Rightarrow> 32 word \<Rightarrow> bool" where
  "star_checks bits0 bits1 \<longleftrightarrow> bits0 AND 0x07FF0000 = NOT bits1 AND 0x07FF0000 \<and>
     star_crc bits0 = bits0 AND 0x3F \<and> bits0 AND 0x3F = bits1 AND 0x3F"

definition bitshift :: "nat \<Rightarrow> bool \<Rightarrow> star_decoder \<Rightarrow> star_decoder" where
  "bitshift num b dec =
     (let u = sd_units dec ! num; u = u\<lparr>sr_bitsr := append_bit (sr_bitsr u) b\<rparr>; count = sr_bitcount u - 1 in
      if sr_bitstate u = 0 then
        if sr_bitsr u AND 0x1F = 0x0E then set_star num (u\<lparr>sr_bitstate := 1, sr_bitcount := 32 - 5\<rparr>) dec
        else if sr_bitsr u AND 0x1F = 0x11
        then set_star num (u\<lparr>sr_bitsr := sr_bitsr u XOR 0x1F, sr_bitstate := 1, sr_bitcount := 32 - 5, sr_rbit := \<not> sr_rbit u\<rparr>) dec
        else set_star num u dec
      else if sr_bitstate u = 1 then
        if count = 0 then set_star num (u\<lparr>sr_bits0 := sr_bitsr u, sr_bitstate := 2, sr_bitcount := 32\<rparr>) dec
        else set_star num (u\<lparr>sr_bitcount := count\<rparr>) dec
      else if sr_bitstate u = 2 then
        if count = 0 then set_star num (u\<lparr>sr_bits1 := sr_bitsr u, sr_bitstate := 3, sr_bitcount := 16\<rparr>) dec
        else set_star num (u\<lparr>sr_bitcount := count\<rparr>) dec
      else if sr_bitstate u = 3 then
        if count = 0
        then let u = u\<lparr>sr_bitcount := count, sr_bits2 := push_bit 16 (sr_bitsr u), sr_bitstate := 4\<rparr>; dec = set_star num u dec
             in if star_checks (sr_bits0 u) (sr_bits1 u)
                then dec\<lparr>sd_valid := True, sd_lastBits0 := sr_bits0 u, sd_units := map reset_decoder (sd_units dec)\<rparr>
                else dec
        else set_star num (u\<lparr>sr_bitcount := count\<rparr>) dec
      else if sr_bitstate u = 4 then set_star num (reset_decoder u) dec
      else set_star num u dec)"

section \<open>Phases\<close>

text \<open>A bit is four phases; a change of the bit flips what is passed on.\<close>

definition ph_shift :: "nat \<Rightarrow> bool \<Rightarrow> star_decoder \<Rightarrow> star_decoder" where
  "ph_shift num ph dec =
     (let u = sd_units dec ! num; u = u\<lparr>sr_phsr := append_bit (sr_phsr u) ph\<rparr> in
      if sr_phstate u = 0 then
        if sr_phsr u AND 0xFFFFFFFF = 0xF0F0F0F0 then set_star num (u\<lparr>sr_phstate := 1, sr_bitstate := 0\<rparr>) dec else set_star num u dec
      else if sr_phstate u \<in> {1, 2, 3} then set_star num (u\<lparr>sr_phstate := sr_phstate u + 1\<rparr>) dec
      else if sr_phstate u = 4 then
        let x = (\<Sum>i \<leftarrow> [0..<4]. of_bool (bit (sr_phsr u) i)) :: nat;
            u = u\<lparr>sr_thisbit := 2 < x\<rparr>;
            u = (if sr_thisbit u \<noteq> sr_lastbit u then u\<lparr>sr_rbit := \<not> sr_rbit u\<rparr> else u);
            dec = bitshift num (sr_rbit u) (set_star num u dec); u = sd_units dec ! num
        in set_star num (u\<lparr>sr_lastbit := sr_thisbit u, sr_phstate := 1\<rparr>) dec
      else set_star num u dec)"

definition process_sample_per :: "nat \<Rightarrow> double \<Rightarrow> star_decoder \<Rightarrow> star_decoder option" where
  "process_sample_per num s dec =
     (let u = sd_units dec ! num; theta = fl (sr_theta u + fl (fl (TWOPI * 1600) / sd_sampleRate dec));
          ofs = int_of_double (fl (theta * fl (256 / TWOPI)))
      in do { t \<leftarrow> elem_at star_sintable ofs;
              let u = u\<lparr>sr_theta := theta, sr_accum := fl (sr_accum u + fl (t * s))\<rparr>;
              let dec = set_star num u dec;
              if TWOPI \<le> theta
              then let dec = ph_shift num (\<not> sr_accum u < 0) dec; u = sd_units dec ! num
                   in Some (set_star num (u\<lparr>sr_theta := fl (sr_theta u - TWOPI), sr_accum := 0\<rparr>) dec)
              else Some dec })"

fun process_sample :: "double \<Rightarrow> nat list \<Rightarrow> star_decoder \<Rightarrow> star_decoder option" where
  "process_sample s [] dec = Some dec"
| "process_sample s (i # is) dec = do { dec \<leftarrow> process_sample_per i s dec; process_sample s is dec }"

section \<open>The interface\<close>

text \<open>The fields of a word, and how a format reads them.\<close>

definition star_fields :: "star_format \<Rightarrow> 32 word \<Rightarrow> star_call" where
  "star_fields format w =
     (let unitID = uint (drop_bit 16 w AND 0x07FF); tag = uint (drop_bit 14 w AND 0x03);
          status = uint (drop_bit 10 w AND 0x0F); message = uint (drop_bit 6 w AND 0x0F);
          t1 = tag AND 2 \<noteq> 0; t2 = tag AND 1 \<noteq> 0; s1 = status AND 8 \<noteq> 0; low = status AND 7;
          add = (\<lambda>c n. if c then n else 0)
      in case format of
           star_format_1 \<Rightarrow> \<lparr>sc_unitID = unitID, sc_tag = tag, sc_status = status, sc_message = message\<rparr>
         | star_format_1_4095 \<Rightarrow> \<lparr>sc_unitID = unitID + add t1 2048, sc_tag = tag, sc_status = low, sc_message = message\<rparr>
         | star_format_1_16383 \<Rightarrow>
             \<lparr>sc_unitID = unitID + add t1 8192 + add t2 4096 + add s1 2048, sc_tag = 0, sc_status = low, sc_message = message\<rparr>
         | star_format_sys \<Rightarrow> \<lparr>sc_unitID = unitID + add s1 2048, sc_tag = tag, sc_status = low, sc_message = message\<rparr>
         | star_format_2 \<Rightarrow>
             \<lparr>sc_unitID = unitID + add t1 4096 + add s1 2048, sc_tag = tag AND 1, sc_status = low, sc_message = message\<rparr>
         | star_format_3 \<Rightarrow>
             \<lparr>sc_unitID = unitID + add t1 4096 + add t2 8192 + add s1 2048, sc_tag = 0, sc_status = low, sc_message = message\<rparr>
         | star_format_4 \<Rightarrow>
             \<lparr>sc_unitID = unitID + add t1 4096 + add t2 2048 + add s1 8192, sc_tag = 0, sc_status = low, sc_message = message\<rparr>)"

text \<open>\<open>None\<close> is the result -1.\<close>

definition star_decoder_get :: "star_format \<Rightarrow> star_decoder \<Rightarrow> (star_call \<times> star_decoder) option" where
  "star_decoder_get format dec =
     (if sd_valid dec then Some (star_fields format (sd_lastBits0 dec), dec\<lparr>sd_valid := False\<rparr>) else None)"

fun star_decoder_process_samples :: "double list \<Rightarrow> star_decoder \<Rightarrow> (star_decoder \<times> star_call list) option" where
  "star_decoder_process_samples [] dec = Some (dec, [])"
| "star_decoder_process_samples (s # ss) dec =
     do { dec \<leftarrow> process_sample s [0..<NDEC] dec;
          let (dec, cs) = (if sd_valid dec \<and> sd_callback dec
                           then (case star_decoder_get (sd_callback_format dec) dec of None \<Rightarrow> (dec, []) | Some (c, dec) \<Rightarrow> (dec, [c]))
                           else (dec, []));
          (dec, cs') \<leftarrow> star_decoder_process_samples ss dec;
          Some (dec, cs @ cs') }"

text \<open>What the constructor does not set keeps what \<open>malloc\<close> left there: \<open>junk\<close>.\<close>

definition star_decoder_new :: "star_decoder \<Rightarrow> int \<Rightarrow> star_decoder" where
  "star_decoder_new junk sampleRate =
     junk\<lparr>sd_sampleRate := of_int sampleRate, sd_valid := False,
       sd_units := map (\<lambda>i. reset_decoder ((sd_units junk ! i)\<lparr>sr_theta := fl (fl (TWOPI / 8) * of_nat i)\<rparr>)) [0..<NDEC],
       sd_callback := False\<rparr>"

definition star_decoder_set_callback :: "star_format \<Rightarrow> star_decoder \<Rightarrow> star_decoder" where
  "star_decoder_set_callback format dec = dec\<lparr>sd_callback := True, sd_callback_format := format\<rparr>"

end
