(* ===== verification/Decoder_Sinks.thy ===== *)
theory Decoder_Sinks
  imports Mdc_Decode Fsync_Decode Star_Decode P25_Bitset Decimal
begin

text \<open>
  The blocks around the decoders of unit IDs (\<open>trunk-recorder/gr_blocks/decoders/\<close>):
  \<open>signal_decoder_sink_impl.cc\<close>, which runs the audio through the MDC1200, FleetSync and STAR decoders,
  \<open>tps_decoder_sink_impl.cc\<close>, which reads the messages of a P25 frame assembler for Motorola's TPS, and
  \<open>decoder_wrapper_impl.cc\<close>, which holds both.

  What a block tells its owner is a list of \<open>decoder_msg\<close>, the arguments of the callback; the JSON lines for the
  log are left out.
\<close>

datatype SignalType =
    Normal | Emergency | EmergencyAck | RadioCheck | RadioCheckAck | RadioStun | RadioStunAck | RadioRevive | RadioReviveAck
  | NormalPre | EmergencyPre

record decoder_msg =
  dm_unitId :: int
  dm_signaling_type :: string
  dm_signal :: SignalType

abbreviation msg_of :: "int \<Rightarrow> string \<Rightarrow> SignalType \<Rightarrow> decoder_msg" where
  "msg_of u t s \<equiv> \<lparr>dm_unitId = u, dm_signaling_type = t, dm_signal = s\<rparr>"

section \<open>Decoders of the audio\<close>

definition get_mdc_signal_type :: "octet \<Rightarrow> octet \<Rightarrow> SignalType" where
  "get_mdc_signal_type op arg =
     (if op = 0x00 then (if arg = 0x80 then EmergencyPre else Emergency)
      else if op = 0x01 then (if arg = 0x80 then NormalPre else Normal)
      else if op = 0x20 then EmergencyAck
      else if op = 0x63 then RadioCheck
      else if op = 0x03 then RadioCheckAck
      else if op = 0x07 \<or> op = 0x23 then Normal
      else if op = 0x22 then RadioCheck
      else if op = 0x06 then RadioCheckAck
      else if op = 0x11 then Normal
      else if op = 0x2B then (if arg = 0x02 then RadioRevive else RadioStun)
      else if op = 0x0B then (if arg = 0x02 then RadioReviveAck else RadioStunAck)
      else Normal)"

definition mdc_callback :: "mdc_call \<Rightarrow> decoder_msg" where
  "mdc_callback c = msg_of (uint (mc_unitID c)) ''MDC1200'' (get_mdc_signal_type (mc_op c) (mc_arg c))"

definition fsync_callback :: "fsync_call \<Rightarrow> decoder_msg" where
  "fsync_callback c = msg_of (fc_from_unit c) ''FLEETSYNC'' Normal"

definition star_callback :: "star_call \<Rightarrow> decoder_msg" where
  "star_callback c = msg_of (sc_unitID c) ''STAR'' Normal"

record signal_sink =
  ss_mdc :: mdc_decoder
  ss_fsync :: fsync_decoder
  ss_star :: star_decoder
  ss_callback :: bool
  ss_mdc_enabled :: bool
  ss_fsync_enabled :: bool
  ss_star_enabled :: bool

definition log_decoder_msg :: "bool \<Rightarrow> decoder_msg list \<Rightarrow> decoder_msg list" where
  "log_decoder_msg callback ms = (if callback then ms else [])"

definition signal_sink_new ::
  "mdc_decoder \<Rightarrow> fsync_decoder \<Rightarrow> star_decoder \<Rightarrow> int \<Rightarrow> bool \<Rightarrow> signal_sink option" where
  "signal_sink_new junk_mdc junk_fsync junk_star sample_rate callback =
     do { m \<leftarrow> mdc_decoder_new junk_mdc sample_rate;
          f \<leftarrow> fsync_decoder_new junk_fsync sample_rate;
          Some \<lparr>ss_mdc = mdc_decoder_set_callback m, ss_fsync = fsync_decoder_set_callback f,
                ss_star = star_decoder_set_callback star_format_1_16383 (star_decoder_new junk_star sample_rate),
                ss_callback = callback, ss_mdc_enabled = False, ss_fsync_enabled = False, ss_star_enabled = False\<rparr> }"

definition signal_sink_dowork :: "double list \<Rightarrow> signal_sink \<Rightarrow> (signal_sink \<times> decoder_msg list) option" where
  "signal_sink_dowork vs s =
     do { let (m, mcs) = (if ss_mdc_enabled s then snd (mdc_decoder_process_samples vs (ss_mdc s)) else (ss_mdc s, []));
          (f, fcs) \<leftarrow> (if ss_fsync_enabled s then fsync_decoder_process_samples vs (ss_fsync s) else Some (ss_fsync s, []));
          (r, rcs) \<leftarrow> (if ss_star_enabled s then star_decoder_process_samples vs (ss_star s) else Some (ss_star s, []));
          Some (s\<lparr>ss_mdc := m, ss_fsync := f, ss_star := r\<rparr>,
                log_decoder_msg (ss_callback s) (map mdc_callback mcs @ map fsync_callback fcs @ map star_callback rcs)) }"

section \<open>Messages of the P25 frame assembler\<close>

definition tps_report :: "ulong \<Rightarrow> bool \<Rightarrow> decoder_msg list" where
  "tps_report unit_id emergency =
     (if 0 < sint unit_id \<or> emergency then [msg_of (sint unit_id) ''TPS'' (if emergency then Emergency else Normal)] else [])"

definition tps_decode_tsbk :: "bitset \<Rightarrow> decoder_msg list" where
  "tps_decode_tsbk tsbk =
     (let opcode = bitset_shift_mask tsbk 88 0x3f;
          source = bitset_shift_mask tsbk 16 0xffffff;
          emergency = (bitset_shift_mask tsbk 72 0x80 \<noteq> 0)
      in if opcode = 0x00 then tps_report source emergency
         else if opcode = 0x02
         then tps_report (if bitset_shift_mask tsbk 80 0xff = 0x90 then source else 0) emergency
         else if opcode = 0x04 \<or> opcode = 0x06 then tps_report source emergency
         else if opcode = 0x20 \<or> opcode = 0x28 then tps_report source False
         else if opcode = 0x2c then tps_report (bitset_shift_mask tsbk 40 0xffffff) False
         else if opcode = 0x2f then tps_report source False
         else [])"

definition tps_decode_mbt_data :: "ulong \<Rightarrow> bitset \<Rightarrow> decoder_msg list" where
  "tps_decode_mbt_data opcode header =
     (if opcode = 0x0 \<or> opcode = 0x04
      then tps_report (bitset_shift_mask header 48 0xffffff) (bitset_shift_mask header 24 0x80 \<noteq> 0)
      else [])"

text \<open>
  The octets of a JSON message are read by Boost's property tree: \<open>read_json\<close> gives the member
  \<open>srcaddr\<close> when there is one, \<open>None\<close> where it throws, which is caught.
\<close>

definition parse_p25_json :: "(octet list \<Rightarrow> string option option) \<Rightarrow> octet list \<Rightarrow> decoder_msg list option" where
  "parse_p25_json read_json json =
     (if length json < 3 then Some []
      else case read_json json of
             None \<Rightarrow> Some []
           | Some srcaddr \<Rightarrow>
               do { a \<leftarrow> atoi (case srcaddr of None \<Rightarrow> ''0'' | Some v \<Rightarrow> v);
                    Some (if 0 < a then [msg_of a ''TPS'' Normal] else []) })"

text \<open>
  An empty queue gives no message. Unlike the parser of control channels this one keeps the two octets of
  the NAC in front. Reading \<open>s[1]\<close> of an empty string is out of bounds; \<open>s.substr(10)\<close> throws on a
  string of fewer than ten octets.
\<close>

definition tps_process_message ::
  "(octet list \<Rightarrow> string option option) \<Rightarrow> (int \<times> octet list) option \<Rightarrow> decoder_msg list option" where
  "tps_process_message read_json msg =
     (case msg of None \<Rightarrow> Some []
      | Some (type, s) \<Rightarrow>
          if type = -3 then parse_p25_json read_json s
          else if type < 0 then Some []
          else case s of
            [] \<Rightarrow> None
          | s0 # t \<Rightarrow>
              if (ucast s0 * 256 + ucast (if t = [] then 0 else hd t) :: ulong) = 0xffff then Some []
              else if type = 7 then Some (tps_decode_tsbk (load_octets s 2))
              else if type = 12 then
                if length s < 10 then None
                else let header = load_octets (take 10 s) 2
                     in Some (tps_decode_mbt_data (bitset_shift_mask header 32 0x3f) header)
              else Some [])"

record tps_sink =
  ts_callback :: bool
  ts_valve :: bool
  ts_queue :: "(int \<times> octet list) list"

definition tps_process_message_queues ::
  "(octet list \<Rightarrow> string option option) \<Rightarrow> tps_sink \<Rightarrow> (tps_sink \<times> decoder_msg list) option" where
  "tps_process_message_queues read_json t =
     (case ts_queue t of
        [] \<Rightarrow> map_option (\<lambda>ms. (t, log_decoder_msg (ts_callback t) ms)) (tps_process_message read_json None)
      | m # ms \<Rightarrow> map_option (\<lambda>r. (t\<lparr>ts_queue := ms\<rparr>, log_decoder_msg (ts_callback t) r)) (tps_process_message read_json (Some m)))"

section \<open>The wrapper\<close>

record decoder_wrapper =
  dw_signal :: signal_sink
  dw_tps :: tps_sink

definition decoder_wrapper_new :: "signal_sink \<Rightarrow> bool \<Rightarrow> decoder_wrapper" where
  "decoder_wrapper_new sink callback = \<lparr>dw_signal = sink, dw_tps = \<lparr>ts_callback = callback, ts_valve = False, ts_queue = []\<rparr>\<rparr>"

definition set_enabled :: "bool \<Rightarrow> bool \<Rightarrow> bool \<Rightarrow> bool \<Rightarrow> decoder_wrapper \<Rightarrow> decoder_wrapper" where
  "set_enabled mdc fsync star tps w =
     w\<lparr>dw_signal := (dw_signal w)\<lparr>ss_mdc_enabled := mdc, ss_fsync_enabled := fsync, ss_star_enabled := star\<rparr>,
       dw_tps := (dw_tps w)\<lparr>ts_valve := tps\<rparr>\<rparr>"

definition wrapper_process_message_queues ::
  "(octet list \<Rightarrow> string option option) \<Rightarrow> decoder_wrapper \<Rightarrow> (decoder_wrapper \<times> decoder_msg list) option" where
  "wrapper_process_message_queues read_json w =
     map_option (\<lambda>(t, ms). (w\<lparr>dw_tps := t\<rparr>, ms)) (tps_process_message_queues read_json (dw_tps w))"

text \<open>\<open>enabled\<close> are the flags of the recorder's system; when a recording stops all are cleared.\<close>

definition setup_decoders_for_system :: "bool \<times> bool \<times> bool \<times> bool \<Rightarrow> decoder_wrapper \<Rightarrow> decoder_wrapper" where
  "setup_decoders_for_system enabled w = (case enabled of (mdc, fsync, star, tps) \<Rightarrow> set_enabled mdc fsync star tps w)"

definition stop_decoders :: "decoder_wrapper \<Rightarrow> decoder_wrapper" where
  "stop_decoders w = set_enabled False False False False w"

end
