(* ===== verification/Mdc_Properties.thy ===== *)
theory Mdc_Properties
  imports Mdc_Decode
begin

text \<open>
  Properties of the MDC1200 decoder: the threshold decoder corrects every pattern of at most two errors in
  seven rows, a packet on the air is reported as sent, and what a lost second half leaves behind.
\<close>

section \<open>The code\<close>

text \<open>The parity of a sequence of information bits at row \<open>t\<close>; before the start all bits are 0.\<close>

definition mdc_parity :: "(nat \<Rightarrow> bool) \<Rightarrow> nat \<Rightarrow> bool" where
  "mdc_parity d t = (((d t \<noteq> (2 \<le> t \<and> d (t - 2))) \<noteq> (5 \<le> t \<and> d (t - 5))) \<noteq> (6 \<le> t \<and> d (t - 6)))"

text \<open>A block: 56 information bits, then 56 parity bits; received with errors at the positions \<open>E\<close>.\<close>

definition mdc_code :: "(nat \<Rightarrow> bool) \<Rightarrow> nat set \<Rightarrow> nat \<Rightarrow> bool" where
  "mdc_code d E l = ((if l < 56 then d l else mdc_parity d (l - 56)) \<noteq> (l \<in> E))"

text \<open>Row \<open>s\<close> has the information bit \<open>s\<close> and the parity bit \<open>s + 56\<close>.\<close>

definition few_errors :: "nat set \<Rightarrow> bool" where
  "few_errors E \<longleftrightarrow> (\<forall>k \<le> 49. (\<Sum>s = k..k + 6. of_bool (s \<in> E) + of_bool (s + 56 \<in> E)) \<le> (2 :: nat))"

definition data_bit :: "octet list \<Rightarrow> nat \<Rightarrow> bool" where
  "data_bit data l = bit (data ! (l div 8)) (l mod 8)"

lemma mdc_parity_linear: "mdc_parity (\<lambda>t. a t \<noteq> b t) t = (mdc_parity a t \<noteq> mdc_parity b t)"
  by (auto simp: mdc_parity_def)

lemma of_bool_xor_le: "(of_bool (a \<noteq> b) :: nat) \<le> of_bool a + of_bool b"
  by auto

text \<open>Four checks that share one bit and nothing else: three fail exactly when that bit is wrong.\<close>

lemma majority:
  assumes "of_bool e0 + of_bool p0 + of_bool e1 + of_bool e2 + of_bool p2 + of_bool e3 + of_bool e4 + of_bool e5
    + of_bool p5 + of_bool e6 + of_bool p6 \<le> (2 :: nat)"
  shows "(3 :: nat) \<le> of_bool (e0 \<noteq> p0) + of_bool ((e2 \<noteq> e0) \<noteq> p2) + of_bool (((e5 \<noteq> e3) \<noteq> e0) \<noteq> p5)
    + of_bool ((((e6 \<noteq> e4) \<noteq> e1) \<noteq> e0) \<noteq> p6) \<longleftrightarrow> e0" (is "(3 :: nat) \<le> ?v \<longleftrightarrow> _")
proof -
  let ?q2 = "e2 \<noteq> p2" and ?q5 = "(e5 \<noteq> e3) \<noteq> p5" and ?q6 = "((e6 \<noteq> e4) \<noteq> e1) \<noteq> p6"
  have q: "of_bool ?q2 \<le> of_bool e2 + (of_bool p2 :: nat)" "of_bool ?q5 \<le> of_bool e5 + of_bool e3 + (of_bool p5 :: nat)"
    "of_bool ?q6 \<le> of_bool e6 + of_bool e4 + of_bool e1 + (of_bool p6 :: nat)"
    by auto
  have arith: "3 \<le> (1 - n1) + (1 - n2) + (1 - n3) + (1 - n4)" if "n1 + n2 + n3 + n4 \<le> 1" for n1 n2 n3 n4 :: nat
    using that by linarith
  show ?thesis
  proof (cases e0)
    case True
    have "?v = (1 - of_bool p0) + (1 - of_bool ?q2) + (1 - of_bool ?q5) + (1 - of_bool ?q6)"
      using True by (intro arg_cong2 [of _ _ _ _ "(+)"]) auto
    moreover have "of_bool p0 + of_bool ?q2 + of_bool ?q5 + of_bool ?q6 \<le> (1 :: nat)"
      using assms q True by simp
    ultimately show ?thesis using True arith by simp
  next
    case False
    have "?v = of_bool p0 + of_bool ?q2 + of_bool ?q5 + of_bool ?q6"
      using False by (intro arg_cong2 [of _ _ _ _ "(+)"]) auto
    moreover have "of_bool p0 + of_bool ?q2 + of_bool ?q5 + of_bool ?q6 \<le> (2 :: nat)"
      using assms q False by simp
    ultimately show ?thesis using False by simp
  qed
qed


section \<open>The threshold decoder\<close>

definition flip_bit_at :: "octet list \<Rightarrow> nat \<Rightarrow> octet list" where
  "flip_bit_at data k = data[k div 8 := data ! (k div 8) XOR push_bit (k mod 8) 1]"

lemma length_flip_bit_at [simp]: "length (flip_bit_at data k) = length data"
  by (simp add: flip_bit_at_def)

lemma data_bit_flip:
  assumes "length data = 14" "t < 112" "k < 112"
  shows "data_bit (flip_bit_at data k) t = (data_bit data t \<noteq> (t = k))"
proof (cases "t div 8 = k div 8")
  case True
  then have "(t = k) = (t mod 8 = k mod 8)" by (metis div_mult_mod_eq)
  then show ?thesis
    using True assms by (auto simp: data_bit_def flip_bit_at_def bit_xor_iff bit_exp_iff)
next
  case False
  then show ?thesis using assms by (auto simp: data_bit_def flip_bit_at_def nth_list_update)
qed

lemma gofix_step_row:
  assumes "n < 56"
  shows "gofix_step (n div 8, n mod 8) (data, csr, syn) =
    (let csr = data_bit data n # take 6 csr;
         syn = (if (((csr ! 0 \<noteq> csr ! 2) \<noteq> csr ! 5) \<noteq> csr ! 6) \<noteq> data_bit data (n + 56) then push_bit 1 syn OR 1 else push_bit 1 syn)
     in if (3 :: nat) \<le> of_bool (bit syn 7) + of_bool (bit syn 5) + of_bool (bit syn 2) + of_bool (bit syn 1)
        then (if 7 \<le> n then flip_bit_at data (n - 7) else data, csr, syn XOR 0xA6) else (data, csr, syn))"
proof -
  have p: "bit (data ! (n div 8 + 7)) (n mod 8) = data_bit data (n + 56)"
  proof -
    have "(n + 56) div 8 = n div 8 + 7" "(n + 56) mod 8 = n mod 8" by presburger+
    then show ?thesis by (simp add: data_bit_def)
  qed
  have correct: "gofix_flip (n div 8) (n mod 8) data = (if 7 \<le> n then flip_bit_at data (n - 7) else data)"
  proof -
    obtain i j where n: "n = 8 * i + j" "j < 8" by (metis mult_div_mod_eq mod_less_divisor zero_less_numeral)
    then have ij: "n div 8 = i" "n mod 8 = j" by simp_all
    consider "j = 7" | "j < 7" "1 \<le> i" | "j < 7" "i = 0" using n(2) by linarith
    then show ?thesis
    proof cases
      case 1
      then have "(n - 7) div 8 = i" "(n - 7) mod 8 = 0" "7 \<le> n" using n by simp_all
      then show ?thesis using 1 by (simp add: gofix_flip_def flip_bit_at_def ij)
    next
      case 2
      then have "n - 7 = 8 * (i - 1) + (j + 1)" using n by simp
      then have "(n - 7) div 8 = i - 1" "(n - 7) mod 8 = j + 1" "7 \<le> n" using 2 n by simp_all
      then show ?thesis using 2 by (simp add: gofix_flip_def flip_bit_at_def ij nat_diff_distrib nat_add_distrib)
    next
      case 3
      then show ?thesis using n by (simp add: gofix_flip_def ij)
    qed
  qed
  show ?thesis
    unfolding gofix_step_def Let_def prod.case p correct by (simp add: data_bit_def)
qed

text \<open>The information errors at row \<open>k \<ge> n - 7\<close> are still there after \<open>n\<close> rows.\<close>

definition pending :: "nat set \<Rightarrow> nat \<Rightarrow> nat \<Rightarrow> bool" where
  "pending E n m \<longleftrightarrow> m \<in> E \<and> n < m + 8"

definition residual :: "nat set \<Rightarrow> nat \<Rightarrow> nat \<Rightarrow> bool" where
  "residual E n s = (mdc_parity (pending E n) s \<noteq> (s + 56 \<in> E))"

definition gofix_inv :: "(nat \<Rightarrow> bool) \<Rightarrow> nat set \<Rightarrow> nat \<Rightarrow> octet list \<times> bool list \<times> 32 word \<Rightarrow> bool" where
  "gofix_inv d E n st = (case st of (data, csr, syn) \<Rightarrow>
     length data = 14 \<and> (\<forall>t < 56. data_bit data t = (if t + 8 \<le> n then d t else mdc_code d E t)) \<and>
     (\<forall>t < 56. data_bit data (t + 56) = mdc_code d E (t + 56)) \<and>
     csr = map (\<lambda>k. k < n \<and> mdc_code d E (n - 1 - k)) [0..<7] \<and>
     (\<forall>i < 8. bit syn i = (i < n \<and> residual E n (n - 1 - i))))"

lemma window_errors:
  assumes "few_errors E" "k \<le> 49"
  shows "of_bool (k \<in> E) + of_bool (k + 56 \<in> E) + of_bool (k + 1 \<in> E) + of_bool (k + 57 \<in> E) + of_bool (k + 2 \<in> E)
    + of_bool (k + 58 \<in> E) + of_bool (k + 3 \<in> E) + of_bool (k + 59 \<in> E) + of_bool (k + 4 \<in> E) + of_bool (k + 60 \<in> E)
    + of_bool (k + 5 \<in> E) + of_bool (k + 61 \<in> E) + of_bool (k + 6 \<in> E) + of_bool (k + 62 \<in> E) \<le> (2 :: nat)"
proof -
  have "{k..k + 6} = {k, k + 1, k + 2, k + 3, k + 4, k + 5, k + 6}" by auto
  then have sum: "(\<Sum>s = k..k + 6. of_bool (s \<in> E) + of_bool (s + 56 \<in> E)) =
    of_bool (k \<in> E) + of_bool (k + 56 \<in> E) + of_bool (k + 1 \<in> E) + of_bool (k + 57 \<in> E) + of_bool (k + 2 \<in> E)
    + of_bool (k + 58 \<in> E) + of_bool (k + 3 \<in> E) + of_bool (k + 59 \<in> E) + of_bool (k + 4 \<in> E) + of_bool (k + 60 \<in> E)
    + of_bool (k + 5 \<in> E) + of_bool (k + 61 \<in> E) + of_bool (k + 6 \<in> E) + (of_bool (k + 62 \<in> E) :: nat)"
    by (simp add: add.commute add.left_commute)
  have "(\<Sum>s = k..k + 6. of_bool (s \<in> E) + of_bool (s + 56 \<in> E)) \<le> (2 :: nat)"
    using assms unfolding few_errors_def by blast
  then show ?thesis unfolding sum .
qed

text \<open>The vote on row \<open>n - 7\<close>.\<close>

definition votes :: "nat set \<Rightarrow> nat \<Rightarrow> nat" where
  "votes E n = of_bool (7 \<le> n \<and> residual E n (n - 7)) + of_bool (5 \<le> n \<and> residual E n (n - 5))
     + of_bool (2 \<le> n \<and> residual E n (n - 2)) + of_bool (1 \<le> n \<and> residual E n (n - 1))"

lemma vote:
  assumes "few_errors E" "n < 56"
  shows "3 \<le> votes E n \<longleftrightarrow> 7 \<le> n \<and> n - 7 \<in> E"
proof (cases "7 \<le> n")
  case True
  then obtain k where k: "n = k + 7" using le_Suc_ex by (metis add.commute)
  have r: "residual E n (n - 7) = ((k \<in> E) \<noteq> (k + 56 \<in> E))"
    "residual E n (n - 5) = (((k + 2 \<in> E) \<noteq> (k \<in> E)) \<noteq> (k + 58 \<in> E))"
    "residual E n (n - 2) = ((((k + 5 \<in> E) \<noteq> (k + 3 \<in> E)) \<noteq> (k \<in> E)) \<noteq> (k + 61 \<in> E))"
    "residual E n (n - 1) = (((((k + 6 \<in> E) \<noteq> (k + 4 \<in> E)) \<noteq> (k + 1 \<in> E)) \<noteq> (k \<in> E)) \<noteq> (k + 62 \<in> E))"
    by (auto simp: residual_def mdc_parity_def pending_def k add.commute)
  have "k \<le> 49" using assms(2) k by simp
  from window_errors [OF assms(1) this] have
    "of_bool (k \<in> E) + of_bool (k + 56 \<in> E) + of_bool (k + 1 \<in> E) + of_bool (k + 2 \<in> E) + of_bool (k + 58 \<in> E)
      + of_bool (k + 3 \<in> E) + of_bool (k + 4 \<in> E) + of_bool (k + 5 \<in> E) + of_bool (k + 61 \<in> E) + of_bool (k + 6 \<in> E)
      + of_bool (k + 62 \<in> E) \<le> (2 :: nat)"
    by linarith
  from majority [OF this] show ?thesis
    unfolding votes_def r using k by simp
next
  case False
  note w = window_errors [OF assms(1), of 0, unfolded add_0, OF le0]
  note x = of_bool_xor_le [of "0 \<in> E" "56 \<in> E"] of_bool_xor_le [of "1 \<in> E" "57 \<in> E"]
    of_bool_xor_le [of "3 \<in> E" "1 \<in> E"] of_bool_xor_le [of "(3 \<in> E) \<noteq> (1 \<in> E)" "59 \<in> E"]
    of_bool_xor_le [of "4 \<in> E" "2 \<in> E"] of_bool_xor_le [of "(4 \<in> E) \<noteq> (2 \<in> E)" "60 \<in> E"]
    of_bool_xor_le [of "5 \<in> E" "3 \<in> E"] of_bool_xor_le [of "(5 \<in> E) \<noteq> (3 \<in> E)" "0 \<in> E"]
    of_bool_xor_le [of "((5 \<in> E) \<noteq> (3 \<in> E)) \<noteq> (0 \<in> E)" "61 \<in> E"]
  consider "n < 5" | "n = 5" | "n = 6" using False by linarith
  then have "votes E n \<le> 2"
  proof cases
    case 1
    then show ?thesis by (simp add: votes_def)
  next
    case 2
    have "residual E 5 0 = ((0 \<in> E) \<noteq> (56 \<in> E))" "residual E 5 3 = (((3 \<in> E) \<noteq> (1 \<in> E)) \<noteq> (59 \<in> E))"
      "residual E 5 4 = (((4 \<in> E) \<noteq> (2 \<in> E)) \<noteq> (60 \<in> E))"
      by (auto simp: residual_def mdc_parity_def pending_def)
    then have "votes E n = of_bool ((0 \<in> E) \<noteq> (56 \<in> E)) + of_bool (((3 \<in> E) \<noteq> (1 \<in> E)) \<noteq> (59 \<in> E))
        + of_bool (((4 \<in> E) \<noteq> (2 \<in> E)) \<noteq> (60 \<in> E))"
      using 2 by (simp add: votes_def)
    then show ?thesis using w x by linarith
  next
    case 3
    have "residual E 6 1 = ((1 \<in> E) \<noteq> (57 \<in> E))" "residual E 6 4 = (((4 \<in> E) \<noteq> (2 \<in> E)) \<noteq> (60 \<in> E))"
      "residual E 6 5 = ((((5 \<in> E) \<noteq> (3 \<in> E)) \<noteq> (0 \<in> E)) \<noteq> (61 \<in> E))"
      by (auto simp: residual_def mdc_parity_def pending_def)
    then have "votes E n = of_bool ((1 \<in> E) \<noteq> (57 \<in> E)) + of_bool (((4 \<in> E) \<noteq> (2 \<in> E)) \<noteq> (60 \<in> E))
        + of_bool ((((5 \<in> E) \<noteq> (3 \<in> E)) \<noteq> (0 \<in> E)) \<noteq> (61 \<in> E))"
      using 3 by (simp add: votes_def)
    then show ?thesis using w x by linarith
  qed
  then show ?thesis using False by simp
qed


lemma residual_now: "residual E n n = (mdc_parity (\<lambda>m. m \<in> E) n \<noteq> (n + 56 \<in> E))"
  unfolding residual_def mdc_parity_def pending_def by auto

lemma residual_step:
  assumes "i < 8" "i \<le> n"
  shows "residual E (Suc n) (n - i) = (residual E n (n - i) \<noteq> (7 \<le> n \<and> n - 7 \<in> E \<and> i \<in> {1, 2, 5, 7}))"
proof (cases "7 \<le> n")
  case False
  then have "pending E (Suc n) = pending E n" by (auto simp: pending_def)
  then show ?thesis using False by (simp add: residual_def)
next
  case True
  then obtain k where k: "n = k + 7" using le_Suc_ex by (metis add.commute)
  have p: "pending E (Suc n) = (\<lambda>m. pending E n m \<noteq> (k \<in> E \<and> m = k))"
    by (rule ext) (auto simp: pending_def k less_Suc_eq)
  have "mdc_parity (\<lambda>m. k \<in> E \<and> m = k) (n - i) = (k \<in> E \<and> i \<in> {1, 2, 5, 7})"
  proof -
    consider "i = 0" | "i = 1" | "i = 2" | "i = 3" | "i = 4" | "i = 5" | "i = 6" | "i = 7" using assms(1) by linarith
    moreover have "m - c = m \<longleftrightarrow> m = 0 \<or> c = 0" for m c :: nat by arith
    ultimately show ?thesis by cases (simp_all add: mdc_parity_def k)
  qed
  then show ?thesis unfolding residual_def p mdc_parity_linear by (auto simp: k)
qed

lemma mdc_code_parity: "n < 56 \<Longrightarrow>
  (mdc_parity (mdc_code d E) n \<noteq> mdc_code d E (n + 56)) = residual E n n"
proof -
  assume "n < 56"
  then have "mdc_parity (mdc_code d E) n = mdc_parity (\<lambda>t. d t \<noteq> (t \<in> E)) n"
    by (simp add: mdc_parity_def mdc_code_def)
  then show ?thesis unfolding residual_now mdc_parity_linear by (auto simp: mdc_code_def)
qed

lemma bit_166: "i < 8 \<Longrightarrow> bit (0xA6 :: 32 word) i = (i \<in> {1, 2, 5, 7})"
proof -
  have "\<forall>i \<in> set [0..<8]. bit (0xA6 :: 32 word) i = (i = 1 \<or> i = 2 \<or> i = 5 \<or> i = 7)" by code_simp
  then show "i < 8 \<Longrightarrow> ?thesis" by simp
qed

lemma gofix_step_inv:
  assumes "few_errors E" "n < 56" "gofix_inv d E n st"
  shows "gofix_inv d E (Suc n) (gofix_step (n div 8, n mod 8) st)"
proof -
  obtain data csr syn where st: "st = (data, csr, syn)" by (cases st)
  note i = assms(3) [unfolded st gofix_inv_def prod.case]
  define cs where "cs = data_bit data n # take 6 csr"
  have csr: "cs = map (\<lambda>k. k < Suc n \<and> mdc_code d E (Suc n - 1 - k)) [0..<7]"
  proof -
    have "take 6 csr = map (\<lambda>k. k < n \<and> mdc_code d E (n - 1 - k)) [0..<6]" using i by (simp add: take_map)
    moreover have "[0..<7] = 0 # map Suc [0..<6]" by (simp add: map_Suc_upt upt_conv_Cons)
    moreover have "data_bit data n = mdc_code d E n" using i assms(2) by simp
    ultimately show ?thesis by (simp add: cs_def)
  qed
  have b: "((((cs ! 0 \<noteq> cs ! 2) \<noteq> cs ! 5) \<noteq> cs ! 6) \<noteq> data_bit data (n + 56)) = residual E n n"
  proof -
    have c: "cs ! k = (k \<le> n \<and> mdc_code d E (n - k))" if "k < 7" for k
      unfolding csr using that by (simp add: less_Suc_eq_le)
    have "(((cs ! 0 \<noteq> cs ! 2) \<noteq> cs ! 5) \<noteq> cs ! 6) = mdc_parity (mdc_code d E) n"
      by (simp add: c mdc_parity_def)
    moreover have "data_bit data (n + 56) = mdc_code d E (n + 56)" using i assms(2) by blast
    ultimately show ?thesis using mdc_code_parity [OF assms(2), of d E] by (simp only:)
  qed
  define s where "s = (if residual E n n then push_bit 1 syn OR 1 else push_bit 1 syn)"
  have s: "bit s k = (k \<le> n \<and> residual E n (n - k))" if "k < 8" for k
  proof -
    have p: "bit (push_bit 1 syn) k = (1 \<le> k \<and> bit syn (k - 1))"
      unfolding bit_push_bit_iff possible_bit_word using that by auto
    show ?thesis
    proof (cases k)
      case 0
      then show ?thesis unfolding s_def bit_or_iff if_distrib [of "\<lambda>w. bit w k"] p by (simp add: bit_1_iff)
    next
      case (Suc j)
      then have "bit s k = bit syn j" unfolding s_def if_distrib [of "\<lambda>w. bit w k"] bit_or_iff p by (simp add: bit_1_iff)
      moreover have "bit syn j = (j < n \<and> residual E n (n - 1 - j))" using i that Suc by simp
      ultimately show ?thesis using Suc by (simp add: Suc_le_eq)
    qed
  qed
  have v: "(3 :: nat) \<le> of_bool (bit s 7) + of_bool (bit s 5) + of_bool (bit s 2) + of_bool (bit s 1) \<longleftrightarrow> 7 \<le> n \<and> n - 7 \<in> E"
    using vote [OF assms(1,2)] by (simp add: votes_def s)
  have step: "gofix_step (n div 8, n mod 8) st =
      (if 7 \<le> n \<and> n - 7 \<in> E then flip_bit_at data (n - 7) else data, cs, if 7 \<le> n \<and> n - 7 \<in> E then s XOR 0xA6 else s)"
    unfolding st gofix_step_row [OF assms(2)] Let_def cs_def [symmetric] b s_def [symmetric] v by simp
  have d: "data_bit (if 7 \<le> n \<and> n - 7 \<in> E then flip_bit_at data (n - 7) else data) t =
      (if t + 8 \<le> Suc n then d t else mdc_code d E t)" if "t < 56" for t
  proof (cases "t + 7 = n")
    case True
    then show ?thesis using i assms(2) that by (auto simp: data_bit_flip mdc_code_def)
  next
    case False
    then have "t + 8 \<le> Suc n \<longleftrightarrow> t + 8 \<le> n" "7 \<le> n \<Longrightarrow> (t = n - 7) = False" by auto
    then show ?thesis using i assms(2) that by (simp add: data_bit_flip)
  qed
  have syn: "bit (if 7 \<le> n \<and> n - 7 \<in> E then s XOR 0xA6 else s) k = (k < Suc n \<and> residual E (Suc n) (Suc n - 1 - k))"
    if "k < 8" for k
    using s [OF that] residual_step [OF that, of n E] bit_166 [OF that] assms(2) by (auto simp: bit_xor_iff)
  have par: "data_bit (if 7 \<le> n \<and> n - 7 \<in> E then flip_bit_at data (n - 7) else data) (t + 56) = mdc_code d E (t + 56)"
    if "t < 56" for t
  proof -
    have "(t + 56 = n - 7) = False" using assms(2) by auto
    then show ?thesis using i assms(2) that by (simp add: data_bit_flip)
  qed
  have len: "length (if 7 \<le> n \<and> n - 7 \<in> E then flip_bit_at data (n - 7) else data) = 14" using i by simp
  show ?thesis
    unfolding step gofix_inv_def prod.case using len d par csr syn by blast
qed

text \<open>
  Two errors in any seven rows, information or parity, leave the first six octets as they were sent.
\<close>

lemma gofix_corrects:
  assumes "few_errors E" "length data = 14" "\<And>l. l < 112 \<Longrightarrow> data_bit data l = mdc_code d E l" "t \<le> 48"
  shows "data_bit (gofix data) t = d t" "length (gofix data) = 14"
proof -
  have p: "List.product [0..<7] [0..<8] = map (\<lambda>n. (n div 8, n mod 8)) [0..<56]" by code_simp
  let ?st = "\<lambda>n. fold gofix_step (map (\<lambda>n. (n div 8, n mod 8)) [0..<n]) (data, replicate 7 False, 0)"
  have "gofix_inv d E n (?st n)" if "n \<le> 56" for n
    using that
  proof (induction n)
    case 0
    then show ?case using assms(2,3) by (auto simp: gofix_inv_def intro!: nth_equalityI)
  next
    case (Suc n)
    then show ?case using gofix_step_inv [OF assms(1), of n d "?st n"] by simp
  qed
  from this [of 56] have "gofix_inv d E 56 (?st 56)" by simp
  then show "data_bit (gofix data) t = d t" "length (gofix data) = 14"
    unfolding gofix_def p using assms(4) by (auto simp: gofix_inv_def split: prod.splits)
qed


section \<open>A block on the air\<close>

text \<open>Seven octets of information; sent in columns of sixteen.\<close>

definition mdc_air :: "octet list \<Rightarrow> nat set \<Rightarrow> bool list" where
  "mdc_air p E = map (\<lambda>k. mdc_code (data_bit p) E ((k mod 16) * 7 + k div 16)) [0..<112]"

text \<open>The information octets of four octets: they are followed by their checksum, low octet first.\<close>

definition mdc_packet :: "octet \<Rightarrow> octet \<Rightarrow> octet \<Rightarrow> octet \<Rightarrow> octet list" where
  "mdc_packet a b c e = [a, b, c, e, ucast (mdc_docrc [a, b, c, e]), ucast (drop_bit 8 (mdc_docrc [a, b, c, e])), 0]"

lemma nth_product: "l < m * n \<Longrightarrow> List.product [0..<m] [0..<n] ! l = (l div n, l mod n)"
  using product_nth [of l "[0..<m]" "[0..<n]"] mod_less_divisor [of n l]
  by (cases "n = 0") (simp_all add: less_mult_imp_div_less del: mod_less_divisor)

lemma bit_octet_fold:
  "n \<le> 8 \<Longrightarrow> bit (fold (\<lambda>j v. if P j then v OR push_bit j 1 else v) [0..<n] (0 :: octet)) k = (k < n \<and> P k)"
proof (induction n)
  case (Suc n)
  have "bit (push_bit n (1 :: octet)) k = (k = n)" using Suc.prems by (auto simp: bit_exp_iff)
  then show ?case using Suc by (auto simp: bit_or_iff less_Suc_eq simp del: push_bit_of_1)
qed simp

lemma air_data:
  assumes "l < 112"
  shows "data_bit (mdc_data (mdc_lbits (mdc_air p E))) l = mdc_code (data_bit p) E l"
proof -
  have m: "(l mod 7) * 16 + l div 7 < 112"
    using assms mod_less_divisor [of 7 l] div_less_dividend less_mult_imp_div_less [of l 16 7] by simp
  have "l div 8 < 14" using assms by simp
  then have "data_bit (mdc_data (mdc_lbits (mdc_air p E))) l = mdc_lbits (mdc_air p E) ! l"
    by (simp add: data_bit_def mdc_data_def bit_octet_fold del: push_bit_of_1)
  also have "\<dots> = mdc_air p E ! ((l mod 7) * 16 + l div 7)"
    using assms by (simp add: mdc_lbits_def nth_product [of l 16 7])
  also have "\<dots> = mdc_code (data_bit p) E l"
  proof -
    have "l div 7 < 16" using assms by simp
    then have "((l mod 7) * 16 + l div 7) mod 16 = l div 7" "((l mod 7) * 16 + l div 7) div 16 = l mod 7" by simp_all
    then show ?thesis using m by (simp add: mdc_air_def)
  qed
  finally show ?thesis .
qed

lemma air_received:
  assumes "few_errors E" "i < 6"
  shows "gofix (mdc_data (mdc_lbits (mdc_air p E))) ! i = p ! i"
proof (rule bit_eqI)
  fix j assume "possible_bit TYPE(octet) j"
  then have j: "j < 8" by simp
  have "data_bit (gofix (mdc_data (mdc_lbits (mdc_air p E)))) (8 * i + j) = data_bit p (8 * i + j)"
    using assms j by (intro gofix_corrects(1) [OF assms(1) _ air_data]) (simp_all add: mdc_data_def)
  then show "bit (gofix (mdc_data (mdc_lbits (mdc_air p E))) ! i) j = bit (p ! i) j"
    using j by (simp add: data_bit_def)
qed

section \<open>Receiving blocks\<close>

fun mdc_bits :: "nat \<Rightarrow> bool list \<Rightarrow> mdc_decoder \<Rightarrow> mdc_decoder \<times> mdc_call list" where
  "mdc_bits x [] d = (d, [])"
| "mdc_bits x (b # bs) d =
     (let (d, cs) = mdc_shiftin x (upd_unit x (\<lambda>u. u\<lparr>du_xorb := b\<rparr>) d); (d, cs') = mdc_bits x bs d in (d, cs @ cs'))"

text \<open>Unit \<open>x\<close> has found the pattern and is about to collect a block.\<close>

definition collecting :: "nat \<Rightarrow> int \<Rightarrow> nat \<Rightarrow> mdc_decoder \<Rightarrow> bool" where
  "collecting x s n d \<longleftrightarrow> x < length (md_du d) \<and> du_shstate (md_du d ! x) = s \<and> du_shcount (md_du d ! x) = n \<and>
     length (du_bits (md_du d ! x)) = 112"

lemma upd_unit_simps [simp]:
  "length (md_du (upd_unit x f d)) = length (md_du d)" "x < length (md_du d) \<Longrightarrow> md_du (upd_unit x f d) ! x = f (md_du d ! x)"
  "d\<lparr>md_du := md_du (upd_unit x f d)\<rparr> = upd_unit x f d"
  by (auto simp: upd_unit_def)

lemma collect_bits:
  assumes "collecting x s n d" "s \<in> {1, 2}" "n + length bs = 112" "bs \<noteq> []"
  shows "\<exists>du. mdc_bits x bs d = mdc_procbits x (d\<lparr>md_du := du\<rparr>) \<and> length du = length (md_du d) \<and>
    du_shstate (du ! x) = s \<and> du_bits (du ! x) = take n (du_bits (md_du d ! x)) @ bs"
  using assms
proof (induction bs arbitrary: n d)
  case (Cons b bs)
  have x: "x < length (md_du d)" and l: "length (du_bits (md_du d ! x)) = 112" and n: "n < 112"
    using Cons.prems by (simp_all add: collecting_def)
  define d' where "d' = upd_unit x (\<lambda>u. u\<lparr>du_bits := (du_bits u)[du_shcount u := du_xorb u], du_shcount := du_shcount u + 1\<rparr>)
      (upd_unit x (\<lambda>u. u\<lparr>du_xorb := b\<rparr>) d)"
  have d': "d' = d\<lparr>md_du := md_du d'\<rparr>" "length (md_du d') = length (md_du d)" by (simp_all add: d'_def upd_unit_def)
  have u: "du_shstate (md_du d' ! x) = s" "du_shcount (md_du d' ! x) = n + 1" "du_bits (md_du d' ! x) = (du_bits (md_du d ! x))[n := b]"
    using Cons.prems x by (simp_all add: d'_def collecting_def)
  have t: "take (n + 1) ((du_bits (md_du d ! x))[n := b]) = take n (du_bits (md_du d ! x)) @ [b]"
    using l n by (simp add: take_Suc_conv_app_nth)
  have shift: "mdc_shiftin x (upd_unit x (\<lambda>u. u\<lparr>du_xorb := b\<rparr>) d) = (if n + 1 > 111 then mdc_procbits x d' else (d', []))"
    using Cons.prems(1,2) x u(2) by (auto simp: mdc_shiftin_def collecting_def Let_def d'_def)
  show ?case
  proof (cases "bs = []")
    case True
    then have n: "n = 111" using Cons.prems by simp
    have "take 112 ((du_bits (md_du d ! x))[n := b]) = (du_bits (md_du d ! x))[n := b]" using l by simp
    with t n have "(du_bits (md_du d ! x))[n := b] = take n (du_bits (md_du d ! x)) @ [b]" by simp
    then show ?thesis
      using True shift n u d' by (intro exI [of _ "md_du d'"]) (simp split: prod.split)
  next
    case False
    then have "n + 1 < 112" using Cons.prems by (cases bs) simp_all
    moreover have "collecting x s (n + 1) d'" using x l u d' by (simp add: collecting_def)
    ultimately obtain du where "mdc_bits x bs d' = mdc_procbits x (d'\<lparr>md_du := du\<rparr>)" "length du = length (md_du d')"
        "du_shstate (du ! x) = s" "du_bits (du ! x) = take (n + 1) (du_bits (md_du d' ! x)) @ bs"
      using Cons.IH [of "n + 1" d'] Cons.prems False by auto
    moreover have "d'\<lparr>md_du := du\<rparr> = d\<lparr>md_du := du\<rparr>" by (subst d'(1)) simp
    ultimately show ?thesis
      using shift t u \<open>n + 1 < 112\<close> d' by (intro exI [of _ du]) (simp split: prod.split)
  qed
qed simp

lemma packet_accepted:
  assumes "\<And>i. i < 6 \<Longrightarrow> data ! i = mdc_packet a b c e ! i" "6 \<le> length data"
  shows "take 4 data = [a, b, c, e]" "push_bit 8 (ucast (data ! 5)) OR ucast (data ! 4) = mdc_docrc [a, b, c, e]"
proof -
  show "take 4 data = [a, b, c, e]"
  proof -
    have "take 4 data = map ((!) data) [0..<4]" using assms(2) by (intro nth_equalityI) simp_all
    also have "\<dots> = map ((!) (mdc_packet a b c e)) [0..<4]" using assms(1) by simp
    also have "\<dots> = [a, b, c, e]" by (simp add: mdc_packet_def upt_rec)
    finally show ?thesis .
  qed
  have "data ! 4 = ucast (mdc_docrc [a, b, c, e])" "data ! 5 = ucast (drop_bit 8 (mdc_docrc [a, b, c, e]))"
    using assms(1) [of 4] assms(1) [of 5] by (simp_all add: mdc_packet_def)
  moreover have "push_bit 8 (ucast (ucast (drop_bit 8 w) :: octet)) OR ucast (ucast w :: octet) = w" for w :: "16 word"
    by (rule bit_eqI) (auto simp: bit_simps)
  ultimately show "push_bit 8 (ucast (data ! 5)) OR ucast (data ! 4) = mdc_docrc [a, b, c, e]" by simp
qed

text \<open>A block with few errors is a checked block of the octets that were sent.\<close>

lemma block_received:
  assumes "collecting x s 0 d" "s \<in> {1, 2}" "few_errors E"
  shows "\<exists>data du. mdc_bits x (mdc_air (mdc_packet a b c e) E) d = report (accept_block data x (d\<lparr>md_du := du\<rparr>)) \<and>
    length du = length (md_du d) \<and> du_shstate (du ! x) = s \<and> (\<forall>i < 6. data ! i = mdc_packet a b c e ! i)"
proof -
  let ?air = "mdc_air (mdc_packet a b c e) E" and ?data = "gofix (mdc_data (mdc_lbits (mdc_air (mdc_packet a b c e) E)))"
  have "length ?air = 112" by (simp add: mdc_air_def)
  then obtain du where du: "mdc_bits x ?air d = mdc_procbits x (d\<lparr>md_du := du\<rparr>)" "length du = length (md_du d)"
      "du_shstate (du ! x) = s" "du_bits (du ! x) = ?air"
    using collect_bits [OF assms(1,2), of ?air] by fastforce
  have data: "\<forall>i < 6. ?data ! i = mdc_packet a b c e ! i" using air_received [OF assms(3)] by blast
  have "length ?data = 14"
    by (rule gofix_corrects(2) [OF assms(3) _ air_data, where t = 0]) (simp_all add: mdc_data_def)
  then have "6 \<le> length ?data" by simp
  with packet_accepted [of ?data a b c e] data
  have "mdc_procbits x (d\<lparr>md_du := du\<rparr>) = report (accept_block ?data x (d\<lparr>md_du := du\<rparr>))"
    by (simp add: mdc_procbits_def du(4) Let_def)
  then show ?thesis using du data by (intro exI [of _ ?data] exI [of _ du]) simp
qed


text \<open>What was known of the last packet.\<close>

definition mdc_extras :: "mdc_decoder \<Rightarrow> octet \<times> octet \<times> octet \<times> octet" where
  "mdc_extras d = (md_extra0 d, md_extra1 d, md_extra2 d, md_extra3 d)"


text \<open>
  While the second half of a double packet is awaited, a packet is taken for it: nothing is reported for
  the packet itself, and the next block is reported with the operation and the unit ID of the packet
  whose second half was lost.
\<close>
theorem mdc_lost_second_half:
  assumes "collecting x 1 0 d" "few_errors E" "few_errors F" "md_callback d" "md_indouble d" "md_good d = 0"
  shows "\<exists>d'. mdc_bits x (mdc_air (mdc_packet a b c e) E) d = (d', []) \<and>
    snd (mdc_bits x (mdc_air (mdc_packet a' b' c' e') F) d') =
      [\<lparr>mc_frameCount = 2, mc_op = md_op d, mc_arg = md_arg d, mc_unitID = md_unitID d, mc_extra = (a', b', c', e')\<rparr>]"
proof -
  obtain data du where b: "mdc_bits x (mdc_air (mdc_packet a b c e) E) d = report (accept_block data x (d\<lparr>md_du := du\<rparr>))"
    "length du = length (md_du d)" "du_shstate (du ! x) = 1"
    using block_received [OF assms(1) _ assms(2)] by blast
  define d' where "d' = accept_block data x (d\<lparr>md_du := du\<rparr>)"
  have d': "d' = upd_unit x (\<lambda>u. clearbits (u\<lparr>du_shstate := 2, du_shcount := 0\<rparr>)) (d\<lparr>md_du := du\<rparr>)"
    using assms(5) b(3) by (simp add: d'_def accept_block_def)
  have one: "mdc_bits x (mdc_air (mdc_packet a b c e) E) d = (d', [])"
    unfolding b(1) d'_def [symmetric] using assms(6) by (simp add: report_def d' upd_unit_def)
  have "collecting x 2 0 d'" using assms(1) b(2) by (simp add: d' collecting_def clearbits_def)
  then obtain data' du' where c: "mdc_bits x (mdc_air (mdc_packet a' b' c' e') F) d' = report (accept_block data' x (d'\<lparr>md_du := du'\<rparr>))"
    "du_shstate (du' ! x) = 2" "\<forall>i < 6. data' ! i = mdc_packet a' b' c' e' ! i"
    using block_received [OF _ _ assms(3)] by blast
  have "data' ! 0 = a'" "data' ! 1 = b'" "data' ! 2 = c'" "data' ! 3 = e'"
    using c(3) [rule_format, of 0] c(3) [rule_format, of 1] c(3) [rule_format, of 2] c(3) [rule_format, of 3]
    by (simp_all add: mdc_packet_def)
  then show ?thesis
    unfolding one using assms(4) c(1,2) by (intro exI [of _ d']) (simp add: accept_block_def report_def all_units_def d' upd_unit_def)
qed


section \<open>Examples\<close>

lemma few_errors_code [code]:
  "few_errors E = list_all (\<lambda>k. sum_list (map (\<lambda>s. of_bool (s \<in> E) + of_bool (s + 56 \<in> E)) [k..<k + 7]) \<le> (2 :: nat)) [0..<50]"
proof -
  have "sum_list (map f [k..<k + 7]) = (\<Sum>s = k..k + 6. f s)" for f :: "nat \<Rightarrow> nat" and k
    by (simp add: interv_sum_list_conv_sum_set_nat atLeastLessThanSuc_atLeastAtMost [of k "k + 6", symmetric] add.commute)
  then show ?thesis by (auto simp: few_errors_def list_all_iff)
qed

text \<open>A burst of eight wrong bits on the air: the positions 20 to 27 of the block.\<close>

definition example_burst :: "nat set" where
  "example_burst = set (map (\<lambda>k. (k mod 16) * 7 + k div 16) [20..<28])"

lemma example_burst_few: "few_errors example_burst"
  by code_simp

definition example_mdc :: mdc_decoder where
  "example_mdc = \<lparr>md_du = replicate 5 \<lparr>du_thu = 0, du_xorb = False, du_invert = False, du_nlstep = 0, du_nlevel = replicate 10 0,
       du_synclow = 0, du_synchigh = 0, du_shstate = 1, du_shcount = 0, du_bits = replicate 112 False\<rparr>,
     md_incru = 322122547, md_good = 0, md_indouble = False, md_op = 1, md_arg = 2, md_unitID = 0x1111,
     md_extra0 = 0, md_extra1 = 0, md_extra2 = 0, md_extra3 = 0, md_callback = True\<rparr>"


theorem mdc_lost_second_half_witness:
  "\<exists>d'. mdc_bits 3 (mdc_air (mdc_packet 1 0x80 0x12 0x34) example_burst) (example_mdc\<lparr>md_indouble := True\<rparr>) = (d', []) \<and>
    snd (mdc_bits 3 (mdc_air (mdc_packet 5 6 7 8) {}) d') =
      [\<lparr>mc_frameCount = 2, mc_op = 1, mc_arg = 2, mc_unitID = 0x1111, mc_extra = (5, 6, 7, 8)\<rparr>]"
proof -
  have "few_errors {}" by (simp add: few_errors_def)
  then show ?thesis
    using mdc_lost_second_half [where x = 3 and d = "example_mdc\<lparr>md_indouble := True\<rparr>" and E = example_burst and F = "{}"
      and a = 1 and b = "0x80" and c = "0x12" and e = "0x34" and a' = 5 and b' = 6 and c' = 7 and e' = 8] example_burst_few
    by (simp add: example_mdc_def collecting_def)
qed

end
