(* ===== verification/Fsync_Properties.thy ===== *)
theory Fsync_Properties
  imports Fsync_Decode
begin

text \<open>
  Properties of the FleetSync decoder: the count of unit_busy units, the repair of a FleetSync II word, a message
  on the air, and the size of the message buffer.
\<close>

section \<open>Repair\<close>

definition syndrome_bit :: "nat \<Rightarrow> nat \<Rightarrow> bool" where
  "syndrome_bit i inp = odd (\<Sum>j \<leftarrow> [0..<15]. of_bool (bit (pcheck ! i) j) * of_bool (bit inp j) :: nat)"

lemma parity_xor:
  "odd (\<Sum>j \<leftarrow> js. of_bool (p j) * of_bool (bit (a XOR b) j) :: nat) =
    (odd (\<Sum>j \<leftarrow> js. of_bool (p j) * of_bool (bit a j) :: nat) \<noteq> odd (\<Sum>j \<leftarrow> js. of_bool (p j) * of_bool (bit b j) :: nat))" for a b :: nat
  by (induction js) (auto simp: bit_xor_iff)

definition syndrome_sum :: "(nat \<Rightarrow> bool) \<Rightarrow> nat" where
  "syndrome_sum p = (\<Sum>i \<leftarrow> [0..<8]. if p i then 2 ^ i else 0)"

lemma ecc_result_syndrome: "ecc_result inp = syndrome_sum (\<lambda>i. syndrome_bit i inp)"
  by (simp only: ecc_result_def syndrome_sum_def syndrome_bit_def)

lemma syndrome_sum_zero: "syndrome_sum p = 0 \<longleftrightarrow> (\<forall>i < 8. \<not> p i)"
proof -
  have "syndrome_sum p = 0 \<longleftrightarrow> (\<forall>i \<in> set [0..<8]. (if p i then 2 ^ i else 0) = (0 :: nat))"
    unfolding syndrome_sum_def sum_list_eq_0_iff by (simp only: set_map ball_simps image_iff bex_simps)
  also have "\<dots> \<longleftrightarrow> (\<forall>i < 8. \<not> p i)" by auto
  finally show ?thesis .
qed

lemma syndrome_bit_xor: "syndrome_bit i (a XOR b) = (syndrome_bit i a \<noteq> syndrome_bit i b)"
  unfolding syndrome_bit_def by (rule parity_xor)

lemma ecc_result_flip:
  assumes "ecc_result c = 0"
  shows "ecc_result (c XOR e) = ecc_result e"
proof -
  have "\<forall>i < 8. \<not> syndrome_bit i c" using assms by (simp only: ecc_result_syndrome syndrome_sum_zero)
  then have "\<And>i. i \<in> set [0..<8] \<Longrightarrow> syndrome_bit i (c XOR e) = syndrome_bit i e" by (simp add: syndrome_bit_xor)
  then have "map (\<lambda>i. if syndrome_bit i (c XOR e) then 2 ^ i else 0 :: nat) [0..<8] = map (\<lambda>i. if syndrome_bit i e then 2 ^ i else 0) [0..<8]"
    by (intro map_cong) simp_all
  then show ?thesis unfolding ecc_result_syndrome syndrome_sum_def by (rule arg_cong)
qed

lemma syndrome_bit_exp:
  assumes "k < 15"
  shows "syndrome_bit i (2 ^ k) = bit (pcheck ! i) k"
proof -
  have "(\<Sum>j \<leftarrow> [0..<15]. of_bool (bit (pcheck ! i) j) * of_bool (bit (2 ^ k :: nat) j) :: nat) =
      (\<Sum>j \<in> {0..<15}. if j = k then of_bool (bit (pcheck ! i) j) else 0)"
    unfolding interv_sum_list_conv_sum_set_nat by (rule sum.cong) (auto simp: bit_exp_iff)
  also have "\<dots> = of_bool (bit (pcheck ! i) k)" using assms by simp
  finally show ?thesis by (simp add: syndrome_bit_def)
qed

lemma fsync_columns: "\<forall>k \<in> set [0..<15]. syndrome_sum (\<lambda>i. bit (pcheck ! i) k) \<noteq> 0 \<and>
    List.find (\<lambda>i. syndrome_sum (\<lambda>i. bit (pcheck ! i) k) = rpcheck ! i) [0..<15] = Some (14 - k)"
  by (simp add: upt_conv_Cons syndrome_sum_def pcheck_def rpcheck_def bit_Suc_0_iff)

lemma single_errors:
  assumes "k < 15"
  shows "ecc_result (2 ^ k) \<noteq> 0" "List.find (\<lambda>i. ecc_result (2 ^ k) = rpcheck ! i) [0..<15] = Some (14 - k)"
  using fsync_columns assms by (simp_all add: ecc_result_syndrome syndrome_bit_exp)

lemma xor_twice: "(c XOR m) XOR m = c" for c m :: nat
  by (rule bit_eqI) (auto simp: bit_xor_iff)

text \<open>
  A FleetSync II word survives any one wrong bit.
\<close>
theorem fsync2_repairs_one_bit:
  assumes "fsync2_ecc_repair c = Some c" "k < 15"
  shows "fsync2_ecc_repair (c XOR 2 ^ k) = Some c"
proof -
  have z: "ecc_result c = 0"
  proof (rule ccontr)
    assume nz: "ecc_result c \<noteq> 0"
    then obtain i where "c XOR 2 ^ (14 - i) = c" using assms(1) by (auto simp: fsync2_ecc_repair_def Let_def)
    then have "bit (c XOR 2 ^ (14 - i)) (14 - i) = bit c (14 - i)" by simp
    then show False by (simp add: bit_xor_iff bit_exp_iff)
  qed
  note s = single_errors [OF assms(2)]
  have "14 - (14 - k) = k" using assms(2) by simp
  then show ?thesis
    using s unfolding fsync2_ecc_repair_def Let_def ecc_result_flip [OF z] by (simp only: if_False option.map xor_twice)
qed

theorem fsync2_repairs_one_bit_witness: "fsync2_ecc_repair (0x1D1 XOR 2 ^ 9) = Some 0x1D1"
proof -
  have "fsync2_ecc_repair 0x1D1 = Some 0x1D1"
    by (simp add: fsync2_ecc_repair_def Let_def ecc_result_def pcheck_def upt_conv_Cons bit_Suc_0_iff)
  then show ?thesis by (rule fsync2_repairs_one_bit) simp
qed

section \<open>The count of unit_busy units\<close>

definition unit_ok :: "fsync_unit \<Rightarrow> bool" where
  "unit_ok u \<longleftrightarrow> fu_shstate u \<in> {0, 1, 2} \<and> length (fu_message u) = 1536 \<and>
     (fu_shstate u \<noteq> 0 \<longrightarrow> fu_msglen u \<le> 1536 \<and> 6 dvd fu_msglen u)"

definition unit_busy :: "fsync_unit \<Rightarrow> int" where
  "unit_busy u = (if fu_shstate u = 0 then 0 else 1)"

definition fsync_ok :: "fsync_decoder \<Rightarrow> bool" where
  "fsync_ok d \<longleftrightarrow> length (fs_units d) = 10 \<and> (\<forall>u \<in> set (fs_units d). unit_ok u) \<and> fs_actives d = sum_list (map unit_busy (fs_units d))"

lemma sum_busy_update:
  "x < length us \<Longrightarrow> sum_list (map unit_busy (us[x := u])) = sum_list (map unit_busy us) + unit_busy u - unit_busy (us ! x)"
proof (induction us arbitrary: x)
  case (Cons v us)
  then show ?case by (cases x) auto
qed simp

lemma set_unit_ok:
  assumes "fsync_ok d" "x < 10" "unit_ok u" "n = unit_busy u - unit_busy (fs_units d ! x)"
  shows "fsync_ok (set_unit x u (d\<lparr>fs_actives := fs_actives d + n\<rparr>))"
  using assms sum_busy_update [of x "fs_units d" u] set_update_subset_insert [of "fs_units d" x u]
  by (auto simp: fsync_ok_def set_unit_def)

lemma set_unit_keeps:
  assumes "fsync_ok d" "x < 10" "unit_ok u" "unit_busy u = unit_busy (fs_units d ! x)"
  shows "fsync_ok (set_unit x u d)"
  using set_unit_ok [OF assms(1-3), of 0] assms(4) by simp

lemma unit_of_ok: "fsync_ok d \<Longrightarrow> x < 10 \<Longrightarrow> unit_ok (fs_units d ! x)"
  by (simp add: fsync_ok_def)

lemma set_unit_simps [simp]:
  "length (fs_units (set_unit x u d)) = length (fs_units d)" "x < length (fs_units d) \<Longrightarrow> fs_units (set_unit x u d) ! x = u"
  "fs_actives (set_unit x u d) = fs_actives d" "fs_callback (set_unit x u d) = fs_callback d" "fs_incr (set_unit x u d) = fs_incr d"
  "set_unit x v (set_unit x u d) = set_unit x v d"
  by (simp_all add: set_unit_def)

definition fsync_call_ok :: "fsync_call \<Rightarrow> bool" where
  "fsync_call_ok c \<longleftrightarrow> fc_raw_msg c \<noteq> [] \<and> 6 dvd length (fc_raw_msg c) \<and> length (fc_raw_msg c) \<le> 1536 \<and> length (fc_payload c) \<le> 128"

lemma fsync_payload_length: "fsync_payload msg n l = Some p \<Longrightarrow> length p \<le> 128"
proof (cases "128 < l")
  case True
  then have "128 \<in> set [0..<l]" by simp
  then show "fsync_payload msg n l = Some p \<Longrightarrow> length p \<le> 128" by (force simp: fsync_payload_def split: if_splits)
qed (auto simp: fsync_payload_def split: if_splits)

lemma dispatch_ok:
  assumes "unit_ok (fs_units d ! x)" "fu_shstate (fs_units d ! x) \<noteq> 0" "0 < fu_msglen (fs_units d ! x)" "c \<in> set (fsync_dispatch x d)"
  shows "fsync_call_ok c"
  using assms fsync_payload_length
  by (auto simp: fsync_dispatch_def Let_def fsync_call_ok_def unit_ok_def min_def split: if_splits option.splits)

lemma append_words_facts:
  assumes "append_words w1 w2 u = Some u'" "unit_ok u" "fu_shstate u \<noteq> 0"
  shows "unit_ok u'" "fu_shstate u' = fu_shstate u"
  using assms by (auto simp: append_words_def Let_def unit_ok_def split: if_splits)

lemma unit_busy_simps [simp]: "unit_busy (next_word u) = 1" "unit_ok u \<Longrightarrow> fu_shstate u \<noteq> 0 \<Longrightarrow> unit_ok (next_word u)"
  by (simp_all add: unit_busy_def next_word_def unit_ok_def)

lemma give_up_ok:
  assumes "fsync_ok d" "x < 10" "fu_shstate (fs_units d ! x) \<noteq> 0"
  shows "fsync_ok (fst (give_up x d))" "\<forall>c \<in> set (snd (give_up x d)). fsync_call_ok c"
proof -
  let ?u = "fs_units d ! x"
  have u: "unit_ok ?u" using assms(1,2) by (rule unit_of_ok)
  have "fst (give_up x d) = set_unit x (?u\<lparr>fu_shstate := 0, fu_fs2state := 0\<rparr>) (d\<lparr>fs_actives := fs_actives d + (-1)\<rparr>)"
    by (simp add: give_up_def Let_def)
  moreover have "unit_ok (?u\<lparr>fu_shstate := 0, fu_fs2state := 0\<rparr>)" using u by (simp add: unit_ok_def)
  ultimately show "fsync_ok (fst (give_up x d))"
    using assms set_unit_ok [OF assms(1,2), of "?u\<lparr>fu_shstate := 0, fu_fs2state := 0\<rparr>" "-1"] by (simp add: unit_busy_def)
  show "\<forall>c \<in> set (snd (give_up x d)). fsync_call_ok c"
    using dispatch_ok [of "d\<lparr>fs_actives := fs_actives d - 1\<rparr>" x] u assms(3) by (auto simp: give_up_def Let_def)
qed

lemma give_up_units: "length (fs_units (fst (give_up x d))) = length (fs_units d)"
  by (simp add: give_up_def Let_def)

definition fsync_result_ok :: "(fsync_decoder \<times> fsync_call list) option \<Rightarrow> bool" where
  "fsync_result_ok r \<longleftrightarrow> (\<forall>d cs. r = Some (d, cs) \<longrightarrow> fsync_ok d \<and> (\<forall>c \<in> set cs. fsync_call_ok c))"

lemma fsync_result_simps [simp]:
  "fsync_result_ok None" "fsync_result_ok (Some r) \<longleftrightarrow> fsync_ok (fst r) \<and> (\<forall>c \<in> set (snd r). fsync_call_ok c)"
  by (cases r, auto simp: fsync_result_ok_def)+

lemma fsync_result_bind:
  assumes "fsync_result_ok r" "\<And>d cs. r = Some (d, cs) \<Longrightarrow> fsync_ok d \<Longrightarrow> \<forall>c \<in> set cs. fsync_call_ok c \<Longrightarrow> fsync_result_ok (f (d, cs))"
  shows "fsync_result_ok (r \<bind> f)"
  using assms by (cases r) (auto simp: fsync_result_ok_def)

text \<open>A unit at work that stays at work keeps the decoder.\<close>

lemma working_ok:
  assumes "fsync_ok d" "x < 10" "fu_shstate (fs_units d ! x) \<noteq> 0" "unit_ok u" "fu_shstate u \<noteq> 0"
  shows "fsync_result_ok (Some (set_unit x u d, []))"
  using assms by (simp add: set_unit_keeps unit_busy_def)

lemma append_ok:
  assumes "fsync_ok d" "x < 10" "fu_shstate (fs_units d ! x) \<noteq> 0" "unit_ok u" "fu_shstate u \<noteq> 0"
    and g: "\<And>v. fu_shstate (g v) = fu_shstate v" "\<And>v. fu_msglen (g v) = fu_msglen v" "\<And>v. fu_message (g v) = fu_message v"
  shows "fsync_result_ok (append_words w1 w2 u \<bind> (\<lambda>v. Some (set_unit x (next_word (g v)) d, [])))"
proof (cases "append_words w1 w2 u")
  case (Some v)
  have "unit_ok v" "fu_shstate v \<noteq> 0" using append_words_facts [OF Some assms(4,5)] assms(5) by simp_all
  then have "unit_ok (next_word (g v))" by (simp add: unit_ok_def next_word_def g)
  moreover have "fu_shstate (next_word (g v)) \<noteq> 0" by (simp add: next_word_def)
  ultimately show ?thesis using Some working_ok [OF assms(1-3)] by simp
qed simp

lemma give_up_result:
  assumes "fsync_ok d" "x < 10" "fu_shstate (fs_units d ! x) \<noteq> 0"
  shows "fsync_result_ok (Some (give_up x d))"
  using give_up_ok [OF assms] by simp

lemma procbits_ok:
  assumes "fsync_ok d" "x < 10" "fu_shstate (fs_units d ! x) \<noteq> 0"
  shows "fsync_result_ok (fsync_procbits x d)"
proof -
  let ?u = "fs_units d ! x"
  have u: "unit_ok ?u" using assms(1,2) by (rule unit_of_ok)
  have n: "x < length (fs_units d)" using assms(1,2) by (simp add: fsync_ok_def)
  have nw: "fsync_result_ok (Some (set_unit x (next_word v) d, []))" if "unit_ok v" "fu_shstate v \<noteq> 0" for v
    using working_ok [OF assms, of "next_word v"] that by (simp add: next_word_def unit_ok_def)
  have s3: "fsync_result_ok (Some (give_up x (set_unit x v d)))" if "unit_ok v" "fu_shstate v \<noteq> 0" for v
  proof (rule give_up_result)
    show "fsync_ok (set_unit x v d)" using working_ok [OF assms that] by simp
    show "fu_shstate (fs_units (set_unit x v d) ! x) \<noteq> 0" using n that by simp
  qed (rule assms(2))
  have ab: "fsync_result_ok (append_words w w' v \<bind> (\<lambda>v. Some (set_unit x (next_word (v\<lparr>fu_is_fs2 := b\<rparr>)) d, [])))"
    "fsync_result_ok (append_words w w' v \<bind> (\<lambda>v. Some (set_unit x (next_word (v\<lparr>fu_is_fs2 := b, fu_fs2state := 0\<rparr>)) d, [])))"
    if "unit_ok v" "fu_shstate v \<noteq> 0" for w w' v b
    by (rule append_ok [OF assms that]; simp)+
  have keep: "unit_ok (?u\<lparr>fu_fs2w1 := a\<rparr>)" "unit_ok (?u\<lparr>fu_fs2w2 := a\<rparr>)" "unit_ok (?u\<lparr>fu_fs2w1 := a, fu_fs2state := z\<rparr>)"
      "unit_ok (?u\<lparr>fu_fs2w2 := a, fu_fs2state := z\<rparr>)" "unit_ok (?u\<lparr>fu_fs2state := z\<rparr>)" for a z
    using u by (simp_all add: unit_ok_def)
  have if_ok: "fsync_result_ok (if c then a else b)" if "c \<Longrightarrow> fsync_result_ok a" "\<not> c \<Longrightarrow> fsync_result_ok b" for c a b
    using that by simp
  show ?thesis
    unfolding fsync_procbits_def Let_def
    apply (rule if_ok, rule ab, rule u, rule assms)
    apply (rule if_ok)
     apply (rule if_ok, rule nw, rule keep, simp add: assms)
     apply (rule if_ok, rule nw, rule keep, simp add: assms)
     apply (rule if_ok, rule nw, rule keep, simp add: assms)
     apply (rule if_ok)
      apply (rule if_ok, rule ab, rule keep, simp add: assms)
      apply (rule s3, rule keep, simp add: assms)
     apply (rule working_ok [OF assms], rule keep, simp add: assms)
    apply (rule give_up_result [OF assms])
    done
qed

lemma shift_sync_simps [simp]:
  "fu_shstate (shift_sync u) = fu_shstate u" "fu_msglen (shift_sync u) = fu_msglen u" "fu_message (shift_sync u) = fu_message u"
  "fu_shcount (shift_sync u) = fu_shcount u" "fu_word1 (shift_sync u) = fu_word1 u" "fu_is_fs2 (shift_sync u) = fu_is_fs2 u"
  by (simp_all add: shift_sync_def Let_def)

lemma shiftin_ok:
  assumes "fsync_ok d" "x < 10"
  shows "fsync_result_ok (fsync_shiftin x d)"
proof -
  let ?u = "shift_sync (fs_units d ! x)"
  have o: "unit_ok (fs_units d ! x)" using assms by (rule unit_of_ok)
  have u: "unit_ok ?u" using o by (simp add: unit_ok_def)
  have n: "x < length (fs_units d)" using assms by (simp add: fsync_ok_def)
  consider "fu_shstate ?u = 0" | "fu_shstate ?u = 1" | "fu_shstate ?u = 2" using u by (auto simp: unit_ok_def)
  then show ?thesis
  proof cases
    case 1
    let ?v = "?u\<lparr>fu_word1 := fu_synclow ?u, fu_shstate := 2, fu_shcount := 32, fu_msglen := 0, fu_fs2state := 0\<rparr>"
    have "fsync_ok (set_unit x ?v (d\<lparr>fs_actives := fs_actives d + 1\<rparr>))"
      by (rule set_unit_ok [OF assms]) (use 1 u in \<open>auto simp: unit_ok_def unit_busy_def\<close>)
    moreover have "fsync_ok (set_unit x ?u d)"
      by (rule set_unit_keeps [OF assms u]) (simp add: unit_busy_def)
    ultimately show ?thesis using 1 by (simp add: fsync_shiftin_def Let_def)
  next
    case 2
    have "unit_ok (?u\<lparr>fu_shcount := c\<rparr>)" "unit_ok (?u\<lparr>fu_shcount := c, fu_word1 := w\<rparr>)" "unit_ok (?u\<lparr>fu_shcount := 32, fu_word1 := w, fu_shstate := 2\<rparr>)" for c w
      using u 2 by (simp_all add: unit_ok_def)
    then show ?thesis
      unfolding fsync_shiftin_def Let_def using 2 assms o
      by (auto intro!: set_unit_keeps simp: unit_busy_def unit_ok_def)
  next
    case 3
    let ?v = "?u\<lparr>fu_shcount := fu_shcount ?u - 1\<rparr>"
    let ?w = "?v\<lparr>fu_word2 := fu_synclow ?v\<rparr>"
    have "fsync_ok (set_unit x ?w d)" "fsync_ok (set_unit x ?v d)"
      by (rule set_unit_keeps [OF assms]; use 3 u in \<open>auto simp: unit_ok_def unit_busy_def\<close>)+
    moreover have "fu_shstate (fs_units (set_unit x ?w d) ! x) \<noteq> 0" using n 3 by simp
    ultimately show ?thesis using 3 procbits_ok [OF _ assms(2)] by (simp add: fsync_shiftin_def Let_def)
  qed
qed

lemma shift_units_ok: "fsync_ok d \<Longrightarrow> \<forall>x \<in> set xs. x < 10 \<Longrightarrow> fsync_result_ok (shift_units xs d)"
proof (induction xs arbitrary: d)
  case (Cons x xs)
  show ?case
    unfolding shift_units.simps
    by (rule fsync_result_bind [OF shiftin_ok], use Cons.prems in \<open>simp_all\<close>, rule fsync_result_bind [OF Cons.IH]) auto
qed simp

lemma accumulate_keeps:
  "accumulate value slow u = Some v \<Longrightarrow> unit_ok u \<Longrightarrow> unit_ok v \<and> unit_busy v = unit_busy u"
  by (auto simp: accumulate_def Let_def unit_ok_def unit_busy_def split: bind_splits)

lemma unit_sample_ok:
  assumes "fsync_ok d" "x < 10"
  shows "fsync_result_ok (fsync_unit_sample value x d)"
proof (cases "accumulate value (x < FSYNC_ND_12) (fs_units d ! x)")
  case (Some u)
  have u: "unit_ok u" "unit_busy u = unit_busy (fs_units d ! x)"
    using accumulate_keeps [OF Some] assms by (auto simp: fsync_ok_def)
  have keep: "fsync_ok (set_unit x (u\<lparr>fu_th := a, fu_thx := b\<rparr>) d)"
      "fsync_ok (set_unit x (u\<lparr>fu_th := a, fu_thx := b, fu_xorb := c, fu_accum0 := 0, fu_accum1 := 0, fu_accum0i := 0, fu_accum1i := 0\<rparr>) d)" for a b c
    using u by (intro set_unit_keeps [OF assms]; simp add: unit_ok_def unit_busy_def)+
  have th: "fsync_ok (set_unit x ((fs_units d ! x)\<lparr>fu_th := a\<rparr>) d)" if "fsync_ok d" for d a
    using that unit_of_ok [OF that assms(2)] by (intro set_unit_keeps [OF that assms(2)]) (simp_all add: unit_ok_def unit_busy_def)
  show ?thesis
    unfolding fsync_unit_sample_def Let_def Some
    by (auto simp: fsync_result_ok_def keep split: bind_splits if_splits dest!: shiftin_ok [OF keep(2) assms(2), unfolded fsync_result_ok_def, rule_format] intro: th)
qed (simp add: fsync_unit_sample_def Let_def)

lemma all_units_ok: "fsync_ok d \<Longrightarrow> \<forall>x \<in> set xs. x < 10 \<Longrightarrow> fsync_result_ok (fsync_all_units value xs d)"
proof (induction xs arbitrary: d)
  case (Cons x xs)
  show ?case
    unfolding fsync_all_units.simps
    by (rule fsync_result_bind [OF unit_sample_ok], use Cons.prems in \<open>simp_all\<close>, rule fsync_result_bind [OF Cons.IH]) auto
qed simp

lemma process_samples_ok: "fsync_ok d \<Longrightarrow> fsync_result_ok (fsync_decoder_process_samples vs d)"
proof (induction vs arbitrary: d)
  case (Cons v vs)
  show ?case
    unfolding fsync_decoder_process_samples.simps
    by (rule fsync_result_bind [OF all_units_ok], use Cons.prems in \<open>simp_all\<close>, rule fsync_result_bind [OF Cons.IH]) auto
qed simp

definition fsync_room :: "fsync_decoder \<Rightarrow> bool" where
  "fsync_room junk \<longleftrightarrow> length (fs_units junk) = 10 \<and> (\<forall>u \<in> set (fs_units junk). length (fu_message u) = 1536)"

definition fresh :: "fsync_unit \<Rightarrow> bool" where
  "fresh v \<longleftrightarrow> fu_shstate v = 0 \<and> length (fu_message v) = 1536"

lemma new_units_fresh:
  "new_units is us = Some vs \<Longrightarrow> length is = length us \<Longrightarrow> \<forall>u \<in> set us. length (fu_message u) = 1536 \<Longrightarrow>
    length vs = length us \<and> (\<forall>v \<in> set vs. fresh v)"
proof (induction "is" us arbitrary: vs rule: new_units.induct)
  case (1 i "is" u us)
  then obtain th ws where h: "wrap_phase (fl (of_nat i * fl (TWOPI / 5))) = Some th" and w: "new_units is us = Some ws"
      and vs: "vs = u\<lparr>fu_th := th, fu_thx := th, fu_xorb := False, fu_shstate := 0, fu_shcount := 0, fu_fs2state := 0\<rparr> # ws"
    by (auto split: bind_splits)
  have "length ws = length us \<and> (\<forall>v \<in> set ws. fresh v)" by (rule "1.IH" [OF h w]) (use "1.prems" in auto)
  then show ?case using vs "1.prems"(3) by (simp add: fresh_def)
qed simp_all

lemma fsync_new_ok:
  assumes "fsync_room junk" "fsync_decoder_new junk rate = Some d"
  shows "fsync_ok d"
proof -
  obtain us where us: "new_units [0..<10] (fs_units junk) = Some us" and d: "fs_units d = us" "fs_actives d = 0"
    using assms(2) by (auto simp: fsync_decoder_new_def split: if_splits bind_splits)
  from new_units_fresh [OF us] assms(1) have n: "length us = 10" and f: "\<forall>v \<in> set us. fresh v"
    by (auto simp: fsync_room_def)
  have "map unit_busy us = map (\<lambda>_. 0) us" using f by (intro map_cong) (auto simp: fresh_def unit_busy_def)
  then have "sum_list (map unit_busy us) = 0" by (simp only: sum_list_0)
  then show ?thesis using d n f by (simp add: fsync_ok_def unit_ok_def fresh_def)
qed



section \<open>A message on the air\<close>

fun feed :: "nat \<Rightarrow> bool list \<Rightarrow> fsync_decoder \<Rightarrow> (fsync_decoder \<times> fsync_call list) option" where
  "feed x [] d = Some (d, [])"
| "feed x (b # bs) d =
     do { (d, cs) \<leftarrow> fsync_shiftin x (set_unit x ((fs_units d ! x)\<lparr>fu_xorb := b\<rparr>) d); (d, cs') \<leftarrow> feed x bs d; Some (d, cs @ cs') }"

lemma feed_append: "feed x (as @ bs) d = do { (d, cs) \<leftarrow> feed x as d; (d, cs') \<leftarrow> feed x bs d; Some (d, cs @ cs') }"
  proof (induction as arbitrary: d)
  case (Cons a as)
  show ?case by (cases "fsync_shiftin x (set_unit x ((fs_units d ! x)\<lparr>fu_xorb := a\<rparr>) d)") (auto simp: Cons split: bind_splits)
qed (auto split: bind_splits)

definition alike :: "fsync_unit \<Rightarrow> fsync_unit \<Rightarrow> bool" where
  "alike u v \<longleftrightarrow> fu_word1 v = fu_word1 u \<and> fu_message v = fu_message u \<and> fu_msglen v = fu_msglen u \<and>
     fu_fs2state v = fu_fs2state u \<and> fu_is_fs2 v = fu_is_fs2 u \<and> fu_shstate v = fu_shstate u"

lemma set_unit_self [simp]: "set_unit x (fs_units d ! x) d = d"
  by (simp add: set_unit_def)

lemma feed_quiet:
  assumes "x < length (fs_units d)" "fs_units d ! x = u" "fu_shstate u \<in> {1, 2}" "int (length bs) < fu_shcount u"
  shows "\<exists>v. feed x bs d = Some (set_unit x v d, []) \<and> alike u v \<and> fu_shcount v = fu_shcount u - int (length bs) \<and>
    fu_synclow v = push_bits bs (fu_synclow u)"
  using assms
proof (induction bs arbitrary: d u)
  case Nil
  then show ?case by (intro exI [of _ u]) (auto simp: alike_def push_bits_def)
next
  case (Cons b bs)
  let ?s = "shift_sync (u\<lparr>fu_xorb := b\<rparr>)"
  let ?v = "?s\<lparr>fu_shcount := fu_shcount u - 1\<rparr>"
  have step: "fsync_shiftin x (set_unit x (u\<lparr>fu_xorb := b\<rparr>) d) = Some (set_unit x ?v d, [])"
    using Cons.prems by (auto simp: fsync_shiftin_def Let_def)
  have "\<exists>v. feed x bs (set_unit x ?v d) = Some (set_unit x v (set_unit x ?v d), []) \<and> alike ?v v \<and>
      fu_shcount v = fu_shcount ?v - int (length bs) \<and> fu_synclow v = push_bits bs (fu_synclow ?v)"
    using Cons.prems by (intro Cons.IH) auto
  then show ?case
    using Cons.prems step by (auto simp: alike_def push_bits_def shift_sync_def Let_def)
qed

lemma feed_first:
  assumes "x < length (fs_units d)" "fs_units d ! x = u" "fu_shstate u = 1" "fu_shcount u = 32"
  shows "\<exists>v. feed x (msb_bits w) d = Some (set_unit x v d, []) \<and> alike (u\<lparr>fu_word1 := w, fu_shstate := 2\<rparr>) v \<and> fu_shcount v = 32"
proof -
  obtain as b where w: "msb_bits w = as @ [b]" and n: "length as = 31" using msb_bits_split by blast
  obtain v where v: "feed x as d = Some (set_unit x v d, [])" "alike u v" "fu_shcount v = 1" "fu_synclow v = push_bits as (fu_synclow u)"
    using feed_quiet [OF assms(1,2), of as] assms(3,4) n by auto
  let ?s = "shift_sync (v\<lparr>fu_xorb := b\<rparr>)"
  have l: "fu_synclow ?s = w"
    using push_msb_bits [of w "fu_synclow u"] unfolding w push_bits_append v(4) [symmetric] by (cases b) (simp_all add: shift_sync_def Let_def)
  have st: "fu_shstate v = 1" using v(2) assms(3) by (simp add: alike_def)
  have "feed x (msb_bits w) d = Some (set_unit x (?s\<lparr>fu_word1 := w, fu_shcount := 32, fu_shstate := 2\<rparr>) d, [])"
    unfolding w feed_append v(1) using assms(1) st v(3) l by (simp add: fsync_shiftin_def Let_def)
  moreover have "alike (u\<lparr>fu_word1 := w, fu_shstate := 2\<rparr>) (?s\<lparr>fu_word1 := w, fu_shcount := 32, fu_shstate := 2\<rparr>)"
    using v(2) by (simp add: alike_def shift_sync_def Let_def)
  ultimately show ?thesis by auto
qed

lemma feed_second:
  assumes "x < length (fs_units d)" "fs_units d ! x = u" "fu_shstate u = 2" "fu_shcount u = 32"
  shows "\<exists>v. feed x (msb_bits w) d = fsync_procbits x (set_unit x v d) \<and> alike u v \<and> fu_word2 v = w"
proof -
  obtain as b where w: "msb_bits w = as @ [b]" and n: "length as = 31" using msb_bits_split by blast
  obtain v where v: "feed x as d = Some (set_unit x v d, [])" "alike u v" "fu_shcount v = 1" "fu_synclow v = push_bits as (fu_synclow u)"
    using feed_quiet [OF assms(1,2), of as] assms(3,4) n by auto
  let ?s = "shift_sync (v\<lparr>fu_xorb := b\<rparr>)"
  have l: "fu_synclow ?s = w"
    using push_msb_bits [of w "fu_synclow u"] unfolding w push_bits_append v(4) [symmetric] by (cases b) (simp_all add: shift_sync_def Let_def)
  have st: "fu_shstate v = 2" using v(2) assms(3) by (simp add: alike_def)
  let ?v = "?s\<lparr>fu_shcount := 0, fu_word2 := w\<rparr>"
  have "feed x (msb_bits w) d = fsync_procbits x (set_unit x ?v d)"
    unfolding w feed_append v(1) using assms(1) st v(3) l
    by (cases "fsync_procbits x (set_unit x ?v d)") (auto simp: fsync_shiftin_def Let_def)
  moreover have "alike u ?v" using v(2) by (simp add: alike_def shift_sync_def Let_def)
  ultimately show ?thesis by auto
qed

definition valid_word :: "32 word \<times> 32 word \<Rightarrow> bool" where
  "valid_word w = (fsync_crc (fst w) (snd w) = snd w AND 0xFFFF)"

definition octets_of :: "32 word \<times> 32 word \<Rightarrow> octet list" where
  "octets_of w = [ucast (drop_bit 24 (fst w)), ucast (drop_bit 16 (fst w)), ucast (drop_bit 8 (fst w)), ucast (fst w),
     ucast (drop_bit 24 (snd w)), ucast (drop_bit 16 (snd w))]"

definition fsync_air_word :: "32 word \<times> 32 word \<Rightarrow> bool list" where
  "fsync_air_word w = msb_bits (fst w) @ msb_bits (snd w)"

lemma take_write6:
  assumes "n + 6 \<le> length ms"
  shows "take (n + 6) (ms[n := a, n + 1 := b, n + 2 := c, n + 3 := e, n + 4 := f, n + 5 := g]) = take n ms @ [a, b, c, e, f, g]"
proof (rule nth_equalityI)
  fix i assume "i < length (take (n + 6) (ms[n := a, n + 1 := b, n + 2 := c, n + 3 := e, n + 4 := f, n + 5 := g]))"
  then have "i < n + 6" by simp
  then consider "i < n" | "i = n" | "i = n + 1" | "i = n + 2" | "i = n + 3" | "i = n + 4" | "i = n + 5" by linarith
  then show "take (n + 6) (ms[n := a, n + 1 := b, n + 2 := c, n + 3 := e, n + 4 := f, n + 5 := g]) ! i = (take n ms @ [a, b, c, e, f, g]) ! i"
    by cases (use assms in \<open>simp_all add: nth_append nth_list_update\<close>)
qed (use assms in simp)

definition collected :: "nat \<Rightarrow> octet list \<Rightarrow> fsync_unit \<Rightarrow> bool" where
  "collected n ms u \<longleftrightarrow> fu_shstate u = 1 \<and> fu_shcount u = 32 \<and> length (fu_message u) = 1536 \<and> fu_msglen u = 6 * n \<and>
     n \<le> 256 \<and> take (6 * n) (fu_message u) = ms \<and> (0 < n \<longrightarrow> \<not> fu_is_fs2 u)"

lemma feed_word:
  assumes "x < length (fs_units d)" "collected n ms (fs_units d ! x)" "valid_word w"
  shows "if n < 256 then \<exists>v. feed x (fsync_air_word w) d = Some (set_unit x v d, []) \<and> collected (n + 1) (ms @ octets_of w) v
         else feed x (fsync_air_word w) d = None"
proof -
  let ?u = "fs_units d ! x"
  obtain v where v: "feed x (msb_bits (fst w)) d = Some (set_unit x v d, [])"
      "alike (?u\<lparr>fu_word1 := fst w, fu_shstate := 2\<rparr>) v" "fu_shcount v = 32"
    using feed_first [OF assms(1) refl, of "fst w"] assms(2) by (auto simp: collected_def)
  have "\<exists>z. feed x (msb_bits (snd w)) (set_unit x v d) = fsync_procbits x (set_unit x z (set_unit x v d)) \<and> alike v z \<and> fu_word2 z = snd w"
    using assms(1) v by (intro feed_second) (auto simp: alike_def)
  then obtain z where z: "feed x (msb_bits (snd w)) (set_unit x v d) = fsync_procbits x (set_unit x z d)" "alike v z" "fu_word2 z = snd w"
    by auto
  have e: "fu_word1 z = fst w" "fu_message z = fu_message ?u" "fu_msglen z = 6 * n" "length (fu_message ?u) = 1536" "take (6 * n) (fu_message ?u) = ms"
    using assms(2) v(2) z(2) by (simp_all add: alike_def collected_def)
  have p: "fsync_procbits x (set_unit x z d) =
      append_words (fst w) (snd w) z \<bind> (\<lambda>u. Some (set_unit x (next_word (u\<lparr>fu_is_fs2 := False\<rparr>)) d, []))"
    using assms(1,3) z(3) e(1) by (simp add: fsync_procbits_def Let_def valid_word_def)
  have f: "feed x (fsync_air_word w) d = fsync_procbits x (set_unit x z d)"
    by (cases "fsync_procbits x (set_unit x z d)") (auto simp: fsync_air_word_def feed_append v(1) z(1))
  show ?thesis
    unfolding f p using e take_write6 [of "6 * n" "fu_message ?u"]
    by (auto simp: append_words_def Let_def collected_def next_word_def octets_of_def algebra_simps)
qed

lemma feed_words:
  assumes "x < length (fs_units d)" "collected n ms (fs_units d ! x)" "\<forall>w \<in> set ws. valid_word w"
  shows "if n + length ws \<le> 256
         then \<exists>v. feed x (concat (map fsync_air_word ws)) d = Some (set_unit x v d, []) \<and> collected (n + length ws) (ms @ concat (map octets_of ws)) v
         else feed x (concat (map fsync_air_word ws)) d = None"
  using assms
proof (induction ws arbitrary: d n ms)
  case Nil
  then show ?case by (auto intro!: exI [of _ "fs_units d ! x"] simp: collected_def)
next
  case (Cons w ws)
  show ?case
  proof (cases "n < 256")
    case True
    then obtain v where v: "feed x (fsync_air_word w) d = Some (set_unit x v d, [])" "collected (n + 1) (ms @ octets_of w) v"
      using feed_word [OF Cons.prems(1,2), of w] Cons.prems(3) by auto
    have "if n + 1 + length ws \<le> 256
         then \<exists>z. feed x (concat (map fsync_air_word ws)) (set_unit x v d) = Some (set_unit x z (set_unit x v d), []) \<and>
           collected (n + 1 + length ws) ((ms @ octets_of w) @ concat (map octets_of ws)) z
         else feed x (concat (map fsync_air_word ws)) (set_unit x v d) = None"
      using Cons.prems v by (intro Cons.IH) auto
    then show ?thesis using v by (auto simp: feed_append split: if_splits)
  next
    case False
    then show ?thesis using feed_word [OF Cons.prems(1,2), of w] Cons.prems(2,3) by (simp add: feed_append)
  qed
qed

lemma feed_spoiled:
  assumes "x < length (fs_units d)" "collected n ms (fs_units d ! x)" "\<not> valid_word w"
    and "fsync2_ecc_repair (unat (fst w AND 0xFFFF)) = None"
  shows "\<exists>z. feed x (fsync_air_word w) d = Some (give_up x (set_unit x z d)) \<and> fu_msglen z = 6 * n \<and>
    take (6 * n) (fu_message z) = ms \<and> (0 < n \<longrightarrow> \<not> fu_is_fs2 z)"
proof -
  let ?u = "fs_units d ! x"
  obtain v where v: "feed x (msb_bits (fst w)) d = Some (set_unit x v d, [])"
      "alike (?u\<lparr>fu_word1 := fst w, fu_shstate := 2\<rparr>) v" "fu_shcount v = 32"
    using feed_first [OF assms(1) refl, of "fst w"] assms(2) by (auto simp: collected_def)
  have "\<exists>z. feed x (msb_bits (snd w)) (set_unit x v d) = fsync_procbits x (set_unit x z (set_unit x v d)) \<and> alike v z \<and> fu_word2 z = snd w"
    using assms(1) v by (intro feed_second) (auto simp: alike_def)
  then obtain z where z: "feed x (msb_bits (snd w)) (set_unit x v d) = fsync_procbits x (set_unit x z d)" "alike v z" "fu_word2 z = snd w"
    by auto
  have e: "fu_word1 z = fst w" using v(2) z(2) by (simp add: alike_def)
  have p: "fsync_procbits x (set_unit x z d) = Some (give_up x (set_unit x z d))"
    using assms(1,3,4) z(3) e by (simp add: fsync_procbits_def Let_def valid_word_def)
  have "feed x (fsync_air_word w) d = Some (give_up x (set_unit x z d))"
    by (cases "give_up x (set_unit x z d)") (auto simp: fsync_air_word_def feed_append v(1) z(1) p)
  then show ?thesis using assms(2) v(2) z(2) by (intro exI [of _ z]) (simp add: alike_def collected_def)
qed

lemma nibble_shift: "(a * 256) AND 0xF00 = (a mod 16) * (256 :: int)"
proof -
  have "(a * 256) AND 0xF00 = push_bit 8 a AND push_bit 8 0xF" by (simp add: push_bit_eq_mult)
  also have "\<dots> = push_bit 8 (a AND 0xF)" by (simp only: push_bit_and)
  also have "a AND 0xF = a mod 16" using take_bit_eq_mask [of 4 a] by (simp add: mask_eq_exp_minus_1 take_bit_eq_mod)
  finally show ?thesis by (simp add: push_bit_eq_mult)
qed

text \<open>The first six octets: command, sender and receiver.\<close>

definition fsync_header :: "octet \<Rightarrow> octet \<Rightarrow> int \<Rightarrow> int \<Rightarrow> int \<Rightarrow> octet list" where
  "fsync_header b0 b1 fleet from_id to_id =
     [b0, b1, word_of_int fleet, word_of_int (from_id div 16), word_of_int (from_id mod 16 * 16 + to_id div 256), word_of_int (to_id mod 256)]"

definition example_unit :: fsync_unit where
  "example_unit = \<lparr>fu_th = 0, fu_thx = 0, fu_accum0 = 0, fu_accum1 = 0, fu_accum0i = 0, fu_accum1i = 0, fu_xorb = True, fu_synclow = 5,
     fu_synchigh = 6, fu_shstate = 1, fu_shcount = 32, fu_fs2state = 0, fu_fs2w1 = 10, fu_fs2w2 = 11, fu_is_fs2 = True, fu_word1 = 12,
     fu_word2 = 13, fu_message = replicate 1536 14, fu_msglen = 0\<rparr>"

definition example_fsync :: fsync_decoder where
  "example_fsync = \<lparr>fs_incr = 3, fs_units = replicate 10 example_unit, fs_actives = 1, fs_callback = True\<rparr>"

lemma example_collected: "collected 0 [] (fs_units example_fsync ! 7)" "7 < length (fs_units example_fsync)"
  by (simp_all add: collected_def example_fsync_def example_unit_def)

lemma example_fsync_words: "valid_word (0x2030054D, 0x2309A628)" "valid_word (0x11223344, 0x5566C140)" "\<not> valid_word (0x6000, 0)"
  by code_simp+





lemma fsync2_fourth_unit_unchecked:
  assumes "x < length (fs_units d)" "fs_units d ! x = u" "fu_fs2state u = 0" "fu_word1 u = 0" "fu_word2 u = 0x60000000"
  shows "fsync2_ecc_repair 0x6000 = None"
    "fsync_procbits x d = Some (set_unit x (next_word (u\<lparr>fu_fs2w1 := 0x000F0000, fu_fs2state := 1\<rparr>)) d, [])"
proof -
  show n: "fsync2_ecc_repair 0x6000 = None"
    by (simp add: fsync2_ecc_repair_def Let_def ecc_result_def pcheck_def rpcheck_def upt_conv_Cons bit_Suc_0_iff)
  have z: "fsync2_ecc_repair 0 = Some 0" by (simp add: fsync2_ecc_repair_def ecc_result_def)
  have c: "fsync_crc 0 0x60000000 \<noteq> 0" by code_simp
  show "fsync_procbits x d = Some (set_unit x (next_word (u\<lparr>fu_fs2w1 := 0x000F0000, fu_fs2state := 1\<rparr>)) d, [])"
    using assms c n z by (simp add: fsync_procbits_def Let_def ec_word_def ec_nibble_def)
qed

lemma fsync_message_dropped:
  assumes "x \<noteq> y" "fs_actives d = 2" "fu_msglen (fs_units d ! x) = 0"
  shows "snd (give_up y d) = []" "snd (give_up x (fst (give_up y d))) = []"
  using assms by (simp_all add: give_up_def Let_def set_unit_def)

end
