(* ===== verification/Star_Properties.thy ===== *)
theory Star_Properties
  imports Star_Decode
begin

text \<open>
  Properties of the STAR decoder: what its checksum detects, a burst from its bits to the reported unit ID, and
  the index into its table of sines.
\<close>

section \<open>The checksum\<close>

definition star_syndrome :: "32 word \<Rightarrow> 32 word" where
  "star_syndrome w = (fold (star_crc_step w) [6..<27] 0 XOR w) AND 0x3F"

lemma bit_push_one_word: "bit (push_bit 1 w) k \<longleftrightarrow> k < 32 \<and> 0 < k \<and> bit w (k - 1)" for w :: "32 word"
  by (simp only: bit_push_bit_iff) auto

lemma star_crc_step_xor:
  "star_crc_step (a XOR b) i (x XOR y) = star_crc_step a i x XOR star_crc_step b i y"
  unfolding star_crc_step_def Let_def
  by (rule bit_word_eqI) (auto simp only: bit_xor_iff bit_push_one_word split: if_splits)

lemma star_crc_fold_xor:
  "fold (star_crc_step (a XOR b)) is (x XOR y) = fold (star_crc_step a) is x XOR fold (star_crc_step b) is y"
  by (induction "is" arbitrary: x y) (simp_all add: star_crc_step_xor)

lemma star_crc_difference:
  assumes "star_crc a = a AND 0x3F"
  shows "star_crc b = b AND 0x3F \<longleftrightarrow> star_syndrome (a XOR b) = 0"
proof -
  have "fold (star_crc_step (a XOR b)) [6..<27] (0x2A XOR 0x2A) = fold (star_crc_step a) [6..<27] 0x2A XOR fold (star_crc_step b) [6..<27] 0x2A"
    by (rule star_crc_fold_xor)
  then have s: "star_syndrome (a XOR b) = (star_crc a XOR (a AND 0x3F)) XOR (star_crc b XOR (b AND 0x3F))"
    unfolding star_syndrome_def star_crc_def by (intro bit_word_eqI) (auto simp: bit_xor_iff bit_and_iff)
  show ?thesis
    unfolding s assms by (auto intro!: bit_word_eqI dest: arg_cong [of _ _ bit] simp: bit_xor_iff fun_eq_iff)
qed

lemma star_syndrome_xor: "star_syndrome (a XOR b) = star_syndrome a XOR star_syndrome b"
  unfolding star_syndrome_def star_crc_fold_xor [of a b _ 0 0, simplified]
  by (rule bit_word_eqI) (auto simp: bit_xor_iff bit_and_iff)

definition odd_weight :: "32 word \<Rightarrow> bool" where
  "odd_weight w = (bit w 0 \<noteq> (bit w 1 \<noteq> (bit w 2 \<noteq> (bit w 3 \<noteq> (bit w 4 \<noteq> bit w 5)))))"

lemma xor_zero: "a XOR b = 0 \<longleftrightarrow> a = b" for a b :: "32 word"
  by (metis xor.assoc xor.left_neutral xor_self_eq)

lemma odd_weight_xor: "odd_weight (a XOR b) = (odd_weight a \<noteq> odd_weight b)"
  by (auto simp: odd_weight_def bit_xor_iff)

text \<open>Only the low six bits of the register matter, so the fsync_columns can be computed on them.\<close>

definition low_step :: "32 word \<Rightarrow> nat \<Rightarrow> 32 word \<Rightarrow> 32 word" where
  "low_step w i c = star_crc_step w i c AND 0x3F"

lemma star_crc_step_low: "star_crc_step w i c AND 0x3F = low_step w i (c AND 0x3F)"
proof (rule bit_word_eqI)
  fix n :: nat
  have m: "bit (0x3F :: 32 word) k \<longleftrightarrow> k < 6" for k
    using bit_mask_iff [where 'a = "32 word", of 6 k] by (auto simp: mask_eq_exp_minus_1)
  assume "n < LENGTH(32)"
  then show "bit (star_crc_step w i c AND 0x3F) n = bit (low_step w i (c AND 0x3F)) n"
    unfolding low_step_def star_crc_step_def Let_def
    by (auto simp only: bit_and_iff bit_xor_iff bit_push_one_word m split: if_splits)
qed

lemma star_crc_fold_low: "fold (star_crc_step w) is c AND 0x3F = fold (low_step w) is (c AND 0x3F)"
  by (induction "is" arbitrary: c) (simp_all add: star_crc_step_low)

lemma star_syndrome_low: "star_syndrome w = fold (low_step w) [6..<27] 0 XOR (w AND 0x3F)"
proof -
  have "star_syndrome w = (fold (star_crc_step w) [6..<27] 0 AND 0x3F) XOR (w AND 0x3F)"
    unfolding star_syndrome_def by (rule bit_word_eqI) (auto simp only: bit_xor_iff bit_and_iff)
  also have "fold (star_crc_step w) [6..<27] 0 AND 0x3F = fold (low_step w) [6..<27] 0"
    unfolding star_crc_fold_low by simp
  finally show ?thesis .
qed

text \<open>One wrong bit: nothing happens until it is reached, and from then on its remainder is shifted.\<close>

lemma low_step_single:
  assumes "j < 32" "0 < i" "i \<le> 32"
  shows "low_step (2 ^ j) i c = (if i = 32 - j then low_step 1 32 c else low_step 0 0 c)"
proof -
  have "bit ((2 :: 32 word) ^ j) (32 - i) = (i = 32 - j)" using assms by (auto simp: bit_exp_iff)
  then show ?thesis by (simp add: low_step_def star_crc_step_def Let_def)
qed

lemma low_shift_0: "low_step 0 0 0 = 0" "low_step 1 32 0 = 0x2F"
  by (simp_all add: low_step_def star_crc_step_def)

lemma fold_const: "(\<And>i. i \<in> set is \<Longrightarrow> f i = g) \<Longrightarrow> fold f is c = (g ^^ length is) c"
  by (induction "is" arbitrary: c) (simp_all add: funpow_swap1)

lemma funpow_0: "(low_step 0 0 ^^ n) 0 = 0"
  by (induction n) (simp_all add: low_shift_0)

lemma split_at: "6 \<le> j \<Longrightarrow> j < 27 \<Longrightarrow> [6..<27] = [6..<32 - j] @ [32 - j] @ [Suc (32 - j)..<27]"
proof -
  assume j: "6 \<le> j" "j < 27"
  have "[6..<27] = [6..<6 + (26 - j)] @ [6 + (26 - j)..<6 + (26 - j) + (j - 5)]"
    using upt_add_eq_append [of 6 "6 + (26 - j)" "j - 5"] j by simp
  moreover have "6 + (26 - j) = 32 - j" "6 + (26 - j) + (j - 5) = 27" using j by simp_all
  moreover have "[32 - j..<27] = (32 - j) # [Suc (32 - j)..<27]" using j by (intro upt_conv_Cons) simp
  ultimately show ?thesis by (simp only: append_Cons append_Nil)
qed

lemma low_bits_power: "(2 :: 32 word) ^ j AND 0x3F = (if j < 6 then 2 ^ j else 0)"
  using bit_mask_iff [where 'a = "32 word", of 6] by (intro bit_word_eqI) (auto simp: bit_and_iff bit_exp_iff mask_eq_exp_minus_1)

lemma syndrome_high:
  assumes "6 \<le> j" "j < 27"
  shows "star_syndrome (2 ^ j) = (low_step 0 0 ^^ (j - 6)) 0x2F"
proof -
  have 1: "fold (low_step (2 ^ j)) [6..<32 - j] 0 = 0"
    by (subst fold_const [of _ _ "low_step 0 0"]) (use assms in \<open>auto simp: low_step_single funpow_0 fun_eq_iff\<close>)
  have 2: "fold (low_step (2 ^ j)) [32 - j] 0 = 0x2F"
    using assms low_step_single [of j "32 - j" 0] by (simp add: low_shift_0)
  have 3: "fold (low_step (2 ^ j)) [Suc (32 - j)..<27] 0x2F = (low_step 0 0 ^^ (j - 6)) 0x2F"
    by (subst fold_const [of _ _ "low_step 0 0"]) (use assms in \<open>auto simp: low_step_single fun_eq_iff\<close>)
  show ?thesis
    unfolding star_syndrome_low split_at [OF assms] fold_append comp_apply 1 2 3 low_bits_power using assms by simp
qed

lemma syndrome_low:
  assumes "j < 6"
  shows "star_syndrome (2 ^ j) = 2 ^ j"
proof -
  have "fold (low_step (2 ^ j)) [6..<27] 0 = 0"
    by (subst fold_const [of _ _ "low_step 0 0"]) (use assms in \<open>auto simp: low_step_single funpow_0 fun_eq_iff simp del: upt_rec_numeral\<close>)
  then show ?thesis using assms unfolding star_syndrome_low low_bits_power by simp
qed

definition star_column :: "nat \<Rightarrow> 32 word" where
  "star_column j = [1, 2, 4, 8, 16, 32, 47, 49, 13, 26, 52, 7, 14, 28, 56, 31, 62, 19, 38, 35, 41, 61, 21, 42, 59, 25, 50] ! j"

lemma star_column_next: "6 \<le> j \<Longrightarrow> j < 26 \<Longrightarrow> star_column (Suc j) = low_step 0 0 (star_column j)"
proof -
  have "\<forall>j \<in> set [6..<26]. star_column (Suc j) = low_step 0 0 (star_column j)"
    by (simp add: low_step_def star_crc_step_def star_column_def)
  then show "6 \<le> j \<Longrightarrow> j < 26 \<Longrightarrow> star_column (Suc j) = low_step 0 0 (star_column j)" by (simp del: upt_rec_numeral)
qed

lemma star_columns:
  assumes "j < 27"
  shows "star_syndrome (2 ^ j) = star_column j"
proof (cases "j < 6")
  case True
  then have "j \<in> {0, 1, 2, 3, 4, 5}" by auto
  then show ?thesis using syndrome_low [OF True] by (auto simp: star_column_def)
next
  case False
  have "(low_step 0 0 ^^ k) 0x2F = star_column (6 + k)" if "6 + k < 27" for k
    using that
  proof (induction k)
    case (Suc k)
    then show ?case using star_column_next [of "6 + k"] by simp
  qed (simp add: star_column_def)
  from this [of "j - 6"] syndrome_high [of j] False assms show ?thesis by simp
qed

lemma star_column_list:
  "map star_column [0..<27] = [1, 2, 4, 8, 16, 32, 47, 49, 13, 26, 52, 7, 14, 28, 56, 31, 62, 19, 38, 35, 41, 61, 21, 42, 59, 25, 50]"
  by (simp add: star_column_def upt_conv_Cons)

lemma star_columns_odd: "i < 27 \<Longrightarrow> odd_weight (star_column i)"
proof -
  have "list_all odd_weight (map star_column [0..<27])" unfolding star_column_list by (simp add: odd_weight_def)
  then show "i < 27 \<Longrightarrow> odd_weight (star_column i)" by (simp add: list_all_iff)
qed

lemma star_columns_distinct: "i < 27 \<Longrightarrow> j < 27 \<Longrightarrow> star_column i = star_column j \<Longrightarrow> i = j"
proof -
  have "distinct (map star_column [0..<27])" unfolding star_column_list by simp
  then show "i < 27 \<Longrightarrow> j < 27 \<Longrightarrow> star_column i = star_column j \<Longrightarrow> i = j" by (auto simp: distinct_map inj_on_def)
qed

text \<open>
  The checksum of a STAR word detects every one, two or three wrong bits among the 21 it covers and its own six.
\<close>
theorem star_crc_detects_three:
  assumes "star_crc a = a AND 0x3F" "{i. bit a i \<noteq> bit b i} \<subseteq> {..<27}" "card {i. bit a i \<noteq> bit b i} \<in> {1, 2, 3}"
  shows "star_crc b \<noteq> b AND 0x3F"
proof -
  define E where "E = {i. bit a i \<noteq> bit b i}"
  have E: "E \<subseteq> {..<27}" "card E \<in> {1, 2, 3}" using assms(2,3) by (simp_all add: E_def)
  have e: "a XOR b = w" if "\<And>i. bit w i = (i \<in> E)" for w
    by (rule bit_word_eqI) (auto simp: bit_xor_iff that E_def)
  have z: "\<not> odd_weight 0" by (simp add: odd_weight_def)
  from E(2) consider "card E = 1" | "card E = 2" | "card E = 3" by auto
  then have "star_syndrome (a XOR b) \<noteq> 0"
  proof cases
    case 1
    then obtain i where i: "E = {i}" by (auto simp: card_1_singleton_iff)
    then have "a XOR b = 2 ^ i" using E(1) by (intro e) (auto simp: bit_exp_iff)
    then show ?thesis using i E(1) star_columns_odd [of i] z by (auto simp: star_columns)
  next
    case 2
    then obtain i j where i: "E = {i, j}" "i \<noteq> j" by (auto simp: card_2_iff)
    then have "a XOR b = 2 ^ i XOR 2 ^ j" using E(1) by (intro e) (auto simp: bit_exp_iff bit_xor_iff)
    moreover have "star_column i \<noteq> star_column j" using i E(1) star_columns_distinct [of i j] by auto
    ultimately show ?thesis using i E(1) by (simp add: star_syndrome_xor star_columns xor_zero)
  next
    case 3
    then obtain i j k where i: "E = {i, j, k}" "i \<noteq> j" "j \<noteq> k" "i \<noteq> k" by (auto simp: card_3_iff)
    then have "a XOR b = 2 ^ i XOR 2 ^ j XOR 2 ^ k" using E(1) by (intro e) (auto simp: bit_exp_iff bit_xor_iff)
    moreover have "odd_weight (star_column i XOR star_column j XOR star_column k)"
      using i E(1) by (simp add: odd_weight_xor star_columns_odd)
    ultimately show ?thesis using z i E(1) by (auto simp: star_syndrome_xor star_columns)
  qed
  then show ?thesis using star_crc_difference [OF assms(1)] by simp
qed

theorem star_crc_detects_three_witness:
  "star_crc (0x1C XOR 2 ^ 3 XOR 2 ^ 20) \<noteq> (0x1C XOR 2 ^ 3 XOR 2 ^ 20) AND 0x3F"
proof -
  have "star_crc 0x1C = 0x1C AND 0x3F" by code_simp
  moreover have "{i. bit w i \<noteq> bit (w XOR 2 ^ 3 XOR 2 ^ 20) i} = {3, 20}" for w :: "32 word"
    by (auto simp only: bit_xor_iff bit_exp_iff possible_bit_word) simp_all
  ultimately show ?thesis by (intro star_crc_detects_three [of "0x1C"]) (simp_all only:, simp_all)
qed

section \<open>A burst\<close>

lemma append_bit_push: "append_bit (push_bits bs w) b = push_bits (bs @ [b]) w"
  by (cases b) (simp_all add: append_bit_def push_bits_append)

lemma set_star_simps [simp]:
  "length (sd_units (set_star num u dec)) = length (sd_units dec)" "num < length (sd_units dec) \<Longrightarrow> sd_units (set_star num u dec) ! num = u"
  "set_star num v (set_star num u dec) = set_star num v dec" "set_star num (sd_units dec ! num) dec = dec"
  by (simp_all add: set_star_def)

definition fill :: "bool list \<Rightarrow> star_unit \<Rightarrow> star_unit" where
  "fill bs u = u\<lparr>sr_bitsr := push_bits bs (sr_bitsr u), sr_bitcount := sr_bitcount u - int (length bs)\<rparr>"

lemma bitshift_quiet:
  assumes "sr_bitstate (sd_units dec ! num) \<in> {1, 2, 3}" "1 < sr_bitcount (sd_units dec ! num)"
  shows "bitshift num b dec = set_star num ((sd_units dec ! num)\<lparr>sr_bitsr := append_bit (sr_bitsr (sd_units dec ! num)) b,
    sr_bitcount := sr_bitcount (sd_units dec ! num) - 1\<rparr>) dec"
  using assms by (elim insertE emptyE) (simp_all add: bitshift_def Let_def)

lemma fill_run:
  assumes "num < length (sd_units dec)" "sr_bitstate (sd_units dec ! num) \<in> {1, 2, 3}" "int (length bs) < sr_bitcount (sd_units dec ! num)"
  shows "fold (bitshift num) bs dec = set_star num (fill bs (sd_units dec ! num)) dec"
  using assms
proof (induction bs rule: rev_induct)
  case Nil
  then show ?case by (simp add: fill_def push_bits_def)
next
  case (snoc b bs)
  let ?u = "fill bs (sd_units dec ! num)"
  have "fold (bitshift num) (bs @ [b]) dec = bitshift num b (set_star num ?u dec)" using snoc by simp
  also have "\<dots> = set_star num (?u\<lparr>sr_bitsr := append_bit (sr_bitsr ?u) b, sr_bitcount := sr_bitcount ?u - 1\<rparr>) dec"
    using snoc.prems bitshift_quiet [of "set_star num ?u dec" num b] by (simp add: fill_def)
  finally show ?case by (simp add: fill_def append_bit_push algebra_simps)
qed

lemma fill_last:
  assumes "num < length (sd_units dec)" "sr_bitstate (sd_units dec ! num) \<in> {1, 2, 3}"
    and "int (Suc (length bs)) = sr_bitcount (sd_units dec ! num)"
  shows "fold (bitshift num) (bs @ [b]) dec = bitshift num b (set_star num (fill bs (sd_units dec ! num)) dec)"
  using fill_run [OF assms(1,2), of bs] assms(3) by simp

text \<open>A whole word, or the 16 last bits.\<close>

lemma star_sync:
  assumes "num < length (sd_units dec)" "sd_units dec ! num = u" "sr_bitstate u = 0" "sr_bitsr u = 0"
  shows "fold (bitshift num) [False, True, True, True, False] dec =
    set_star num (u\<lparr>sr_bitsr := 0x0E, sr_bitstate := 1, sr_bitcount := 27\<rparr>) dec"
  using assms by (simp add: bitshift_def Let_def append_bit_def)

lemma star_word0:
  assumes "num < length (sd_units dec)" "sd_units dec ! num = u" "sr_bitstate u = 0" "sr_bitsr u = 0"
    and "msb_bits w = [False, True, True, True, False] @ bs"
  shows "fold (bitshift num) (msb_bits w) dec =
    set_star num (u\<lparr>sr_bitsr := w, sr_bits0 := w, sr_bitstate := 2, sr_bitcount := 32\<rparr>) dec"
proof -
  have n: "length bs = 27" using arg_cong [OF assms(5), of length] by (simp add: msb_bits_def)
  then obtain as b where bs: "bs = as @ [b]" "length as = 26" by (cases bs rule: rev_cases) auto
  let ?v = "u\<lparr>sr_bitsr := 0x0E, sr_bitstate := 1, sr_bitcount := 27\<rparr>"
  let ?d = "set_star num ?v dec"
  have "push_bits (msb_bits w) 0 = push_bits (as @ [b]) 0x0E" unfolding assms(5) bs(1) by (simp add: push_bits_def)
  then have w: "append_bit (push_bits as 0x0E) b = w" by (simp add: append_bit_push)
  have "fold (bitshift num) (msb_bits w) dec = fold (bitshift num) (as @ [b]) ?d"
    unfolding assms(5) bs(1) using star_sync [OF assms(1-4)] by simp
  also have "\<dots> = bitshift num b (set_star num (fill as ?v) ?d)"
    using fill_last [of num ?d as b] assms(1) bs(2) by simp
  also have "\<dots> = set_star num (u\<lparr>sr_bitsr := w, sr_bits0 := w, sr_bitstate := 2, sr_bitcount := 32\<rparr>) dec"
    using assms(1) bs(2) w by (simp add: bitshift_def Let_def fill_def)
  finally show ?thesis .
qed

lemma star_word1:
  assumes "num < length (sd_units dec)" "sd_units dec ! num = u" "sr_bitstate u = 2" "sr_bitcount u = 32"
  shows "fold (bitshift num) (msb_bits w) dec =
    set_star num (u\<lparr>sr_bitsr := w, sr_bits1 := w, sr_bitstate := 3, sr_bitcount := 16\<rparr>) dec"
proof -
  obtain as b where bs: "msb_bits w = as @ [b]" "length as = 31" using msb_bits_split by blast
  have w: "append_bit (push_bits as (sr_bitsr u)) b = w" using push_msb_bits [of w "sr_bitsr u"] by (simp add: append_bit_push bs(1))
  show ?thesis
    unfolding bs(1) using fill_last [of num dec as b] assms bs(2) w by (simp add: bitshift_def Let_def fill_def)
qed

lemma star_tail:
  assumes "num < length (sd_units dec)" "sd_units dec ! num = u" "sr_bitstate u = 3" "sr_bitcount u = 16" "length bs = 16"
    and "star_checks (sr_bits0 u) (sr_bits1 u)"
  shows "sd_valid (fold (bitshift num) bs dec)" "sd_lastBits0 (fold (bitshift num) bs dec) = sr_bits0 u"
    "\<forall>v \<in> set (sd_units (fold (bitshift num) bs dec)). sr_bitstate v = 0 \<and> sr_phstate v = 0"
proof -
  obtain as b where bs: "bs = as @ [b]" "length as = 15" using assms(5) by (cases bs rule: rev_cases) auto
  have "fold (bitshift num) bs dec = bitshift num b (set_star num (fill as u) dec)"
    unfolding bs(1) using fill_last [of num dec as b] assms bs(2) by simp
  then show "sd_valid (fold (bitshift num) bs dec)" "sd_lastBits0 (fold (bitshift num) bs dec) = sr_bits0 u"
    "\<forall>v \<in> set (sd_units (fold (bitshift num) bs dec)). sr_bitstate v = 0 \<and> sr_phstate v = 0"
    using assms bs(2) by (auto simp: bitshift_def Let_def fill_def reset_decoder_def)
qed

text \<open>The word of a unit ID below 16384 with its status and message, checksum included.\<close>

definition star_plain :: "nat \<Rightarrow> nat \<Rightarrow> nat \<Rightarrow> nat" where
  "star_plain unit status msg = 0x70000000 + unit mod 2048 * 2 ^ 16 + unit div 4096 * 2 ^ 14 + unit div 2048 mod 2 * 2 ^ 13 +
     status * 2 ^ 10 + msg * 2 ^ 6"

definition star_word :: "nat \<Rightarrow> nat \<Rightarrow> nat \<Rightarrow> 32 word" where
  "star_word unit status msg = (let p = word_of_nat (star_plain unit status msg) in p OR star_crc p)"

lemma bit_low: "bit (0x3F :: 32 word) k \<longleftrightarrow> k < 6"
  using bit_mask_iff [where 'a = "32 word", of 6 k] by (auto simp: mask_eq_exp_minus_1)

lemma star_crc_high: "6 \<le> k \<Longrightarrow> \<not> bit (star_crc w) k"
  by (simp only: star_crc_def bit_and_iff bit_low) simp

lemma star_crc_cong: "(\<And>k. 6 \<le> k \<Longrightarrow> bit a k = bit b k) \<Longrightarrow> star_crc a = star_crc b"
  unfolding star_crc_def by (intro arg_cong2 [of _ _ _ _ "(AND)"] refl fold_cong) (auto simp: star_crc_step_def fun_eq_iff)

lemma with_crc:
  assumes "\<And>k. k < 6 \<Longrightarrow> \<not> bit p k"
  shows "star_crc (p OR star_crc p) = (p OR star_crc p) AND 0x3F"
proof -
  have "star_crc (p OR star_crc p) = star_crc p" by (rule star_crc_cong) (simp add: bit_or_iff star_crc_high)
  also have "\<dots> = (p OR star_crc p) AND 0x3F"
  proof (rule bit_word_eqI)
    fix n :: nat
    show "bit (star_crc p) n = bit ((p OR star_crc p) AND 0x3F) n"
      unfolding bit_and_iff bit_or_iff bit_low using assms [of n] star_crc_high [of n p] by (cases "n < 6") simp_all
  qed
  finally show ?thesis .
qed

lemma field_or: "6 \<le> n \<Longrightarrow> drop_bit n (p OR star_crc p) = drop_bit n p"
  by (rule bit_word_eqI) (simp add: bit_drop_bit_eq bit_or_iff star_crc_high)

lemma field_value:
  assumes "N < 2 ^ 32"
  shows "uint (drop_bit n (word_of_nat N :: 32 word) AND mask k) = int (N div 2 ^ n mod 2 ^ k)"
proof -
  have "uint (drop_bit n (word_of_nat N :: 32 word) AND mask k) = uint (take_bit k (drop_bit n (word_of_nat N :: 32 word)))"
    by (simp add: take_bit_eq_mask)
  also have "\<dots> = int (take_bit k (drop_bit n N))"
    using assms by (simp add: unsigned_take_bit_eq unsigned_drop_bit_eq unsigned_of_nat take_bit_nat_eq_self drop_bit_of_nat flip: of_nat_take_bit)
  finally show ?thesis by (simp add: take_bit_eq_mod drop_bit_eq_div)
qed

lemma star_plain_fields:
  assumes "unit < 16384" "status < 8" "msg < 16"
  shows "star_plain unit status msg < 2 ^ 32" "star_plain unit status msg div 2 ^ 16 mod 2 ^ 11 = unit mod 2048"
    "star_plain unit status msg div 2 ^ 14 mod 2 ^ 2 = unit div 4096"
    "star_plain unit status msg div 2 ^ 10 mod 2 ^ 4 = unit div 2048 mod 2 * 8 + status"
    "star_plain unit status msg div 2 ^ 6 mod 2 ^ 4 = msg" "star_plain unit status msg mod 64 = 0"
    "star_plain unit status msg div 2 ^ 27 = 14"
proof -
  define a b c where abc: "a = unit mod 2048" "b = unit div 4096" "c = unit div 2048 mod 2"
  have r: "a < 2048" "b < 4" "c < 2" using assms(1) by (auto simp: abc)
  have p: "star_plain unit status msg = 64 * (msg + 16 * (status + 8 * c + 16 * (b + 4 * (a + 2048 * 14))))"
    by (simp add: star_plain_def abc algebra_simps)
  show "star_plain unit status msg < 2 ^ 32" unfolding p using r assms by simp
  show "star_plain unit status msg mod 64 = 0" unfolding p by simp
  have 6: "star_plain unit status msg div 2 ^ 6 = msg + 16 * (status + 8 * c + 16 * (b + 4 * (a + 2048 * 14)))" unfolding p by simp
  have 10: "star_plain unit status msg div 2 ^ 10 = status + 8 * c + 16 * (b + 4 * (a + 2048 * 14))"
    using div_mult2_eq [of "star_plain unit status msg" "2 ^ 6" "2 ^ 4"] assms(3) unfolding 6 by simp
  have 14: "star_plain unit status msg div 2 ^ 14 = b + 4 * (a + 2048 * 14)"
    using div_mult2_eq [of "star_plain unit status msg" "2 ^ 10" "2 ^ 4"] assms(2) r unfolding 10 by simp
  have 16: "star_plain unit status msg div 2 ^ 16 = a + 2048 * 14"
    using div_mult2_eq [of "star_plain unit status msg" "2 ^ 14" "2 ^ 2"] r unfolding 14 by simp
  show "star_plain unit status msg div 2 ^ 27 = 14"
    using div_mult2_eq [of "star_plain unit status msg" "2 ^ 16" "2 ^ 11"] r unfolding 16 by simp
  have m: "(a + 2048 * 14) mod 2048 = a" "(b + 4 * (a + 2048 * 14)) mod 4 = b"
      "(status + 8 * c + 16 * (b + 4 * (a + 2048 * 14))) mod 16 = status + 8 * c"
    unfolding mod_mult_self2 using r assms by simp_all
  show "star_plain unit status msg div 2 ^ 16 mod 2 ^ 11 = unit mod 2048" unfolding 16 using m(1) by (simp add: abc(1))
  show "star_plain unit status msg div 2 ^ 14 mod 2 ^ 2 = unit div 4096" unfolding 14 using m(2) by (simp add: abc(2))
  show "star_plain unit status msg div 2 ^ 10 mod 2 ^ 4 = unit div 2048 mod 2 * 8 + status"
    unfolding 10 using m(3) by (simp add: abc(3))
  have "(2 :: nat) ^ 4 = 16" by simp
  then show "star_plain unit status msg div 2 ^ 6 mod 2 ^ 4 = msg" unfolding 6 using assms by (simp only: mod_mult_self2) simp
qed

lemma tag_bits: "b < 4 \<Longrightarrow> (int b AND 2 \<noteq> 0) = (2 \<le> b)" "b < 4 \<Longrightarrow> (int b AND 1 \<noteq> 0) = (b mod 2 = 1)"
proof -
  assume "b < 4"
  then have "b \<in> {0, 1, 2, 3}" by auto
  then show "(int b AND 2 \<noteq> 0) = (2 \<le> b)" "(int b AND 1 \<noteq> 0) = (b mod 2 = 1)" by (elim insertE; simp)+
qed

lemma status_bits:
  assumes "c < 2" "s < 8"
  shows "(int (c * 8 + s) AND 8 \<noteq> 0) = (c = 1)" "int (c * 8 + s) AND 7 = int s"
proof -
  have "c \<in> {0, 1}" "s \<in> {0, 1, 2, 3, 4, 5, 6, 7}" using assms by auto
  then show "(int (c * 8 + s) AND 8 \<noteq> 0) = (c = 1)" "int (c * 8 + s) AND 7 = int s" by (elim insertE; simp)+
qed

lemma id_parts:
  assumes "b < 4" "c < 2"
  shows "int a + (if 2 \<le> b then 8192 else 0) + (if b mod 2 = 1 then 4096 else 0) + (if c = 1 then 2048 else 0) = int (a + 2048 * c + 4096 * b)"
proof -
  have "b \<in> {0, 1, 2, 3}" "c \<in> {0, 1}" using assms by auto
  then show ?thesis by (elim insertE; simp)
qed

lemma not_xor_mask: "w AND m = NOT (w XOR m) AND m" for w m :: "32 word"
  by (rule bit_word_eqI) (auto simp: bit_and_iff bit_xor_iff bit_not_iff)

lemma xor_mask_other: "m AND k = 0 \<Longrightarrow> w AND k = (w XOR m) AND k" for w m k :: "32 word"
  by (simp add: and.commute [of _ k] bit.conj_xor_distrib)

lemma masks: "mask 11 = (0x7FF :: 32 word)" "mask 2 = (3 :: 32 word)" "mask 4 = (0xF :: 32 word)"
  by (simp_all add: mask_eq_exp_minus_1)

lemma star_word_facts:
  assumes "unit < 16384" "status < 8" "msg < 16"
  shows "star_crc (star_word unit status msg) = star_word unit status msg AND 0x3F"
    "star_fields star_format_1_16383 (star_word unit status msg) =
       \<lparr>sc_unitID = int unit, sc_tag = 0, sc_status = int status, sc_message = int msg\<rparr>"
    "\<exists>bs. msb_bits (star_word unit status msg) = [False, True, True, True, False] @ bs"
proof -
  let ?p = "word_of_nat (star_plain unit status msg) :: 32 word"
  note f = star_plain_fields [OF assms]
  have w: "star_word unit status msg = ?p OR star_crc ?p" by (simp add: star_word_def Let_def)
  have p6: "\<not> bit ?p k" if "k < 6" for k
  proof -
    have "take_bit 6 (star_plain unit status msg) = 0" using f(6) by (simp add: take_bit_eq_mod)
    then have "\<not> bit (star_plain unit status msg) k" using that by (metis bit_0_eq bit_take_bit_iff bot_apply bot_bool_def)
    then show ?thesis by (simp only: bit_of_nat_iff) simp
  qed
  show "star_crc (star_word unit status msg) = star_word unit status msg AND 0x3F"
    unfolding w using p6 by (rule with_crc)
  have v: "uint (drop_bit 16 ?p AND 0x07FF) = int (unit mod 2048)" "uint (drop_bit 14 ?p AND 0x03) = int (unit div 4096)"
      "uint (drop_bit 10 ?p AND 0x0F) = int (unit div 2048 mod 2 * 8 + status)" "uint (drop_bit 6 ?p AND 0x0F) = int msg"
    by (rule field_value [OF f(1), of 16 11, unfolded f(2) masks], rule field_value [OF f(1), of 14 2, unfolded f(3) masks],
        rule field_value [OF f(1), of 10 4, unfolded f(4) masks], rule field_value [OF f(1), of 6 4, unfolded f(5) masks])
  define b c where bc: "b = unit div 4096" "c = unit div 2048 mod 2"
  have n: "b < 4" "c < 2" using assms(1) by (auto simp: bc)
  have u: "unit = unit mod 2048 + 2048 * c + 4096 * b" 
  proof -
    have "unit = unit mod 2048 + 2048 * (unit div 2048)" "unit div 2048 = unit div 2048 mod 2 + 2 * (unit div 2048 div 2)" by simp_all
    moreover have "unit div 2048 div 2 = unit div 4096" by (simp flip: div_mult2_eq)
    ultimately show ?thesis unfolding bc by linarith
  qed
  show "star_fields star_format_1_16383 (star_word unit status msg) =
       \<lparr>sc_unitID = int unit, sc_tag = 0, sc_status = int status, sc_message = int msg\<rparr>"
  proof -
    have d: "drop_bit 16 (star_word unit status msg) = drop_bit 16 ?p" "drop_bit 14 (star_word unit status msg) = drop_bit 14 ?p"
        "drop_bit 10 (star_word unit status msg) = drop_bit 10 ?p" "drop_bit 6 (star_word unit status msg) = drop_bit 6 ?p"
      unfolding w by (rule field_or; simp)+
    show ?thesis
      unfolding star_fields_def Let_def star_format.case d v bc [symmetric] tag_bits [OF n(1)] status_bits [OF n(2) assms(2)]
        id_parts [OF n] u [symmetric] by (rule refl)
  qed
  show "\<exists>bs. msb_bits (star_word unit status msg) = [False, True, True, True, False] @ bs"
  proof -
    have "uint (drop_bit 27 ?p AND mask 5) = 14" using field_value [OF f(1), of 27 5] unfolding f(7) by simp
    then have x: "drop_bit 27 ?p AND mask 5 = 14" by (intro word_uint_eqI) simp
    have b: "bit (star_word unit status msg) (27 + i) = bit (14 :: 32 word) i" if "i < 5" for i
      using arg_cong [OF x, of "\<lambda>w. bit w i"] that star_crc_high [of "27 + i" ?p]
      by (simp add: w bit_or_iff bit_and_iff bit_drop_bit_eq bit_mask_iff)
    have "rev [0..<32] = [31, 30, 29, 28, 27] @ rev [0..<27]" by (simp add: upt_conv_Cons)
    then show ?thesis using b [of 0] b [of 1] b [of 2] b [of 3] b [of 4] by (simp add: msb_bits_def)
  qed
qed

text \<open>
  C30. A burst whose two words carry a unit ID below 16384, the second with its eleven lower bits inverted, is
  received by a unit that waits for it, whatever the 16 bits after it: its ID, status and message are what the
  callback's format reads, once, and all units are reset.
\<close>
theorem star_burst_received:
  assumes "num < length (sd_units dec)" "sr_bitstate (sd_units dec ! num) = 0" "sr_bitsr (sd_units dec ! num) = 0"
    and "unit < 16384" "status < 8" "msg < 16" "length bs = 16"
    and "w = star_word unit status msg" "dec' = fold (bitshift num) (msb_bits w @ msb_bits (w XOR 0x07FF0000) @ bs) dec"
  shows "star_decoder_get star_format_1_16383 dec' =
      Some (\<lparr>sc_unitID = int unit, sc_tag = 0, sc_status = int status, sc_message = int msg\<rparr>, dec'\<lparr>sd_valid := False\<rparr>) \<and>
    star_decoder_get format (dec'\<lparr>sd_valid := False\<rparr>) = None \<and>
    (\<forall>v \<in> set (sd_units dec'). sr_bitstate v = 0 \<and> sr_phstate v = 0)"
proof -
  note f = star_word_facts [OF assms(4-6), folded assms(8)]
  let ?u = "sd_units dec ! num"
  let ?u0 = "?u\<lparr>sr_bitsr := w, sr_bits0 := w, sr_bitstate := 2, sr_bitcount := 32\<rparr>"
  define w1 where w1: "w1 = w XOR 0x07FF0000"
  let ?u1 = "?u0\<lparr>sr_bitsr := w1, sr_bits1 := w1, sr_bitstate := 3, sr_bitcount := 16\<rparr>"
  obtain cs where "msb_bits w = [False, True, True, True, False] @ cs" using f(3) by blast
  from star_word0 [OF assms(1) refl assms(2,3) this]
  have 0: "fold (bitshift num) (msb_bits w) dec = set_star num ?u0 dec" .
  have 1: "fold (bitshift num) (msb_bits w1) (set_star num ?u0 dec) = set_star num ?u1 dec"
    using star_word1 [of num "set_star num ?u0 dec" ?u0 w1] assms(1) by simp
  have d: "dec' = fold (bitshift num) bs (set_star num ?u1 dec)" unfolding assms(9) w1 [symmetric] using 0 1 by simp
  have c: "w AND 0x07FF0000 = NOT w1 AND 0x07FF0000" unfolding w1 by (rule not_xor_mask)
  have k: "w AND 0x3F = w1 AND 0x3F" unfolding w1 by (rule xor_mask_other) simp
  have "star_checks w w1" unfolding star_checks_def by (intro conjI c f(1) k)
  moreover have "num < length (sd_units (set_star num ?u1 dec))" "sd_units (set_star num ?u1 dec) ! num = ?u1"
    using assms(1) by (simp_all only: set_star_simps)
  moreover have "sr_bitstate ?u1 = 3" "sr_bitcount ?u1 = 16" "sr_bits0 ?u1 = w" "sr_bits1 ?u1 = w1" by simp_all
  ultimately have t: "sd_valid dec'" "sd_lastBits0 dec' = w" "\<forall>v \<in> set (sd_units dec'). sr_bitstate v = 0 \<and> sr_phstate v = 0"
    using star_tail [of num "set_star num ?u1 dec" ?u1 bs] assms(7) unfolding d by metis+
  show ?thesis using t f(2) by (simp add: star_decoder_get_def)
qed

definition example_star :: star_decoder where
  "example_star = \<lparr>sd_sampleRate = 16000, sd_units = replicate 4 \<lparr>sr_phsr = 0, sr_phstate = 1, sr_lastbit = False, sr_thisbit = True,
     sr_rbit = False, sr_theta = 0, sr_accum = 0, sr_bitsr = 0, sr_bitstate = 0, sr_bits0 = 7, sr_bits1 = 8, sr_bits2 = 9, sr_bitcount = 10\<rparr>,
     sd_lastBits0 = 11, sd_valid = False, sd_callback = True, sd_callback_format = star_format_1_16383\<rparr>"

theorem star_burst_received_witness:
  "map_option fst (star_decoder_get star_format_1_16383
     (fold (bitshift 2) (msb_bits (star_word 12345 5 9) @ msb_bits (star_word 12345 5 9 XOR 0x07FF0000) @ replicate 16 True) example_star)) =
   Some \<lparr>sc_unitID = 12345, sc_tag = 0, sc_status = 5, sc_message = 9\<rparr>"
  using star_burst_received [of 2 example_star 12345 5 9 "replicate 16 True", OF _ _ _ _ _ _ _ refl refl]
  by (simp add: example_star_def)

text \<open>The unit that received the burst does not stay reset: it goes on without waiting for a preamble.\<close>

lemma star_reset_undone:
  assumes "num < length (sd_units dec)" "sr_phstate (sd_units dec ! num) = 4"
  shows "sr_phstate (sd_units (ph_shift num ph dec) ! num) = 1"
proof -
  have l: "num < length (sd_units (bitshift num b d))" if "num < length (sd_units d)" for b d
    using that unfolding bitshift_def Let_def by (simp split: if_splits)
  show ?thesis using assms by (simp add: ph_shift_def Let_def l)
qed

section \<open>The table of sines\<close>

definition thetas :: "star_decoder \<Rightarrow> double list" where
  "thetas dec = map sr_theta (sd_units dec)"

lemma thetas_set_star: "thetas (set_star num u dec) = (thetas dec)[num := sr_theta u]"
  by (simp add: thetas_def set_star_def map_update)

lemma thetas_same: "num < length (sd_units dec) \<Longrightarrow> sr_theta u = sr_theta (sd_units dec ! num) \<Longrightarrow> thetas (set_star num u dec) = thetas dec"
  by (simp add: thetas_def set_star_def map_update list_update_same_conv)

lemma bitshift_keeps:
  assumes "num < length (sd_units dec)"
  shows "thetas (bitshift num b dec) = thetas dec" "length (sd_units (bitshift num b dec)) = length (sd_units dec)"
    "sd_sampleRate (bitshift num b dec) = sd_sampleRate dec"
proof -
  have m: "map (\<lambda>u. sr_theta (reset_decoder u)) us = map sr_theta us" for us by (simp add: reset_decoder_def)
  have "thetas (d\<lparr>sd_valid := v, sd_lastBits0 := w, sd_units := map reset_decoder (sd_units d)\<rparr>) = thetas d" for d v w
    by (simp add: thetas_def m comp_def)
  then show "thetas (bitshift num b dec) = thetas dec"
    using assms unfolding bitshift_def Let_def by (simp add: thetas_same reset_decoder_def)
  show "length (sd_units (bitshift num b dec)) = length (sd_units dec)" "sd_sampleRate (bitshift num b dec) = sd_sampleRate dec"
    unfolding bitshift_def Let_def by (simp_all add: set_star_def)
qed

lemma theta_nth: "num < length (sd_units dec) \<Longrightarrow> sr_theta (sd_units dec ! num) = thetas dec ! num"
  by (simp add: thetas_def)

lemma ph_shift_keeps:
  assumes "num < length (sd_units dec)"
  shows "thetas (ph_shift num ph dec) = thetas dec" "length (sd_units (ph_shift num ph dec)) = length (sd_units dec)"
    "sd_sampleRate (ph_shift num ph dec) = sd_sampleRate dec"
  using assms unfolding ph_shift_def Let_def
  by (simp_all add: thetas_same bitshift_keeps theta_nth) (simp_all add: set_star_def bitshift_keeps)

definition theta_step :: "double \<Rightarrow> double \<Rightarrow> double option" where
  "theta_step rate t =
     (let theta = fl (t + fl (fl (TWOPI * 1600) / rate)) in
      if 0 \<le> int_of_double (fl (theta * fl (256 / TWOPI))) \<and> int_of_double (fl (theta * fl (256 / TWOPI))) < 256
      then Some (if TWOPI \<le> theta then fl (theta - TWOPI) else theta) else None)"

lemma sample_per_theta:
  assumes "num < length (sd_units dec)" "process_sample_per num s dec = Some dec'"
  shows "\<exists>t. theta_step (sd_sampleRate dec) (thetas dec ! num) = Some t \<and> thetas dec' = (thetas dec)[num := t]"
    "length (sd_units dec') = length (sd_units dec)" "sd_sampleRate dec' = sd_sampleRate dec"
proof -
  define theta where "theta = fl (thetas dec ! num + fl (fl (TWOPI * 1600) / sd_sampleRate dec))"
  define ofs where "ofs = int_of_double (fl (theta * fl (256 / TWOPI)))"
  obtain t where t: "elem_at star_sintable ofs = Some t"
    using assms unfolding process_sample_per_def Let_def theta_nth [OF assms(1)] theta_def [symmetric] ofs_def [symmetric]
    by (auto split: bind_splits)
  define u where "u = (sd_units dec ! num)\<lparr>sr_theta := theta, sr_accum := fl (sr_accum (sd_units dec ! num) + fl (t * s))\<rparr>"
  define d where "d = set_star num u dec"
  have "process_sample_per num s dec =
      (if TWOPI \<le> theta
       then let dec = ph_shift num (\<not> sr_accum u < 0) d; u = sd_units dec ! num
            in Some (set_star num (u\<lparr>sr_theta := fl (sr_theta u - TWOPI), sr_accum := 0\<rparr>) dec)
       else Some d)"
    unfolding process_sample_per_def Let_def theta_nth [OF assms(1)] theta_def [symmetric] ofs_def [symmetric] t u_def d_def by simp
  then have r: "dec' = (if TWOPI \<le> theta
       then let dec = ph_shift num (\<not> sr_accum u < 0) d; u = sd_units dec ! num
            in set_star num (u\<lparr>sr_theta := fl (sr_theta u - TWOPI), sr_accum := 0\<rparr>) dec
       else d)"
    unfolding assms(2) by (simp add: Let_def split: if_splits)
  have d: "num < length (sd_units d)" "thetas d = (thetas dec)[num := theta]" "length (sd_units d) = length (sd_units dec)" "sd_sampleRate d = sd_sampleRate dec"
    using assms(1) by (simp_all add: d_def thetas_set_star u_def) (simp add: set_star_def)
  note p = ph_shift_keeps [OF d(1)]
  have n: "num < length (thetas dec)" using assms(1) by (simp add: thetas_def)
  have o: "0 \<le> ofs" "ofs < 256" using t by (auto simp: elem_at_def split: if_splits)
  have "theta_step (sd_sampleRate dec) (thetas dec ! num) = Some (if TWOPI \<le> theta then fl (theta - TWOPI) else theta)"
    unfolding theta_step_def Let_def theta_def [symmetric] ofs_def [symmetric] using o by simp
  moreover have "thetas dec' = (thetas dec)[num := (if TWOPI \<le> theta then fl (theta - TWOPI) else theta)]"
    unfolding r using d n p by (simp add: Let_def thetas_set_star theta_nth)
  ultimately show "\<exists>t. theta_step (sd_sampleRate dec) (thetas dec ! num) = Some t \<and> thetas dec' = (thetas dec)[num := t]" by blast
  show "length (sd_units dec') = length (sd_units dec)" "sd_sampleRate dec' = sd_sampleRate dec"
    unfolding r using d p by (simp_all add: Let_def) (simp add: set_star_def)
qed

lemma sample_theta:
  assumes "length (sd_units dec) = 4" "process_sample s [0..<4] dec = Some dec'"
  shows "\<exists>t. theta_step (sd_sampleRate dec) (thetas dec ! 3) = Some t \<and> thetas dec' ! 3 = t"
    "length (sd_units dec') = 4" "sd_sampleRate dec' = sd_sampleRate dec"
proof -
  have l: "[0..<4] = [0, 1, 2, 3 :: nat]" by (simp add: upt_conv_Cons)
  obtain d0 d1 d2 where p: "process_sample_per 0 s dec = Some d0" "process_sample_per 1 s d0 = Some d1"
      "process_sample_per 2 s d1 = Some d2" "process_sample_per 3 s d2 = Some dec'"
    using assms(2) unfolding l by (auto split: bind_splits)
  note 0 = sample_per_theta [OF _ p(1)] and 1 = sample_per_theta [OF _ p(2)] and 2 = sample_per_theta [OF _ p(3)] and 3 = sample_per_theta [OF _ p(4)]
  have n: "length (sd_units d0) = 4" "length (sd_units d1) = 4" "length (sd_units d2) = 4" "length (sd_units dec') = 4"
    using 0(2) 1(2) 2(2) 3(2) assms(1) by simp_all
  have r: "sd_sampleRate d0 = sd_sampleRate dec" "sd_sampleRate d1 = sd_sampleRate dec" "sd_sampleRate d2 = sd_sampleRate dec" "sd_sampleRate dec' = sd_sampleRate dec"
    using 0(3) 1(3) 2(3) 3(3) assms(1) n by simp_all
  have t: "thetas d2 ! 3 = thetas dec ! 3" using 0(1) 1(1) 2(1) assms(1) n by auto
  have "length (thetas d2) = 4" using n by (simp add: thetas_def)
  then show "\<exists>t. theta_step (sd_sampleRate dec) (thetas dec ! 3) = Some t \<and> thetas dec' ! 3 = t"
    using 3(1) n r t by auto
  show "length (sd_units dec') = 4" "sd_sampleRate dec' = sd_sampleRate dec" using n r by simp_all
qed

text \<open>Bounds on the phase of the fourth unit at 16000 samples a second.\<close>

lemma fl_close:
  assumes "lo \<le> x" "x \<le> hi" "0 \<le> lo" "hi \<le> 20000"
  shows "lo - 1 / 100000000000 \<le> fl x" "fl x \<le> hi + 1 / 100000000000"
proof -
  have "\<bar>fl x - x\<bar> \<le> \<bar>x\<bar> / 2 ^ 53" by (rule fl_err)
  also have "\<dots> \<le> 1 / 100000000000" using assms by simp
  finally show "lo - 1 / 100000000000 \<le> fl x" "fl x \<le> hi + 1 / 100000000000" using assms(1,2) by linarith+
qed

lemma twopi_near: "6283185306 / 1000000000 \<le> TWOPI" "TWOPI \<le> 6283185308 / 1000000000"
proof -
  let ?p = "31415926535 / 10 ^ 10 :: rat"
  note p = fl_close [OF order_refl order_refl, of ?p]
  have "?p - 1 / 100000000000 \<le> fl ?p" "fl ?p \<le> ?p + 1 / 100000000000" by (rule p; simp)+
  then have q: "2 * (?p - 1 / 100000000000) \<le> 2 * fl ?p" "2 * fl ?p \<le> 2 * (?p + 1 / 100000000000)" by (intro mult_left_mono; simp)+
  have "2 * (?p - 1 / 100000000000) - 1 / 100000000000 \<le> fl (2 * fl ?p)" "fl (2 * fl ?p) \<le> 2 * (?p + 1 / 100000000000) + 1 / 100000000000"
    by (rule fl_close [OF q]; simp)+
  moreover have "6283185306 / 1000000000 \<le> 2 * (?p - 1 / 100000000000) - 1 / 100000000000" "2 * (?p + 1 / 100000000000) + 1 / 100000000000 \<le> 6283185308 / 1000000000"
    by simp_all
  ultimately show "6283185306 / 1000000000 \<le> TWOPI" "TWOPI \<le> 6283185308 / 1000000000" unfolding TWOPI_def by linarith+
qed

lemma increment_near:
  "6283185305 / 10000000000 \<le> fl (fl (TWOPI * 1600) / 16000)" "fl (fl (TWOPI * 1600) / 16000) \<le> 6283185309 / 10000000000"
proof -
  have a: "6283185306 / 1000000000 * 1600 \<le> TWOPI * 1600" "TWOPI * 1600 \<le> 6283185308 / 1000000000 * 1600" using twopi_near by simp_all
  have "6283185306 / 1000000000 * 1600 - 1 / 100000000000 \<le> fl (TWOPI * 1600)" "fl (TWOPI * 1600) \<le> 6283185308 / 1000000000 * 1600 + 1 / 100000000000"
    by (rule fl_close [OF a]; simp)+
  then have b: "(6283185306 / 1000000000 * 1600 - 1 / 100000000000) / 16000 \<le> fl (TWOPI * 1600) / 16000"
      "fl (TWOPI * 1600) / 16000 \<le> (6283185308 / 1000000000 * 1600 + 1 / 100000000000) / 16000" by (simp_all only: divide_right_mono zero_le_numeral)
  have "(6283185306 / 1000000000 * 1600 - 1 / 100000000000) / 16000 - 1 / 100000000000 \<le> fl (fl (TWOPI * 1600) / 16000)"
      "fl (fl (TWOPI * 1600) / 16000) \<le> (6283185308 / 1000000000 * 1600 + 1 / 100000000000) / 16000 + 1 / 100000000000"
    by (rule fl_close [OF b]; simp)+
  then show "6283185305 / 10000000000 \<le> fl (fl (TWOPI * 1600) / 16000)" "fl (fl (TWOPI * 1600) / 16000) \<le> 6283185309 / 10000000000"
    by simp_all
qed

definition centre :: "nat \<Rightarrow> rat" where
  "centre k = 2356194490125 / 1000000000000 + of_nat k * (6283185307 / 10000000000)"

definition near_centre :: "nat \<Rightarrow> double \<Rightarrow> bool" where
  "near_centre k t \<longleftrightarrow> centre k - of_nat (Suc k) / 100000000 \<le> t \<and> t \<le> centre k + of_nat (Suc k) / 100000000"

lemma start_near: "near_centre 0 (fl (fl (TWOPI / 8) * 3))"
proof -
  have a: "6283185306 / 1000000000 / 8 \<le> TWOPI / 8" "TWOPI / 8 \<le> 6283185308 / 1000000000 / 8" using twopi_near by simp_all
  have "6283185306 / 1000000000 / 8 - 1 / 100000000000 \<le> fl (TWOPI / 8)" "fl (TWOPI / 8) \<le> 6283185308 / 1000000000 / 8 + 1 / 100000000000"
    by (rule fl_close [OF a]; simp)+
  then have b: "(6283185306 / 1000000000 / 8 - 1 / 100000000000) * 3 \<le> fl (TWOPI / 8) * 3"
      "fl (TWOPI / 8) * 3 \<le> (6283185308 / 1000000000 / 8 + 1 / 100000000000) * 3" by simp_all
  have "(6283185306 / 1000000000 / 8 - 1 / 100000000000) * 3 - 1 / 100000000000 \<le> fl (fl (TWOPI / 8) * 3)"
      "fl (fl (TWOPI / 8) * 3) \<le> (6283185308 / 1000000000 / 8 + 1 / 100000000000) * 3 + 1 / 100000000000"
    by (rule fl_close [OF b]; simp)+
  then show ?thesis by (simp add: near_centre_def centre_def)
qed

abbreviation (input) next_theta :: "double \<Rightarrow> double" where
  "next_theta t \<equiv> fl (t + fl (fl (TWOPI * 1600) / 16000))"

lemma next_theta_near:
  assumes "near_centre k t" "k \<le> 6"
  shows "near_centre (Suc k) (next_theta t)"
proof -
  let ?e = "of_nat (Suc k) / 100000000 :: rat"
  have k: "0 \<le> (of_nat k :: rat)" "of_nat k \<le> (6 :: rat)" using assms(2) by simp_all
  have c: "0 \<le> centre k" "centre k \<le> 10" "centre (Suc k) = centre k + 6283185307 / 10000000000"
  proof -
    have "of_nat k * (6283185307 / 10000000000) \<le> 6 * (6283185307 / 10000000000 :: rat)" using k by (intro mult_right_mono) simp_all
    then show "centre k \<le> 10" unfolding centre_def by linarith
    show "0 \<le> centre k" by (simp add: centre_def)
    show "centre (Suc k) = centre k + 6283185307 / 10000000000"
      by (simp only: centre_def of_nat_Suc distrib_right mult_1_left add.commute add.left_commute)
  qed
  have e: "?e \<le> 7 / 100000000" "0 \<le> ?e" using assms(2) by simp_all
  have a: "centre k - ?e + 6283185305 / 10000000000 \<le> t + fl (fl (TWOPI * 1600) / 16000)"
      "t + fl (fl (TWOPI * 1600) / 16000) \<le> centre k + ?e + 6283185309 / 10000000000"
    using assms(1) increment_near unfolding near_centre_def by linarith+
  have "centre k - ?e + 6283185305 / 10000000000 - 1 / 100000000000 \<le> next_theta t" "next_theta t \<le> centre k + ?e + 6283185309 / 10000000000 + 1 / 100000000000"
    using fl_close [OF a] c(1,2) e by linarith+
  moreover have "of_nat (Suc (Suc k)) / 100000000 = ?e + (1 / 100000000 :: rat)" by (simp add: add_divide_distrib)
  ultimately show ?thesis unfolding near_centre_def c(3) by (intro conjI; linarith)
qed

lemma below_turn:
  assumes "near_centre k t" "k \<le> 6"
  shows "t < TWOPI"
proof -
  have "of_nat k \<le> (6 :: rat)" using assms(2) by simp
  then have "centre k + of_nat (Suc k) / 100000000 < 6283185306 / 1000000000" unfolding centre_def of_nat_Suc by (simp add: field_simps)
  then show ?thesis using assms(1) twopi_near(1) unfolding near_centre_def by linarith
qed

lemma past_table:
  assumes "near_centre 7 t"
  shows "256 \<le> int_of_double (fl (t * fl (256 / TWOPI)))"
proof -
  have t: "67 / 10 \<le> t" "t \<le> 7" using assms by (simp_all add: near_centre_def centre_def)
  have w: "40 \<le> 256 / TWOPI" "256 / TWOPI \<le> 41" using twopi_near by (simp_all add: field_simps)
  have f: "40 - 1 / 100000000000 \<le> fl (256 / TWOPI)" "fl (256 / TWOPI) \<le> 41 + 1 / 100000000000" by (rule fl_close [OF w]; simp)+
  have "67 / 10 * (39 :: rat) \<le> t * fl (256 / TWOPI)" "t * fl (256 / TWOPI) \<le> 7 * 42"
    using t f by (intro mult_mono; simp)+
  from fl_close [OF this] have "67 / 10 * 39 - 1 / 100000000000 \<le> fl (t * fl (256 / TWOPI))" by simp
  then have "256 \<le> fl (t * fl (256 / TWOPI))" by simp
  then show ?thesis by (simp add: int_of_double_def le_floor_iff)
qed

text \<open>
  C39. At the sample rate of the recorder, a new STAR decoder reads past the end of its table of sines within
  seven samples, whatever they are: a unit's phase is used as an index before it is reduced.
\<close>
theorem star_reads_past_table:
  assumes "7 \<le> length vs"
  shows "star_decoder_process_samples vs (star_decoder_set_callback format (star_decoder_new junk 16000)) = None"
proof -
  have run: "star_decoder_process_samples vs dec = None"
    if "near_centre k (thetas dec ! 3)" "k \<le> 6" "length (sd_units dec) = 4" "sd_sampleRate dec = 16000" "6 < k + length vs" for k dec vs
    using that
  proof (induction vs arbitrary: k dec)
    case (Cons v vs)
    show ?case
    proof (cases "process_sample v [0..<4] dec")
      case (Some d)
      obtain t where t: "theta_step 16000 (thetas dec ! 3) = Some t" "thetas d ! 3 = t" and n: "length (sd_units d) = 4" "sd_sampleRate d = 16000"
        using sample_theta [OF Cons.prems(3) Some] Cons.prems(4) by auto
      let ?t = "next_theta (thetas dec ! 3)"
      note c = next_theta_near [OF Cons.prems(1,2)]
      have "k \<noteq> 6" using past_table [of ?t] c t(1) by (auto simp: theta_step_def Let_def split: if_splits)
      then have k: "k \<le> 5" using Cons.prems(2) by simp
      then have "?t < TWOPI" using below_turn [OF c] by simp
      then have "t = ?t" using t(1) by (simp add: theta_step_def Let_def split: if_splits)
      then have near: "near_centre (Suc k) (thetas d ! 3)" using c t(2) by simp
      let ?d = "d\<lparr>sd_valid := False\<rparr>"
      have i: "star_decoder_process_samples vs e = None" if "e \<in> {d, ?d}" for e
        by (rule Cons.IH [of "Suc k"]) (use that near k n Cons.prems(5) in \<open>auto simp: thetas_def\<close>)
      show ?thesis using Some i [of d] i [of ?d] by (simp add: star_decoder_get_def)
    qed simp
  qed simp
  let ?dec = "star_decoder_set_callback format (star_decoder_new junk 16000)"
  have "thetas ?dec ! 3 = fl (fl (TWOPI / 8) * 3)"
    by (simp add: thetas_def star_decoder_set_callback_def star_decoder_new_def reset_decoder_def upt_conv_Cons)
  then show ?thesis
    using assms start_near by (intro run [of 0]) (simp_all add: star_decoder_set_callback_def star_decoder_new_def)
qed

theorem star_reads_past_table_witness:
  "star_decoder_process_samples (replicate 7 0) (star_decoder_set_callback star_format_1_16383 (star_decoder_new example_star 16000)) = None"
  by (rule star_reads_past_table) simp

end
