(* ===== verification/Decoder_Sink_Properties.thy ===== *)
theory Decoder_Sink_Properties
  imports Decoder_Sinks P25_Properties Mdc_Properties Fsync_Properties Star_Properties
begin

text \<open>
  The TPS decoder against the parser of control channels (\<open>P25_Parser\<close>): where both read a trunking block the
  unit ID agrees, and where they do not. The audio decoders as the signal sink runs them.
\<close>

section \<open>Two readings of one block\<close>

lemma drop_high:
  fixes a b m :: nat
  assumes "n + k \<le> N" "m < 2 ^ k"
  shows "drop_bit n (a * 2 ^ N + b) AND m = drop_bit n b AND m"
proof -
  have "take_bit (n + k) (a * 2 ^ N + b) = take_bit (n + k) b"
  proof -
    have "(2 :: nat) ^ N = 2 ^ (N - (n + k)) * 2 ^ (n + k)" using assms(1) by (simp flip: power_add)
    then have "(a * 2 ^ N + b) mod 2 ^ (n + k) = (a * 2 ^ (N - (n + k)) * 2 ^ (n + k) + b) mod 2 ^ (n + k)" by (simp only: mult.assoc)
    also have "\<dots> = b mod 2 ^ (n + k)" by (simp only: mod_mult_self3)
    finally show ?thesis by (simp only: take_bit_eq_mod)
  qed
  then have "take_bit k (drop_bit n (a * 2 ^ N + b)) = take_bit k (drop_bit n b)"
    by (simp only: take_bit_drop_bit add.commute)
  moreover have "x AND m = take_bit k x AND m" for x
    using assms(2) by (metis and.assoc and.commute take_bit_eq_mask take_bit_nat_eq_self)
  ultimately show ?thesis by metis
qed

lemma field_with_nac:
  assumes "length s = 10" "n + k \<le> 96" "unat m < 2 ^ k"
  shows "bitset_shift_mask (load_octets (s0 # s1 # s) 2) n m = bitset_shift_mask (load_octets s 2) n m"
proof -
  have k: "k \<le> 96" using assms(2) by simp
  have "unat m < 2 ^ 96" using assms(3) k by (meson less_le_trans one_le_numeral power_increasing)
  then have t: "take_bit 96 (unat m) = unat m" "take_bit 112 (unat m) = unat m" by (simp_all add: take_bit_nat_eq_self)
  have "(s0 # s1 # s) @ replicate 2 0 = [s0, s1] @ (s @ replicate 2 0)" by simp
  then have b: "bs_bits (load_octets (s0 # s1 # s) 2) = be_value [s0, s1] * 2 ^ 96 + bs_bits (load_octets s 2)"
    unfolding load_octets_bits using assms(1) by (simp only: be_value_append) (simp add: power256)
  have "unat (bitset_shift_mask (load_octets (s0 # s1 # s) 2) n m) = unat (bitset_shift_mask (load_octets s 2) n m)"
    unfolding unat_bitset_shift_mask load_octets_size b using assms t drop_high [OF assms(2,3)] by simp
  then show ?thesis by (rule unsigned_word_eqI)
qed

lemma nac_fields:
  assumes "length s = 10"
  shows "bitset_shift_mask (load_octets (s0 # s1 # s) 2) 88 0x3f = bitset_shift_mask (load_octets s 2) 88 0x3f"
    "bitset_shift_mask (load_octets (s0 # s1 # s) 2) 80 0xff = bitset_shift_mask (load_octets s 2) 80 0xff"
    "bitset_shift_mask (load_octets (s0 # s1 # s) 2) 72 0x80 = bitset_shift_mask (load_octets s 2) 72 0x80"
    "bitset_shift_mask (load_octets (s0 # s1 # s) 2) 40 0xffffff = bitset_shift_mask (load_octets s 2) 40 0xffffff"
    "bitset_shift_mask (load_octets (s0 # s1 # s) 2) 16 0xffffff = bitset_shift_mask (load_octets s 2) 16 0xffffff"
  by (rule field_with_nac [OF assms, of _ 6], simp_all) (rule field_with_nac [OF assms, of _ 24] field_with_nac [OF assms, of _ 8]; simp)+

definition tps_of_message :: "TrunkMessage \<Rightarrow> decoder_msg list" where
  "tps_of_message m =
     (if 0 < tm_source m \<or> tm_emergency m then [msg_of (tm_source m) ''TPS'' (if tm_emergency m then Emergency else Normal)] else [])"

lemma tps_report_message:
  "tm_source m = long_of_ulong u \<Longrightarrow> tm_emergency m = e \<Longrightarrow> tps_report u e = tps_of_message m"
  by (simp add: tps_report_def tps_of_message_def long_of_ulong_def)

lemma set_tdma_source [simp]: "tm_source (set_tdma chs ch sys m) = tm_source m" "tm_emergency (set_tdma chs ch sys m) = tm_emergency m"
    "tm_message_type (set_tdma chs ch sys m) = tm_message_type m"
  by (simp_all add: set_tdma_def)

definition reports_source :: "TrunkMessage \<Rightarrow> bool" where
  "reports_source m \<longleftrightarrow> tm_message_type m \<in> {GRANT, UU_V_GRANT, ACKNOWLEDGE, AFFILIATION, REGISTRATION, DEREGISTRATION}"

lemmas quiet_simps = Let_def reports_source_def bind_eq_Some_conv set_options_def

lemma quiet_branches:
  assumes "tm_message_type m = UNKNOWN" "x \<in> set ms"
  shows "tsbk_update_pair chs b sys m = Some ms \<Longrightarrow> \<not> reports_source x"
    "tsbk_moto_patch_update chs b sys m = Some ms \<Longrightarrow> \<not> reports_source x"
    "tsbk_explicit_update chs b sys m = Some ms \<Longrightarrow> \<not> reports_source x"
    "tsbk_uu_answer_request b m = ms \<Longrightarrow> \<not> reports_source x"
    "tsbk_uu_update chs b sys m = Some ms \<Longrightarrow> \<not> reports_source x"
    "tsbk_data_grant chs b sys m = Some ms \<Longrightarrow> \<not> reports_source x"
    "tsbk_secondary_cc chs b sys m = Some ms \<Longrightarrow> \<not> reports_source x"
    "tsbk_location b m = ms \<Longrightarrow> \<not> reports_source x"
    "tsbk_patch_add b m = ms \<Longrightarrow> \<not> reports_source x"
    "tsbk_harris_patch b m = ms \<Longrightarrow> \<not> reports_source x"
    "tsbk_rfss_status chs b sys m = Some ms \<Longrightarrow> \<not> reports_source x"
    "tsbk_network_status chs b sys m = Some ms \<Longrightarrow> \<not> reports_source x"
    "tsbk_adjacent_status chs b sys m = Some ms \<Longrightarrow> \<not> reports_source x"
    "tsbk_update_explicit chs b sys m = Some ms \<Longrightarrow> \<not> reports_source x"
    "[m] = ms \<Longrightarrow> \<not> reports_source x"
proof -
  show q0: "tsbk_update_pair chs b sys m = Some ms \<Longrightarrow> \<not> reports_source x"
    using assms by (auto simp: tsbk_update_pair_def quiet_simps split: if_splits)
  show q1: "tsbk_moto_patch_update chs b sys m = Some ms \<Longrightarrow> \<not> reports_source x"
    using assms by (auto simp: tsbk_moto_patch_update_def quiet_simps split: if_splits)
  show q2: "tsbk_explicit_update chs b sys m = Some ms \<Longrightarrow> \<not> reports_source x"
  proof -
    assume "tsbk_explicit_update chs b sys m = Some ms"
    then have "map tm_message_type ms = [UPDATE]"
      unfolding tsbk_explicit_update_def Let_def by (clarsimp simp: bind_eq_Some_conv if_distrib [of tm_message_type])
    then have "tm_message_type x = UPDATE" using assms(2) by auto
    then show "\<not> reports_source x" by (simp add: reports_source_def)
  qed
  show q3: "tsbk_uu_answer_request b m = ms \<Longrightarrow> \<not> reports_source x"
    using assms by (auto simp: tsbk_uu_answer_request_def quiet_simps split: if_splits)
  show q4: "tsbk_uu_update chs b sys m = Some ms \<Longrightarrow> \<not> reports_source x"
    using assms by (auto simp: tsbk_uu_update_def quiet_simps split: if_splits)
  show q5: "tsbk_data_grant chs b sys m = Some ms \<Longrightarrow> \<not> reports_source x"
  proof -
    assume "tsbk_data_grant chs b sys m = Some ms"
    then have "map tm_message_type ms = [DATA_GRANT]"
      unfolding tsbk_data_grant_def Let_def by (clarsimp simp: bind_eq_Some_conv)
    then have "tm_message_type x = DATA_GRANT" using assms(2) by auto
    then show "\<not> reports_source x" by (simp add: reports_source_def)
  qed
  show q6: "tsbk_secondary_cc chs b sys m = Some ms \<Longrightarrow> \<not> reports_source x"
    using assms by (auto simp: tsbk_secondary_cc_def quiet_simps split: if_splits)
  show q7: "tsbk_location b m = ms \<Longrightarrow> \<not> reports_source x"
    using assms by (auto simp: tsbk_location_def quiet_simps split: if_splits)
  show q8: "tsbk_patch_add b m = ms \<Longrightarrow> \<not> reports_source x"
    using assms by (auto simp: tsbk_patch_add_def quiet_simps split: if_splits)
  show q9: "tsbk_harris_patch b m = ms \<Longrightarrow> \<not> reports_source x"
    using assms by (auto simp: tsbk_harris_patch_def quiet_simps split: if_splits)
  show q10: "tsbk_rfss_status chs b sys m = Some ms \<Longrightarrow> \<not> reports_source x"
    using assms by (auto simp: tsbk_rfss_status_def quiet_simps split: if_splits)
  show q11: "tsbk_network_status chs b sys m = Some ms \<Longrightarrow> \<not> reports_source x"
    using assms by (auto simp: tsbk_network_status_def quiet_simps split: if_splits)
  show q12: "tsbk_adjacent_status chs b sys m = Some ms \<Longrightarrow> \<not> reports_source x"
    using assms by (auto simp: tsbk_adjacent_status_def quiet_simps split: if_splits)
  show "tsbk_update_explicit chs b sys m = Some ms \<Longrightarrow> \<not> reports_source x"
    using q1 q2 by (simp add: tsbk_update_explicit_def split: if_splits)
  show "[m] = ms \<Longrightarrow> \<not> reports_source x" using assms by (auto simp: reports_source_def)
qed

lemma quiet_opcodes:
  assumes "tsbk_dispatch chs b sys op m = Some (chs', [x])" "tm_message_type m = UNKNOWN" "reports_source x"
  shows "op \<in> {0x00, 0x02, 0x04, 0x20, 0x28, 0x2c, 0x2f}"
  using assms quiet_branches [OF assms(2), of x "[x]"]
  unfolding tsbk_dispatch_def keep_table_def table_only_def
  by (auto split: if_splits)

lemma tps_tsbk_agrees:
  assumes "decode_tsbk junk chs b nac sys = Some (chs', [m])" "reports_source m"
  shows "tps_decode_tsbk b = tps_of_message m"
proof -
  let ?op = "bitset_shift_mask b 88 0x3f" and ?m0 = "tsbk_init junk (bitset_shift_mask b 88 0x3f) nac sys"
  have d: "tsbk_dispatch chs b sys ?op ?m0 = Some (chs', [m])" using assms(1) by (simp add: decode_tsbk_def Let_def)
  have u: "tm_message_type ?m0 = UNKNOWN" by (simp add: tsbk_init_def)
  have q: "?op \<in> {0x00, 0x02, 0x04, 0x20, 0x28, 0x2c, 0x2f}" by (rule quiet_opcodes [OF d u assms(2)])
  have e: "tm_emergency (tsbk_init junk op nac sys) = False" for op by (simp add: tsbk_init_def)
  have n: "tsbk_patch_add b ?m0 \<noteq> [m]" "tsbk_update_pair chs b sys ?m0 \<noteq> Some [m]"
    using quiet_branches(1,9) [OF u, of m "[m]"] assms(2) by auto
  note simps = tps_decode_tsbk_def Let_def tsbk_dispatch_def keep_table_def tsbk_group_grant_def tsbk_group_update_def
    tsbk_moto_patch_grant_def tsbk_uu_grant_def tsbk_acknowledge_def tsbk_affiliation_def tsbk_registration_def tsbk_deregistration_def
    bind_eq_Some_conv
  show ?thesis
    using q d n
    by (elim insertE emptyE)
      (auto simp: simps set_options_def e split: if_splits intro!: tps_report_message)
qed

text \<open>
  C24. Where the parser of the control channel reads one grant, acknowledgement, affiliation, registration or
  deregistration from a trunking block, the TPS decoder, which keeps the NAC in front of it, reports that
  message's source, as an emergency when the message is one.
\<close>
theorem tps_reports_source:
  assumes "length s = 10" "parse_message junk chs 7 (s0 # s1 # s) sys = Some (chs', [m])" "reports_source m"
  shows "tps_process_message read_json (Some (7, s0 # s1 # s)) = Some (tps_of_message m)"
proof -
  have n: "(ucast s0 * 256 + ucast s1 :: ulong) \<noteq> 0xffff" 
    and d: "decode_tsbk junk chs (load_octets s 2) (ucast s0 * 256 + ucast s1) sys = Some (chs', [m])"
    using assms(2,3) by (auto simp: parse_message_def Let_def keep_table_def reports_source_def parser_default_def split: if_splits)
  have "tps_decode_tsbk (load_octets (s0 # s1 # s) 2) = tps_decode_tsbk (load_octets s 2)"
    unfolding tps_decode_tsbk_def Let_def nac_fields [OF assms(1)] by (rule refl)
  then show ?thesis using n tps_tsbk_agrees [OF d assms(3)] by (simp add: tps_process_message_def)
qed

theorem tps_reports_source_witness:
  "tps_process_message (\<lambda>_. None) (Some (7, [0x02, 0x93, 0x20, 0, 0, 0, 0, 0, 7, 0, 1, 9])) = Some [msg_of 265 ''TPS'' Normal]"
proof -
  let ?b = "load_octets [0x20, 0, 0, 0, 0, 0, 7, 0, 1, 9] 2"
  have op: "bitset_shift_mask ?b 88 0x3f = 0x20" by (simp add: block_opcode)
  have nac: "(ucast (0x02 :: octet) * 256 + ucast (0x93 :: octet) :: ulong) \<noteq> 0xffff" by (rule nac_not_tdma) simp
  have src: "bitset_shift_mask ?b 16 0xffffff = 265"
    using block_source [of "0x20" 0 0 0 0 0 7 0 1 9] by (simp add: word_unat_eq_iff be_value_Cons)
  obtain m where m: "parse_message example_message no_channels 7 (0x02 # 0x93 # [0x20, 0, 0, 0, 0, 0, 7, 0, 1, 9]) 0 = Some (no_channels, [m])"
      "tm_message_type m = ACKNOWLEDGE" "tm_source m = 265" "\<not> tm_emergency m"
    using nac by (auto simp: parse_message_def Let_def decode_tsbk_def op tsbk_dispatch_def keep_table_def tsbk_acknowledge_def src
        long_of_ulong_def tsbk_init_def)
  have "tps_process_message (\<lambda>_. None) (Some (7, 0x02 # 0x93 # [0x20, 0, 0, 0, 0, 0, 7, 0, 1, 9])) = Some (tps_of_message m)"
    by (rule tps_reports_source [OF _ m(1)]) (simp_all add: reports_source_def m(2))
  then show ?thesis using m by (simp add: tps_of_message_def)
qed

section \<open>Where the readings differ\<close>

text \<open>
  A group voice channel update carries no unit, but its first channel lies where a grant has its service
  options: the TPS decoder reports an emergency of unit 0 whenever that channel's identifier is 8 or more, and
  otherwise nothing.
\<close>
theorem tps_update_false_emergency:
  assumes "unat b0 mod 64 = 2" "b1 \<noteq> 0x90" "s0 \<noteq> 0xff"
  shows "tps_process_message read_json (Some (7, [s0, s1, b0, b1, b2, b3, b4, b5, b6, b7, b8, b9])) =
    Some (if bit b2 7 then [msg_of 0 ''TPS'' Emergency] else [])"
proof -
  let ?s = "[b0, b1, b2, b3, b4, b5, b6, b7, b8, b9]"
  have f: "bitset_shift_mask (load_octets (s0 # s1 # ?s) 2) 88 0x3f = 2" "bitset_shift_mask (load_octets (s0 # s1 # ?s) 2) 80 0xff = ucast b1"
      "bitset_shift_mask (load_octets (s0 # s1 # ?s) 2) 72 0x80 = ucast b2 AND 0x80"
    using nac_fields [of ?s s0 s1] assms(1) by (simp_all add: block_opcode block_mfrid block_options)
  have "(ucast b1 :: ulong) \<noteq> 0x90"
  proof
    assume "(ucast b1 :: ulong) = 0x90"
    then have "unat (ucast b1 :: ulong) = 0x90" by simp
    then have "unat b1 = unat (0x90 :: octet)" by simp
    then show False using assms(2) by (simp only: word_unat_eq_iff)
  qed
  moreover have "(ucast b2 AND 0x80 :: ulong) \<noteq> 0 \<longleftrightarrow> bit b2 7"
    using and_exp_eq_0_iff_not_bit [of "ucast b2 :: ulong" 7] by (simp add: bit_ucast_iff)
  moreover have "(ucast s0 * 256 + ucast s1 :: ulong) \<noteq> 0xffff" using assms(3) by (rule nac_not_tdma)
  ultimately show ?thesis by (simp add: tps_process_message_def tps_decode_tsbk_def Let_def f tps_report_def)
qed

theorem tps_update_false_emergency_witness:
  "tps_process_message (\<lambda>_. None) (Some (7, [0x02, 0x93, 0x02, 0, 0x80, 0, 0, 7, 0, 0, 0, 0])) = Some [msg_of 0 ''TPS'' Emergency]"
proof -
  have "unat (0x02 :: octet) mod 64 = 2" "(0 :: octet) \<noteq> 0x90" "(0x02 :: octet) \<noteq> 0xff" by simp_all
  from tps_update_false_emergency [OF this, of "\<lambda>_. None" "0x93" "0x80" 0 0 7 0 0 0 0]
  have "tps_process_message (\<lambda>_. None) (Some (7, [0x02, 0x93, 0x02, 0, 0x80, 0, 0, 7, 0, 0, 0, 0])) =
    Some (if bit (0x80 :: octet) 7 then [msg_of 0 ''TPS'' Emergency] else [])" .
  moreover have "bit (0x80 :: octet) 7" by code_simp
  ultimately show ?thesis by simp
qed

text \<open>A Motorola patch, which shares opcode 0 with a grant, is reported as a call of a unit: the last two groups of the patch.\<close>

lemma tps_patch_as_call:
  assumes "unat b0 mod 64 = 0" "b1 = 0x90" "s0 \<noteq> 0xff" "\<not> bit b2 7" "0 < be_value [b7, b8, b9]"
  shows "tps_process_message read_json (Some (7, [s0, s1, b0, b1, b2, b3, b4, b5, b6, b7, b8, b9])) =
      Some [msg_of (int (be_value [b7, b8, b9])) ''TPS'' Normal]"
    and "\<exists>m. parse_message junk chs 7 [s0, s1, b0, b1, b2, b3, b4, b5, b6, b7, b8, b9] sys = Some (chs, [m]) \<and> tm_message_type m = PATCH_ADD"
proof -
  let ?s = "[b0, b1, b2, b3, b4, b5, b6, b7, b8, b9]"
  have o: "bitset_shift_mask (load_octets ?s 2) 88 0x3f = 0" using assms(1) by (simp add: block_opcode)
  have m: "bitset_shift_mask (load_octets ?s 2) 80 0xff = 0x90" using assms(2) by (simp add: block_mfrid)
  have e: "bitset_shift_mask (load_octets ?s 2) 72 0x80 = 0"
    using assms(4) and_exp_eq_0_iff_not_bit [of "ucast b2 :: ulong" 7] by (simp add: block_options bit_ucast_iff)
  have u: "unat (bitset_shift_mask (load_octets ?s 2) 16 0xffffff) = be_value [b7, b8, b9]" by (rule block_source)
  have "be_value [b7, b8, b9] < 2 ^ 24" using be_value_lt [of "[b7, b8, b9]"] by simp
  then have s: "sint (bitset_shift_mask (load_octets ?s 2) 16 0xffffff) = int (be_value [b7, b8, b9])"
    using u by (simp add: sint_small)
  have n: "(ucast s0 * 256 + ucast s1 :: ulong) \<noteq> 0xffff" using assms(3) by (rule nac_not_tdma)
  have f: "length ?s = 10" by simp
  show "tps_process_message read_json (Some (7, [s0, s1, b0, b1, b2, b3, b4, b5, b6, b7, b8, b9])) =
      Some [msg_of (int (be_value [b7, b8, b9])) ''TPS'' Normal]"
    using n assms(5) by (simp add: tps_process_message_def tps_decode_tsbk_def Let_def nac_fields [OF f] o e tps_report_def s)
  show "\<exists>m. parse_message junk chs 7 [s0, s1, b0, b1, b2, b3, b4, b5, b6, b7, b8, b9] sys = Some (chs, [m]) \<and> tm_message_type m = PATCH_ADD"
    using n by (simp add: parse_message_def Let_def decode_tsbk_def o m tsbk_dispatch_def keep_table_def tsbk_group_grant_def tsbk_patch_add_def)
qed

text \<open>
  Of a multi-block message the TPS decoder takes the opcode from the sixth octet of the header; the parser,
  which has dropped the NAC, takes it from the eighth.
\<close>
theorem tps_mbt_wrong_opcode:
  assumes "s0 \<noteq> 0xff"
  shows "tps_process_message read_json (Some (12, [s0, s1, h0, h1, h2, h3, h4, h5, h6, h7, h8, h9] @ d)) =
      Some (tps_decode_mbt_data (word_of_nat (unat h5 mod 64)) (load_octets [s0, s1, h0, h1, h2, h3, h4, h5, h6, h7] 2)) \<and>
    parse_message junk chs 12 ([s0, s1, h0, h1, h2, h3, h4, h5, h6, h7, h8, h9] @ d) sys =
      keep_table chs (decode_mbt_data junk chs (word_of_nat (unat h7 mod 64)) (load_octets [h0, h1, h2, h3, h4, h5, h6, h7, h8, h9] 2)
        (load_octets d 4) (bitset_shift_mask (load_octets [h0, h1, h2, h3, h4, h5, h6, h7, h8, h9] 2) 48 0xffffff)
        (ucast s0 * 256 + ucast s1) sys)"
proof -
  have six: "bitset_shift_mask (load_octets [x0, x1, x2, x3, x4, x5, x6, x7, x8, x9] 2) 32 0x3f = word_of_nat (unat x7 mod 64)"
    for x0 x1 x2 x3 x4 x5 x6 x7 x8 x9 :: octet
  proof -
    have "bitset_shift_mask (load_octets [x0, x1, x2, x3, x4, x5, x6, x7, x8, x9] 2) 32 0x3f = ucast x7 AND 0x3f"
      by (rule bitset_field_octet [where xs = "[x0, x1, x2, x3, x4, x5, x6]" and zs = "[x8, x9, 0, 0]"]) (simp_all add: replicate_2)
    moreover have "unat (ucast x7 AND 0x3f :: ulong) = unat x7 mod 64"
      using ucast_and_low [of 6 x7] by (simp add: mask_eq_exp_minus_1)
    ultimately show ?thesis by (simp add: word_unat_eq_iff unat_ulong_of_nat)
  qed
  have n: "(ucast s0 * 256 + ucast s1 :: ulong) \<noteq> 0xffff" using assms by (rule nac_not_tdma)
  show ?thesis using n by (simp add: tps_process_message_def parse_message_def Let_def six)
qed

theorem tps_mbt_wrong_opcode_witness:
  "tps_process_message (\<lambda>_. None) (Some (12, [0x02, 0x93, 0x17, 0, 0, 0, 1, 9, 0, 0, 0, 0, 1, 2, 3])) = Some []"
proof -
  have "tps_process_message (\<lambda>_. None) (Some (12, [0x02, 0x93, 0x17, 0, 0, 0, 1, 9, 0, 0, 0, 0] @ [1, 2, 3])) =
      Some (tps_decode_mbt_data (word_of_nat (unat (9 :: octet) mod 64)) (load_octets [0x02, 0x93, 0x17, 0, 0, 0, 1, 9, 0, 0] 2))"
    by (rule conjunct1 [OF tps_mbt_wrong_opcode]) simp
  then show ?thesis by (simp add: tps_decode_mbt_data_def)
qed

section \<open>The decoders in the sink\<close>

text \<open>
  Whatever the audio and the decoders a system enables, a message of the signal sink has one of the three
  decoders' types, no message comes from a disabled decoder, and only MDC1200 can signal an emergency.
\<close>
theorem signal_sink_messages:
  assumes "signal_sink_dowork vs s = Some (s', ms)" "m \<in> set ms"
  shows "ss_callback s \<and>
    (ss_mdc_enabled s \<and> dm_signaling_type m = ''MDC1200'' \<and> 0 \<le> dm_unitId m \<and> dm_unitId m < 2 ^ 16 \<or>
     ss_fsync_enabled s \<and> dm_signaling_type m = ''FLEETSYNC'' \<and> dm_signal m = Normal \<or>
     ss_star_enabled s \<and> dm_signaling_type m = ''STAR'' \<and> dm_signal m = Normal)"
proof -
  have "uint (w :: 16 word) < 2 ^ 16" for w by (rule order_less_le_trans [OF uint_bounded]) simp
  then show ?thesis
    using assms unfolding signal_sink_dowork_def
    by (auto simp: log_decoder_msg_def mdc_callback_def fsync_callback_def star_callback_def Let_def bind_eq_Some_conv split: if_splits prod.splits)
qed

lemma first_sample:
  assumes "sr_theta (sd_units dec ! num) = 0" "sd_sampleRate dec = 16000"
  shows "\<exists>u. process_sample_per num s dec = Some (set_star num u dec)"
proof -
  let ?t = "fl (0 + fl (fl (TWOPI * 1600) / 16000))" and ?f = "fl (256 / TWOPI)"
  have t: "6 / 10 \<le> ?t" "?t \<le> 7 / 10"
    using fl_close [of "6283185305 / 10000000000" "0 + fl (fl (TWOPI * 1600) / 16000)" "6283185309 / 10000000000"] increment_near by simp_all
  have "40 \<le> 256 / TWOPI" "256 / TWOPI \<le> 41" using twopi_near by (simp_all add: field_simps)
  from fl_close [OF this] have f: "39 \<le> ?f" "?f \<le> 42" by simp_all
  have "6 / 10 * 39 \<le> ?t * ?f" "?t * ?f \<le> 7 / 10 * 42" using t f by (intro mult_mono; simp)+
  from fl_close [OF this] have "0 \<le> fl (?t * ?f)" "fl (?t * ?f) < 256" by simp_all
  then have "0 \<le> int_of_double (fl (?t * ?f))" "int_of_double (fl (?t * ?f)) < 256" by (simp_all add: int_of_double_def floor_less_iff)
  then obtain e where e: "elem_at star_sintable (int_of_double (fl (?t * ?f))) = Some e" by (auto simp: elem_at_def)
  have "\<not> TWOPI \<le> ?t" using t(2) twopi_near by simp
  then show ?thesis unfolding process_sample_per_def Let_def assms e by auto
qed

theorem signal_sink_messages_witness:
  "let s = \<lparr>ss_mdc = example_mdc, ss_fsync = example_fsync, ss_star = example_star\<lparr>sd_valid := True, sd_lastBits0 := 0x70C40000\<rparr>,
            ss_callback = True, ss_mdc_enabled = False, ss_fsync_enabled = False, ss_star_enabled = True\<rparr>;
       m = msg_of 196 ''STAR'' Normal
   in map_option snd (signal_sink_dowork [0] s) = Some [m] \<and> dm_signaling_type m = ''STAR'' \<and> dm_signal m = Normal"
proof -
  define s where "s = \<lparr>ss_mdc = example_mdc, ss_fsync = example_fsync, ss_star = example_star\<lparr>sd_valid := True, sd_lastBits0 := 0x70C40000\<rparr>,
            ss_callback = True, ss_mdc_enabled = False, ss_fsync_enabled = False, ss_star_enabled = True\<rparr>"
  let ?d = "ss_star s" and ?m = "msg_of 196 ''STAR'' Normal"
  have l: "[0..<4] = [0, 1, 2, 3 :: nat]" by (simp add: upt_conv_Cons)
  have z: "sr_theta (sd_units ?d ! i) = 0" if "i < 4" for i using that by (simp add: s_def example_star_def)
  have n: "length (sd_units ?d) = 4" "sd_sampleRate ?d = 16000" by (simp_all add: s_def example_star_def)
  have k: "sr_theta (sd_units (set_star j u d) ! i) = 0" if "sr_theta (sd_units d ! i) = 0" "i \<noteq> j" for i j u d
    using that by (simp add: set_star_def)
  have keep: "sd_sampleRate (set_star j u d) = sd_sampleRate d" "sd_valid (set_star j u d) = sd_valid d" "sd_lastBits0 (set_star j u d) = sd_lastBits0 d"
      "sd_callback (set_star j u d) = sd_callback d" "sd_callback_format (set_star j u d) = sd_callback_format d" for j u d
    by (simp_all add: set_star_def)
  obtain u0 where u0: "process_sample_per 0 0 ?d = Some (set_star 0 u0 ?d)" using first_sample [of ?d 0 0] z n by auto
  obtain u1 where u1: "process_sample_per 1 0 (set_star 0 u0 ?d) = Some (set_star 1 u1 (set_star 0 u0 ?d))"
    using first_sample [of "set_star 0 u0 ?d" 1 0] z n k keep by auto
  obtain u2 where u2: "process_sample_per 2 0 (set_star 1 u1 (set_star 0 u0 ?d)) = Some (set_star 2 u2 (set_star 1 u1 (set_star 0 u0 ?d)))"
    using first_sample [of "set_star 1 u1 (set_star 0 u0 ?d)" 2 0] z n k keep by auto
  obtain u3 where u3: "process_sample_per 3 0 (set_star 2 u2 (set_star 1 u1 (set_star 0 u0 ?d))) = Some (set_star 3 u3 (set_star 2 u2 (set_star 1 u1 (set_star 0 u0 ?d))))"
    using first_sample [of "set_star 2 u2 (set_star 1 u1 (set_star 0 u0 ?d))" 3 0] z n k keep by auto
  have f: "sc_unitID (star_fields star_format_1_16383 0x70C40000) = 196" by (simp add: star_fields_def Let_def)
  have v: "sd_valid ?d" "sd_lastBits0 ?d = 0x70C40000" "sd_callback ?d" "sd_callback_format ?d = star_format_1_16383"
    by (simp_all add: s_def example_star_def)
  define e where "e = set_star 3 u3 (set_star 2 u2 (set_star 1 u1 (set_star 0 u0 ?d)))"
  have p: "process_sample 0 [0..<4] ?d = Some e"
    unfolding l process_sample.simps u0 bind.bind_lunit u1 u2 u3 e_def by (rule refl)
  have g: "sd_valid e" "sd_callback e" "star_decoder_get (sd_callback_format e) e = Some (star_fields star_format_1_16383 0x70C40000, e\<lparr>sd_valid := False\<rparr>)"
    unfolding star_decoder_get_def e_def keep using v by (simp_all only: if_True)
  have "star_decoder_process_samples [0] ?d = Some (e\<lparr>sd_valid := False\<rparr>, [star_fields star_format_1_16383 0x70C40000])"
    unfolding star_decoder_process_samples.simps p bind.bind_lunit g Let_def using g by simp
  then have "\<exists>s'. signal_sink_dowork [0] s = Some (s', [?m])"
    by (simp add: signal_sink_dowork_def s_def log_decoder_msg_def star_callback_def f)
  then obtain s' where r: "signal_sink_dowork [0] s = Some (s', [?m])" by blast
  from signal_sink_messages [OF this, of ?m]
  have "dm_signaling_type ?m = ''STAR'' \<and> dm_signal ?m = Normal" by (simp add: s_def)
  with r show ?thesis by (simp add: Let_def flip: s_def)
qed

end
