(* ===== verification/Json.thy ===== *)
theory Json
  imports Dbl
begin

text \<open>
  What the program uses of the vendored JSON library (\<open>lib/json.hpp\<close>): values, reading a member with
  a default (\<open>value\<close>), \<open>contains\<close>, the operator \<open>[]\<close> on a value that is not const, iteration, and the
  conversions to C++ types. The members of an object are in the order of their keys, each key once;
  the parser of the library is a parameter wherever a text is read.

  A computation that does not return normally is a \<open>fault\<close>: an exception of the standard library's
  class, a \<open>return false\<close>, the end of the program, or a result the language does not define.
\<close>

datatype json =
    JNull | JBool bool | JInt int | JFloat double | JString string
  | JArray "json list" | JObject "(string \<times> json) list"

datatype fault = Exception | Returned_False | Exit_Program | Undefined

type_synonym 'a outcome = "fault + 'a"

definition andthen :: "'a outcome \<Rightarrow> ('a \<Rightarrow> 'b outcome) \<Rightarrow> 'b outcome" where
  "andthen r k = (case r of Inl e \<Rightarrow> Inl e | Inr x \<Rightarrow> k x)"

definition check :: "bool \<Rightarrow> fault \<Rightarrow> 'a outcome \<Rightarrow> 'a outcome" where
  "check b e r = (if b then r else Inl e)"

lemma andthen_simps [simp]: "andthen (Inl e) k = Inl e" "andthen (Inr x) k = k x"
  by (simp_all add: andthen_def)

lemma check_simps [simp]: "check True e r = r" "check False e r = Inl e"
  by (simp_all add: check_def)

lemma andthen_Inr: "andthen r k = Inr y \<longleftrightarrow> (\<exists>x. r = Inr x \<and> k x = Inr y)"
  by (cases r) simp_all

lemma check_Inr: "check b e r = Inr y \<longleftrightarrow> b \<and> r = Inr y"
  by (cases b) simp_all

section \<open>Conversions\<close>

text \<open>\<open>from_json\<close> for \<open>std::string\<close>, \<open>bool\<close>, \<open>double\<close> and \<open>std::vector<double>\<close>.\<close>

fun get_string :: "json \<Rightarrow> string outcome" where
  "get_string (JString s) = Inr s"
| "get_string _ = Inl Exception"

fun get_bool :: "json \<Rightarrow> bool outcome" where
  "get_bool (JBool b) = Inr b"
| "get_bool _ = Inl Exception"

fun get_double :: "json \<Rightarrow> double outcome" where
  "get_double (JInt i) = Inr (fl (of_int i))"
| "get_double (JFloat d) = Inr d"
| "get_double _ = Inl Exception"

text \<open>
  For \<open>int\<close>: a wider integer keeps its low 32 bits, a truth value is 0 or 1, and a floating point
  number is cut off, with no defined result when it does not fit.
\<close>

definition int32 :: "int \<Rightarrow> int" where
  "int32 i = (i + 2 ^ 31) mod 2 ^ 32 - 2 ^ 31"

fun get_int32 :: "json \<Rightarrow> int outcome" where
  "get_int32 (JInt i) = Inr (int32 i)"
| "get_int32 (JFloat d) =
     (let i = trunc d in if - (2 ^ 31) \<le> i \<and> i < 2 ^ 31 then Inr i else Inl Undefined)"
| "get_int32 (JBool b) = Inr (if b then 1 else 0)"
| "get_int32 _ = Inl Exception"

fun outcomes :: "'a outcome list \<Rightarrow> 'a list outcome" where
  "outcomes [] = Inr []"
| "outcomes (r # rs) = andthen r (\<lambda>x. andthen (outcomes rs) (\<lambda>xs. Inr (x # xs)))"

fun get_doubles :: "json \<Rightarrow> double list outcome" where
  "get_doubles (JArray js) = outcomes (map get_double js)"
| "get_doubles _ = Inl Exception"

section \<open>Members\<close>

text \<open>\<open>value(key, default)\<close>: only objects have members, and a member of the wrong type is an error.\<close>

fun json_value :: "(json \<Rightarrow> 'a outcome) \<Rightarrow> json \<Rightarrow> string \<Rightarrow> 'a \<Rightarrow> 'a outcome" where
  "json_value get (JObject kvs) key d = (case map_of kvs key of Some v \<Rightarrow> get v | None \<Rightarrow> Inr d)"
| "json_value get _ key d = Inl Exception"

fun json_contains :: "json \<Rightarrow> string \<Rightarrow> bool" where
  "json_contains (JObject kvs) key = (map_of kvs key \<noteq> None)"
| "json_contains _ key = False"

text \<open>
  The operator \<open>[]\<close> adds a null member that is missing and makes an object of a null value; the
  value it is applied to is a copy, or not looked at again, so only the result matters.
\<close>

fun json_at :: "json \<Rightarrow> string \<Rightarrow> json outcome" where
  "json_at (JObject kvs) key = Inr (case map_of kvs key of Some v \<Rightarrow> v | None \<Rightarrow> JNull)"
| "json_at JNull key = Inr JNull"
| "json_at _ key = Inl Exception"

fun json_nth :: "json \<Rightarrow> nat \<Rightarrow> json outcome" where
  "json_nth (JArray js) n = Inr (if n < length js then js ! n else JNull)"
| "json_nth JNull n = Inr JNull"
| "json_nth _ n = Inl Exception"

text \<open>A loop over a value: the elements, the values of the members, nothing, or the value itself.\<close>

fun json_items :: "json \<Rightarrow> json list" where
  "json_items (JArray js) = js"
| "json_items (JObject kvs) = map snd kvs"
| "json_items JNull = []"
| "json_items j = [j]"

text \<open>The pairs an iterator runs over; \<open>key()\<close> throws on anything but an object.\<close>

fun json_members :: "json \<Rightarrow> (string \<times> json) list outcome" where
  "json_members (JObject kvs) = Inr kvs"
| "json_members JNull = Inr []"
| "json_members (JArray js) = (if js = [] then Inr [] else Inl Exception)"
| "json_members _ = Inl Exception"

lemma json_value_absent [simp]: "map_of kvs key = None \<Longrightarrow> json_value get (JObject kvs) key d = Inr d"
  by simp

lemma json_value_Inr:
  "json_value get j key d = Inr x \<longleftrightarrow>
     (\<exists>kvs. j = JObject kvs \<and> (case map_of kvs key of Some v \<Rightarrow> get v = Inr x | None \<Rightarrow> x = d))"
  by (cases j) (auto split: option.splits)

end
