(* ===== verification/Plugin_Manager.thy ===== *)
theory Plugin_Manager
  imports Json Call_Concluder
begin

text \<open>
  The plugin manager (\<open>trunk-recorder/plugin_manager/plugin_manager.cc\<close>): loading, the life cycle of
  the plugins, and passing on what the program tells them.

  A plugin is a shared library; what its functions do is a parameter. \<open>'p\<close> is the type of the state of
  a plugin object, and the record \<open>Plugin_Api\<close> holds the functions of the class of that name: what each
  returns and the state it leaves. \<open>pa_create\<close> is the symbol \<open>create_plugin\<close> of a library, \<open>None\<close> when it
  cannot be imported, and \<open>None\<close> as the result of \<open>pa_parse_config\<close> or \<open>pa_init\<close> is an exception: the
  configuration is loaded under a \<open>try\<close>. The other functions are taken to return.
\<close>

datatype plugin_state_t =
    PLUGIN_UNKNOWN | PLUGIN_INITIALIZED | PLUGIN_RUNNING | PLUGIN_FAILED | PLUGIN_STOPPED | PLUGIN_DISABLED

text \<open>What is passed on without looking at an answer: the events of the main loop and four calls more.\<close>

datatype notice =
    Poll_One
  | Audio_Stream "int option" rec_ref "16 word list"
  | Setup_Sources
  | Setup_Systems
  | Told event

record 'p Plugin_Api =
  pa_create :: "string \<Rightarrow> 'p option"
  pa_parse_config :: "json \<Rightarrow> 'p \<Rightarrow> 'p option"
  pa_init :: "'p \<Rightarrow> (int \<times> 'p) option"
  pa_start :: "'p \<Rightarrow> int \<times> 'p"
  pa_stop :: "'p \<Rightarrow> int \<times> 'p"
  pa_tell :: "notice \<Rightarrow> 'p \<Rightarrow> 'p"
  pa_call_end :: "Call_Data \<Rightarrow> 'p \<Rightarrow> int \<times> 'p"

record 'p Plugin =
  pl_name :: string
  pl_state :: plugin_state_t
  pl_self :: 'p

section \<open>Loading\<close>

text \<open>\<open>new Plugin()\<close> zeroes the state, which is \<open>PLUGIN_UNKNOWN\<close>.\<close>

definition setup_plugin :: "'p Plugin_Api \<Rightarrow> string \<Rightarrow> string \<Rightarrow> 'p Plugin outcome" where
  "setup_plugin api plugin_lib plugin_name =
     (case pa_create api plugin_lib of
        None \<Rightarrow> Inl Exception
      | Some p \<Rightarrow> Inr \<lparr>pl_name = plugin_name, pl_state = PLUGIN_UNKNOWN, pl_self = p\<rparr>)"

definition parse_config :: "'p Plugin_Api \<Rightarrow> json \<Rightarrow> 'p Plugin \<Rightarrow> 'p Plugin outcome" where
  "parse_config api config_data plugin =
     (case pa_parse_config api config_data (pl_self plugin) of
        None \<Rightarrow> Inl Exception | Some p \<Rightarrow> Inr (plugin\<lparr>pl_self := p\<rparr>))"

definition add_internal_plugin ::
  "'p Plugin_Api \<Rightarrow> string \<Rightarrow> string \<Rightarrow> json \<Rightarrow> 'p Plugin list \<Rightarrow> 'p Plugin list outcome" where
  "add_internal_plugin api name library config_data plugins =
     andthen (setup_plugin api library name) (\<lambda>plugin.
     andthen (parse_config api config_data plugin) (\<lambda>plugin. Inr (plugins @ [plugin])))"

fun load_plugins :: "'p Plugin_Api \<Rightarrow> json list \<Rightarrow> 'p Plugin list \<Rightarrow> 'p Plugin list outcome" where
  "load_plugins api [] plugins = Inr plugins"
| "load_plugins api (element # rest) plugins =
     andthen (json_value get_string element ''library'' '''') (\<lambda>plugin_lib.
     andthen (json_value get_string element ''name'' '''') (\<lambda>plugin_name.
     andthen (json_value get_bool element ''enabled'' True) (\<lambda>plugin_enabled.
     andthen (if plugin_enabled then add_internal_plugin api plugin_name plugin_lib element plugins else Inr plugins)
       (load_plugins api rest))))"

definition init_plugin :: "'p Plugin_Api \<Rightarrow> 'p Plugin \<Rightarrow> 'p Plugin outcome" where
  "init_plugin api plugin =
     (case pa_init api (pl_self plugin) of
        None \<Rightarrow> Inl Exception
      | Some (ret, p) \<Rightarrow>
          Inr (plugin\<lparr>pl_self := p, pl_state := if ret < 0 then PLUGIN_FAILED else PLUGIN_INITIALIZED\<rparr>))"

definition initialize_plugins :: "'p Plugin_Api \<Rightarrow> json \<Rightarrow> 'p Plugin list \<Rightarrow> 'p Plugin list outcome" where
  "initialize_plugins api config_data plugins =
     andthen (if json_contains config_data ''plugins''
              then andthen (json_at config_data ''plugins'') (\<lambda>js. load_plugins api (json_items js) plugins)
              else Inr plugins)
       (\<lambda>plugins. outcomes (map (init_plugin api) plugins))"

section \<open>Life cycle\<close>

definition start_plugin :: "'p Plugin_Api \<Rightarrow> 'p Plugin \<Rightarrow> 'p Plugin" where
  "start_plugin api plugin =
     (let (err, p) = (if pl_state plugin = PLUGIN_INITIALIZED then pa_start api (pl_self plugin) else (0, pl_self plugin))
      in if err \<noteq> 0 then plugin\<lparr>pl_self := p, pl_state := PLUGIN_FAILED\<rparr>
         else plugin\<lparr>pl_self := pa_tell api Setup_Systems (pa_tell api Setup_Sources p), pl_state := PLUGIN_RUNNING\<rparr>)"

definition start_plugins :: "'p Plugin_Api \<Rightarrow> 'p Plugin list \<Rightarrow> 'p Plugin list" where
  "start_plugins api plugins = map (start_plugin api) plugins"

definition stop_plugin :: "'p Plugin_Api \<Rightarrow> 'p Plugin \<Rightarrow> 'p Plugin" where
  "stop_plugin api plugin =
     (let (err, p) = (if pl_state plugin = PLUGIN_RUNNING then pa_stop api (pl_self plugin) else (0, pl_self plugin))
      in plugin\<lparr>pl_self := p, pl_state := if err \<noteq> 0 then PLUGIN_FAILED else PLUGIN_STOPPED\<rparr>)"

definition stop_plugins :: "'p Plugin_Api \<Rightarrow> 'p Plugin list \<Rightarrow> 'p Plugin list" where
  "stop_plugins api plugins = map (stop_plugin api) plugins"

section \<open>Passing on\<close>

text \<open>
  The functions \<open>plugman_*\<close> have one body: the plugins that are running, in order. All but one return
  nothing or zero; \<open>plugman_call_end\<close> returns the sum of the answers.
\<close>

definition running :: "'p Plugin \<Rightarrow> bool" where
  "running plugin \<longleftrightarrow> pl_state plugin = PLUGIN_RUNNING"

definition notify :: "'p Plugin_Api \<Rightarrow> notice \<Rightarrow> 'p Plugin list \<Rightarrow> 'p Plugin list" where
  "notify api n plugins =
     map (\<lambda>plugin. if running plugin then plugin\<lparr>pl_self := pa_tell api n (pl_self plugin)\<rparr> else plugin) plugins"

fun call_end :: "'p Plugin_Api \<Rightarrow> Call_Data \<Rightarrow> 'p Plugin list \<Rightarrow> int \<times> 'p Plugin list" where
  "call_end api call_info [] = (0, [])"
| "call_end api call_info (plugin # plugins) =
     (let (plugin_error, p) = (if running plugin then pa_call_end api call_info (pl_self plugin) else (0, pl_self plugin));
          (total_error, rest) = call_end api call_info plugins
      in (plugin_error + total_error, plugin\<lparr>pl_self := p\<rparr> # rest))"

end
