(* ===== verification/Load_Config.thy ===== *)
theory Load_Config
  imports Source Plugin_Manager "HOL-Library.Sublist"
begin

text \<open>
  Loading the configuration (\<open>trunk-recorder/config.cc\<close>): the global settings, the systems with their
  channel, talkgroup and unit files, the sources with their recorders, and the plugins.

  The fields of \<open>struct Config\<close> and of the systems that only plugins, log lines and signal processing
  read are in the records \<open>Config_Options\<close> and \<open>System_Options\<close>. Setting up the log is left out, and so are
  the members that are read a second time for a log line.

  The environment \<open>load_env\<close>: the document as the JSON library parses it (\<open>None\<close> for a parse error) and
  whether the other parser, of Boost, accepts the file; the environment variable \<open>NO_COLOR\<close>, the current
  directory, whether \<open>/dev/shm\<close> exists; the CSV, unit tag and SigMF files; the sample rate a device
  reports; the members of a system and of a source that nothing initialises; and what the recorder
  classes make of a source.
\<close>

record Config_Options =
  co_upload_server :: string
  co_bcfy_calls_server :: string
  co_status_server :: string
  co_instance_key :: string
  co_instance_id :: string
  co_debug_recorder_address :: string
  co_log_dir :: string
  co_debug_recorder :: bool
  co_debug_recorder_port :: int
  co_console_log :: bool
  co_log_file :: bool
  co_log_color :: string
  co_broadcast_signals :: bool
  co_enable_audio_streaming :: bool
  co_soft_vocoder :: bool
  co_status_as_string :: bool
  co_log_level :: string

datatype TalkgroupDisplayFormat = talkGroupDisplayFormat_id | talkGroupDisplayFormat_id_tag | talkGroupDisplayFormat_tag_id

record System_Options =
  sp_api_key :: string
  sp_bcfy_api_key :: string
  sp_bcfy_system_id :: int
  sp_analog_levels :: double
  sp_digital_levels :: double
  sp_max_dev :: int
  sp_filter_width :: double
  sp_conversation_mode :: bool
  sp_mdc_enabled :: bool
  sp_fsync_enabled :: bool
  sp_star_enabled :: bool
  sp_tps_enabled :: bool
  sp_talkgroup_display_format :: TalkgroupDisplayFormat
  sp_hideEncrypted :: bool
  sp_hideUnknown :: bool

record load_env =
  le_document :: "json option"
  le_ptree_reads :: bool
  le_no_color :: "string option"
  le_current_path :: string
  le_dev_shm :: bool
  le_csv :: "string \<Rightarrow> (string list \<times> csv_row list) option"
  le_text :: "string \<Rightarrow> string option"
  le_tokenizer :: "string \<Rightarrow> string list"
  le_sigmf_meta :: "string \<Rightarrow> json option"
  le_actual_rate :: "string \<Rightarrow> double \<Rightarrow> double"
  le_system_junk :: System_impl
  le_source_junk :: Source
  le_digital :: "Config \<Rightarrow> Source \<Rightarrow> rec_ref \<Rightarrow> Recorder"
  le_analog :: "Config \<Rightarrow> Source \<Rightarrow> rec_ref \<Rightarrow> Recorder"
  le_sigmf :: "Config \<Rightarrow> Source \<Rightarrow> rec_ref \<Rightarrow> Recorder"
  le_debug :: "Config \<Rightarrow> Source \<Rightarrow> rec_ref \<Rightarrow> Recorder"

definition iequals :: "string \<Rightarrow> string \<Rightarrow> bool" where
  "iequals s t \<longleftrightarrow> map char_lower s = map char_lower t"

section \<open>Global settings\<close>

text \<open>
  A slash at the end of a directory is removed. On an empty text \<open>find_last_of\<close> gives \<open>npos\<close>, which is
  also the length less one, and \<open>erase\<close> throws.
\<close>

definition strip_slash :: "string \<Rightarrow> string outcome" where
  "strip_slash s = (if s = [] then Inl Exception else Inr (if last s = CHR ''/'' then butlast s else s))"

definition default_temp_dir :: "load_env \<Rightarrow> string" where
  "default_temp_dir env = (if le_dev_shm env then ''/dev/shm'' else le_current_path env)"

definition default_log_color :: "load_env \<Rightarrow> string" where
  "default_log_color env =
     (case le_no_color env of Some s \<Rightarrow> (if s \<noteq> [] then ''none'' else ''console'') | None \<Rightarrow> ''console'')"

definition frequency_format_of :: "string \<Rightarrow> int" where
  "frequency_format_of s = (if iequals s ''mhz'' then 1 else if iequals s ''hz'' then 2 else 0)"

definition load_globals :: "load_env \<Rightarrow> json \<Rightarrow> (Config \<times> Config_Options) outcome" where
  "load_globals env data =
     andthen (json_value get_string data ''logColor'' (default_log_color env)) (\<lambda>log_color.
     andthen (json_value get_bool data ''consoleLog'' True) (\<lambda>console_log.
     andthen (json_value get_bool data ''logFile'' False) (\<lambda>log_file.
     andthen (json_value get_string data ''logDir'' ''logs'') (\<lambda>log_dir.
     andthen (json_value get_double data ''ver'' 0) (\<lambda>config_ver.
     check (\<not> config_ver < 2) Returned_False (
     andthen (json_value get_string data ''tempDir'' (default_temp_dir env)) (\<lambda>temp_dir.
     andthen (strip_slash temp_dir) (\<lambda>temp_dir.
     andthen (json_value get_string data ''captureDir'' (le_current_path env)) (\<lambda>capture_dir.
     andthen (strip_slash capture_dir) (\<lambda>capture_dir.
     andthen (json_value get_string data ''uploadServer'' '''') (\<lambda>upload_server.
     andthen (json_value get_string data ''broadcastifyCallsServer'' '''') (\<lambda>bcfy_calls_server.
     andthen (json_value get_string data ''statusServer'' '''') (\<lambda>status_server.
     andthen (json_value get_string data ''instanceKey'' '''') (\<lambda>instance_key.
     andthen (json_value get_string data ''instanceId'' '''') (\<lambda>instance_id.
     andthen (json_value get_bool data ''broadcastSignals'' False) (\<lambda>broadcast_signals.
     andthen (json_value get_string data ''defaultMode'' ''digital'') (\<lambda>default_mode.
     andthen (json_value get_double data ''callTimeout'' 3) (\<lambda>call_timeout.
     andthen (json_value get_int32 data ''controlWarnRate'' 10) (\<lambda>control_message_warn_rate.
     andthen (json_value get_int32 data ''controlRetuneLimit'' 0) (\<lambda>control_retune_limit.
     andthen (json_value get_bool data ''softVocoder'' False) (\<lambda>soft_vocoder.
     andthen (json_value get_bool data ''audioStreaming'' False) (\<lambda>enable_audio_streaming.
     andthen (json_value get_bool data ''recordUUVCalls'' True) (\<lambda>record_uu_v_calls.
     andthen (json_value get_bool data ''newCallFromUpdate'' True) (\<lambda>new_call_from_update.
     andthen (json_value get_string data ''frequencyFormat'' ''mhz'') (\<lambda>frequency_format_string.
     andthen (json_value get_bool data ''statusAsString'' True) (\<lambda>statusAsString.
     andthen (json_value get_string data ''logLevel'' ''info'') (\<lambda>log_level.
     andthen (json_value get_int32 data ''debugRecorder'' 0) (\<lambda>debug_recorder.
     andthen (json_value get_string data ''debugRecorderAddress'' ''127.0.0.1'') (\<lambda>debug_recorder_address.
     andthen (json_value get_int32 data ''debugRecorderPort'' 1234) (\<lambda>debug_recorder_port.
     Inr (\<lparr>cfg_capture_dir = capture_dir, cfg_temp_dir = temp_dir, cfg_default_mode = default_mode,
           cfg_new_call_from_update = new_call_from_update, cfg_call_timeout = call_timeout,
           cfg_control_message_warn_rate = control_message_warn_rate, cfg_control_retune_limit = control_retune_limit,
           cfg_record_uu_v_calls = record_uu_v_calls, cfg_frequency_format = frequency_format_of frequency_format_string\<rparr>,
          \<lparr>co_upload_server = upload_server, co_bcfy_calls_server = bcfy_calls_server, co_status_server = status_server,
           co_instance_key = instance_key, co_instance_id = instance_id,
           co_debug_recorder_address = debug_recorder_address, co_log_dir = log_dir, co_debug_recorder = (debug_recorder \<noteq> 0),
           co_debug_recorder_port = debug_recorder_port, co_console_log = console_log, co_log_file = log_file,
           co_log_color = log_color, co_broadcast_signals = broadcast_signals,
           co_enable_audio_streaming = enable_audio_streaming, co_soft_vocoder = soft_vocoder,
           co_status_as_string = statusAsString, co_log_level = log_level\<rparr>)
     ))))))))))))))))))))))))))))))"

section \<open>Systems\<close>

definition of_load_error :: "load_error \<Rightarrow> fault" where
  "of_load_error e = (if e = Csv_Exception then Exception else Exit_Program)"

text \<open>A file that cannot be read makes the CSV reader throw; the name of no file is the empty text.\<close>

definition read_csv :: "load_env \<Rightarrow> string \<Rightarrow> (string list \<times> csv_row list) outcome" where
  "read_csv env file =
     (if file = [] then Inr ([], [])
      else case le_csv env file of None \<Rightarrow> Inl Exception | Some csv \<Rightarrow> Inr csv)"

definition loaded_file :: "load_error + System_impl \<Rightarrow> System_impl outcome" where
  "loaded_file r = map_sum of_load_error id r"

definition configure_channels :: "load_env \<Rightarrow> json \<Rightarrow> System_impl \<Rightarrow> System_impl outcome" where
  "configure_channels env element sys =
     (let channel_file_exist = json_contains element ''channelFile''; channels_exist = json_contains element ''channels''
      in check (\<not> (channel_file_exist \<and> channels_exist)) Returned_False
        (if channels_exist then
           andthen (json_at element ''channels'') (\<lambda>j.
           andthen (get_doubles j) (\<lambda>channels. Inr (fold add_channel_freq channels sys)))
         else if channel_file_exist then
           andthen (json_at element ''channelFile'') (\<lambda>j.
           andthen (get_string j) (\<lambda>file.
           andthen (read_csv env file) (\<lambda>(headers, rows). loaded_file (set_channel_file file headers rows sys))))
         else Inl Returned_False))"

definition configure_trunking :: "load_env \<Rightarrow> json \<Rightarrow> System_impl \<Rightarrow> System_impl outcome" where
  "configure_trunking env element sys =
     andthen (json_at element ''control_channels'') (\<lambda>j.
     andthen (get_doubles j) (\<lambda>control_channels.
     andthen (json_value get_string element ''talkgroupsFile'' '''') (\<lambda>file.
     andthen (read_csv env file) (\<lambda>(headers, rows).
       loaded_file (set_talkgroups_file file headers rows (fold add_control_channel control_channels sys))))))"

definition configure_type :: "load_env \<Rightarrow> json \<Rightarrow> System_impl \<Rightarrow> System_impl outcome" where
  "configure_type env element sys =
     (if sy_system_type sys \<in> {''conventional'', ''conventionalP25'', ''conventionalDMR''} then configure_channels env element sys
      else if sy_system_type sys \<in> {''smartnet'', ''p25''} then configure_trunking env element sys
      else Inl Returned_False)"

text \<open>Everything that is not \<open>fsk4\<close> is QPSK.\<close>

definition configure_modulation :: "json \<Rightarrow> bool outcome" where
  "configure_modulation element =
     (if json_contains element ''modulation'' then
        andthen (json_at element ''modulation'') (\<lambda>j.
        andthen (get_string j) (\<lambda>system_modulation. Inr (\<not> iequals system_modulation ''fsk4'')))
      else Inr True)"

definition set_unit_tags_file :: "load_env \<Rightarrow> string \<Rightarrow> System_impl \<Rightarrow> System_impl" where
  "set_unit_tags_file env file sys =
     (if file = [] then sys
      else case le_text env file of
          None \<Rightarrow> sys
        | Some text \<Rightarrow> sys\<lparr>sy_unit_tags := load_unit_tags (le_tokenizer env) text (sy_unit_tags sys)\<rparr>)"

definition display_format_of :: "string \<Rightarrow> TalkgroupDisplayFormat" where
  "display_format_of s =
     (if iequals s ''id_tag'' then talkGroupDisplayFormat_id_tag
      else if iequals s ''tag_id'' then talkGroupDisplayFormat_tag_id else talkGroupDisplayFormat_id)"


text \<open>The settings of a system after its channels, in the order they are read.\<close>

definition configure_archive :: "load_env \<Rightarrow> json \<Rightarrow> System_impl \<Rightarrow> System_Options \<Rightarrow> (System_impl \<times> System_Options) outcome" where
  "configure_archive env element sys opt =
     andthen (json_value get_string element ''apiKey'' '''') (\<lambda>api_key.
     andthen (json_value get_string element ''broadcastifyApiKey'' '''') (\<lambda>bcfy_api_key.
     andthen (json_value get_int32 element ''broadcastifySystemId'' 0) (\<lambda>bcfy_system_id.
     andthen (json_value get_string element ''uploadScript'' '''') (\<lambda>upload_script.
     andthen (json_value get_bool element ''compressWav'' True) (\<lambda>compress_wav.
     andthen (json_value get_bool element ''callLog'' True) (\<lambda>call_log.
     andthen (json_value get_bool element ''audioArchive'' True) (\<lambda>audio_archive.
     andthen (json_value get_bool element ''transmissionArchive'' False) (\<lambda>transmission_archive.
     andthen (json_value get_string element ''unitTagsFile'' '''') (\<lambda>unit_tags_file.
     andthen (json_value get_bool element ''recordUnknown'' True) (\<lambda>record_unknown.
     Inr ((set_unit_tags_file env unit_tags_file sys)
            \<lparr>sy_upload_script := upload_script, sy_compress_wav := compress_wav, sy_call_log := call_log,
             sy_audio_archive := audio_archive, sy_transmission_archive := transmission_archive,
             sy_record_unknown := record_unknown\<rparr>,
          opt\<lparr>sp_api_key := api_key, sp_bcfy_api_key := bcfy_api_key, sp_bcfy_system_id := bcfy_system_id\<rparr>)
     ))))))))))"

definition configure_decoders :: "json \<Rightarrow> System_Options \<Rightarrow> System_Options outcome" where
  "configure_decoders element opt =
     andthen (json_value get_bool element ''decodeMDC'' False) (\<lambda>mdc.
     andthen (json_value get_bool element ''decodeFSync'' False) (\<lambda>fsync.
     andthen (json_value get_bool element ''decodeStar'' False) (\<lambda>star.
     andthen (json_value get_bool element ''decodeTPS'' False) (\<lambda>tps.
     andthen (json_value get_string element ''talkgroupDisplayFormat'' ''Id'') (\<lambda>display.
     Inr (opt\<lparr>sp_mdc_enabled := mdc, sp_fsync_enabled := fsync, sp_star_enabled := star, sp_tps_enabled := tps,
              sp_talkgroup_display_format := display_format_of display\<rparr>))))))"

text \<open>The numbers are read as \<open>int\<close> and become \<open>unsigned long\<close>.\<close>

definition configure_band :: "json \<Rightarrow> System_impl \<Rightarrow> System_impl outcome" where
  "configure_band element sys =
     andthen (json_value get_int32 element ''sysId'' 0) (\<lambda>sys_id.
     andthen (json_value get_int32 element ''nac'' 0) (\<lambda>nac.
     andthen (json_value get_int32 element ''wacn'' 0) (\<lambda>wacn.
     andthen (json_value get_string element ''bandplan'' ''800_standard'') (\<lambda>bandplan.
     andthen (json_value get_double element ''bandplanBase'' 0) (\<lambda>base.
     andthen (json_value get_double element ''bandplanHigh'' 0) (\<lambda>high.
     andthen (json_value get_double element ''bandplanSpacing'' 0) (\<lambda>spacing.
     andthen (json_value get_int32 element ''bandplanOffset'' 0) (\<lambda>offset.
     Inr ((set_bandplan_spacing spacing (set_xor_mask (word_of_int sys_id) (word_of_int wacn) (word_of_int nac) sys))
            \<lparr>sy_bandplan := bandplan, sy_bandfreq := if take 3 bandplan = ''400'' then 400 else 800,
             sy_bandplan_base := base, sy_bandplan_high := high, sy_bandplan_offset := offset\<rparr>)))))))))"

definition configure_limits :: "json \<Rightarrow> System_impl \<Rightarrow> System_Options \<Rightarrow> (System_impl \<times> System_Options) outcome" where
  "configure_limits element sys opt =
     andthen (json_value get_bool element ''hideEncrypted'' (sp_hideEncrypted opt)) (\<lambda>hideEncrypted.
     andthen (json_value get_bool element ''hideUnknownTalkgroups'' (sp_hideUnknown opt)) (\<lambda>hideUnknown.
     andthen (json_value get_double element ''minDuration'' 0) (\<lambda>min_duration.
     andthen (json_value get_double element ''maxDuration'' 0) (\<lambda>max_duration.
     andthen (json_value get_double element ''minTransmissionDuration'' 0) (\<lambda>min_tx_duration.
     andthen (json_value get_bool element ''multiSite'' False) (\<lambda>multiSite.
     andthen (json_value get_string element ''multiSiteSystemName'' '''') (\<lambda>multiSiteSystemName.
     andthen (json_value get_int32 element ''multiSiteSystemNumber'' 0) (\<lambda>multiSiteSystemNumber.
     check (sy_compress_wav sys \<or> (sp_api_key opt = [] \<and> sp_bcfy_api_key opt = [])) Returned_False
     (Inr (sys\<lparr>sy_min_duration := min_duration, sy_max_duration := max_duration, sy_min_tx_duration := min_tx_duration,
              sy_multiSite := multiSite, sy_multiSiteSystemName := multiSiteSystemName,
              sy_multiSiteSystemNumber := word_of_int multiSiteSystemNumber\<rparr>,
           opt\<lparr>sp_hideEncrypted := hideEncrypted, sp_hideUnknown := hideUnknown\<rparr>))))))))))"

text \<open>What the constructor sets to false, and arbitrary values for what the loader assigns.\<close>

definition new_system_options :: System_Options where
  "new_system_options =
     \<lparr>sp_api_key = [], sp_bcfy_api_key = [], sp_bcfy_system_id = 0, sp_analog_levels = 0, sp_digital_levels = 0,
      sp_max_dev = 0, sp_filter_width = 0, sp_conversation_mode = False, sp_mdc_enabled = False, sp_fsync_enabled = False,
      sp_star_enabled = False, sp_tps_enabled = False, sp_talkgroup_display_format = talkGroupDisplayFormat_id,
      sp_hideEncrypted = False, sp_hideUnknown = False\<rparr>"

text \<open>One enabled element; \<open>n\<close> is the number of systems made before.\<close>

definition configure_system :: "load_env \<Rightarrow> nat \<Rightarrow> json \<Rightarrow> (System_impl \<times> System_Options) outcome" where
  "configure_system env n element =
     (let sys = new_system (le_system_junk env) (int n)
      in andthen (json_value get_string element ''shortName'' (''sys_'' @ decimal (int n + 1))) (\<lambda>short_name.
     andthen (json_at element ''type'') (\<lambda>j. andthen (get_string j) (\<lambda>system_type.
     andthen (configure_type env element (sys\<lparr>sy_short_name := short_name, sy_system_type := system_type\<rparr>)) (\<lambda>sys.
     andthen (json_value get_double element ''digitalLevels'' 1) (\<lambda>digital_levels.
     andthen (json_value get_double element ''analogLevels'' 8) (\<lambda>analog_levels.
     andthen (json_value get_double element ''squelch'' (- 160)) (\<lambda>squelch_db.
     andthen (json_value get_int32 element ''maxDev'' 4000) (\<lambda>max_dev.
     andthen (json_value get_double element ''filterWidth'' 1) (\<lambda>filter_width.
     andthen (json_value get_bool element ''conversationMode'' True) (\<lambda>conversation_mode.
     andthen (configure_modulation element) (\<lambda>qpsk_mod.
     andthen (configure_archive env element (sys\<lparr>sy_squelch_db := squelch_db, sy_qpsk_mod := qpsk_mod\<rparr>)
       (new_system_options\<lparr>sp_digital_levels := digital_levels, sp_analog_levels := analog_levels, sp_max_dev := max_dev,
          sp_filter_width := filter_width, sp_conversation_mode := conversation_mode\<rparr>)) (\<lambda>(sys, opt).
     andthen (configure_decoders element opt) (\<lambda>opt.
     andthen (configure_band element sys) (\<lambda>sys. configure_limits element sys opt)))))))))))))))"

fun load_systems ::
  "load_env \<Rightarrow> json list \<Rightarrow> (System_impl \<times> System_Options) list \<Rightarrow> (System_impl \<times> System_Options) list outcome" where
  "load_systems env [] systems = Inr systems"
| "load_systems env (element # rest) systems =
     andthen (json_value get_bool element ''enabled'' True) (\<lambda>system_enabled.
     andthen (if system_enabled
              then andthen (configure_system env (length systems) element) (\<lambda>s. Inr (systems @ [s]))
              else Inr systems)
       (load_systems env rest))"

section \<open>Sources\<close>

text \<open>
  The gains of the single stages, in the order they are read and in the order they are set; a gain of
  zero is not set.
\<close>

definition gain_keys :: "string list" where
  "gain_keys = [''ifGain'', ''bbGain'', ''mixGain'', ''lnaGain'', ''pgaGain'', ''tiaGain'', ''ampGain'', ''vgaGain'',
     ''vga1Gain'', ''vga2Gain'']"

definition gain_stages :: "(string \<times> string) list" where
  "gain_stages = [(''IF'', ''ifGain''), (''BB'', ''bbGain''), (''MIX'', ''mixGain''), (''LNA'', ''lnaGain''),
     (''TIA'', ''tiaGain''), (''PGA'', ''pgaGain''), (''AMP'', ''ampGain''), (''VGA'', ''vgaGain''),
     (''VGA1'', ''vga1Gain''), (''VGA2'', ''vga2Gain'')]"

definition set_stage_gain :: "(string \<Rightarrow> int option) \<Rightarrow> string \<times> string \<Rightarrow> Source \<Rightarrow> Source" where
  "set_stage_gain gains stage so =
     (case gains (snd stage) of Some g \<Rightarrow> if g \<noteq> 0 then set_gain_by_name (fst stage) g so else so | None \<Rightarrow> so)"

fun set_gain_settings :: "(string \<times> json) list \<Rightarrow> Source \<Rightarrow> Source outcome" where
  "set_gain_settings [] so = Inr so"
| "set_gain_settings ((key, v) # rest) so =
     andthen (get_int32 v) (\<lambda>g. set_gain_settings rest (set_gain_by_name key g so))"

text \<open>
  The settings of a radio once it is constructed; a device of the sdrplay driver has its gain mode set
  before the gains as well.
\<close>

definition set_up_radio ::
  "json \<Rightarrow> bool \<Rightarrow> int \<Rightarrow> (string \<Rightarrow> int option) \<Rightarrow> string \<Rightarrow> int \<Rightarrow> double \<Rightarrow> Source \<Rightarrow> Source outcome" where
  "set_up_radio element agc gain gains antenna silence_frames ppm so =
     (let so = (if sublist ''sdrplay'' (so_device so) then set_gain_mode agc so else so)
      in andthen (if json_contains element ''gainSettings''
                  then andthen (json_at element ''gainSettings'') (\<lambda>j.
                       andthen (json_members j) (\<lambda>kvs. set_gain_settings kvs so))
                  else Inr so) (\<lambda>so.
         let so = fold (set_stage_gain gains) gain_stages so;
             so = (if gain \<noteq> 0 then set_gain gain so else so);
             so = (set_gain_mode agc so)\<lparr>so_antenna := antenna, so_silence_frames := silence_frames\<rparr>
         in Inr (if ppm \<noteq> 0 then so\<lparr>so_ppm := ppm\<rparr> else so)))"

text \<open>A radio; \<open>n\<close> is the number of sources constructed before.\<close>

definition configure_radio :: "load_env \<Rightarrow> nat \<Rightarrow> json \<Rightarrow> string \<Rightarrow> Source outcome" where
  "configure_radio env n element driver =
     andthen (json_value get_string element ''device'' '''') (\<lambda>device.
     andthen (json_value get_int32 element ''silenceFrames'' 0) (\<lambda>silence_frames.
     andthen (json_value get_double element ''center'' 0) (\<lambda>center.
     andthen (json_value get_double element ''rate'' 0) (\<lambda>rate.
     andthen (json_value get_double element ''error'' 0) (\<lambda>error.
     andthen (json_value get_double element ''ppm'' 0) (\<lambda>ppm.
     andthen (json_value get_bool element ''agc'' False) (\<lambda>agc.
     andthen (json_value get_int32 element ''gain'' 0) (\<lambda>gain.
     andthen (outcomes (map (\<lambda>key. json_value get_int32 element key 0) gain_keys)) (\<lambda>gains.
     andthen (json_value get_string element ''antenna'' '''') (\<lambda>antenna.
     (case new_source (le_source_junk env) (int n) center rate (if ppm \<noteq> 0 \<and> error \<noteq> 0 then 0 else error) driver device
             (le_actual_rate env device rate) of
        None \<Rightarrow> Inl Undefined
      | Some so \<Rightarrow> set_up_radio element agc gain (map_of (zip gain_keys gains)) antenna silence_frames ppm so)))))))))))"

text \<open>Members of class type, the lists and the texts, start empty.\<close>

definition empty_members :: "Source \<Rightarrow> Source" where
  "empty_members so =
     so\<lparr>so_driver := [], so_device := [], so_antenna := [], so_gain_stages := [], so_digital_recorders := [],
        so_digital_conv_recorders := [], so_dmr_conv_recorders := [], so_analog_recorders := [],
        so_analog_conv_recorders := [], so_debug_recorders := [], so_sigmf_recorders := []\<rparr>"

text \<open>
  The constructor for a SigMF recording reads rate and centre from the metadata and ends the program
  when that is not JSON.
\<close>

definition sigmf_source :: "load_env \<Rightarrow> nat \<Rightarrow> string \<Rightarrow> Source outcome" where
  "sigmf_source env n sigmf_meta =
     (case le_sigmf_meta env sigmf_meta of
        None \<Rightarrow> Inl Exit_Program
      | Some data \<Rightarrow>
          andthen (json_at data ''global'') (\<lambda>global.
          andthen (json_at global ''core:sample_rate'') (\<lambda>j. andthen (get_double j) (\<lambda>rate.
          andthen (json_at data ''captures'') (\<lambda>captures. andthen (json_nth captures 0) (\<lambda>capture.
          andthen (json_at capture ''core:frequency'') (\<lambda>j. andthen (get_double j) (\<lambda>center.
          Inr (set_iq_source (int n) center rate (empty_members (le_source_junk env)))))))))))"

text \<open>
  The constructor for an IQ file takes the file, \<open>repeat\<close>, the centre and the rate, and is handed the file,
  the centre, the rate and \<open>repeat\<close>: numbers and truth values convert without a warning.
\<close>

definition iq_file_source :: "load_env \<Rightarrow> nat \<Rightarrow> bool \<Rightarrow> double \<Rightarrow> double \<Rightarrow> Source" where
  "iq_file_source env n repeated center rate = set_iq_source (int n) center rate (empty_members (le_source_junk env))"

definition configure_iq_file :: "load_env \<Rightarrow> nat \<Rightarrow> json \<Rightarrow> Source outcome" where
  "configure_iq_file env n element =
     andthen (json_value get_string element ''iqFile'' '''') (\<lambda>iq_file.
     andthen (json_value get_string element ''iqType'' '''') (\<lambda>iq_type.
     andthen (json_value get_double element ''center'' 0) (\<lambda>center.
     andthen (json_value get_double element ''rate'' 0) (\<lambda>rate.
     andthen (json_value get_bool element ''repeat'' False) (\<lambda>repeated.
     check (iq_type = ''complex'' \<or> iq_type = ''float'') Returned_False
       (Inr (iq_file_source env n (center \<noteq> 0) rate (of_bool repeated))))))))"

definition open_source :: "load_env \<Rightarrow> nat \<Rightarrow> json \<Rightarrow> string \<Rightarrow> Source outcome" where
  "open_source env n element driver =
     (if driver = ''sigmf'' then
        andthen (json_value get_string element ''sigmfData'' '''') (\<lambda>sigmf_data.
        andthen (json_value get_string element ''sigmfMeta'' '''') (\<lambda>sigmf_meta.
        andthen (json_value get_bool element ''repeat'' False) (\<lambda>repeated. sigmf_source env n sigmf_meta)))
      else if driver = ''iqfile'' then configure_iq_file env n element
      else configure_radio env n element driver)"

definition create_recorders ::
  "load_env \<Rightarrow> Config \<Rightarrow> Config_Options \<Rightarrow> nat \<Rightarrow> int \<Rightarrow> int \<Rightarrow> int \<Rightarrow> rec_ref \<times> recorders \<Rightarrow> Source \<Rightarrow> (rec_ref \<times> recorders) \<times> Source" where
  "create_recorders env cfg opt n digital analog sigmf st so =
     (let (st, so) = create_digital_recorders digital (le_digital env cfg so) st so;
          (st, so) = create_analog_recorders analog (le_analog env cfg so) st so;
          (st, so) = create_sigmf_recorders sigmf (le_sigmf env cfg so) st so
      in if co_debug_recorder opt
         then create_debug_recorder (co_debug_recorder_port opt) (int n) (le_debug env cfg so) st so else (st, so))"

definition configure_source ::
  "load_env \<Rightarrow> Config \<Rightarrow> Config_Options \<Rightarrow> nat \<Rightarrow> json \<Rightarrow> rec_ref \<times> recorders \<Rightarrow> ((rec_ref \<times> recorders) \<times> Source) outcome" where
  "configure_source env cfg opt n element st =
     andthen (json_value get_string element ''driver'' '''') (\<lambda>driver.
     check (driver \<in> {''osmosdr'', ''usrp'', ''sigmf'', ''iqfile''}) Returned_False (
     andthen (json_value get_int32 element ''digitalRecorders'' 0) (\<lambda>digital_recorders.
     andthen (json_value get_int32 element ''sigmfRecorders'' 0) (\<lambda>sigmf_recorders.
     andthen (json_value get_int32 element ''analogRecorders'' 0) (\<lambda>analog_recorders.
     andthen (open_source env n element driver) (\<lambda>so.
     Inr (create_recorders env cfg opt n digital_recorders analog_recorders sigmf_recorders st so)))))))"

fun load_sources ::
  "load_env \<Rightarrow> Config \<Rightarrow> Config_Options \<Rightarrow> json list \<Rightarrow> (rec_ref \<times> recorders) \<times> Source list \<Rightarrow>
   ((rec_ref \<times> recorders) \<times> Source list) outcome" where
  "load_sources env cfg opt [] st = Inr st"
| "load_sources env cfg opt (element # rest) st =
     andthen (json_value get_bool element ''enabled'' True) (\<lambda>source_enabled.
     andthen (if source_enabled
              then andthen (configure_source env cfg opt (length (snd st)) element (fst st)) (\<lambda>(rs, so). Inr (rs, snd st @ [so]))
              else Inr st)
       (load_sources env cfg opt rest))"

section \<open>The whole\<close>

record 'p Loaded =
  lo_config :: Config
  lo_options :: Config_Options
  lo_systems :: "(System_impl \<times> System_Options) list"
  lo_recorders :: "rec_ref \<times> recorders"
  lo_sources :: "Source list"
  lo_plugins :: "'p Plugin list"

definition internal_plugins :: "(string \<times> string) list" where
  "internal_plugins = [(''openmhz_uploader'', ''libopenmhz_uploader.so''), (''broadcastify_uploader'', ''libbroadcastify_uploader.so''),
     (''unit_script'', ''libunit_script.so''), (''stat_socket'', ''libstat_socket.so'')]"

fun add_internal_plugins ::
  "'p Plugin_Api \<Rightarrow> (string \<times> string) list \<Rightarrow> json \<Rightarrow> 'p Plugin list \<Rightarrow> 'p Plugin list outcome" where
  "add_internal_plugins api [] data plugins = Inr plugins"
| "add_internal_plugins api ((name, library) # rest) data plugins =
     andthen (add_internal_plugin api name library data plugins) (add_internal_plugins api rest data)"

text \<open>
  No recorder exists before; \<open>no_recorder\<close> is what the store holds at positions not used yet. A document
  the JSON library cannot parse stays null, and the other parser, which then sees the same file, throws.
\<close>

definition load_config :: "load_env \<Rightarrow> 'p Plugin_Api \<Rightarrow> recorders \<Rightarrow> 'p Loaded outcome" where
  "load_config env api no_recorder =
     (let data = (case le_document env of Some j \<Rightarrow> j | None \<Rightarrow> JNull)
      in check (le_ptree_reads env) Exception (
     andthen (load_globals env data) (\<lambda>(cfg, opt).
     andthen (json_at data ''systems'') (\<lambda>js.
     andthen (load_systems env (json_items js) []) (\<lambda>systems.
     andthen (json_at data ''sources'') (\<lambda>js.
     andthen (load_sources env cfg opt (json_items js) ((0, no_recorder), [])) (\<lambda>(rs, sources).
     andthen (add_internal_plugins api internal_plugins data []) (\<lambda>plugins.
     andthen (initialize_plugins api data plugins) (\<lambda>plugins.
     Inr \<lparr>lo_config = cfg, lo_options = opt, lo_systems = systems, lo_recorders = rs, lo_sources = sources,
          lo_plugins = plugins\<rparr>)))))))))"

text \<open>The answer of \<open>load_config\<close>, where it gives one: every exception is caught.\<close>

definition config_accepted :: "'p Loaded outcome \<Rightarrow> bool option" where
  "config_accepted r =
     (case r of Inr _ \<Rightarrow> Some True | Inl e \<Rightarrow> if e = Exception \<or> e = Returned_False then Some False else None)"

end
