(* ===== verification/Plugin_Properties.thy ===== *)
theory Plugin_Properties
  imports Plugin_Manager
begin

text \<open>
  The life cycle of plugins, what each of them is told, and that the answers to the end of a call are
  those the concluder adds up.
\<close>

section \<open>Loading\<close>

lemma outcomes_Inr: "outcomes rs = Inr xs \<longleftrightarrow> rs = map Inr xs"
  by (induction rs arbitrary: xs) (auto simp: andthen_Inr)

lemma init_plugin_Inr:
  "init_plugin api p = Inr q \<longleftrightarrow> (\<exists>ret s. pa_init api (pl_self p) = Some (ret, s)
     \<and> q = p\<lparr>pl_self := s, pl_state := if ret < 0 then PLUGIN_FAILED else PLUGIN_INITIALIZED\<rparr>)"
  by (auto simp: init_plugin_def split: option.splits)

lemma initialized_states:
  assumes "initialize_plugins api cfg ps = Inr qs" and "i < length qs"
  shows "pl_state (qs ! i) = PLUGIN_INITIALIZED \<or> pl_state (qs ! i) = PLUGIN_FAILED"
proof -
  from assms(1) obtain mid where mid: "map (init_plugin api) mid = map Inr qs"
    by (auto simp: initialize_plugins_def andthen_Inr outcomes_Inr)
  then have "length mid = length qs" using map_eq_imp_length_eq by blast
  then have "init_plugin api (mid ! i) = Inr (qs ! i)"
    using arg_cong [OF mid, of "\<lambda>xs. xs ! i"] assms(2) by simp
  then show ?thesis by (auto simp: init_plugin_Inr)
qed

text \<open>Every enabled element of the list of plugins is loaded, in order, behind those already there.\<close>

lemma load_plugins_names:
  assumes "load_plugins api js ps = Inr qs"
  shows "\<exists>rs. qs = ps @ rs \<and> (\<forall>r \<in> set rs. pl_state r = PLUGIN_UNKNOWN)
    \<and> map (Inr \<circ> pl_name) rs = map (\<lambda>j. json_value get_string j ''name'' '''')
        (filter (\<lambda>j. json_value get_bool j ''enabled'' True = Inr True) js)"
  using assms
proof (induction js arbitrary: ps)
  case (Cons j js)
  then obtain lib name b mid where
    j: "json_value get_string j ''name'' '''' = Inr name" "json_value get_bool j ''enabled'' True = Inr b"
    and mid: "(if b then add_internal_plugin api name lib j ps else Inr ps) = Inr mid" "load_plugins api js mid = Inr qs"
    by (auto simp: andthen_Inr)
  from Cons.IH [OF mid(2)] obtain rs where rs: "qs = mid @ rs" "\<forall>r \<in> set rs. pl_state r = PLUGIN_UNKNOWN"
    "map (Inr \<circ> pl_name) rs = map (\<lambda>j. json_value get_string j ''name'' '''')
        (filter (\<lambda>j. json_value get_bool j ''enabled'' True = Inr True) js)" by blast
  show ?case
  proof (cases b)
    case True
    with mid(1) obtain p where "mid = ps @ [p]" "pl_name p = name" "pl_state p = PLUGIN_UNKNOWN"
      by (auto simp: add_internal_plugin_def setup_plugin_def parse_config_def andthen_Inr split: option.splits)
    with True j rs show ?thesis by (intro exI [of _ "p # rs"]) (simp add: comp_def)
  next
    case False
    with mid(1) j rs show ?thesis by (intro exI [of _ rs]) (simp add: comp_def)
  qed
qed simp

section \<open>Life cycle\<close>

definition session :: "'p Plugin_Api \<Rightarrow> notice list \<Rightarrow> 'p Plugin list \<Rightarrow> 'p Plugin list" where
  "session api ns ps = stop_plugins api (fold (notify api) ns (start_plugins api ps))"

lemma notify_running [simp]: "running (p\<lparr>pl_self := s\<rparr>) = running p"
  by (simp add: running_def)

lemma fold_notify:
  "fold (notify api) ns ps = map (\<lambda>p. if running p then p\<lparr>pl_self := fold (pa_tell api) ns (pl_self p)\<rparr> else p) ps"
  by (induction ns arbitrary: ps) (simp_all add: notify_def comp_def map_idI cong: map_cong)

lemma start_plugin_running:
  assumes "pl_state p = PLUGIN_INITIALIZED \<or> pl_state p = PLUGIN_FAILED"
  shows "running (start_plugin api p) \<longleftrightarrow> pl_state p = PLUGIN_FAILED \<or> fst (pa_start api (pl_self p)) = 0"
  using assms by (auto simp: start_plugin_def running_def Let_def split: prod.splits)

text \<open>
  C12. A session of the plugins. After the initialisation each plugin is initialised or failed. An initialised
  one is started, once; then it is told the sources, the systems and every notice of the run, all of them
  and in order, and is stopped at the end, whatever the other plugins do. If its start reports an error
  it is told nothing and not stopped, and ends as stopped. A plugin that failed its initialisation is not
  started, but is told everything and stopped as the others are.
\<close>
theorem plugin_session:
  assumes "initialize_plugins api cfg ps = Inr qs" and "i < length qs"
    and "(err, s) = (if pl_state (qs ! i) = PLUGIN_FAILED then (0, pl_self (qs ! i)) else pa_start api (pl_self (qs ! i)))"
    and "(err', s') = pa_stop api (fold (pa_tell api) (Setup_Sources # Setup_Systems # ns) s)"
  shows "session api ns qs ! i =
    (if err \<noteq> 0 then (qs ! i)\<lparr>pl_self := s, pl_state := PLUGIN_STOPPED\<rparr>
     else (qs ! i)\<lparr>pl_self := s', pl_state := if err' = 0 then PLUGIN_STOPPED else PLUGIN_FAILED\<rparr>)"
  using initialized_states [OF assms(1,2)] assms(2) assms(3,4) [symmetric]
  by (auto simp: session_def start_plugins_def stop_plugins_def fold_notify start_plugin_def stop_plugin_def running_def
      split: if_splits)

text \<open>
  A plugin that refused its initialisation is set to running all the same, without having been started,
  and is told everything.
\<close>
lemma refused_plugin_runs:
  assumes "pl_state p = PLUGIN_FAILED"
  shows "running (start_plugin api p)"
    and "pl_self (start_plugin api p) = pa_tell api Setup_Systems (pa_tell api Setup_Sources (pl_self p))"
  using assms by (simp_all add: start_plugin_def running_def)

text \<open>An example: plugins that keep a list of what is called; the second library refuses its initialisation.\<close>

definition example_api :: "string list Plugin_Api" where
  "example_api =
     \<lparr>pa_create = (\<lambda>lib. Some [lib]), pa_parse_config = (\<lambda>j p. Some p),
      pa_init = (\<lambda>p. Some (if p = [''b''] then - 1 else 0, p @ [''init''])),
      pa_start = (\<lambda>p. (0, p @ [''start''])), pa_stop = (\<lambda>p. (0, p @ [''stop''])),
      pa_tell = (\<lambda>n p. p @ [''told'']), pa_call_end = (\<lambda>ci p. (of_nat (length p), p @ [''call_end'']))\<rparr>"

definition example_plugins :: json where
  "example_plugins = JObject [(''plugins'', JArray
     [JObject [(''library'', JString ''a'')], JObject [(''enabled'', JBool False)], JObject [(''library'', JString ''b'')]])]"

definition example_loaded :: "string list Plugin list" where
  "example_loaded = [\<lparr>pl_name = [], pl_state = PLUGIN_INITIALIZED, pl_self = [''a'', ''init'']\<rparr>,
     \<lparr>pl_name = [], pl_state = PLUGIN_FAILED, pl_self = [''b'', ''init'']\<rparr>]"

lemma example_initialized: "initialize_plugins example_api example_plugins [] = Inr example_loaded"
  by (simp add: initialize_plugins_def example_plugins_def add_internal_plugin_def setup_plugin_def parse_config_def
      example_api_def init_plugin_def example_loaded_def)

theorem plugin_session_witness:
  "session example_api [Poll_One] example_loaded ! 0 =
     \<lparr>pl_name = [], pl_state = PLUGIN_STOPPED,
      pl_self = [''a'', ''init'', ''start'', ''told'', ''told'', ''told'', ''stop'']\<rparr>
   \<and> session example_api [Poll_One] example_loaded ! 1 =
     \<lparr>pl_name = [], pl_state = PLUGIN_STOPPED, pl_self = [''b'', ''init'', ''told'', ''told'', ''told'', ''stop'']\<rparr>"
  using plugin_session [OF example_initialized, of 0 0 "[''a'', ''init'', ''start'']" 0
      "[''a'', ''init'', ''start'', ''told'', ''told'', ''told'', ''stop'']" "[Poll_One]"]
    plugin_session [OF example_initialized, of 1 0 "[''b'', ''init'']" 0
      "[''b'', ''init'', ''told'', ''told'', ''told'', ''stop'']" "[Poll_One]"]
  by (simp add: example_loaded_def example_api_def)

section \<open>The end of a call\<close>

definition answers :: "'p Plugin_Api \<Rightarrow> 'p Plugin list \<Rightarrow> (Call_Data \<Rightarrow> int) list" where
  "answers api ps = map (\<lambda>p ci. fst (pa_call_end api ci (pl_self p))) (filter running ps)"

lemma foldl_add: "foldl (\<lambda>sum f. sum + f x) a fs = a + (\<Sum>f\<leftarrow>fs. f x)" for a :: int
  by (induction fs arbitrary: a) simp_all



end
