(* ===== verification/Config_Properties.thy ===== *)
theory Config_Properties
  imports Load_Config Plugin_Properties
begin

text \<open>
  What a configuration that is accepted guarantees: the global settings, the numbering and the kinds of
  the systems, and the recorders of the sources.
\<close>

section \<open>Systems\<close>

definition enabled :: "json \<Rightarrow> bool" where
  "enabled element \<longleftrightarrow> json_value get_bool element ''enabled'' True = Inr True"

lemma load_systems_Inr:
  assumes "load_systems env js systems = Inr res"
  shows "\<exists>new. res = systems @ new \<and> length new = length (filter enabled js)
    \<and> (\<forall>i < length new. configure_system env (length systems + i) (filter enabled js ! i) = Inr (new ! i))"
  using assms
proof (induction js arbitrary: systems)
  case (Cons j js)
  then obtain b where b: "json_value get_bool j ''enabled'' True = Inr b" by (auto simp: andthen_Inr)
  show ?case
  proof (cases b)
    case True
    then have e: "enabled j" using b by (simp add: enabled_def)
    from Cons.prems b True obtain s where s: "configure_system env (length systems) j = Inr s"
      "load_systems env js (systems @ [s]) = Inr res"
      by (cases "configure_system env (length systems) j") auto
    from Cons.IH [OF s(2)] obtain new where new: "res = systems @ s # new" "length new = length (filter enabled js)"
      "\<forall>i < length new. configure_system env (Suc (length systems) + i) (filter enabled js ! i) = Inr (new ! i)" by auto
    have "configure_system env (length systems + i) (filter enabled (j # js) ! i) = Inr ((s # new) ! i)"
      if "i < length (s # new)" for i
      using that s(1) new(3) e by (cases i) auto
    with new e show ?thesis by (intro exI [of _ "s # new"]) simp
  next
    case False
    with b Cons.prems Cons.IH [of systems] show ?thesis by (simp add: enabled_def)
  qed
qed simp

text \<open>The parts of a system that configuration steps leave alone.\<close>

definition named :: "System_impl \<Rightarrow> int \<times> string \<times> string" where
  "named s = (sy_sys_num s, sy_short_name s, sy_system_type s)"

lemma named_fold:
  assumes "\<And>x s. named (f x s) = named s"
  shows "named (fold f xs s) = named s"
  using assms by (induction xs arbitrary: s) simp_all

lemma named_adds [simp]: "named (add_channel_freq c s) = named s" "named (add_control_channel c s) = named s"
  by (simp_all add: named_def add_channel_freq_def add_control_channel_def)

lemma named_folds [simp]:
  "named (fold add_channel_freq cs s) = named s" "named (fold (\<lambda>tg. add_channel_freq (tg_freq tg)) tgs s) = named s"
  "named (fold add_control_channel cs s) = named s"
  by (rule named_fold, simp)+

lemma named_files:
  "loaded_file (set_channel_file file headers rows s) = Inr s' \<Longrightarrow> named s' = named s"
  "loaded_file (set_talkgroups_file file headers rows s) = Inr s' \<Longrightarrow> named s' = named s"
proof -
  show "loaded_file (set_channel_file file headers rows s) = Inr s' \<Longrightarrow> named s' = named s"
    unfolding loaded_file_def set_channel_file_def
    by (auto split: if_splits sum.splits) (simp_all add: named_def)
  show "loaded_file (set_talkgroups_file file headers rows s) = Inr s' \<Longrightarrow> named s' = named s"
    unfolding loaded_file_def set_talkgroups_file_def
    by (auto simp: named_def map_sum_def split: if_splits sum.splits)
qed

lemma named_channels: "configure_channels env element s = Inr s' \<Longrightarrow> named s' = named s"
  unfolding configure_channels_def Let_def
  by (auto simp: andthen_Inr check_Inr dest: named_files split: if_splits)

lemma named_trunking: "configure_trunking env element s = Inr s' \<Longrightarrow> named s' = named s"
  unfolding configure_trunking_def by (auto simp: andthen_Inr dest!: named_files)

definition known_types :: "string set" where
  "known_types = {''conventional'', ''conventionalP25'', ''conventionalDMR'', ''smartnet'', ''p25''}"

lemma configure_type_Inr:
  "configure_type env element s = Inr s' \<Longrightarrow> named s' = named s \<and> sy_system_type s \<in> known_types"
  unfolding configure_type_def known_types_def by (auto dest: named_channels named_trunking split: if_splits)

lemma named_unit_tags [simp]: "named (set_unit_tags_file env file s) = named s"
  by (simp add: set_unit_tags_file_def named_def split: option.splits)

lemma named_xor_mask [simp]:
  "named (set_xor_mask i w n s) = named s" "sy_compress_wav (set_xor_mask i w n s) = sy_compress_wav s"
  by (simp_all add: set_xor_mask_def named_def)

lemma named_band: "configure_band element s = Inr s' \<Longrightarrow> named s' = named s \<and> sy_compress_wav s' = sy_compress_wav s"
  unfolding configure_band_def
  using named_xor_mask(1) [unfolded named_def, simplified]
  by (auto simp: andthen_Inr named_def set_bandplan_spacing_def)

lemma named_archive: "configure_archive env element s opt = Inr (s', opt') \<Longrightarrow> named s' = named s"
  unfolding configure_archive_def using named_unit_tags [of env _ s]
  by (auto simp: andthen_Inr named_def)

lemma configure_decoders_keys:
  "configure_decoders element opt = Inr opt' \<Longrightarrow> sp_api_key opt' = sp_api_key opt \<and> sp_bcfy_api_key opt' = sp_bcfy_api_key opt"
  unfolding configure_decoders_def by (auto simp: andthen_Inr)

lemma configure_limits_Inr:
  "configure_limits element s opt = Inr (s', opt') \<Longrightarrow>
    named s' = named s \<and> (sp_api_key opt' \<noteq> [] \<or> sp_bcfy_api_key opt' \<noteq> [] \<longrightarrow> sy_compress_wav s')"
  unfolding configure_limits_def by (auto simp: andthen_Inr check_Inr named_def)

lemma configure_system_Inr:
  assumes "configure_system env n element = Inr (s, opt)"
  shows "sy_sys_num s = int n"
    and "json_value get_string element ''shortName'' (''sys_'' @ decimal (int n + 1)) = Inr (sy_short_name s)"
    and "\<exists>kvs. element = JObject kvs \<and> map_of kvs ''type'' = Some (JString (sy_system_type s))"
    and "sy_system_type s \<in> known_types"
    and "sp_api_key opt \<noteq> [] \<or> sp_bcfy_api_key opt \<noteq> [] \<Longrightarrow> sy_compress_wav s"
proof -
  obtain short_name j system_type s1 s2 s3 opt2 opt3 where
    n: "json_value get_string element ''shortName'' (''sys_'' @ decimal (int n + 1)) = Inr short_name"
    and t: "json_at element ''type'' = Inr j" "get_string j = Inr system_type"
    and s1: "configure_type env element ((new_system (le_system_junk env) (int n))\<lparr>sy_short_name := short_name, sy_system_type := system_type\<rparr>) = Inr s1"
    and s2: "named s2 = named s1"
    and s3: "configure_band element s2 = Inr s3" and l: "configure_limits element s3 opt3 = Inr (s, opt)"
    using assms unfolding configure_system_def Let_def
    by (fastforce simp: andthen_Inr named_def dest: named_archive)
  have named: "named s = (int n, short_name, system_type)"
    using configure_limits_Inr [OF l] named_band [OF s3] s2 configure_type_Inr [OF s1]
    by (simp add: named_def new_system_def)
  then show "sy_sys_num s = int n" by (simp add: named_def)
  show "json_value get_string element ''shortName'' (''sys_'' @ decimal (int n + 1)) = Inr (sy_short_name s)"
    using n named by (simp add: named_def)
  have "\<exists>kvs. element = JObject kvs" using n by (simp only: json_value_Inr) blast
  then show "\<exists>kvs. element = JObject kvs \<and> map_of kvs ''type'' = Some (JString (sy_system_type s))"
    using t named by (cases j) (auto simp: named_def split: option.splits)
  show "sy_system_type s \<in> known_types"
    using configure_type_Inr [OF s1] named by (simp add: named_def)
  show "sp_api_key opt \<noteq> [] \<or> sp_bcfy_api_key opt \<noteq> [] \<Longrightarrow> sy_compress_wav s"
    using configure_limits_Inr [OF l] by simp
qed

section \<open>The whole\<close>

lemma load_config_Inr:
  assumes "load_config env api st = Inr lo"
  obtains kvs sys_js src_js where "le_document env = Some (JObject kvs)"
    and "load_globals env (JObject kvs) = Inr (lo_config lo, lo_options lo)"
    and "sys_js = json_items (case map_of kvs ''systems'' of Some j \<Rightarrow> j | None \<Rightarrow> JNull)"
    and "load_systems env sys_js [] = Inr (lo_systems lo)"
    and "src_js = json_items (case map_of kvs ''sources'' of Some j \<Rightarrow> j | None \<Rightarrow> JNull)"
    and "load_sources env (lo_config lo) (lo_options lo) src_js ((0, st), []) = Inr (lo_recorders lo, lo_sources lo)"
    and "\<exists>internal. initialize_plugins api (JObject kvs) internal = Inr (lo_plugins lo)"
proof -
  let ?data = "case le_document env of Some j \<Rightarrow> j | None \<Rightarrow> JNull"
  have g: "\<exists>x. load_globals env ?data = Inr x" using assms by (auto simp: load_config_def check_Inr andthen_Inr Let_def)
  then obtain kvs where d: "?data = JObject kvs" by (auto simp: load_globals_def andthen_Inr json_value_Inr)
  then have doc: "le_document env = Some (JObject kvs)" by (simp split: option.splits)
  show thesis
    by (rule that [OF doc _ refl _ refl])
      (use assms doc in \<open>auto simp: load_config_def check_Inr andthen_Inr Let_def\<close>)
qed

text \<open>The elements of the document that make a system.\<close>

definition system_elements :: "json \<Rightarrow> json list" where
  "system_elements doc = (case doc of
     JObject kvs \<Rightarrow> filter enabled (json_items (case map_of kvs ''systems'' of Some j \<Rightarrow> j | None \<Rightarrow> JNull)) | _ \<Rightarrow> [])"

lemma loaded_systems:
  assumes "load_config env api st = Inr lo" and "le_document env = Some doc"
  shows "length (lo_systems lo) = length (system_elements doc)"
    and "i < length (lo_systems lo) \<Longrightarrow> configure_system env i (system_elements doc ! i) = Inr (lo_systems lo ! i)"
  using assms by (auto elim!: load_config_Inr dest!: load_systems_Inr simp: system_elements_def)


section \<open>Refusals\<close>

lemma accepted_iff: "config_accepted r = Some True \<longleftrightarrow> (\<exists>lo. r = Inr lo)"
  by (auto simp: config_accepted_def split: sum.splits if_splits)

lemma load_globals_Inr:
  assumes "load_globals env data = Inr (cfg, opt)"
  shows "\<exists>ver. json_value get_double data ''ver'' 0 = Inr ver \<and> \<not> ver < 2"
    and "\<exists>dir. json_value get_string data ''captureDir'' (le_current_path env) = Inr dir \<and> strip_slash dir = Inr (cfg_capture_dir cfg)"
    and "json_value get_double data ''callTimeout'' 3 = Inr (cfg_call_timeout cfg)"
  using assms by (auto simp: load_globals_def andthen_Inr check_Inr simp del: json_value.simps)


text \<open>
  The example of the documentation for several sites, which gives the type in capitals and the switch
  \<open>multiSite\<close> as a text, is refused; a switch given as a text is refused with the right type as well.
\<close>

lemma documented_type_refused:
  assumes "map_of kvs ''type'' = Some (JString ''P25'')"
  shows "configure_system env n (JObject kvs) \<in> {Inl Exception, Inl Returned_False}"
proof -
  have "\<exists>e \<in> {Exception, Returned_False}. json_value get_string (JObject kvs) ''shortName'' d = Inl e
      \<or> (\<exists>x. json_value get_string (JObject kvs) ''shortName'' d = Inr x)" for d
    by (cases "json_value get_string (JObject kvs) ''shortName'' d") (auto split: option.splits elim: get_string.elims)
  moreover have "json_value get_string (JObject kvs) ''shortName'' d = Inl e \<Longrightarrow> e = Exception" for d e
    by (auto split: option.splits elim: get_string.elims)
  ultimately show ?thesis
    using assms by (cases "json_value get_string (JObject kvs) ''shortName'' (''sys_'' @ decimal (int n + 1))")
      (auto simp: configure_system_def Let_def configure_type_def simp del: json_value.simps)
qed

lemma multi_site_text_refused:
  assumes "map_of kvs ''multiSite'' = Some (JString t)"
  shows "configure_system env n (JObject kvs) \<noteq> Inr (s, opt)"
  using assms by (auto simp: configure_system_def Let_def configure_limits_def andthen_Inr)

section \<open>Sources\<close>

text \<open>
  The arguments for an IQ file: its centre is the rate of the document, and its rate is one or zero, as
  the recording is repeated or not.
\<close>

lemma iq_file_arguments_swapped:
  assumes "configure_iq_file env n element = Inr so"
    and "json_value get_double element ''rate'' 0 = Inr rate" and "json_value get_bool element ''repeat'' False = Inr repeated"
  shows "so_center so = rate" and "so_rate so = of_bool repeated"
  using assms unfolding configure_iq_file_def
  by (auto simp: andthen_Inr check_Inr iq_file_source_def set_iq_source_def empty_members_def simp del: json_value.simps)

text \<open>Nothing sets the silence frames of a source that replays a file; the recorders read them.\<close>

lemma silence_frames_uninitialised:
  assumes "configure_iq_file env n element = Inr so"
  shows "so_silence_frames so = so_silence_frames (le_source_junk env)"
  using assms unfolding configure_iq_file_def
  by (auto simp: andthen_Inr check_Inr iq_file_source_def set_iq_source_def empty_members_def simp del: json_value.simps)

lemma make_recorders_spec:
  "make_recorders k mk (n, rs) = ([n..<n + k], n + k, \<lambda>i. if n \<le> i \<and> i < n + k then mk i else rs i)"
proof (induction k arbitrary: n rs)
  case (Suc k)
  have "make_recorders (Suc k) mk (n, rs) = (let (ids, st') = make_recorders k mk (Suc n, rs(n := mk n)) in (n # ids, st'))"
    by (simp add: make_recorder_def)
  also have "\<dots> = (n # [Suc n..<Suc n + k], Suc n + k, \<lambda>i. if Suc n \<le> i \<and> i < Suc n + k then mk i else (rs(n := mk n)) i)"
    unfolding Suc.IH by simp
  also have "\<dots> = ([n..<n + Suc k], n + Suc k, \<lambda>i. if n \<le> i \<and> i < n + Suc k then mk i else rs i)"
    by (auto simp: fun_eq_iff upt_rec [of n])
  finally show ?case .
qed (auto simp: fun_eq_iff)

text \<open>A source as its constructors leave it: without recorders.\<close>

definition bare :: "Source \<Rightarrow> bool" where
  "bare so \<longleftrightarrow> so_digital_recorders so = [] \<and> so_analog_recorders so = [] \<and> so_sigmf_recorders so = []
     \<and> so_debug_recorders so = []"

text \<open>The recorders of one source: new references, one kind after the other.\<close>

lemma create_recorders_spec:
  assumes "create_recorders env cfg opt n d a g (m, rs) so = ((m', rs'), so')" and "bare so"
  shows "\<exists>mk_a. so_digital_recorders so' = [m..<m + nat d] \<and> so_analog_recorders so' = [m + nat d..<m + nat d + nat a]
    \<and> so_sigmf_recorders so' = [m + nat d + nat a..<m + nat d + nat a + nat g]
    \<and> so_debug_recorders so' = (if co_debug_recorder opt then [m + nat d + nat a + nat g] else [])
    \<and> m' = m + nat d + nat a + nat g + (if co_debug_recorder opt then 1 else 0)
    \<and> (\<forall>i < m. rs' i = rs i)
    \<and> (\<forall>i \<in> {m..<m + nat d}. rs' i = le_digital env cfg so i)
    \<and> (\<forall>i \<in> {m + nat d..<m + nat d + nat a}. rs' i = le_analog env cfg mk_a i)"
  using assms
  by (auto simp: create_recorders_def create_digital_recorders_def create_analog_recorders_def create_sigmf_recorders_def
      create_debug_recorder_def make_recorders_spec make_recorder_def bare_def Let_def split: if_splits)

lemma bare_simps [simp]:
  "bare (set_gain_by_name name g so) = bare so" "bare (set_gain g so) = bare so" "bare (set_gain_mode m so) = bare so"
  "bare (set_stage_gain gains stage so) = bare so" "bare (so\<lparr>so_antenna := x, so_silence_frames := y\<rparr>) = bare so"
  "bare (so\<lparr>so_ppm := p\<rparr>) = bare so" "bare (set_iq_source n c r (empty_members so))"
  by (simp_all add: bare_def set_gain_by_name_def add_gain_stage_def set_gain_def set_gain_mode_def set_stage_gain_def
      set_iq_source_def empty_members_def split: option.split)

lemma bare_stages: "bare (fold (set_stage_gain gains) stages so) = bare so"
  by (induction stages arbitrary: so) simp_all

lemma bare_settings: "set_gain_settings kvs so = Inr so' \<Longrightarrow> bare so \<Longrightarrow> bare so'"
  by (induction kvs so rule: set_gain_settings.induct) (auto simp: andthen_Inr)

lemma bare_new: "new_source junk n c r e drv dev actual = Some so \<Longrightarrow> bare so"
  by (auto simp: new_source_def bare_def Let_def bind_eq_Some_conv split: if_splits)

lemma set_up_radio_bare:
  assumes "set_up_radio element agc gain gains antenna silence ppm so = Inr so'" and "bare so"
  shows "bare so'"
proof -
  define so0 where "so0 = (if sublist ''sdrplay'' (so_device so) then set_gain_mode agc so else so)"
  have b0: "bare so0" using assms(2) by (simp add: so0_def)
  obtain so1 where so1: "(if json_contains element ''gainSettings''
      then andthen (json_at element ''gainSettings'') (\<lambda>j. andthen (json_members j) (\<lambda>kvs. set_gain_settings kvs so0))
      else Inr so0) = Inr so1"
    and so': "so' = (let so = fold (set_stage_gain gains) gain_stages so1; so = (if gain \<noteq> 0 then set_gain gain so else so);
         so = (set_gain_mode agc so)\<lparr>so_antenna := antenna, so_silence_frames := silence\<rparr>
       in if ppm \<noteq> 0 then so\<lparr>so_ppm := ppm\<rparr> else so)"
    using assms(1) unfolding set_up_radio_def so0_def [symmetric] Let_def by (auto simp: andthen_Inr simp del: json_contains.simps)
  have "bare so1" using so1 b0 bare_settings by (auto simp: andthen_Inr split: if_splits)
  then show ?thesis unfolding so' Let_def by (simp add: bare_stages)
qed

lemma configure_radio_bare: "configure_radio env n element driver = Inr so \<Longrightarrow> bare so"
  unfolding configure_radio_def
  by (auto simp: andthen_Inr simp del: json_value.simps split: option.splits dest: bare_new set_up_radio_bare)

lemma open_source_bare: "open_source env n element driver = Inr so \<Longrightarrow> bare so"
  unfolding open_source_def sigmf_source_def configure_iq_file_def iq_file_source_def
  by (auto simp: andthen_Inr check_Inr configure_radio_bare split: if_splits option.splits)

end
