(* ===== verification/Config_Runs.thy ===== *)
theory Config_Runs
  imports Config_Properties World_Progress
begin

text \<open>
  From the configuration to the running program: the state the main loop starts in is one its invariant
  holds in, so in every run of a configured program recorders and calls belong together.
\<close>

text \<open>The recorders the classes make are free; the references of all sources are different.\<close>

definition fresh :: "Recorder \<Rightarrow> bool" where
  "fresh r \<longleftrightarrow> rec_inv r \<and> rec_get_state r = AVAILABLE"

definition fresh_makers :: "load_env \<Rightarrow> bool" where
  "fresh_makers env \<longleftrightarrow> (\<forall>cfg so i. fresh (le_digital env cfg so i) \<and> fresh (le_analog env cfg so i))"

definition spare :: "Source \<Rightarrow> rec_ref set" where
  "spare so = set (so_debug_recorders so) \<union> set (so_sigmf_recorders so)"

definition pool :: "Source \<Rightarrow> rec_ref set" where
  "pool so = set (so_digital_recorders so) \<union> set (so_analog_recorders so)"

definition stocked :: "nat \<Rightarrow> recorders \<Rightarrow> Source list \<Rightarrow> bool" where
  "stocked n rs sources \<longleftrightarrow> (\<forall>so \<in> set sources. pool so \<union> spare so \<subseteq> {..<n} \<and> (\<forall>i \<in> pool so. fresh (rs i)))
     \<and> (\<forall>so \<in> set sources. \<forall>so' \<in> set sources. spare so \<inter> pool so' = {})"

lemma stocked_initial:
  assumes "stocked n rs sources" and "w_calls w = []" "w_sources w = sources" "w_recorders w = (n, rs)"
  shows "initial w"
proof -
  have t: "trunk sources = (\<Union>so \<in> set sources. pool so)" by (simp add: trunk_def pool_def)
  have "sources_ok sources n"
    using assms(1) unfolding sources_ok_def t stocked_def spare_def [symmetric] by blast
  then show ?thesis
    using assms unfolding initial_def stocked_def t [symmetric] fresh_def by (auto simp: trunk_def pool_def)
qed

lemma configure_source_stocked:
  assumes "configure_source env cfg opt k element (n, rs) = Inr ((n', rs'), so)"
    and "stocked n rs sources" and "fresh_makers env"
  shows "stocked n' rs' (sources @ [so])"
proof -
  obtain d a g so0 where so0: "bare so0" and c: "create_recorders env cfg opt k d a g (n, rs) so0 = ((n', rs'), so)"
    using assms(1) unfolding configure_source_def
    by (auto simp: andthen_Inr check_Inr simp del: json_value.simps dest: open_source_bare)
  obtain so1 where s: "so_digital_recorders so = [n..<n + nat d]" "so_analog_recorders so = [n + nat d..<n + nat d + nat a]"
    "so_sigmf_recorders so = [n + nat d + nat a..<n + nat d + nat a + nat g]"
    "so_debug_recorders so = (if co_debug_recorder opt then [n + nat d + nat a + nat g] else [])"
    and n': "n' = n + nat d + nat a + nat g + (if co_debug_recorder opt then 1 else 0)"
    and old: "\<forall>i < n. rs' i = rs i"
    and mk: "\<forall>i \<in> {n..<n + nat d}. rs' i = le_digital env cfg so0 i"
      "\<forall>i \<in> {n + nat d..<n + nat d + nat a}. rs' i = le_analog env cfg so1 i"
    using create_recorders_spec [OF c so0] by blast
  have p: "pool so = {n..<n + nat d + nat a}" using s by (auto simp: pool_def)
  have sp: "spare so \<subseteq> {n + nat d + nat a..<n'}" using s n' by (auto simp: spare_def)
  have "fresh (rs' i)" if "i \<in> pool so" for i
    using that mk assms(3) unfolding p fresh_makers_def
    by (cases "i < n + nat d") auto
  moreover have "pool so \<union> spare so \<subseteq> {..<n'}" "spare so \<inter> pool so = {}" using p sp n' by (auto split: if_splits)
  moreover have "\<forall>so' \<in> set sources. pool so' \<union> spare so' \<subseteq> {..<n'} \<and> (\<forall>i \<in> pool so'. fresh (rs' i))
      \<and> spare so' \<inter> pool so = {} \<and> spare so \<inter> pool so' = {}"
  proof
    fix so' assume so': "so' \<in> set sources"
    then have b: "pool so' \<union> spare so' \<subseteq> {..<n}" "\<forall>i \<in> pool so'. fresh (rs i)" using assms(2) by (auto simp: stocked_def)
    then have "\<forall>i \<in> pool so'. fresh (rs' i)" using old by auto
    moreover have "pool so' \<union> spare so' \<subseteq> {..<n'}" using b(1) n' by auto
    moreover have "spare so' \<inter> pool so = {}" "spare so \<inter> pool so' = {}" using b(1) p sp by fastforce+
    ultimately show "pool so' \<union> spare so' \<subseteq> {..<n'} \<and> (\<forall>i \<in> pool so'. fresh (rs' i))
      \<and> spare so' \<inter> pool so = {} \<and> spare so \<inter> pool so' = {}" by blast
  qed
  ultimately show ?thesis using assms(2) unfolding stocked_def by (simp add: Ball_def)
qed

lemma load_sources_stocked:
  assumes "load_sources env cfg opt js ((n, rs), sources) = Inr ((n', rs'), sources')"
    and "stocked n rs sources" and "fresh_makers env"
  shows "stocked n' rs' sources'"
  using assms
proof (induction js arbitrary: n rs sources)
  case (Cons j js)
  then obtain b where b: "json_value get_bool j ''enabled'' True = Inr b" by (auto simp: andthen_Inr)
  show ?case
  proof (cases b)
    case True
    with Cons.prems(1) b obtain m ms so where c: "configure_source env cfg opt (length sources) j (n, rs) = Inr ((m, ms), so)"
      and l: "load_sources env cfg opt js ((m, ms), sources @ [so]) = Inr ((n', rs'), sources')"
      by (cases "configure_source env cfg opt (length sources) j (n, rs)") auto
    show ?thesis by (rule Cons.IH [OF l configure_source_stocked [OF c Cons.prems(2,3)] Cons.prems(3)])
  next
    case False
    with Cons b show ?thesis by simp
  qed
qed simp

text \<open>The state of \<open>main\<close> after the configuration is loaded, over the files that are on disk.\<close>

definition loaded_world :: "files \<Rightarrow> 'p Loaded \<Rightarrow> World" where
  "loaded_world fs lo =
     \<lparr>w_calls = [], w_systems = map fst (lo_systems lo), w_sources = lo_sources lo, w_recorders = lo_recorders lo,
      w_call_counter = 0, w_concluder = \<lparr>co_workers = [], co_retry = [], co_files = fs\<rparr>, w_events = [], w_exit_flag = False\<rparr>"

lemma loaded_initial:
  assumes "load_config env api st = Inr lo" and "fresh_makers env"
  shows "initial (loaded_world fs lo)"
proof -
  obtain js where "load_sources env (lo_config lo) (lo_options lo) js ((0, st), []) = Inr (lo_recorders lo, lo_sources lo)"
    using load_config_Inr [OF assms(1)] by metis
  then have "stocked (fst (lo_recorders lo)) (snd (lo_recorders lo)) (lo_sources lo)"
    using load_sources_stocked [OF _ _ assms(2)] by (cases "lo_recorders lo") (auto simp: stocked_def)
  then show ?thesis by (rule stocked_initial) (simp_all add: loaded_world_def)
qed

text \<open>
  C2. From the configuration file to any later state: after an accepted configuration, the set-up of all its
  systems and any run of the program, a recorder that is configured for trunking is taken exactly when a
  call in the vector is recording with it, no two calls hold one recorder, every call belongs to a configured
  system, and the debug and SigMF recorders are none of them.
\<close>
theorem configured_program_invariant:
  assumes "load_config env api st = Inr lo" and "fresh_makers env"
    and "setup_systems menv fac [0..<length (lo_systems lo)] (loaded_world fs lo) = Some (b, w1)" and "loop_steps w1 w"
  shows "(\<forall>so \<in> set (w_sources w). \<forall>i \<in> pool so. rec_get_state (w_recs w i) \<noteq> AVAILABLE \<longleftrightarrow> i \<in> set (held (w_calls w)))
    \<and> distinct (held (w_calls w))
    \<and> (\<forall>c \<in> set (w_calls w). cl_sys c < length (lo_systems lo))
    \<and> (\<forall>so \<in> set (w_sources w). \<forall>so' \<in> set (w_sources w). spare so \<inter> pool so' = {})"
proof -
  have len: "length (w_systems (loaded_world fs lo)) = length (lo_systems lo)" by (simp add: loaded_world_def)
  have s: "setup_inv w1 \<and> setup_frame (loaded_world fs lo) w1"
    using setup_systems_inv [OF assms(3) initial_inv [OF loaded_initial [OF assms(1,2)]]] len by simp
  then have w: "world_inv w" "w_frame w1 w" using loop_steps_inv [OF assms(4)] by (simp_all add: setup_inv_def)
  have n: "length (w_systems w) = length (lo_systems lo)"
    using setup_frame_length [OF conjunct2 [OF s]] w_frame_length [OF w(2)] len by simp
  have ok: "calls_ok (trunk (w_sources w)) (length (w_systems w)) (w_recs w) (w_calls w)" "sources_ok (w_sources w) (fst (w_recorders w))"
    using w(1) by (simp_all add: world_inv_def world_ok_def)
  have t: "trunk (w_sources w) = (\<Union>so \<in> set (w_sources w). pool so)" by (simp add: trunk_def pool_def)
  have "\<forall>so \<in> set (w_sources w). \<forall>so' \<in> set (w_sources w). spare so \<inter> pool so' = {}"
    using ok(2) unfolding sources_ok_def t spare_def [symmetric] by blast
  then show ?thesis
    using ok(1) n unfolding calls_ok_def t busy_def call_ok_def by auto
qed


section \<open>Example\<close>

text \<open>A document much like the first one of the manual: one P25 system, one radio with two recorders.\<close>

definition example_element :: json where
  "example_element = JObject [(''center'', JInt 857000000), (''digitalRecorders'', JInt 2), (''driver'', JString ''usrp''),
     (''rate'', JInt 8000000)]"

definition example_document :: json where
  "example_document = JObject
     [(''captureDir'', JString ''/calls/''),
      (''sources'', JArray [example_element]),
      (''systems'', JArray [JObject [(''control_channels'', JArray [JInt 855462500]), (''type'', JString ''p25'')],
         JObject [(''enabled'', JBool False)]]),
      (''ver'', JInt 2)]"

definition example_radio :: Source where
  "example_radio =
     \<lparr>so_src_num = 0, so_center = 0, so_rate = 0, so_error = 0, so_min_hz = 0, so_max_hz = 0, so_driver = [], so_device = [],
      so_antenna = [], so_ppm = 0, so_gain_mode = False, so_gain = 0, so_gain_stages = [], so_silence_frames = 0,
      so_debug_recorder_port = 0, so_max_digital_recorders = 0, so_max_analog_recorders = 0, so_max_debug_recorders = 0,
      so_max_sigmf_recorders = 0, so_digital_recorders = [], so_digital_conv_recorders = [], so_dmr_conv_recorders = [],
      so_analog_recorders = [], so_analog_conv_recorders = [], so_debug_recorders = [], so_sigmf_recorders = []\<rparr>"

definition example_made :: Recorder where
  "example_made = P25_Rec (new_p25_recorder example_p25 example_sink example_sink 857000000)"

definition example_load :: load_env where
  "example_load =
     \<lparr>le_document = Some example_document, le_ptree_reads = True, le_no_color = None, le_current_path = ''/home'', le_dev_shm = True,
      le_csv = (\<lambda>_. None), le_text = (\<lambda>_. None), le_tokenizer = (\<lambda>l. [l]), le_sigmf_meta = (\<lambda>_. None),
      le_actual_rate = (\<lambda>_ r. r), le_system_junk = example_system, le_source_junk = example_radio,
      le_digital = (\<lambda>_ _ _. example_made), le_analog = (\<lambda>_ _ _. example_made), le_sigmf = (\<lambda>_ _ _. example_made),
      le_debug = (\<lambda>_ _ _. example_made)\<rparr>"

lemma example_made_fresh: "fresh_makers example_load"
  using new_p25_inv [OF example_sink_new example_sink_new, of example_p25 857000000]
  by (simp add: fresh_makers_def example_load_def fresh_def example_made_def new_p25_recorder_def p25_get_state_def p25_sink_def
      example_sink_def)

lemma fl_numeral: "(numeral n :: nat) < 2 ^ 53 \<Longrightarrow> fl (numeral n) = numeral n"
  using fl_of_nat [of "numeral n"] by simp

lemma example_globals:
  "load_globals example_load example_document = Inr
     (\<lparr>cfg_capture_dir = ''/calls'', cfg_temp_dir = ''/dev/shm'', cfg_default_mode = ''digital'', cfg_new_call_from_update = True,
       cfg_call_timeout = 3, cfg_control_message_warn_rate = 10, cfg_control_retune_limit = 0, cfg_record_uu_v_calls = True,
       cfg_frequency_format = 1\<rparr>,
      \<lparr>co_upload_server = [], co_bcfy_calls_server = [], co_status_server = [], co_instance_key = [], co_instance_id = [],
       co_debug_recorder_address = ''127.0.0.1'', co_log_dir = ''logs'', co_debug_recorder = False,
       co_debug_recorder_port = 1234, co_console_log = True, co_log_file = False, co_log_color = ''console'',
       co_broadcast_signals = False, co_enable_audio_streaming = False, co_soft_vocoder = False,
       co_status_as_string = True, co_log_level = ''info''\<rparr>)"
  by (simp add: load_globals_def example_document_def example_load_def default_log_color_def default_temp_dir_def
      strip_slash_def frequency_format_of_def iequals_def fl_numeral)

lemma example_systems:
  "\<exists>s opt. configure_system example_load 0 (JObject [(''control_channels'', JArray [JInt 855462500]), (''type'', JString ''p25'')]) = Inr (s, opt)
     \<and> sy_system_type s = ''p25'' \<and> sy_control_channels s = [855462500] \<and> sy_current_control_channel s = 0"
  by (simp add: configure_system_def configure_type_def configure_trunking_def configure_modulation_def configure_archive_def
      configure_decoders_def configure_band_def configure_limits_def read_csv_def loaded_file_def set_talkgroups_file_def
      set_unit_tags_file_def set_xor_mask_def set_bandplan_spacing_def new_system_def add_control_channel_def push_new_def
      display_format_of_def iequals_def fl_numeral Let_def)


text \<open>Gains that are not given are not set.\<close>

lemma no_gains:
  assumes "\<And>k g. gains k = Some g \<Longrightarrow> g = 0"
  shows "fold (set_stage_gain gains) stages so = so"
proof (induction stages arbitrary: so)
  case (Cons stage stages)
  have "set_stage_gain gains stage so = so" using assms by (simp add: set_stage_gain_def split: option.split)
  with Cons show ?case by simp
qed simp

lemma zero_gains: "map_of (zip ks (replicate n 0)) k = Some g \<Longrightarrow> g = 0"
  by (auto dest!: map_of_SomeD set_zip_rightD simp: in_set_replicate)

lemma unset_gains: "fold (set_stage_gain (map_of (zip ks (replicate n 0)))) stages so = so"
  by (rule no_gains) (rule zero_gains)

lemma outcomes_all: "(\<And>x. x \<in> set xs \<Longrightarrow> f x = Inr c) \<Longrightarrow> outcomes (map f xs) = Inr (replicate (length xs) c)"
  by (induction xs) simp_all

lemma example_gains: "outcomes (map (\<lambda>key. json_value get_int32 example_element key 0) gain_keys) = Inr (replicate (length gain_keys) 0)"
  by (rule outcomes_all) (auto simp: gain_keys_def example_element_def)

lemma example_tuned: "new_source example_radio 0 857000000 8000000 0 ''usrp'' [] r = Some (example_radio\<lparr>so_center := 857000000, so_rate := 8000000, so_driver := ''usrp'',
   so_min_hz := 853032000, so_max_hz := 860968000\<rparr>)"
  by (simp add: new_source_def set_min_max_def min_max_decim_def trunc_def example_radio_def fl_numeral Let_def)

lemma example_reads:
  "json_value get_string example_element ''device'' [] = Inr []" "json_value get_int32 example_element ''silenceFrames'' 0 = Inr 0"
  "json_value get_double example_element ''center'' 0 = Inr 857000000" "json_value get_double example_element ''rate'' 0 = Inr 8000000"
  "json_value get_double example_element ''error'' 0 = Inr 0" "json_value get_double example_element ''ppm'' 0 = Inr 0"
  "json_value get_bool example_element ''agc'' False = Inr False" "json_value get_int32 example_element ''gain'' 0 = Inr 0"
  "json_value get_string example_element ''antenna'' [] = Inr []" "json_contains example_element ''gainSettings'' = False"
  "json_value get_string example_element ''driver'' [] = Inr ''usrp''" "json_value get_int32 example_element ''digitalRecorders'' 0 = Inr 2"
  "json_value get_int32 example_element ''sigmfRecorders'' 0 = Inr 0" "json_value get_int32 example_element ''analogRecorders'' 0 = Inr 0"
  by (simp_all add: example_element_def fl_numeral int32_def)

lemma example_junk: "le_source_junk example_load = example_radio" "le_actual_rate example_load d r = r"
  "le_digital example_load cfg so = (\<lambda>_. example_made)"
  by (simp_all add: example_load_def)

definition example_tuned_radio :: Source where
  "example_tuned_radio = example_radio\<lparr>so_center := 857000000, so_rate := 8000000, so_driver := ''usrp'', so_min_hz := 853032000,
     so_max_hz := 860968000\<rparr>"

lemma example_opened: "open_source example_load 0 example_element ''usrp'' = Inr example_tuned_radio"
proof -
  have "set_up_radio example_element False 0 (map_of (zip gain_keys (replicate (length gain_keys) 0))) [] 0 0 example_tuned_radio
      = Inr example_tuned_radio"
    by (simp add: set_up_radio_def example_reads unset_gains Let_def)
      (simp add: example_tuned_radio_def example_radio_def set_gain_mode_def)
  then show ?thesis
    by (simp add: open_source_def configure_radio_def example_gains example_reads example_junk example_tuned [folded example_tuned_radio_def])
qed

lemma example_source:
  assumes "\<not> co_debug_recorder opt"
  shows "\<exists>so. configure_source example_load cfg opt 0 example_element (0, rs) = Inr ((2, rs(0 := example_made, 1 := example_made)), so)
    \<and> so_min_hz so = 853032000 \<and> so_max_hz so = 860968000 \<and> so_digital_recorders so = [0, 1] \<and> so_analog_recorders so = []"
proof -
  have "configure_source example_load cfg opt 0 example_element (0, rs) =
      Inr (create_recorders example_load cfg opt 0 2 0 0 (0, rs) example_tuned_radio)"
    by (simp add: configure_source_def example_reads example_opened)
  moreover have "[0..<2] = [0, 1 :: nat]" by (simp add: numeral_2_eq_2)
  moreover have "(\<lambda>i. if i < Suc (Suc 0) then example_made else rs i) = rs(0 := example_made, 1 := example_made)"
    by (auto simp: fun_eq_iff)
  ultimately show ?thesis using assms
    by (simp add: create_recorders_def create_digital_recorders_def create_analog_recorders_def create_sigmf_recorders_def
      make_recorders_spec example_junk example_tuned_radio_def example_radio_def Let_def)
qed

lemma example_load_config:
  obtains lo s opt so rs where "load_config example_load example_api (\<lambda>_. example_made) = Inr lo"
    and "lo_systems lo = [(s, opt)]" and "lo_sources lo = [so]" and "lo_recorders lo = (2, rs)"
    and "sy_system_type s = ''p25''" and "sy_control_channels s = [855462500]" and "sy_current_control_channel s = 0"
    and "so_min_hz so = 853032000" and "so_max_hz so = 860968000" and "so_digital_recorders so = [0, 1]"
    and "so_analog_recorders so = []"
proof -
  obtain s opt where s: "configure_system example_load 0 (JObject [(''control_channels'', JArray [JInt 855462500]), (''type'', JString ''p25'')]) = Inr (s, opt)"
    "sy_system_type s = ''p25''" "sy_control_channels s = [855462500]" "sy_current_control_channel s = 0"
    using example_systems by blast
  obtain cfg options where g: "load_globals example_load example_document = Inr (cfg, options)" "\<not> co_debug_recorder options"
    using example_globals by auto
  define rs where "rs = (\<lambda>_ :: nat. example_made)(0 := example_made, 1 := example_made)"
  obtain so where so: "configure_source example_load cfg options 0 example_element (0, \<lambda>_. example_made) = Inr ((2, rs), so)"
    "so_min_hz so = 853032000" "so_max_hz so = 860968000" "so_digital_recorders so = [0, 1]" "so_analog_recorders so = []"
    using example_source [OF g(2), of cfg "\<lambda>_. example_made"] unfolding rs_def by blast
  define plugins where "plugins = map (\<lambda>(name, lib). \<lparr>pl_name = name, pl_state = PLUGIN_INITIALIZED, pl_self = [lib, ''init'']\<rparr>) internal_plugins"
  define lo where "lo = \<lparr>lo_config = cfg, lo_options = options, lo_systems = [(s, opt)], lo_recorders = (2, rs), lo_sources = [so],
    lo_plugins = plugins\<rparr>"
  have e: "json_value get_bool example_element ''enabled'' True = Inr True" by (simp add: example_element_def)
  have doc: "le_document example_load = Some example_document" "le_ptree_reads example_load" by (simp_all add: example_load_def)
  have at: "json_at example_document ''systems'' =
      Inr (JArray [JObject [(''control_channels'', JArray [JInt 855462500]), (''type'', JString ''p25'')], JObject [(''enabled'', JBool False)]])"
    "json_at example_document ''sources'' = Inr (JArray [example_element])" "json_contains example_document ''plugins'' = False"
    by (simp_all add: example_document_def)
  have pl: "andthen (add_internal_plugins example_api internal_plugins example_document []) (initialize_plugins example_api example_document) = Inr plugins"
    by (simp add: plugins_def internal_plugins_def add_internal_plugin_def setup_plugin_def parse_config_def example_api_def
        initialize_plugins_def init_plugin_def at(3))
  have "load_config example_load example_api (\<lambda>_. example_made) = Inr lo"
    using pl by (auto simp: load_config_def doc g(1) at s(1) so(1) e lo_def andthen_Inr)
  then show thesis by (rule that [of lo s opt so rs]) (simp_all add: lo_def s so)
qed

theorem configured_program_invariant_witness:
  "\<forall>menv fac. \<exists>lo w1. load_config example_load example_api (\<lambda>_. example_made) = Inr lo
     \<and> setup_systems menv fac [0..<length (lo_systems lo)] (loaded_world {} lo) = Some (True, w1)
     \<and> w_calls w1 = [] \<and> rec_get_state (w_recs w1 0) = AVAILABLE \<and> rec_get_state (w_recs w1 1) = AVAILABLE"
proof (intro allI)
  fix menv fac
  obtain lo s opt so rs where lo: "load_config example_load example_api (\<lambda>_. example_made) = Inr lo"
    and parts: "lo_systems lo = [(s, opt)]" "lo_sources lo = [so]" "lo_recorders lo = (2, rs)"
    and s: "sy_system_type s = ''p25''" "sy_control_channels s = [855462500]" "sy_current_control_channel s = 0"
    and so: "so_min_hz so = 853032000" "so_max_hz so = 860968000" "so_digital_recorders so = [0, 1]" "so_analog_recorders so = []"
    by (rule example_load_config)
  let ?w = "loaded_world {} lo"
  define w1 where "w1 = set_sys 0 (s\<lparr>sy_source := Some 0\<rparr>) ?w"
  have set: "setup_systems menv fac [0..<length (lo_systems lo)] ?w = Some (True, w1)"
    using s so by (simp add: parts loaded_world_def w1_def is_conventional_type_def get_current_control_channel_def
        vector_at_def first_covering_def covers_def)
  have w1: "w_calls w1 = []" "w_sources w1 = [so]" by (simp_all add: w1_def loaded_world_def parts set_sys_def)
  have "rec_get_state (w_recs w1 i) = AVAILABLE" if "i \<in> {0, 1}" for i
    using configured_program_invariant [OF lo example_made_fresh set rtranclp.rtrancl_refl] that w1 so(3,4)
    by (auto simp: pool_def)
  with lo set w1(1) show "\<exists>lo w1. load_config example_load example_api (\<lambda>_. example_made) = Inr lo
     \<and> setup_systems menv fac [0..<length (lo_systems lo)] (loaded_world {} lo) = Some (True, w1)
     \<and> w_calls w1 = [] \<and> rec_get_state (w_recs w1 0) = AVAILABLE \<and> rec_get_state (w_recs w1 1) = AVAILABLE"
    by blast
qed



end
