(* ===== verification/P25_Blocks.thy ===== *)
theory P25_Blocks
  imports Decoder_Common
begin

text \<open>
  The signalling blocks of a P25 Phase 1 frame (\<open>lib/op25_repeater/lib/p25p1_fdma.cc\<close>): from the bits of a
  frame body to the messages that the P25 parser takes out of the queue. The status dibits are removed,
  each block is de-interleaved and its rate 1/2 trellis code decoded, checksums are tested, and
  \<open>process_duid\<close> makes a message of the octets.

  A message is its type and its octets. The queue is taken not to be full, and \<open>d_do_msgq\<close> is set, as
  the trunking receivers do. \<open>None\<close> is a read outside of a vector or a failed assertion.
\<close>

section \<open>Checksums\<close>

definition crc16_bit :: "32 word \<Rightarrow> bool \<Rightarrow> 32 word" where
  "crc16_bit crc b =
     (let crc = (push_bit 1 crc OR of_bool b) AND 0x1ffff
      in if crc AND 0x10000 \<noteq> 0 then (crc AND 0xffff) XOR 0x1021 else crc)"

definition octet_bits :: "octet \<Rightarrow> bool list" where
  "octet_bits b = map (\<lambda>j. bit b (7 - j)) [0..<8]"

definition octets_bits :: "octet list \<Rightarrow> bool list" where
  "octets_bits buf = concat (map octet_bits buf)"

definition crc16 :: "octet list \<Rightarrow> 32 word" where
  "crc16 buf = (foldl crc16_bit 0 (octets_bits buf) XOR 0xffff) AND 0xffff"

definition crc32_bit :: "64 word \<Rightarrow> bool \<Rightarrow> 64 word" where
  "crc32_bit crc b =
     (let crc = push_bit 1 crc
      in if (drop_bit 32 crc XOR of_bool b) AND 1 \<noteq> 0 then crc XOR 0x04c11db7 else crc)"

text \<open>\<open>len\<close> is a number of bits and is not positive for a payload that is too short to have a checksum.\<close>

definition crc32 :: "octet list \<Rightarrow> int \<Rightarrow> 32 word" where
  "crc32 buf len = ucast ((foldl crc32_bit 0 (take (nat len) (octets_bits buf)) AND 0xffffffff) XOR 0xffffffff)"

section \<open>The trellis code\<close>

definition next_words :: "octet list list" where
  "next_words =
     [[0x2, 0xC, 0x1, 0xF],
      [0xE, 0x0, 0xD, 0x3],
      [0x9, 0x7, 0xA, 0x4],
      [0x5, 0xB, 0x6, 0x8]]"

text \<open>The loop of \<open>count_bits\<close> removes the lowest bit until none is left, as \<open>onebits\<close> does.\<close>

definition count_bits :: "octet \<Rightarrow> nat" where
  "count_bits n = onebits (ucast n)"

text \<open>\<open>find_min\<close>: the position of the lowest value, nothing when it occurs twice.\<close>

fun find_min_from :: "nat \<Rightarrow> nat list \<Rightarrow> nat \<Rightarrow> nat \<Rightarrow> bool \<Rightarrow> nat option" where
  "find_min_from i [] m index unique = (if unique then Some index else None)"
| "find_min_from i (x # xs) m index unique =
     (if x < m then find_min_from (Suc i) xs x i True
      else if x = m then find_min_from (Suc i) xs m index False
      else find_min_from (Suc i) xs m index unique)"

fun find_min :: "nat list \<Rightarrow> nat option" where
  "find_min (x # xs) = find_min_from 1 xs x 0 True"
| "find_min [] = None"

definition trellis_state :: "nat \<Rightarrow> octet \<Rightarrow> nat option" where
  "trellis_state state codeword = find_min (map (\<lambda>w. count_bits (codeword XOR w)) (next_words ! state))"

definition deinterleave_tb :: "nat list" where
  "deinterleave_tb =
     [0,  1,  2,  3,  52, 53, 54, 55, 100,101,102,103, 148,149,150,151,
      4,  5,  6,  7,  56, 57, 58, 59, 104,105,106,107, 152,153,154,155,
      8,  9, 10, 11,  60, 61, 62, 63, 108,109,110,111, 156,157,158,159,
      12, 13, 14, 15,  64, 65, 66, 67, 112,113,114,115, 160,161,162,163,
      16, 17, 18, 19,  68, 69, 70, 71, 116,117,118,119, 164,165,166,167,
      20, 21, 22, 23,  72, 73, 74, 75, 120,121,122,123, 168,169,170,171,
      24, 25, 26, 27,  76, 77, 78, 79, 124,125,126,127, 172,173,174,175,
      28, 29, 30, 31,  80, 81, 82, 83, 128,129,130,131, 176,177,178,179,
      32, 33, 34, 35,  84, 85, 86, 87, 132,133,134,135, 180,181,182,183,
      36, 37, 38, 39,  88, 89, 90, 91, 136,137,138,139, 184,185,186,187,
      40, 41, 42, 43,  92, 93, 94, 95, 140,141,142,143, 188,189,190,191,
      44, 45, 46, 47,  96, 97, 98, 99, 144,145,146,147, 192,193,194,195,
      48, 49, 50, 51]"

definition read_codeword :: "bool list \<Rightarrow> nat \<Rightarrow> nat \<Rightarrow> octet" where
  "read_codeword bv start b =
     push_bit 3 (of_bool (bv ! (start + deinterleave_tb ! (b + 0)))) + push_bit 2 (of_bool (bv ! (start + deinterleave_tb ! (b + 1))))
     + push_bit 1 (of_bool (bv ! (start + deinterleave_tb ! (b + 2)))) + of_bool (bv ! (start + deinterleave_tb ! (b + 3)))"

text \<open>A dibit goes into the output; the last state, of the dibit that flushes the code, does not.\<close>

definition put_dibit :: "nat \<Rightarrow> nat \<Rightarrow> octet list \<Rightarrow> octet list" where
  "put_dibit d state buf =
     (if d < 48 then buf[d div 4 := buf ! (d div 4) OR push_bit (6 - d mod 4 * 2) (of_nat state)] else buf)"

fun trellis_decode :: "octet list \<Rightarrow> nat \<Rightarrow> nat \<Rightarrow> octet list \<Rightarrow> octet list option" where
  "trellis_decode [] d state buf = Some buf"
| "trellis_decode (codeword # rest) d state buf =
     (case trellis_state state codeword of
        None \<Rightarrow> None
      | Some state \<Rightarrow> trellis_decode rest (Suc d) state (put_dibit d state buf))"

text \<open>The 196 bits from \<open>start\<close> on; \<open>None\<close> is the answer -1.\<close>

definition block_deinterleave :: "bool list \<Rightarrow> nat \<Rightarrow> octet list option" where
  "block_deinterleave bv start =
     trellis_decode (map (\<lambda>d. read_codeword bv start (4 * d)) [0..<49]) 0 0 (replicate 12 0)"

section \<open>Blocks of a frame\<close>

definition strip_status :: "bool list \<Rightarrow> nat \<Rightarrow> bool list" where
  "strip_status fr fr_len =
     concat (map (\<lambda>d. if Suc d mod 36 = 0 then [] else [fr ! (d * 2), fr ! (d * 2 + 1)]) [0..<fr_len div 2])"

fun all_blocks :: "bool list \<Rightarrow> nat list \<Rightarrow> octet list list option" where
  "all_blocks bv [] = Some []"
| "all_blocks bv (n # ns) =
     (case block_deinterleave bv (48 + 64 + n * 196) of
        None \<Rightarrow> None
      | Some b \<Rightarrow> (case all_blocks bv ns of None \<Rightarrow> None | Some bs \<Rightarrow> Some (b # bs)))"

text \<open>
  The size less 112 is unsigned: below 112 bits it wraps to a number of blocks of more than a thousand
  million, and the reads leave the vector. Otherwise the answer is the blocks, or -1 (the inner \<open>None\<close>) when
  there is none or one cannot be decoded.
\<close>

definition process_blocks :: "bool list \<Rightarrow> nat \<Rightarrow> octet list list option option" where
  "process_blocks fr fr_len =
     (let bv = strip_status fr fr_len; bl_len = (length bv - 112) div 196
      in if length bv < 112 then None
         else Some (case all_blocks bv [0..<bl_len] of
             None \<Rightarrow> None | Some bs \<Rightarrow> if bs = [] then None else Some bs))"

section \<open>Messages\<close>

type_synonym fdma_message = "int \<times> octet list"

definition nac_octets :: "32 word \<Rightarrow> octet list" where
  "nac_octets nac = [ucast (drop_bit 8 nac), ucast nac]"

text \<open>The assertion that the message fits into its buffer of 256 octets.\<close>

definition process_duid :: "nat \<Rightarrow> 32 word \<Rightarrow> octet list \<Rightarrow> fdma_message option" where
  "process_duid duid nac buf =
     (if length buf + 2 \<le> 256 then Some (int duid, nac_octets nac @ buf) else None)"

fun tsbk_messages :: "nat \<Rightarrow> 32 word \<Rightarrow> octet list list \<Rightarrow> fdma_message list option" where
  "tsbk_messages duid nac [] = Some []"
| "tsbk_messages duid nac (b # bs) =
     (if crc16 b \<noteq> 0 then Some []
      else do { m \<leftarrow> process_duid duid nac (take 10 b);
                ms \<leftarrow> (if drop_bit 7 (b ! 0) = 0 then tsbk_messages duid nac bs else Some []);
                Some (m # ms) })"

definition process_TSBK :: "nat \<Rightarrow> 32 word \<Rightarrow> bool list \<Rightarrow> nat \<Rightarrow> fdma_message list option" where
  "process_TSBK duid nac fr fr_len =
     (case process_blocks fr fr_len of
        None \<Rightarrow> None
      | Some None \<Rightarrow> Some []
      | Some (Some bs) \<Rightarrow> tsbk_messages duid nac bs)"

text \<open>
  A multi block message. The test of the number of blocks lets a header pass that counts as many blocks as
  were received, itself included, so the last block of its payload may be one past the end.
\<close>

definition pdu_message :: "nat \<Rightarrow> 32 word \<Rightarrow> octet list list \<Rightarrow> fdma_message list option" where
  "pdu_message duid nac bs =
     (let header = bs ! 0;
          fmt = header ! 0 AND 0x1f; sap = header ! 1 AND 0x3f; blks = unat (header ! 6 AND 0x7f)
      in if crc16 header \<noteq> 0 then Some []
         else if sap = 61 \<and> (fmt = 0x17 \<or> fmt = 0x15) then
           if blks > length bs then Some []
           else if length bs \<le> 1 \<or> blks = length bs then None
           else let crc1 = crc32 (concat (drop 1 bs)) ((int blks * 12 - 4) * 8);
                    crc2 = (push_bit 24 (ucast (bs ! blks ! 8)) + push_bit 16 (ucast (bs ! blks ! 9))
                      + push_bit 8 (ucast (bs ! blks ! 10)) + ucast (bs ! blks ! 11) :: 32 word)
                in if crc1 \<noteq> crc2 then Some []
                   else map_option (\<lambda>m. [m]) (process_duid duid nac (take ((blks + 1) * 12 - 4) (concat bs)))
         else Some [])"

definition process_PDU :: "nat \<Rightarrow> 32 word \<Rightarrow> bool list \<Rightarrow> nat \<Rightarrow> fdma_message list option" where
  "process_PDU duid nac fr fr_len =
     (case process_blocks fr fr_len of
        None \<Rightarrow> None
      | Some None \<Rightarrow> Some []
      | Some (Some bs) \<Rightarrow> pdu_message duid nac bs)"

text \<open>
  \<open>process_frame\<close> as far as signalling goes: terminators and voice frames give a message without octets. What
  voice frames have besides, the words of the vocoder and the codes around their link control, is left out.
\<close>

definition signalling_frame :: "nat \<Rightarrow> 32 word \<Rightarrow> bool list \<Rightarrow> nat \<Rightarrow> fdma_message list option" where
  "signalling_frame duid nac fr fr_len =
     (if duid \<in> {0x03, 0x05, 0x0a, 0x0f} then map_option (\<lambda>m. [m]) (process_duid duid nac [])
      else if duid = 0x07 then process_TSBK duid nac fr fr_len
      else if duid = 0x0c then process_PDU duid nac fr fr_len
      else Some [])"

end
