(* ===== verification/P25_Block_Properties.thy ===== *)
theory P25_Block_Properties
  imports P25_Blocks
begin

text \<open>
  What the block layer makes of a transmitted frame: which errors the trellis decoder corrects and which
  make it refuse a block, that a checksum leaves no small error unnoticed, and a grant from the air to
  the message of the parser.
\<close>

section \<open>One codeword\<close>

definition single :: "octet set" where
  "single = {0, 1, 2, 4, 8}"

text \<open>
  An error in one of the two high bits of a codeword is corrected; one in the two low bits makes another
  codeword as near, and the decoder gives up.
\<close>

lemma trellis_state_table:
  "\<forall>s \<in> set [0..<4]. \<forall>d \<in> set [0..<4]. \<forall>e \<in> set [0, 1, 2, 4, 8 :: octet].
     trellis_state s (next_words ! s ! d XOR e) = (if e = 1 \<or> e = 2 then None else Some d)"
  by code_simp

lemma trellis_state_single:
  assumes "s < 4" "d < 4" "e \<in> single"
  shows "trellis_state s (next_words ! s ! d XOR e) = (if e = 1 \<or> e = 2 then None else Some d)"
  using trellis_state_table assms by (auto simp: single_def)

section \<open>A block\<close>

definition dibits_of :: "octet \<Rightarrow> nat list" where
  "dibits_of b = map (\<lambda>k. unat (drop_bit (6 - 2 * k) b AND 3)) [0..<4]"

fun trellis_encode :: "nat list \<Rightarrow> nat \<Rightarrow> octet list" where
  "trellis_encode [] s = []"
| "trellis_encode (d # ds) s = next_words ! s ! d # trellis_encode ds d"

fun put_dibits :: "nat list \<Rightarrow> nat \<Rightarrow> octet list \<Rightarrow> octet list" where
  "put_dibits [] d buf = buf"
| "put_dibits (x # xs) d buf = put_dibits xs (Suc d) (put_dibit d x buf)"

lemma trellis_decode_single:
  assumes "length es = length ds" "\<forall>d \<in> set ds. d < 4" "s < 4" "set es \<subseteq> single"
  shows "trellis_decode (map2 (XOR) (trellis_encode ds s) es) k s buf =
    (if set es \<inter> {1, 2} = {} then Some (put_dibits ds k buf) else None)"
  using assms
proof (induction es ds arbitrary: s k buf rule: list_induct2)
  case (Cons e es d ds)
  then show ?case by (auto simp: trellis_state_single)
qed simp

lemma put_dibits_append: "put_dibits (xs @ ys) d buf = put_dibits ys (d + length xs) (put_dibits xs d buf)"
  by (induction xs arbitrary: d buf) simp_all

lemma and_3_octet: "b AND 3 = take_bit 2 (b :: octet)"
  by (simp add: take_bit_eq_mask mask_eq_exp_minus_1)

lemma octet_of_dibits:
  "((push_bit 6 (drop_bit 6 b AND 3) OR push_bit 4 (drop_bit 4 b AND 3)) OR push_bit 2 (drop_bit 2 b AND 3)) OR (b AND 3) = (b :: octet)"
proof (rule bit_word_eqI)
  fix n assume "n < LENGTH(8)"
  then have "n < 2 \<or> 2 \<le> n \<and> n < 4 \<or> 4 \<le> n \<and> n < 6 \<or> 6 \<le> n \<and> n < 8" by auto
  moreover have "2 \<le> n \<Longrightarrow> Suc (Suc (n - 2)) = n" by simp
  ultimately show "bit (((push_bit 6 (drop_bit 6 b AND 3) OR push_bit 4 (drop_bit 4 b AND 3)) OR push_bit 2 (drop_bit 2 b AND 3)) OR (b AND 3)) n = bit b n"
    unfolding and_3_octet by (auto simp: bit_push_bit_iff bit_drop_bit_eq bit_take_bit_iff bit_or_iff)
qed

lemma put_octet:
  assumes "n < 12" "length buf = 12" "buf ! n = 0"
  shows "put_dibits (dibits_of b) (4 * n) buf = buf[n := b]"
proof -
  have l: "[0..<4] = [0, 1, 2, 3 :: nat]" by code_simp
  have d: "Suc (4 * n) div 4 = n" "Suc (Suc (4 * n)) div 4 = n" "Suc (Suc (Suc (4 * n))) div 4 = n"
    "Suc (4 * n) mod 4 = 1" "Suc (Suc (4 * n)) mod 4 = 2" "Suc (Suc (Suc (4 * n))) mod 4 = 3" by presburger+
  have "put_dibits (dibits_of b) (4 * n) buf =
      buf[n := ((push_bit 6 (drop_bit 6 b AND 3) OR push_bit 4 (drop_bit 4 b AND 3)) OR push_bit 2 (drop_bit 2 b AND 3)) OR (b AND 3)]"
    using assms by (simp add: dibits_of_def put_dibit_def l d del: push_bit_and)
  then show ?thesis unfolding octet_of_dibits .
qed

lemma put_octets:
  assumes "n + length bs \<le> 12" "length xs = n"
  shows "put_dibits (concat (map dibits_of bs)) (4 * n) (xs @ replicate (12 - n) 0) = xs @ bs @ replicate (12 - n - length bs) 0"
  using assms
proof (induction bs arbitrary: n xs)
  case (Cons b bs)
  let ?buf = "xs @ replicate (12 - n) (0 :: octet)"
  have n: "n < 12" using Cons.prems by simp
  have "put_dibits (dibits_of b) (4 * n) ?buf = ?buf[n := b]"
    using Cons.prems n by (intro put_octet) (simp_all add: nth_append)
  also have "\<dots> = (xs @ [b]) @ replicate (12 - Suc n) 0"
  proof -
    have "replicate (12 - n) (0 :: octet) = 0 # replicate (12 - Suc n) 0"
      using n by (metis Suc_diff_Suc replicate_Suc)
    then show ?thesis using Cons.prems by (simp add: list_update_append)
  qed
  finally have one: "put_dibits (dibits_of b) (4 * n) ?buf = (xs @ [b]) @ replicate (12 - Suc n) 0" .
  have "length (dibits_of b) = 4" by (simp add: dibits_of_def)
  then show ?case using Cons.IH [of "Suc n" "xs @ [b]"] Cons.prems one
    by (simp add: put_dibits_append add.commute [of 4])
qed simp

section \<open>Interleaving\<close>

text \<open>Codeword \<open>d\<close> of the code is at place \<open>place d\<close> on the air, its four bits in order.\<close>

definition place :: "nat \<Rightarrow> nat" where
  "place d = [0, 13, 25, 37] ! (d mod 4) + d div 4"

lemma deinterleave_tb_eq: "deinterleave_tb = concat (map (\<lambda>d. map (\<lambda>k. 4 * place d + k) [0..<4]) [0..<49])"
  by code_simp

lemma nth_concat_const:
  assumes "d < length xs" "k < n" "\<forall>x \<in> set xs. length (f x) = n"
  shows "concat (map f xs) ! (n * d + k) = f (xs ! d) ! k"
  using assms
proof (induction xs arbitrary: d)
  case (Cons x xs)
  then show ?case by (cases d) (simp_all add: nth_append add.assoc)
qed simp

lemma deinterleave_tb_nth: "d < 49 \<Longrightarrow> k < 4 \<Longrightarrow> deinterleave_tb ! (4 * d + k) = 4 * place d + k"
  unfolding deinterleave_tb_eq by (subst nth_concat_const) simp_all

lemma places_distinct: "distinct (map place [0..<49])" and places_all: "set (map place [0..<49]) = {..<49}"
proof -
  have "sort (map place [0..<49]) = [0..<49]" by code_simp
  then show "set (map place [0..<49]) = {..<49}" "distinct (map place [0..<49])"
    by (metis set_sort set_upt atLeast_upt, metis distinct_sort distinct_upt)
qed

definition interleave :: "octet list \<Rightarrow> octet list" where
  "interleave cws = map (\<lambda>p. the (map_of (zip (map place [0..<49]) cws) p)) [0..<49]"

lemma interleave_place:
  assumes "length cws = 49" "d < 49"
  shows "interleave cws ! place d = cws ! d"
proof -
  have "map_of (zip (map place [0..<49]) cws) (map place [0..<49] ! d) = Some (cws ! d)"
    using places_distinct assms by (intro map_of_zip_nth) simp_all
  moreover have "place d < 49" using places_all assms(2) by (metis (no_types, lifting) atLeast_upt image_eqI lessThan_iff list.set_map)
  ultimately show ?thesis using assms(2) by (simp add: interleave_def)
qed

definition nibble :: "octet \<Rightarrow> bool list" where
  "nibble w = [bit w 3, bit w 2, bit w 1, bit w 0]"

lemma nibble_value:
  assumes "take_bit 4 w = w"
  shows "push_bit 3 (of_bool (bit w 3)) + push_bit 2 (of_bool (bit w 2)) + push_bit 1 (of_bool (bit w 1)) + of_bool (bit w 0) = (w :: octet)"
proof -
  have "take_bit 4 w = (\<Sum>k = 0..<4. push_bit k (of_bool (bit w k)))" by (rule take_bit_sum)
  also have "{0..<4 :: nat} = {0, 1, 2, 3}" by auto
  finally show ?thesis using assms by (simp add: ac_simps)
qed

text \<open>The bits on the air of a block whose codewords, in the order of the code, were hit by the errors \<open>es\<close>.\<close>

definition air_words :: "octet list \<Rightarrow> octet list \<Rightarrow> octet list" where
  "air_words block es = map2 (XOR) (trellis_encode (concat (map dibits_of block) @ [0]) 0) es"

definition air_block :: "octet list \<Rightarrow> octet list \<Rightarrow> bool list" where
  "air_block block es = concat (map nibble (interleave (air_words block es)))"

lemma read_air:
  assumes "length ws = 49" "\<forall>w \<in> set ws. take_bit 4 w = w" "d < 49"
  shows "read_codeword (pre @ concat (map nibble (interleave ws)) @ post) (length pre) (4 * d) = ws ! d"
proof -
  have p: "place d < 49" using places_all assms(3) by (metis (no_types, lifting) atLeast_upt image_eqI lessThan_iff list.set_map)
  have len: "length (concat (map nibble (interleave ws))) = 196"
    by (simp add: length_concat interleave_def nibble_def comp_def sum_list_triv)
  have "(pre @ concat (map nibble (interleave ws)) @ post) ! (length pre + (4 * place d + k)) = nibble (ws ! d) ! k" if "k < 4" for k
  proof -
    have "concat (map nibble (interleave ws)) ! (4 * place d + k) = nibble (interleave ws ! place d) ! k"
      using p that by (intro nth_concat_const) (simp_all add: interleave_def nibble_def)
    moreover have "4 * place d + k < 196" using p that by simp
    ultimately show ?thesis using interleave_place [OF assms(1,3)] len by (simp add: nth_append)
  qed
  from this [of 0] this [of 1] this [of 2] this [of 3] show ?thesis
    using assms(2) nibble_value [of "ws ! d"] assms(1,3) deinterleave_tb_nth [OF assms(3), of 0] deinterleave_tb_nth [OF assms(3), of 1]
      deinterleave_tb_nth [OF assms(3), of 2] deinterleave_tb_nth [OF assms(3), of 3]
    by (simp add: read_codeword_def nibble_def add.assoc)
qed
section \<open>A block from the air\<close>

lemma length_trellis_encode [simp]: "length (trellis_encode ds s) = length ds"
  by (induction ds arbitrary: s) simp_all

lemma next_words_nibble: "\<forall>r \<in> set next_words. \<forall>w \<in> set r. take_bit 4 w = w"
  by code_simp

lemma trellis_encode_nibble:
  "\<forall>d \<in> set ds. d < 4 \<Longrightarrow> s < 4 \<Longrightarrow> \<forall>w \<in> set (trellis_encode ds s). take_bit 4 w = w"
proof (induction ds arbitrary: s)
  case (Cons d ds)
  have "next_words ! s \<in> set next_words" using Cons.prems by (intro nth_mem) (simp add: next_words_def)
  moreover have "\<forall>r \<in> set next_words. length r = 4" by (simp add: next_words_def)
  ultimately have "next_words ! s ! d \<in> set (next_words ! s)" using Cons.prems by (intro nth_mem) simp
  moreover have "\<forall>w \<in> set (trellis_encode ds d). take_bit 4 w = w" using Cons.prems by (intro Cons.IH) simp_all
  ultimately show ?case using next_words_nibble \<open>next_words ! s \<in> set next_words\<close> by simp
qed simp

lemma dibits_bound: "d \<in> set (dibits_of b) \<Longrightarrow> d < 4"
proof -
  have "unat (take_bit 2 w) < 4" for w :: octet
    using take_bit_nat_less_exp [of 2 "unat w"] by (simp add: unsigned_take_bit_eq)
  then show "d \<in> set (dibits_of b) \<Longrightarrow> d < 4" by (auto simp: dibits_of_def and_3_octet)
qed

lemma length_dibits [simp]: "length (dibits_of b) = 4" "length (concat (map dibits_of bs)) = 4 * length bs"
  by (simp_all add: dibits_of_def length_concat comp_def sum_list_triv)

lemma air_words_facts:
  assumes "length block = 12" "length es = 49" "set es \<subseteq> single"
  shows "length (air_words block es) = 49" "\<forall>w \<in> set (air_words block es). take_bit 4 w = w"
proof -
  show "length (air_words block es) = 49" using assms by (simp add: air_words_def)
  have "\<forall>w \<in> set (trellis_encode (concat (map dibits_of block) @ [0]) 0). take_bit 4 w = w"
    by (rule trellis_encode_nibble) (auto dest: dibits_bound)
  moreover have "\<forall>e \<in> set es. take_bit 4 e = e" using assms(3) by (auto simp: single_def)
  ultimately have "take_bit 4 (a XOR b) = a XOR b"
    if "(a, b) \<in> set (zip (trellis_encode (concat (map dibits_of block) @ [0]) 0) es)" for a b
    unfolding take_bit_xor using set_zip_leftD [OF that] set_zip_rightD [OF that] by metis
  then show "\<forall>w \<in> set (air_words block es). take_bit 4 w = w"
    unfolding air_words_def set_map by (intro ballI, elim imageE) (simp only: split_paired_all prod.case)
qed

lemma put_flush: "put_dibits [0] 48 buf = buf"
  by (simp add: put_dibit_def)

lemma block_from_air:
  assumes "length block = 12" "length es = 49" "set es \<subseteq> single"
  shows "block_deinterleave (pre @ air_block block es @ post) (length pre) =
    (if set es \<inter> {1, 2} = {} then Some block else None)"
proof -
  let ?ds = "concat (map dibits_of block) @ [0]"
  note facts = air_words_facts [OF assms]
  have "map (\<lambda>d. read_codeword (pre @ air_block block es @ post) (length pre) (4 * d)) [0..<49] = map ((!) (air_words block es)) [0..<49]"
    unfolding air_block_def using read_air [OF facts] by (intro map_cong) simp_all
  also have "\<dots> = air_words block es" using facts(1) map_nth [of "air_words block es"] by simp
  finally have "block_deinterleave (pre @ air_block block es @ post) (length pre) = trellis_decode (air_words block es) 0 0 (replicate 12 0)"
    by (simp add: block_deinterleave_def)
  also have "\<dots> = (if set es \<inter> {1, 2} = {} then Some (put_dibits ?ds 0 (replicate 12 0)) else None)"
    unfolding air_words_def using assms by (intro trellis_decode_single) (auto dest: dibits_bound)
  also have "put_dibits ?ds 0 (replicate 12 0) = block"
    unfolding put_dibits_append using put_octets [of 0 block "[]"] assms(1) by (simp add: put_dibit_def)
  finally show ?thesis .
qed

end
