(* ===== verification/P25_Checksums.thy ===== *)
theory P25_Checksums
  imports P25_Blocks Checksums
begin

text \<open>
  The 16 bit checksum of P25 signalling blocks: it is linear, a block sealed with it is accepted, and two
  accepted blocks never differ in one, two or three bits.
\<close>

section \<open>Linearity\<close>

lemma bit_twice: "bit (w * 2) i \<longleftrightarrow> 0 < i \<and> i < 32 \<and> bit w (i - 1)" for w :: "32 word"
  using bit_double_iff [of w i] by (auto simp: ac_simps)

lemma crc16_bit_eq:
  "crc16_bit crc b = (take_bit 16 (push_bit 1 crc) XOR of_bool b) XOR (if bit crc 15 then 0x1021 else 0)"
proof -
  let ?c = "(push_bit 1 crc OR of_bool b) AND 0x1ffff"
  have m: "0x1ffff = (mask 17 :: 32 word)" "0xffff = (mask 16 :: 32 word)" "0x10000 = (push_bit 16 1 :: 32 word)"
    by (simp_all add: mask_numeral)
  have hi: "?c AND 0x10000 \<noteq> 0 \<longleftrightarrow> bit crc 15"
    unfolding m bit_iff_and_push_bit_not_eq_0 [symmetric] bit_and_iff bit_or_iff bit_push_bit_iff by (auto simp: bit_simps bit_twice)
  have lo: "?c AND 0xffff = take_bit 16 (push_bit 1 crc) XOR of_bool b"
    unfolding m by (rule bit_word_eqI) (auto simp: bit_simps bit_twice)
  have "\<not> bit crc 15 \<Longrightarrow> ?c = ?c AND 0xffff"
    unfolding m by (rule bit_word_eqI) (auto simp: bit_simps bit_twice numeral_eq_Suc less_Suc_eq)
  then show ?thesis using hi lo by (simp add: crc16_bit_def Let_def)
qed

lemma crc16_bit_range: "take_bit 16 (crc16_bit crc b) = crc16_bit crc b"
  by (simp add: crc16_bit_eq take_bit_xor)

lemma crc16_bit_xor: "crc16_bit (a XOR b) (x \<noteq> y) = crc16_bit a x XOR crc16_bit b y"
  by (simp add: crc16_bit_eq bit_xor_iff push_bit_xor take_bit_xor ac_simps)

abbreviation crc16_run :: "32 word \<Rightarrow> bool list \<Rightarrow> 32 word" where
  "crc16_run \<equiv> foldl crc16_bit"

lemma crc16_run_range: "take_bit 16 c = c \<Longrightarrow> take_bit 16 (crc16_run c bs) = crc16_run c bs"
  by (induction bs arbitrary: c) (simp_all add: crc16_bit_range)

lemma crc16_run_xor:
  "length as = length bs \<Longrightarrow> crc16_run (a XOR b) (map2 (\<noteq>) as bs) = crc16_run a as XOR crc16_run b bs"
  by (induction as bs arbitrary: a b rule: list_induct2) (simp_all add: crc16_bit_xor [simplified])

lemma crc16_zero_iff: "crc16 buf = 0 \<longleftrightarrow> crc16_run 0 (octets_bits buf) = 0xffff"
proof -
  have m: "0xffff = (mask 16 :: 32 word)" by (simp add: mask_numeral)
  have "crc16 buf = crc16_run 0 (octets_bits buf) XOR 0xffff"
    using crc16_run_range [of 0 "octets_bits buf"]
    by (simp add: crc16_def m take_bit_xor flip: take_bit_eq_mask)
  then show ?thesis by (simp add: xor_zero_iff)
qed

section \<open>Sealed blocks\<close>

text \<open>The octets of a value of 16 bits, and what a transmitter appends to ten octets.\<close>

definition seal :: "octet list \<Rightarrow> octet list" where
  "seal p = (let crc = crc16 (p @ [0, 0]) in p @ [ucast (drop_bit 8 crc), ucast crc])"

lemma octets_bits_simps [simp]:
  "octets_bits [] = []" "octets_bits (b # bs) = octet_bits b @ octets_bits bs"
  "octets_bits (bs @ cs) = octets_bits bs @ octets_bits cs" "length (octet_bits b) = 8"
  by (simp_all add: octets_bits_def octet_bits_def)

lemma length_octets_bits [simp]: "length (octets_bits bs) = 8 * length bs"
  by (induction bs) simp_all

lemma octet_bits_inj: "octet_bits a = octet_bits b \<Longrightarrow> a = b"
proof (rule bit_word_eqI)
  assume e: "octet_bits a = octet_bits b"
  fix n assume "n < LENGTH(8)"
  then show "bit a n = bit b n" using arg_cong [OF e, of "\<lambda>l. l ! (7 - n)"] nth_upt [of 0 "7 - n" 8]
    by (simp add: octet_bits_def)
qed

lemma octets_bits_inj: "length as = length bs \<Longrightarrow> octets_bits as = octets_bits bs \<longleftrightarrow> as = bs"
  by (induction as bs rule: list_induct2) (auto dest: octet_bits_inj)

text \<open>The register after sixteen bits from zero is the value they spell.\<close>

lemma crc16_run_value:
  assumes "n \<le> 16"
  shows "crc16_run 0 (map (\<lambda>j. bit w (15 - j)) [0..<n]) = drop_bit (16 - n) (take_bit 16 w)"
  using assms
proof (induction n)
  case (Suc n)
  let ?c = "drop_bit (16 - n) (take_bit 16 w)"
  have "16 \<le> 31 - n" using Suc.prems by simp
  then have "\<not> bit ?c 15" using Suc.prems by (simp add: bit_simps)
  then have "crc16_bit ?c (bit w (15 - n)) = take_bit 16 (push_bit 1 ?c) XOR of_bool (bit w (15 - n))"
    by (simp add: crc16_bit_eq)
  also have "\<dots> = drop_bit (16 - Suc n) (take_bit 16 w)"
  proof (rule bit_word_eqI)
    fix k assume "k < LENGTH(32)"
    have "0 < k \<Longrightarrow> 16 - n + (k - 1) = 15 - n + k" using Suc.prems by linarith
    then show "bit (take_bit 16 (push_bit 1 ?c) XOR of_bool (bit w (15 - n))) k = bit (drop_bit (16 - Suc n) (take_bit 16 w)) k"
      using Suc.prems by (cases "k = 0") (auto simp: bit_simps bit_twice)
  qed
  finally show ?case using Suc by simp
qed (auto intro!: bit_word_eqI simp: bit_simps)

lemma crc16_range: "take_bit 16 (crc16 buf) = crc16 buf"
  by (simp add: crc16_def take_bit_eq_mask mask_numeral and.assoc)

lemma octets_of_word: "octets_bits [ucast (drop_bit 8 w), ucast w] = map (\<lambda>j. bit (w :: 32 word) (15 - j)) [0..<16]"
proof (rule nth_equalityI)
  fix j assume "j < length (octets_bits [ucast (drop_bit 8 w), ucast w])"
  then have "j < 8 \<or> 8 \<le> j \<and> j < 16" by auto
  then show "octets_bits [ucast (drop_bit 8 w), ucast w] ! j = map (\<lambda>j. bit w (15 - j)) [0..<16] ! j"
    by (auto simp: octet_bits_def nth_append bit_simps)
qed simp

lemma seal_accepted: "crc16 (seal p) = 0"
proof -
  let ?w = "crc16 (p @ [0, 0])" and ?p = "octets_bits p" and ?z = "replicate 16 False"
  have z: "octets_bits [0, 0] = ?z" by code_simp
  have w: "crc16_run 0 (?p @ ?z) = ?w XOR 0xffff"
  proof -
    have m: "0xffff = (mask 16 :: 32 word)" by (simp add: mask_numeral)
    show ?thesis using crc16_run_range [of 0 "?p @ ?z"] z
      by (simp add: crc16_def m take_bit_xor xor.assoc flip: take_bit_eq_mask)
  qed
  let ?v = "map (\<lambda>j. bit ?w (15 - j)) [0..<16]"
  have "crc16_run 0 (?p @ ?v) = crc16_run (crc16_run 0 ?p XOR 0) (map2 (\<noteq>) ?z ?v)"
  proof -
    have "map2 (\<noteq>) ?z ?v = ?v" by (intro nth_equalityI) simp_all
    then show ?thesis by simp
  qed
  also have "\<dots> = crc16_run 0 (?p @ ?z) XOR crc16_run 0 ?v"
    by (subst crc16_run_xor) simp_all
  also have "crc16_run 0 ?v = ?w" using crc16_run_value [of 16 ?w] crc16_range by simp
  finally have "crc16_run 0 (?p @ ?v) = (0xffff XOR ?w) XOR ?w" unfolding w xor.commute [of ?w] .
  then have "crc16_run 0 (?p @ ?v) = 0xffff" by (simp only: xor.assoc xor_self_eq xor.right_neutral)
  then show ?thesis
    unfolding crc16_zero_iff seal_def Let_def octets_bits_simps(3) octets_of_word .
qed
section \<open>Distance\<close>

text \<open>What one bit does to the register, \<open>k\<close> bits later.\<close>

fun crc16_orbit :: "nat \<Rightarrow> 32 word \<Rightarrow> 32 word list" where
  "crc16_orbit 0 c = []"
| "crc16_orbit (Suc n) c = c # crc16_orbit n (crc16_bit c False)"

definition crc16_columns :: "nat \<Rightarrow> 32 word list" where
  "crc16_columns n = rev (crc16_orbit n 1)"

lemma length_crc16_orbit [simp]: "length (crc16_orbit n c) = n"
  by (induction n arbitrary: c) simp_all

lemma crc16_orbit_Suc: "crc16_orbit (Suc n) c = crc16_orbit n c @ [crc16_run c (replicate n False)]"
  by (induction n arbitrary: c) simp_all

lemma crc16_run_columns: "crc16_run 0 bs = xor_sum (crc16_columns (length bs)) bs"
proof (induction bs)
  case (Cons b bs)
  let ?z = "replicate (length bs) False"
  have zero: "crc16_bit 0 False = 0" "crc16_run 0 (replicate n False) = 0" for n
    by (simp add: crc16_bit_eq, induction n) (simp_all add: crc16_bit_eq)
  have m: "map2 (\<noteq>) ?z bs = bs" by (intro nth_equalityI) simp_all
  have "crc16_run 0 (b # bs) = crc16_run (crc16_bit 0 b XOR 0) (map2 (\<noteq>) ?z bs)" unfolding m by simp
  also have "\<dots> = crc16_run (crc16_bit 0 b) ?z XOR crc16_run 0 bs" by (rule crc16_run_xor) simp
  also have "crc16_run (crc16_bit 0 b) ?z = (if b then crc16_run 1 ?z else 0)"
    by (simp add: zero) (simp add: crc16_bit_eq)
  finally show ?case
    unfolding length_Cons crc16_columns_def crc16_orbit_Suc using Cons by (simp add: crc16_columns_def)
qed (simp add: crc16_columns_def)

lemma crc16_columns_values: "map uint (crc16_orbit 96 1) =
    [1,2,4,8,16,32,64,128,256,512,1024,2048,4096,8192,16384,32768,
     4129,8258,16516,33032,4657,9314,18628,37256,13105,26210,52420,35241,883,1766,3532,7064,
     14128,28256,56512,43425,17251,34502,7597,15194,30388,60776,51953,34243,7079,14158,28316,56632,
     43601,17539,35078,557,1114,2228,4456,8912,17824,35648,1697,3394,6788,13576,27152,54304,
     47201,24803,49606,37805,14203,28406,56812,44025,18387,36774,3949,7898,15796,31592,63184,64897,
     60195,50791,40175,10751,21502,43004,24537,49074,28485,56970,44341,19019,38038,14605,29210,58420]"
  by code_simp

text \<open>Every column has an odd number of bits, so no two add up to a third.\<close>

fun odd_bits :: "nat \<Rightarrow> int \<Rightarrow> bool" where
  "odd_bits 0 w = False"
| "odd_bits (Suc n) w = (bit w n \<noteq> odd_bits n w)"

lemma odd_bits_xor: "odd_bits n (a XOR b) = (odd_bits n a \<noteq> odd_bits n b)"
  by (induction n) (auto simp: bit_xor_iff)

lemma crc16_columns_facts: "distinct (map uint (crc16_orbit 96 1))" "\<forall>c \<in> set (map uint (crc16_orbit 96 1)). odd_bits 16 c"
  unfolding crc16_columns_values by code_simp+

interpretation p25_columns: distant_columns "crc16_columns 96"
proof
  have odd: "odd_bits 16 (uint c)" if "c \<in> set (crc16_columns 96)" for c
    using that crc16_columns_facts(2) by (simp add: crc16_columns_def)
  show "distinct (crc16_columns 96)" using crc16_columns_facts(1) by (simp add: crc16_columns_def distinct_map)
  show "c \<noteq> 0" if "c \<in> set (crc16_columns 96)" for c
  proof
    assume "c = 0"
    moreover have "\<not> odd_bits 16 0" by code_simp
    ultimately show False using odd [OF that] by simp
  qed
  show "c XOR d \<notin> set (crc16_columns 96)" if "c \<in> set (crc16_columns 96)" "d \<in> set (crc16_columns 96)" for c d
    using odd [OF that(1)] odd [OF that(2)] odd [of "c XOR d"] by (auto simp: uint_xor odd_bits_xor)
qed

text \<open>
  C28. The checksum of a P25 block keeps accepted blocks apart: two different blocks of twelve octets that
  both pass the test differ in four bits at least.
\<close>
theorem p25_crc_distance:
  assumes "length a = 12" "length b = 12" "crc16 a = 0" "crc16 b = 0"
    and "card {i. i < 96 \<and> octets_bits a ! i \<noteq> octets_bits b ! i} \<le> 3"
  shows "a = b"
proof -
  have l: "length (crc16_columns 96) = 96" by (simp add: crc16_columns_def)
  have "octets_bits a = octets_bits b"
  proof (rule p25_columns.three_errors)
    show "xor_sum (crc16_columns 96) (octets_bits a) = xor_sum (crc16_columns 96) (octets_bits b)"
      using assms(1-4) crc16_run_columns [of "octets_bits a"] crc16_run_columns [of "octets_bits b"]
      by (simp add: crc16_zero_iff)
    show "card {i. i < length (crc16_columns 96) \<and> octets_bits a ! i \<noteq> octets_bits b ! i} \<le> 3"
      using assms(5) unfolding l .
  qed (simp_all add: assms l)
  then show ?thesis using assms(1,2) by (simp add: octets_bits_inj)
qed

theorem p25_crc_distance_witness:
  "seal [0x40, 0, 0x87, 0x10, 5, 0, 7, 0, 1, 9] = [0x40, 0, 0x87, 0x10, 5, 0, 7, 0, 1, 9, 48, 51]"
proof (rule p25_crc_distance)
  have "octets_bits (seal [0x40, 0, 0x87, 0x10, 5, 0, 7, 0, 1, 9]) = octets_bits [0x40, 0, 0x87, 0x10, 5, 0, 7, 0, 1, 9, 48, 51]"
    by code_simp
  then show "card {i. i < 96 \<and> octets_bits (seal [0x40, 0, 0x87, 0x10, 5, 0, 7, 0, 1, 9]) ! i
      \<noteq> octets_bits [0x40, 0, 0x87, 0x10, 5, 0, 7, 0, 1, 9, 48, 51] ! i} \<le> 3" by simp
qed (simp add: seal_def Let_def, simp, rule seal_accepted, code_simp)

end
