(* ===== verification/P25_Air.thy ===== *)
theory P25_Air
  imports P25_Block_Properties P25_Checksums P25_Properties
begin

text \<open>
  From the air to the messages of the program: a transmitter of P25 signalling frames is written down, and
  the block layer and the parser invert it. Also the frames for which the block layer has no defined
  result.
\<close>

section \<open>Status dibits\<close>

text \<open>After every 35 dibits of a frame a dibit of the status \<open>st\<close> is sent.\<close>

fun with_status :: "bool list \<Rightarrow> bool list \<Rightarrow> bool list" where
  "with_status st bv = (if length bv < 70 then bv else take 70 bv @ st @ with_status st (drop 70 bv))"

declare with_status.simps [simp del]

lemma pairs_concat: "concat (map (\<lambda>d. [xs ! (2 * d), xs ! (2 * d + 1)]) [0..<n]) = take (2 * n) xs" if "2 * n \<le> length xs"
  using that
proof (induction n)
  case (Suc n)
  have "take (2 * Suc n) xs = take (2 * n) xs @ [xs ! (2 * n), xs ! (2 * n + 1)]"
    using Suc.prems by (simp add: take_Suc_conv_app_nth)
  then show ?case using Suc by simp
qed simp

lemma strip_short:
  assumes "length xs < 72" "even (length xs)"
  shows "strip_status xs (length xs) = xs"
proof -
  have n: "d < 35" if "d < length xs div 2" for d using that assms by auto
  have "strip_status xs (length xs) = concat (map (\<lambda>d. [xs ! (2 * d), xs ! (2 * d + 1)]) [0..<length xs div 2])"
    unfolding strip_status_def using n by (intro arg_cong [where f = concat] map_cong) (simp_all add: mult.commute)
  also have "\<dots> = xs" using assms(2) by (subst pairs_concat) simp_all
  finally show ?thesis .
qed

lemma strip_more:
  assumes "length xs = 70" "length st = 2"
  shows "strip_status (xs @ st @ ys) (length (xs @ st @ ys)) = xs @ strip_status ys (length ys)"
proof -
  let ?fr = "xs @ st @ ys" and ?g = "\<lambda>fr d. if Suc d mod 36 = 0 then [] else [fr ! (d * 2), fr ! (d * 2 + 1)]"
  have n: "length ?fr div 2 = 36 + length ys div 2" using assms by simp
  have u: "[0..<36 + k] = ([0..<35] @ [35]) @ map ((+) 36) [0..<k]" for k
  proof -
    have "[0..<36 + k] = [0..<36] @ [36..<36 + k]" by (rule upt_add_eq_append) simp
    moreover have "[0..<36] = [0..<35] @ [35 :: nat]" using upt_Suc_append [of 0 35] by simp
    moreover have "[36..<36 + k] = map ((+) 36) [0..<k]" by (intro nth_equalityI) simp_all
    ultimately show ?thesis by simp
  qed
  have "?g ?fr d = [xs ! (2 * d), xs ! (2 * d + 1)]" if "d < 35" for d
    using that assms(1) by (simp add: nth_append mult.commute)
  then have "concat (map (?g ?fr) [0..<35]) = concat (map (\<lambda>d. [xs ! (2 * d), xs ! (2 * d + 1)]) [0..<35])"
    by (intro arg_cong [where f = concat] map_cong) simp_all
  also have "\<dots> = xs" using assms(1) pairs_concat [of 35 xs] by simp
  finally have one: "concat (map (?g ?fr) [0..<35]) = xs" .
  have two: "?g ?fr (36 + d) = ?g ys d" for d
    using assms mod_add_self1 [of 36 "Suc d"] by (simp add: nth_append)
  show ?thesis
    unfolding strip_status_def n u map_append concat_append map_map comp_def one two by simp
qed

lemma strip_with_status:
  assumes "length st = 2" "even (length bv)"
  shows "strip_status (with_status st bv) (length (with_status st bv)) = bv"
  using assms(2)
proof (induction "length bv" arbitrary: bv rule: less_induct)
  case less
  show ?case
  proof (cases "length bv < 70")
    case True
    then show ?thesis using less.prems strip_short [of bv] by (simp add: with_status.simps [of st bv])
  next
    case False
    then have "strip_status (with_status st (drop 70 bv)) (length (with_status st (drop 70 bv))) = drop 70 bv"
      using less by simp
    moreover have "with_status st bv = take 70 bv @ st @ with_status st (drop 70 bv)"
      using False by (simp add: with_status.simps [of st bv])
    ultimately show ?thesis using strip_more [of "take 70 bv" st] assms(1) False by simp
  qed
qed

section \<open>Blocks of a frame\<close>

lemma length_air_block:
  assumes "length b = 12" "length es = 49" "set es \<subseteq> single"
  shows "length (air_block b es) = 196"
  by (simp add: air_block_def length_concat interleave_def nibble_def comp_def sum_list_triv)

text \<open>A block is given with the errors of its codewords; each has one wrong bit at most.\<close>

definition noisy :: "octet list \<times> octet list \<Rightarrow> bool" where
  "noisy x \<longleftrightarrow> length (fst x) = 12 \<and> length (snd x) = 49 \<and> set (snd x) \<subseteq> single"

definition high_only :: "octet list \<times> octet list \<Rightarrow> bool" where
  "high_only x \<longleftrightarrow> set (snd x) \<inter> {1, 2} = {}"

definition air_blocks :: "(octet list \<times> octet list) list \<Rightarrow> bool list" where
  "air_blocks xs = concat (map (\<lambda>x. air_block (fst x) (snd x)) xs)"

lemma length_air_blocks: "\<forall>x \<in> set xs. noisy x \<Longrightarrow> length (air_blocks xs) = 196 * length xs"
  by (induction xs) (auto simp: air_blocks_def noisy_def length_air_block)

lemma all_blocks_air:
  assumes "\<forall>x \<in> set xs. noisy x" "length pre = 112 + 196 * n"
  shows "all_blocks (pre @ air_blocks xs @ post) [n..<n + length xs] =
    (if \<forall>x \<in> set xs. high_only x then Some (map fst xs) else None)"
  using assms
proof (induction xs arbitrary: n pre)
  case (Cons x xs)
  have x: "length (fst x) = 12" "length (snd x) = 49" "set (snd x) \<subseteq> single" using Cons.prems by (simp_all add: noisy_def)
  have "block_deinterleave (pre @ air_block (fst x) (snd x) @ air_blocks xs @ post) (length pre) =
      (if high_only x then Some (fst x) else None)"
    unfolding high_only_def by (rule block_from_air [OF x])
  moreover have "all_blocks ((pre @ air_block (fst x) (snd x)) @ air_blocks xs @ post) [Suc n..<Suc n + length xs] =
      (if \<forall>x \<in> set xs. high_only x then Some (map fst xs) else None)"
    using Cons.prems length_air_block [OF x] by (intro Cons.IH) simp_all
  moreover have "[n..<n + length (x # xs)] = n # [Suc n..<Suc n + length xs]" using upt_conv_Cons [of n "n + length (x # xs)"] by simp
  moreover have "air_blocks (x # xs) = air_block (fst x) (snd x) @ air_blocks xs" by (simp add: air_blocks_def)
  ultimately show ?case using Cons.prems by (simp add: ac_simps)
qed simp

text \<open>A frame: synchronisation and identifier (112 bits), the blocks, and padding; with status dibits in between.\<close>

definition air_frame :: "bool list \<Rightarrow> bool list \<Rightarrow> (octet list \<times> octet list) list \<Rightarrow> bool list \<Rightarrow> bool list" where
  "air_frame st head xs pad = with_status st (head @ air_blocks xs @ pad)"

definition framed :: "bool list \<Rightarrow> bool list \<Rightarrow> (octet list \<times> octet list) list \<Rightarrow> bool list \<Rightarrow> bool" where
  "framed st head xs pad \<longleftrightarrow> length st = 2 \<and> length head = 112 \<and> (\<forall>x \<in> set xs. noisy x) \<and> even (length pad) \<and> length pad < 196"

lemma process_blocks_air:
  assumes "framed st head xs pad"
  shows "process_blocks (air_frame st head xs pad) (length (air_frame st head xs pad)) =
    Some (if xs \<noteq> [] \<and> (\<forall>x \<in> set xs. high_only x) then Some (map fst xs) else None)"
proof -
  let ?bv = "head @ air_blocks xs @ pad"
  have n: "length ?bv = 112 + 196 * length xs + length pad" using assms by (simp add: framed_def length_air_blocks)
  then have "strip_status (air_frame st head xs pad) (length (air_frame st head xs pad)) = ?bv"
    unfolding air_frame_def using assms by (intro strip_with_status) (simp_all add: framed_def)
  moreover have "(length ?bv - 112) div 196 = length xs" using n assms by (simp add: framed_def)
  moreover have "all_blocks ?bv [0..<length xs] = (if \<forall>x \<in> set xs. high_only x then Some (map fst xs) else None)"
    using all_blocks_air [of xs head 0 pad] assms by (simp add: framed_def)
  ultimately show ?thesis using n by (simp add: process_blocks_def Let_def)
qed

section \<open>Trunking signalling\<close>

text \<open>The blocks up to the one marked as last.\<close>

fun up_to_last :: "octet list list \<Rightarrow> octet list list" where
  "up_to_last [] = []"
| "up_to_last (p # ps) = p # (if bit (p ! 0) 7 then [] else up_to_last ps)"

lemma drop_bit_7: "drop_bit 7 b = 0 \<longleftrightarrow> \<not> bit b 7" for b :: octet
proof
  assume "drop_bit 7 b = 0"
  then have "\<not> bit (drop_bit 7 b) 0" by simp
  then show "\<not> bit b 7" by (simp add: bit_drop_bit_eq)
next
  assume "\<not> bit b 7"
  show "drop_bit 7 b = 0"
  proof (rule bit_word_eqI)
    fix n assume "n < LENGTH(8)"
    show "bit (drop_bit 7 b) n = bit 0 n"
      using \<open>\<not> bit b 7\<close> bit_imp_le_length [of b "7 + n"] by (cases n) (auto simp: bit_drop_bit_eq)
  qed
qed

lemma tsbk_messages_sealed:
  "\<forall>p \<in> set ps. length p = 10 \<Longrightarrow>
    tsbk_messages duid nac (map seal ps) = Some (map (\<lambda>p. (int duid, nac_octets nac @ p)) (up_to_last ps))"
proof (induction ps)
  case (Cons p ps)
  have "take 10 (seal p) = p" "seal p ! 0 = p ! 0" using Cons.prems by (simp_all add: seal_def Let_def nth_append)
  then show ?case using Cons by (simp add: seal_accepted process_duid_def drop_bit_7)
qed simp

lemma signalling_on_air:
  assumes "framed st head (zip (map seal ps) errs) pad" and "\<forall>p \<in> set ps. length p = 10" and "length errs = length ps"
  shows "process_TSBK duid nac (air_frame st head (zip (map seal ps) errs) pad) (length (air_frame st head (zip (map seal ps) errs) pad)) =
    Some (if \<forall>es \<in> set errs. set es \<inter> {1, 2} = {} then map (\<lambda>p. (int duid, nac_octets nac @ p)) (up_to_last ps) else [])"
proof -
  have s: "set errs = snd ` set (zip (map seal ps) errs)" using assms(3) by (metis length_map map_snd_zip set_map)
  have "(\<forall>x \<in> set (zip (map seal ps) errs). high_only x) = (\<forall>es \<in> set errs. set es \<inter> {1, 2} = {})"
    unfolding s by (simp add: high_only_def)
  moreover have "zip (map seal ps) errs \<noteq> [] \<longleftrightarrow> ps \<noteq> []" using assms(3) by (cases ps; cases errs) simp_all
  ultimately show ?thesis
    using tsbk_messages_sealed [OF assms(2), of duid nac] assms(3)
    by (simp add: process_TSBK_def process_blocks_air [OF assms(1)])
qed

text \<open>
  C17. What comes out of a frame of trunking signalling. If every codeword of every block has at most one
  wrong bit, and only in its two high bits, the messages are the payloads up to the one marked as
  last, with the access code in front; one wrong bit in the low half of any codeword, in any block, and
  the whole frame is lost, the other blocks included.
\<close>
theorem signalling_from_air:
  assumes "framed st head (zip (map seal ps) errs) pad" and "\<forall>p \<in> set ps. length p = 10" and "length errs = length ps"
  shows "process_TSBK duid nac (air_frame st head (zip (map seal ps) errs) pad) (length (air_frame st head (zip (map seal ps) errs) pad)) =
    Some (if \<forall>es \<in> set errs. set es \<inter> {1, 2} = {} then map (\<lambda>p. (int duid, nac_octets nac @ p)) (up_to_last ps) else [])"
  by (rule signalling_on_air [OF assms])

definition example_payloads :: "octet list list" where
  "example_payloads = [[0x00, 0, 0x87, 0x10, 5, 0, 7, 0, 1, 9], [0x80, 0, 0x07, 0x10, 6, 0, 8, 0, 1, 2]]"

definition example_errors :: "octet list list" where
  "example_errors = [replicate 48 0 @ [4], replicate 49 8]"

definition example_on_air :: "bool list" where
  "example_on_air = air_frame [True, False] (replicate 112 True) (zip (map seal example_payloads) example_errors) [False, False]"

lemma length_seal [simp]: "length (seal p) = length p + 2"
  by (simp add: seal_def Let_def)

theorem signalling_from_air_witness:
  "process_TSBK 7 0x293 example_on_air (length example_on_air) =
    Some [(7, [0x02, 0x93, 0x00, 0, 0x87, 0x10, 5, 0, 7, 0, 1, 9]), (7, [0x02, 0x93, 0x80, 0, 0x07, 0x10, 6, 0, 8, 0, 1, 2])]"
proof -
  have "framed [True, False] (replicate 112 True) (zip (map seal example_payloads) example_errors) [False, False]"
    by (simp add: framed_def noisy_def single_def example_payloads_def example_errors_def)
  moreover have "\<forall>p \<in> set example_payloads. length p = 10" "length example_errors = length example_payloads"
    by (simp_all add: example_payloads_def example_errors_def)
  ultimately have "process_TSBK 7 0x293 example_on_air (length example_on_air) =
      Some (if \<forall>es \<in> set example_errors. set es \<inter> {1, 2} = {}
        then map (\<lambda>p. (int 7, nac_octets 0x293 @ p)) (up_to_last example_payloads) else [])"
    unfolding example_on_air_def by (rule signalling_from_air)
  then show ?thesis by (simp add: example_payloads_def example_errors_def nac_octets_def)
qed

section \<open>A grant\<close>

text \<open>
  C6. A group voice channel grant (opcode 0, not the Motorola variant) from the air to the message of the
  program. One block, with at most one wrong bit in the high half of every codeword, leaves the block
  layer as one entry of the queue, and the parser makes of this entry one \<open>GRANT\<close> whose channel,
  talkgroup and source are octets 3-4, 5-6 and 7-9 of the block, whose flags and priority are
  the bits of octet 2, and whose access code is the one of the frame. The table is unchanged.
\<close>
theorem grant_from_air:
  assumes "channels_ok chs" and "unat b0 mod 64 = 0" and "b1 \<noteq> 0x90" and "nac < 0x1000"
    and "framed st head [(seal [b0, b1, b2, b3, b4, b5, b6, b7, b8, b9], es)] pad" and "set es \<inter> {1, 2} = {}"
    and "fr = air_frame st head [(seal [b0, b1, b2, b3, b4, b5, b6, b7, b8, b9], es)] pad"
  shows "\<exists>octets m. process_TSBK 7 nac fr (length fr) = Some [(7, octets)]
    \<and> parse_message junk chs 7 octets sys = Some (chs, [m])
    \<and> tm_message_type m = GRANT
    \<and> Some (tm_freq m) = channel_id_to_frequency chs (int (be_value [b3, b4])) sys
    \<and> tm_talkgroup m = int (be_value [b5, b6])
    \<and> tm_source m = int (be_value [b7, b8, b9])
    \<and> tm_emergency m = bit b2 7 \<and> tm_encrypted m = bit b2 6
    \<and> tm_duplex m = bit b2 5 \<and> tm_mode m = bit b2 4
    \<and> tm_priority m = int (unat b2 mod 8)
    \<and> tm_phase2_tdma m = (0 \<le> get_tdma_slot chs (int (be_value [b3, b4])) sys)
    \<and> tm_tdma_slot m = max 0 (get_tdma_slot chs (int (be_value [b3, b4])) sys)
    \<and> tm_sys_num m = sys \<and> unat (tm_nac m) = unat nac"
proof -
  let ?p = "[b0, b1, b2, b3, b4, b5, b6, b7, b8, b9]"
  have z: "zip (map seal [?p]) [es] = [(seal ?p, es)]" by simp
  have "process_TSBK 7 nac fr (length fr) = Some (map (\<lambda>p. (int 7, nac_octets nac @ p)) (up_to_last [?p]))"
    using signalling_on_air [of st head "[?p]" "[es]" pad 7 nac] assms(5,6) unfolding z assms(7) by simp
  then have q: "process_TSBK 7 nac fr (length fr) = Some [(7, [ucast (drop_bit 8 nac), ucast nac, b0, b1, b2, b3, b4, b5, b6, b7, b8, b9])]"
    by (simp add: P25_Blocks.nac_octets_def)
  have small: "unat nac < 4096" using assms(4) by (simp add: word_less_nat_alt)
  have d: "unat (drop_bit 8 nac) = unat nac div 256" by (simp add: drop_bit_eq_div unat_div)
  have hi: "unat (ucast (drop_bit 8 nac) :: octet) = unat nac div 256"
    using small by (simp add: unsigned_ucast_eq take_bit_eq_mod d)
  have lo: "unat (ucast nac :: octet) = unat nac mod 256" by (simp add: unsigned_ucast_eq take_bit_eq_mod)
  have "unat (ucast (drop_bit 8 nac) :: octet) < 16" unfolding hi using small by simp
  then have n0: "(ucast (drop_bit 8 nac) :: octet) \<noteq> 0xff" by auto
  have "be_value [ucast (drop_bit 8 nac), ucast nac] = unat nac" by (simp add: be_value_Cons hi lo)
  with q group_grant_octets [OF assms(1-3) n0, of junk "ucast nac" b2 b3 b4 b5 b6 b7 b8 b9 sys] show ?thesis by metis
qed

theorem grant_from_air_witness:
  "\<exists>octets m. process_TSBK 7 0x293 (air_frame [False, True] (replicate 112 False) [(seal [0x40, 0, 0x87, 0x10, 5, 0, 7, 0, 1, 9], replicate 49 4)] [])
      (length (air_frame [False, True] (replicate 112 False) [(seal [0x40, 0, 0x87, 0x10, 5, 0, 7, 0, 1, 9], replicate 49 4)] [])) = Some [(7, octets)]
    \<and> parse_message example_message no_channels 7 octets 3 = Some (no_channels, [m])
    \<and> tm_message_type m = GRANT \<and> tm_talkgroup m = 7 \<and> tm_source m = 265 \<and> tm_emergency m \<and> \<not> tm_encrypted m
    \<and> tm_sys_num m = 3 \<and> unat (tm_nac m) = 0x293"
proof -
  have b: "unat (0x40 :: octet) mod 64 = 0" "(0 :: octet) \<noteq> 0x90" "(0x293 :: 32 word) < 0x1000" by simp_all
  have f: "framed [False, True] (replicate 112 False) [(seal [0x40, 0, 0x87, 0x10, 5, 0, 7, 0, 1, 9], replicate 49 4)] []"
    by (simp add: framed_def noisy_def single_def)
  have e: "set (replicate 49 (4 :: octet)) \<inter> {1, 2} = {}" by simp
  from grant_from_air [OF channels_ok_empty b f e refl, of example_message 3]
  show ?thesis by (auto simp: be_value_Cons)
qed

section \<open>Frames without a defined result\<close>

text \<open>A frame that ends before its first block is complete in the 112 bits that are skipped.\<close>

lemma short_frame_undefined:
  assumes "fr_len < 112"
  shows "process_TSBK duid nac fr fr_len = None"
proof -
  have "length (concat (map f ds)) \<le> 2 * length ds" if "\<And>d. length (f d) \<le> 2" for f :: "nat \<Rightarrow> bool list" and ds
  proof (induction ds)
    case (Cons d ds)
    then show ?case using that [of d] by simp
  qed simp
  from this [of "\<lambda>d. if Suc d mod 36 = 0 then [] else [fr ! (d * 2), fr ! (d * 2 + 1)]" "[0..<fr_len div 2]"]
  have "length (strip_status fr fr_len) \<le> 2 * (fr_len div 2)" by (simp add: strip_status_def)
  then show ?thesis using assms by (simp add: process_TSBK_def process_blocks_def Let_def)
qed

text \<open>
  A header of trunking data that counts as many blocks as the frame has, the header among them: all
  tests let it pass, and the block it counts last is past the end.
\<close>

lemma counted_header_undefined:
  assumes "framed st head xs pad" and "\<forall>x \<in> set xs. high_only x" and "xs \<noteq> []" and "hdr = fst (xs ! 0)"
    and "crc16 hdr = 0" and "hdr ! 1 AND 0x3f = 61" and "hdr ! 0 AND 0x1f = 0x17" and "unat (hdr ! 6 AND 0x7f) = length xs"
  shows "process_PDU duid nac (air_frame st head xs pad) (length (air_frame st head xs pad)) = None"
  using assms process_blocks_air [OF assms(1)]
  by (simp add: process_PDU_def pdu_message_def Let_def)

end
