(* ===== verification/Spec2Isabelle.thy ===== *)
theory Spec2Isabelle
  imports P25_Properties System_Properties Sink_Properties Recorder_Properties Concluder_Properties Source_Properties
    Main_Properties Smartnet_Properties Decoder_Sink_Properties Config_Runs P25_Air
begin

text \<open>
  A verification library for trunk-recorder, a program that follows the control channels of trunked
  radio systems, records the calls they announce, and hands the recordings to upload plugins.

  \<^bold>\<open>How the program works.\<close> The decoder of a control channel puts frames into a queue. The main loop
  (\<open>main.cc\<close>) takes them out, a parser (\<open>systems/p25_parser.cc\<close>) turns each into trunking messages
  with the help of a table of channel identifiers, and \<open>handle_message\<close> acts on them: a grant or an
  update makes or refreshes a call (\<open>call_impl.cc\<close>), the others change what is known of the system
  (\<open>systems/system_impl.cc\<close>) or are passed to the plugins. A new call gets a recorder
  (\<open>recorders/*\<close>) from the first source (\<open>source.cc\<close>) that covers its frequency. At the end of the
  flow graph of a recorder a sink (\<open>gr_blocks/transmission_sink.cc\<close>) cuts the decoded audio into
  WAV files (\<open>gr_blocks/wavfile.cc\<close>), one per transmission. Once a second the loop looks for calls
  that have ended; they are concluded: the concluder (\<open>call_concluder/call_concluder.cc\<close>) sums up
  the transmissions and starts a worker thread that combines the files, tells the plugins, removes
  the files and, when a plugin fails, is started again after a delay.

  \<^bold>\<open>The theories.\<close> Bottom up; each group of definitions follows the order of its source file and keeps
  the source's names.

  \<^item> \<open>TR_Prelude\<close>, \<open>Dbl\<close>, \<open>Std_Map\<close>, \<open>Decimal\<close>: the collections of hints, 64-bit integers, decimal
    numbers as \<open>printf\<close> writes and \<open>atoi\<close> reads them, the rounding of \<open>double\<close> (round to nearest, ties to even, on rational numbers; \<open>fl\<close>), and the ordered
    \<open>std::map\<close> as an interface (locale) with its model.
  \<^item> \<open>Trunk_Message\<close>: \<open>parser.h\<close>, \<open>state.h\<close>, the parts of \<open>global_structs.h\<close> that are read.
  \<^item> \<open>P25_Channels\<close>, \<open>P25_Bitset\<close>, \<open>P25_TSBK\<close>, \<open>P25_MBT\<close>, \<open>P25_Parser\<close>: the P25 parser, one definition
    per opcode, on machine words. \<open>P25_Properties\<close>: which blocks fail, exactness of the frequencies,
    what a grant means octet by octet, that nothing uninitialised is read.
  \<^item> \<open>Smartnet_Decode\<close>, \<open>Smartnet_Parser\<close>: the frame decoder and the parser of SmartNet control channels.
    \<open>Smartnet_Frames\<close>: what error correction and checksum do to wrong bits, and a transmitter.
    \<open>Smartnet_Properties\<close>: a grant from the air to the message; the stack of words refines a reading of
    the stream of words; the band plans.
  \<^item> \<open>Decoder_Common\<close>, \<open>Mdc_Decode\<close>, \<open>Fsync_Decode\<close>, \<open>Star_Decode\<close>, \<open>Decoder_Sinks\<close>: the decoders of unit IDs
    in analog audio and the blocks around them. A decoder is a record with a list of its units; a sample
    goes to every unit in turn; a call of the callback is an element of the list a step returns.
    \<open>Mdc_Properties\<close>, \<open>Fsync_Properties\<close>, \<open>Star_Properties\<close>: what of a burst is received under which
    errors, bounds, and where arrays are left. \<open>Decoder_Sink_Properties\<close>: the reading of trunking blocks
    for TPS against the P25 parser.
  \<^item> \<open>Talkgroups\<close>, \<open>System_Impl\<close>: the talkgroup and unit files, the identity of a system, its control
    channels and patches. \<open>System_Properties\<close>: the patch table refines a set of triples with times;
    rotation of control channels; the loader.
  \<^item> \<open>P25_Blocks\<close>: \<open>p25p1_fdma.cc\<close> of the vendored OP25 project, as far as it makes messages of the
    bodies of frames. \<open>Checksums\<close>: a locale for linear checksums; \<open>P25_Checksums\<close> interprets it on the
    16 bit checksum of blocks (\<open>Smartnet_Frames\<close> on that of SmartNet). \<open>P25_Block_Properties\<close>: a block is
    decoded under errors in the high bits of its codewords and refused under errors in the low ones.
    \<open>P25_Air\<close>: a transmitter of frames, inverted by the block layer and the parser; a grant from the air to
    its message; frames without a defined result.
  \<^item> \<open>Wav_File\<close>, \<open>Transmission_Sink\<close>, \<open>Sink_Properties\<close>: the file format with its round trip; the state
    machine of the sink; every sample handed in is in a finished file, in the open one, or dropped by a
    documented rule.
  \<^item> \<open>Call\<close>, \<open>Recorder\<close>, \<open>Source\<close>: data and operations of calls, of the four kinds of recorders, and of
    sources. \<open>Recorder_Properties\<close> states what a client may rely on as the locale \<open>recorder\<close> and
    interprets it for the P25, analog and DMR recorders and for the class hierarchy over them.
    \<open>Source_Properties\<close>: the decimation of the recorders.
  \<^item> \<open>Call_Concluder\<close>, \<open>Concluder_Properties\<close>: names, summary, worker, retry queue; what is on disk
    afterwards, that names are distinct, that a call is tried three times at most.
  \<^item> \<open>Call_Operations\<close>, \<open>Main_Loop\<close>, \<open>Main_Control\<close>: the globals of \<open>main.cc\<close> as the record \<open>World\<close>, and
    every function of the loop over it. A pointer to a call, a system or a recorder is a position in
    the respective vector or store; \<open>None\<close> is a null pointer that is followed or an exception that
    ends the program; what plugins are told is a list of events.
  \<^item> \<open>World_Invariant\<close>, \<open>World_Grants\<close>, \<open>World_Management\<close>, \<open>World_Runs\<close>, \<open>World_Progress\<close>: the invariant of
    the running program (\<open>world_inv\<close>), one lemma per operation, the step relation \<open>loop_step\<close> whose
    steps are the messages of one frame, the timer, audio in a recorder, and a worker that finishes,
    in any order, and the progress lemmas. \<open>Main_Properties\<close>: the properties of the loop.

  \<^item> \<open>Json\<close>, \<open>Plugin_Manager\<close>, \<open>Load_Config\<close>: what the configuration uses of the JSON library
    (\<open>json.hpp\<close>), \<open>plugin_manager.cc\<close>, and the whole of \<open>load_config\<close> in \<open>config.cc\<close>. Every way in which
    loading ends early is a value of the datatype \<open>fault\<close>. \<open>Plugin_Properties\<close>: the life of a plugin;
    the sum of the answers is the one the concluder uses. \<open>Config_Properties\<close>: the systems and sources of
    an accepted configuration; what is refused. \<open>Config_Runs\<close>: a loaded configuration is an initial state
    of the running program.

  \<^bold>\<open>What is shown of the composition.\<close> From the loading of the configuration on, in every run, a recorder of
  the trunking pool is taken exactly when one call is recording with it; no transmission on the air
  is two calls; no step follows a null pointer if no system archives single transmissions; and the
  exit frees every recorder. The lemmas about recorders enter only through the facts of the
  interpretation \<open>any\<close> of the locale \<open>recorder\<close>.

  \<^bold>\<open>Bounds and choices.\<close> No definition uses fuel: loops over vectors are structural, and the loops of
  \<open>GCD\<close>, of the count of bits and of the digits of a number have termination proofs; the loop that reduces
  a phase, which need not end on every \<open>double\<close>, is a partial function. \<open>int\<close> and \<open>long\<close> are unbounded
  integers except where a width matters (the parsers, the decoders, patches, \<open>GCD\<close> and the WAV header use words;
  shifts of an \<open>int\<close> past its sign wrap).
  Aggregates without a constructor take their indeterminate contents as an argument \<open>junk\<close>.
  The clock, \<open>localtime\<close>, regular expressions, the shell, the plugins' answers and the file system's
  refusals are parameters of the definitions that use them.

  \<^bold>\<open>Not modelled.\<close> GNU Radio and the flow graphs built from its blocks (filters, demodulators, the
  trunking decoders, retuning inside a flow graph); of the vendored OP25 code the synchronisation of
  frames, the BCH, Golay and Reed-Solomon codes, link control words, phase 2 and the vocoders; the
  parsers of the JSON and CSV libraries, Eigen and websocketpp; the computation of the descrambler mask
  (its three arguments are kept); the plugins themselves, whose functions are a parameter of the plugin
  manager; log output; the build options that the headers of the decoders leave off.
\<close>

end
